(* ===== verification/Prelude.thy ===== *)
theory Prelude
  imports Main "HOL-Library.Char_ord"
begin

text \<open>
  Shared vocabulary of the development: the exceptions the program raises, the error monad
  in which its fallible functions are written, rows of a table that are updated by a key
  (the program's SQLite tables), the Python string operations it uses, and a generic notion
  of reachable state.
\<close>

named_theorems status_simps "evaluation of the program's status vocabularies"
named_theorems table_simps "rewriting of keyed table operations"

section \<open>Exceptions and the error monad\<close>

text \<open>
  One constructor per exception class that a modelled function raises or lets through.
  \<open>DbError\<close> stands for an \<open>sqlite3\<close> error other than \<open>IntegrityError\<close>; \<open>NetError\<close> for
  whatever the exchange client raises, with the text of the exception. The shadow reconstruction
  has exceptions of its own, some with a reason code; \<open>Diverges\<close> is the value of a call whose
  loop does not return.
\<close>

datatype exn =
    ValueError | TypeError | KeyError | ZeroDivisionError | OverflowError
  | AttributeError | IndexError | InvalidOperation | MemoryError | UnicodeEncodeError
  | RiskStateCorruptError | LiveSchemaError | TelemetryDataMissing
  | RestartFootgunError
  | IntegrityError | DbError | NetError string
  | LogicalModelError | S1EvidenceProjectionError string | ClassificationPredicateError string
  | AtomicReplayStepError string | ArtifactVerificationError | S1PairedProjectionError string
  | Diverges

type_synonym 'a result = "exn + 'a"

definition rbind :: "'a result \<Rightarrow> ('a \<Rightarrow> 'b result) \<Rightarrow> 'b result" where
  "rbind m f = (case m of Inl e \<Rightarrow> Inl e | Inr x \<Rightarrow> f x)"

lemma rbind_simps [simp]:
  "rbind (Inl e) f = Inl e"
  "rbind (Inr x) f = f x"
  by (simp_all add: rbind_def)

lemma rbind_eq_Inr: "rbind m f = Inr y \<longleftrightarrow> (\<exists>x. m = Inr x \<and> f x = Inr y)"
  by (cases m) auto

lemma rbind_eq_Inl:
  "rbind m f = Inl e \<longleftrightarrow> m = Inl e \<or> (\<exists>x. m = Inr x \<and> f x = Inl e)"
  by (cases m) auto

text \<open>\<open>try ... except C as e: raise f e\<close>: the exceptions of the class \<open>c\<close> are replaced.\<close>

definition except_as :: "(exn \<Rightarrow> bool) \<Rightarrow> exn \<Rightarrow> 'a result \<Rightarrow> 'a result" where
  "except_as c e' m = (case m of Inl e \<Rightarrow> if c e then Inl e' else Inl e | Inr x \<Rightarrow> Inr x)"

lemma except_as_simps [simp]:
  "except_as c e' (Inr x) = Inr x"
  "except_as c e' (Inl e) = (if c e then Inl e' else Inl e)"
  by (simp_all add: except_as_def)

lemma except_as_eq_Inr [simp]: "except_as c e' m = Inr x \<longleftrightarrow> m = Inr x"
  by (cases m) auto

definition raise_unless :: "bool \<Rightarrow> exn \<Rightarrow> unit result" where
  "raise_unless b e = (if b then Inr () else Inl e)"

lemma raise_unless_eq [simp]:
  "raise_unless b e = Inr u \<longleftrightarrow> b"
  "raise_unless b e = Inl e' \<longleftrightarrow> \<not> b \<and> e' = e"
  by (auto simp: raise_unless_def)

fun mapM_r :: "('a \<Rightarrow> 'b result) \<Rightarrow> 'a list \<Rightarrow> 'b list result" where
  "mapM_r f [] = Inr []"
| "mapM_r f (x # xs) = rbind (f x) (\<lambda>y. rbind (mapM_r f xs) (\<lambda>ys. Inr (y # ys)))"

section \<open>Rows addressed by a key\<close>

text \<open>
  \<open>UPDATE t SET ... WHERE key = k\<close> rewrites every row whose key is \<open>k\<close>; a lookup returns the
  first such row (the key columns modelled here are unique).
\<close>

definition update_where :: "('r \<Rightarrow> bool) \<Rightarrow> ('r \<Rightarrow> 'r) \<Rightarrow> 'r list \<Rightarrow> 'r list" where
  "update_where p f rows = map (\<lambda>r. if p r then f r else r) rows"

definition lookup_by :: "('r \<Rightarrow> 'k) \<Rightarrow> 'k \<Rightarrow> 'r list \<Rightarrow> 'r option" where
  "lookup_by key k rows = find (\<lambda>r. key r = k) rows"

lemma length_update_where [simp]: "length (update_where p f rows) = length rows"
  by (simp add: update_where_def)

lemma update_where_Nil [simp]: "update_where p f [] = []"
  by (simp add: update_where_def)

lemma update_where_Cons [simp]:
  "update_where p f (r # rows) = (if p r then f r else r) # update_where p f rows"
  by (simp add: update_where_def)

lemma update_where_append [simp]:
  "update_where p f (xs @ ys) = update_where p f xs @ update_where p f ys"
  by (simp add: update_where_def)

lemma set_update_where:
  "r \<in> set (update_where p f rows) \<longleftrightarrow>
     (\<exists>r0 \<in> set rows. r = (if p r0 then f r0 else r0))"
  by (auto simp: update_where_def image_iff)

lemma update_where_id: "(\<And>r. r \<in> set rows \<Longrightarrow> p r \<Longrightarrow> f r = r) \<Longrightarrow> update_where p f rows = rows"
  by (induction rows) auto

lemma map_key_update_where [table_simps]:
  "(\<And>r. key (f r) = key r) \<Longrightarrow> map key (update_where p f rows) = map key rows"
  by (induction rows) auto

lemma lookup_by_None_iff: "lookup_by key k rows = None \<longleftrightarrow> k \<notin> key ` set rows"
  by (auto simp: lookup_by_def find_None_iff image_iff)

lemma lookup_by_SomeD: "lookup_by key k rows = Some r \<Longrightarrow> r \<in> set rows \<and> key r = k"
  by (auto simp: lookup_by_def find_Some_iff)

lemma lookup_by_Nil [simp]: "lookup_by key k [] = None"
  by (simp add: lookup_by_def)

lemma lookup_by_Cons [simp]:
  "lookup_by key k (r # rows) = (if key r = k then Some r else lookup_by key k rows)"
  by (simp add: lookup_by_def)

lemma lookup_by_append:
  "lookup_by key k (xs @ ys) =
     (case lookup_by key k xs of None \<Rightarrow> lookup_by key k ys | Some r \<Rightarrow> Some r)"
  by (induction xs) auto

lemma lookup_by_unique:
  "distinct (map key rows) \<Longrightarrow> r \<in> set rows \<Longrightarrow> lookup_by key (key r) rows = Some r"
  by (induction rows) (auto simp: image_iff)

lemma lookup_by_update [table_simps]:
  assumes "\<And>r. key (f r) = key r"
  shows "lookup_by key k (update_where (\<lambda>r. key r = k') f rows) =
           (if k = k' then map_option f (lookup_by key k rows) else lookup_by key k rows)"
  by (induction rows) (auto simp: assms)

section \<open>Python strings (ASCII)\<close>

definition py_isspace :: "char \<Rightarrow> bool" where
  "py_isspace c = (let n = of_char c :: nat in
     n = 32 \<or> (9 \<le> n \<and> n \<le> 13) \<or> (28 \<le> n \<and> n \<le> 31))"

definition py_strip :: "string \<Rightarrow> string" where
  "py_strip s = rev (dropWhile py_isspace (rev (dropWhile py_isspace s)))"

definition py_upper_char :: "char \<Rightarrow> char" where
  "py_upper_char c = (let n = of_char c :: nat in
     if 97 \<le> n \<and> n \<le> 122 then char_of (n - 32) else c)"

definition py_upper :: "string \<Rightarrow> string" where
  "py_upper s = map py_upper_char s"

definition py_lower_char :: "char \<Rightarrow> char" where
  "py_lower_char c = (let n = of_char c :: nat in
     if 65 \<le> n \<and> n \<le> 90 then char_of (n + 32) else c)"

definition py_lower :: "string \<Rightarrow> string" where
  "py_lower s = map py_lower_char s"

fun py_removeprefix :: "string \<Rightarrow> string \<Rightarrow> string option" where
  "py_removeprefix [] s = Some s"
| "py_removeprefix (p # ps) [] = None"
| "py_removeprefix (p # ps) (c # cs) = (if p = c then py_removeprefix ps cs else None)"

lemma py_removeprefix_iff: "py_removeprefix p s = Some t \<longleftrightarrow> s = p @ t"
  by (induction p s rule: py_removeprefix.induct) auto

fun py_contains :: "string \<Rightarrow> string \<Rightarrow> bool" where
  "py_contains p [] = (p = [])"
| "py_contains p (c # cs) = (py_removeprefix p (c # cs) \<noteq> None \<or> py_contains p cs)"

definition py_blank :: "string \<Rightarrow> bool" where
  "py_blank s = (py_strip s = [])"

section \<open>Reachable states\<close>

text \<open>
  The states reachable from a set of initial states under a step relation, and the rule by
  which every invariant of the development is lifted from one step to all of them.
\<close>

inductive reachable :: "('s \<Rightarrow> bool) \<Rightarrow> ('s \<Rightarrow> 's \<Rightarrow> bool) \<Rightarrow> 's \<Rightarrow> bool"
  for init :: "'s \<Rightarrow> bool" and step :: "'s \<Rightarrow> 's \<Rightarrow> bool" where
  reach_init: "init s \<Longrightarrow> reachable init step s"
| reach_step: "reachable init step s \<Longrightarrow> step s t \<Longrightarrow> reachable init step t"

lemma reachable_invariant:
  assumes "reachable init step s"
    and "\<And>s. init s \<Longrightarrow> I s"
    and "\<And>s t. I s \<Longrightarrow> step s t \<Longrightarrow> I t"
  shows "I s"
  using assms(1) by (induction rule: reachable.induct) (auto intro: assms(2,3))

end
