(* ===== verification/Rounding.thy ===== *)
theory Rounding
  imports Prelude Complex_Main
begin

text \<open>
  The rounding of Python's two number types, over exact rationals. A \<open>float\<close> is a binary64
  number: every operation computes the exact result and rounds it to 53 significant bits, half
  to even, gradually below \<open>2 ^ -1022\<close>. A \<open>decimal.Decimal\<close> in the default context rounds the
  exact result to 28 significant decimal digits, half to even. Both are instances of one
  function \<open>round_sig\<close>; the facts the components use are stated once, in the interface
  \<open>rounding\<close>, and hold for both by interpretation.
\<close>

section \<open>Round half to even\<close>

definition rhe :: "rat \<Rightarrow> int" where
  "rhe x = (let f = \<lfloor>x\<rfloor>; d = x - of_int f in
     if d < 1/2 then f else if d > 1/2 then f + 1 else if even f then f else f + 1)"

lemma rhe_of_int [simp]: "rhe (of_int n) = n"
  by (simp add: rhe_def)

lemma rhe_0 [simp]: "rhe 0 = 0"
  using rhe_of_int [of 0] by simp

lemma rhe_bounds: "of_int (rhe x) - x \<le> 1/2 \<and> x - of_int (rhe x) \<le> 1/2"
proof -
  obtain f where f: "f = \<lfloor>x\<rfloor>" by simp
  have b: "of_int f \<le> x" "x < of_int f + 1"
    unfolding f using floor_correct [of x] by simp_all
  have "rhe x = (if x - of_int f < 1/2 then f
      else if x - of_int f > 1/2 then f + 1 else if even f then f else f + 1)"
    by (simp only: rhe_def Let_def f)
  then show ?thesis using b by (simp split: if_split)
qed

lemma rhe_abs: "\<bar>of_int (rhe x) - x\<bar> \<le> 1/2"
  using rhe_bounds [of x] by linarith

lemma rhe_tie: "\<bar>of_int (rhe x) - x\<bar> = 1/2 \<Longrightarrow> even (rhe x)"
proof -
  assume tie: "\<bar>of_int (rhe x) - x\<bar> = 1/2"
  obtain f where f: "f = \<lfloor>x\<rfloor>" by simp
  have b: "of_int f \<le> x" "x < of_int f + 1"
    unfolding f using floor_correct [of x] by simp_all
  have "rhe x = (if x - of_int f < 1/2 then f
      else if x - of_int f > 1/2 then f + 1 else if even f then f else f + 1)"
    by (simp only: rhe_def Let_def f)
  then show ?thesis using b tie by (auto split: if_splits)
qed

lemma rhe_unique:
  assumes "\<bar>of_int n - x\<bar> \<le> 1/2" and "\<bar>of_int n - x\<bar> = 1/2 \<Longrightarrow> even n"
  shows "rhe x = n"
proof (rule ccontr)
  assume ne: "rhe x \<noteq> n"
  have "\<bar>of_int (rhe x) - x\<bar> \<le> 1/2" by (rule rhe_abs)
  moreover have "(1 :: rat) \<le> \<bar>of_int (rhe x) - of_int n\<bar>"
  proof -
    have "1 \<le> \<bar>rhe x - n\<bar>" using ne by simp
    then have "(of_int 1 :: rat) \<le> of_int \<bar>rhe x - n\<bar>" by (simp only: of_int_le_iff)
    then show ?thesis by simp
  qed
  ultimately have "\<bar>of_int (rhe x) - x\<bar> = 1/2" and n: "\<bar>of_int n - x\<bar> = 1/2"
    and d: "\<bar>of_int (rhe x) - (of_int n :: rat)\<bar> = 1"
    using assms(1) by linarith+
  then have "even (rhe x)" and "even n" using rhe_tie assms(2) by auto
  moreover have "\<bar>rhe x - n\<bar> = 1"
  proof -
    have "of_int \<bar>rhe x - n\<bar> = (of_int 1 :: rat)" using d by simp
    then show ?thesis by (simp only: of_int_eq_iff)
  qed
  ultimately show False by presburger
qed

lemma rhe_minus [simp]: "rhe (- x) = - rhe x"
proof (rule rhe_unique)
  show "\<bar>of_int (- rhe x) - (- x)\<bar> \<le> 1/2"
    using rhe_abs [of x] unfolding of_int_minus by linarith
  show "even (- rhe x)" if "\<bar>of_int (- rhe x) - (- x)\<bar> = 1/2"
    using that rhe_tie [of x] by (simp add: abs_minus_commute)
qed

lemma rhe_mono: "x \<le> y \<Longrightarrow> rhe x \<le> rhe y"
proof (rule ccontr)
  assume le: "x \<le> y" and "\<not> rhe x \<le> rhe y"
  then have lt: "rhe y + 1 \<le> rhe x" by simp
  have "(of_int (rhe y + 1) :: rat) \<le> of_int (rhe x)" using lt by (simp only: of_int_le_iff)
  then have "of_int (rhe y) + 1 \<le> (of_int (rhe x) :: rat)" by simp
  with rhe_bounds [of x] rhe_bounds [of y] le
  have xy: "x = y" by linarith
  then show False using lt by simp
qed

lemma rhe_le_of_int: "x \<le> of_int n \<Longrightarrow> rhe x \<le> n"
  using rhe_mono [of x "of_int n"] by simp

lemma rhe_ge_of_int: "of_int n \<le> x \<Longrightarrow> n \<le> rhe x"
  using rhe_mono [of "of_int n" x] by simp

lemma rhe_nonneg: "0 \<le> x \<Longrightarrow> 0 \<le> rhe x"
  using rhe_mono [of 0 x] by simp

section \<open>The exponent of the leading digit\<close>

function ilogi :: "int \<Rightarrow> int \<Rightarrow> int" where
  "ilogi b n = (if b \<le> 1 \<or> n < b then 0 else 1 + ilogi b (n div b))"
  by pat_completeness auto
termination
proof (relation "measure (\<lambda>(b, n). nat n)", goal_cases)
  case (2 b n)
  then have "n div b < n" by (intro int_div_less_self) simp_all
  then show ?case using 2 by simp
qed simp

declare ilogi.simps [simp del]

lemma ilogi_nonneg: "0 \<le> ilogi b n"
proof (induction b n rule: ilogi.induct)
  case (1 b n)
  then show ?case by (cases "b \<le> 1 \<or> n < b") (simp_all add: ilogi.simps [of b n])
qed

lemma ilogi_bounds:
  "1 < b \<Longrightarrow> 0 < n \<Longrightarrow> b ^ nat (ilogi b n) \<le> n \<and> n < b ^ nat (ilogi b n + 1)"
proof (induction b n rule: ilogi.induct)
  case (1 b n)
  show ?case
  proof (cases "n < b")
    case True
    then show ?thesis using "1.prems" by (simp add: ilogi.simps [of b n])
  next
    case False
    let ?k = "ilogi b (n div b)"
    have d: "0 < n div b" using False "1.prems" by (simp add: pos_imp_zdiv_pos_iff)
    have k: "nat (1 + ?k) = Suc (nat ?k)" "nat (1 + ?k + 1) = Suc (nat (?k + 1))"
      using ilogi_nonneg [of b "n div b"] by simp_all
    have IH: "b ^ nat ?k \<le> n div b" "n div b + 1 \<le> b ^ nat (?k + 1)"
      using "1.IH" False "1.prems" d by auto
    have m: "n mod b < b" "0 \<le> n mod b" using "1.prems" by simp_all
    have n: "n = b * (n div b) + n mod b" by simp
    have "b * b ^ nat ?k \<le> b * (n div b)" using IH(1) "1.prems" by (intro mult_left_mono) simp_all
    moreover have "b * (n div b) + b \<le> b * b ^ nat (?k + 1)"
      using mult_left_mono [OF IH(2), of b] "1.prems" by (simp add: distrib_left)
    ultimately have "b * b ^ nat ?k \<le> n" and "n < b * b ^ nat (?k + 1)"
      using n m by linarith+
    then have "b ^ nat (1 + ?k) \<le> n \<and> n < b ^ nat (1 + ?k + 1)" unfolding k power_Suc by simp
    moreover have "ilogi b n = 1 + ?k" using False "1.prems" by (simp add: ilogi.simps [of b n])
    ultimately show ?thesis by (simp only:)
  qed
qed

definition ilog :: "nat \<Rightarrow> rat \<Rightarrow> int" where
  "ilog b x = (if x \<ge> 1 then ilogi (int b) \<lfloor>x\<rfloor>
     else - (ilogi (int b) (\<lceil>1 / x\<rceil> - 1) + 1))"

lemma ilog_ge_1:
  assumes "1 < b" "1 \<le> x"
  shows "of_nat b powi (ilog b x) \<le> x \<and> x < of_nat b powi (ilog b x + 1)"
proof -
  define n where "n = \<lfloor>x\<rfloor>"
  define k where "k = ilogi (int b) n"
  have n0: "0 < n" using assms(2) by (simp add: n_def)
  have k0: "0 \<le> k" by (simp add: k_def ilogi_nonneg)
  have nx: "of_int n \<le> x" "x < of_int n + 1"
    using floor_correct [of x] by (simp_all add: n_def)
  have kb: "int b ^ nat k \<le> n" "n + 1 \<le> int b ^ nat (k + 1)"
    using ilogi_bounds [of "int b" n] assms(1) n0 by (simp_all add: k_def)
  have "(of_int (int b ^ nat k) :: rat) \<le> of_int n" using kb(1) by (simp only: of_int_le_iff)
  then have lo: "(of_nat b :: rat) ^ nat k \<le> x" using nx(1) by simp
  have "(of_int (n + 1) :: rat) \<le> of_int (int b ^ nat (k + 1))"
    using kb(2) by (simp only: of_int_le_iff)
  then have hi: "x < (of_nat b :: rat) ^ nat (k + 1)" using nx(2) by simp
  have "ilog b x = k" using assms(2) by (simp add: ilog_def k_def n_def)
  then show ?thesis using lo hi k0 by (simp add: power_int_def)
qed

lemma ilog_lt_1:
  assumes "1 < b" "0 < x" "x < 1"
  shows "of_nat b powi (ilog b x) \<le> x \<and> x < of_nat b powi (ilog b x + 1)"
proof -
  define y where "y = 1 / x"
  have y1: "1 < y" using assms(2,3) by (simp add: y_def)
  define n where "n = \<lceil>y\<rceil> - 1"
  define k where "k = ilogi (int b) n"
  have "2 \<le> \<lceil>y\<rceil>" using y1 by (simp add: le_ceiling_iff)
  then have n0: "0 < n" by (simp add: n_def)
  have k0: "0 \<le> k" by (simp add: k_def ilogi_nonneg)
  have ny: "of_int n < y" "y \<le> of_int n + 1"
    using ceiling_correct [of y] by (simp_all add: n_def)
  have kb: "int b ^ nat k \<le> n" "n + 1 \<le> int b ^ nat (k + 1)"
    using ilogi_bounds [of "int b" n] assms(1) n0 by (simp_all add: k_def)
  have bp: "0 < (of_nat b :: rat)" using assms(1) by simp
  have "(of_int (int b ^ nat k) :: rat) \<le> of_int n" using kb(1) by (simp only: of_int_le_iff)
  then have lo: "(of_nat b :: rat) ^ nat k < y" using ny(1) by simp
  have "(of_int (n + 1) :: rat) \<le> of_int (int b ^ nat (k + 1))"
    using kb(2) by (simp only: of_int_le_iff)
  then have hi: "y \<le> (of_nat b :: rat) ^ nat (k + 1)" using ny(2) by simp
  have x: "x = inverse y" by (simp add: y_def)
  have 1: "inverse ((of_nat b :: rat) ^ nat (k + 1)) \<le> x"
    unfolding x using hi y1 by (intro le_imp_inverse_le) simp_all
  have 2: "x < inverse ((of_nat b :: rat) ^ nat k)"
    unfolding x using lo bp by (intro less_imp_inverse_less) simp_all
  have e: "ilog b x = - (k + 1)"
    using assms(3) by (simp add: ilog_def k_def n_def y_def)
  have p1: "(of_nat b :: rat) powi (- (k + 1)) = inverse (of_nat b ^ nat (k + 1))"
    using k0 by (simp only: power_int_minus) (simp add: power_int_def)
  have p2: "(of_nat b :: rat) powi (- (k + 1) + 1) = inverse (of_nat b ^ nat k)"
  proof -
    have "- (k + 1) + 1 = - k" by simp
    then show ?thesis using k0 by (simp only: power_int_minus) (simp add: power_int_def)
  qed
  show ?thesis unfolding e p1 p2 using 1 2 by simp
qed

lemma ilog_bounds:
  assumes "1 < b" "0 < x"
  shows "of_nat b powi (ilog b x) \<le> x" and "x < of_nat b powi (ilog b x + 1)"
  using ilog_ge_1 [of b x] ilog_lt_1 [of b x] assms by (cases "1 \<le> x"; simp)+

lemma ilog_mono:
  assumes "1 < b" "0 < x" "x \<le> y"
  shows "ilog b x \<le> ilog b y"
proof (rule ccontr)
  assume "\<not> ilog b x \<le> ilog b y"
  then have "ilog b y + 1 \<le> ilog b x" by simp
  then have "(of_nat b :: rat) powi (ilog b y + 1) \<le> of_nat b powi (ilog b x)"
    using assms(1) by (intro power_int_increasing) simp_all
  with ilog_bounds [of b x] ilog_bounds [of b y] assms show False by linarith
qed

section \<open>Rounding to a number of significant digits\<close>

definition ulp_exp :: "nat \<Rightarrow> nat \<Rightarrow> int \<Rightarrow> rat \<Rightarrow> int" where
  "ulp_exp b p emin x = max (ilog b \<bar>x\<bar> - int p + 1) emin"

definition round_sig :: "nat \<Rightarrow> nat \<Rightarrow> int \<Rightarrow> rat \<Rightarrow> rat" where
  "round_sig b p emin x = (if x = 0 then 0
     else (let u = of_nat b powi (ulp_exp b p emin x) in of_int (rhe (x / u)) * u))"

lemma round_sig_0 [simp]: "round_sig b p emin 0 = 0"
  by (simp add: round_sig_def)

lemma round_sig_minus: "round_sig b p emin (- x) = - round_sig b p emin x"
  by (simp add: round_sig_def ulp_exp_def Let_def)

lemma powi_pos: "1 < b \<Longrightarrow> 0 < (of_nat b :: rat) powi e"
  by simp

lemma div_mult_cancel: "0 < u \<Longrightarrow> x / u * u = (x :: rat)"
  by simp

lemma powi_int_multiple:
  assumes "1 < b" "e \<le> k"
  shows "(of_nat b :: rat) powi k / of_nat b powi e = of_int (int b ^ nat (k - e))"
proof -
  have "(of_nat b :: rat) powi k = of_nat b powi (k - e) * of_nat b powi e"
    using assms(1) by (subst power_int_add [symmetric]) simp_all
  moreover have "(of_nat b :: rat) powi (k - e) = of_nat b ^ nat (k - e)"
    using assms(2) by (simp add: power_int_def)
  ultimately show ?thesis using assms(1) by simp
qed

text \<open>A number that is a whole multiple of its own unit is left alone.\<close>

lemma round_sig_exact:
  assumes "1 < b" and "x / of_nat b powi (ulp_exp b p emin x) = of_int n"
  shows "round_sig b p emin x = x"
proof (cases "x = 0")
  case False
  let ?u = "(of_nat b :: rat) powi (ulp_exp b p emin x)"
  have u: "?u \<noteq> 0" using assms(1) by simp
  have "of_int (rhe (x / ?u)) * ?u = x / ?u * ?u" unfolding assms(2) by simp
  also have "\<dots> = x" using u by (rule nonzero_eq_divide_eq [THEN iffD1]) simp
  finally show ?thesis using False by (simp add: round_sig_def Let_def)
qed simp

lemma ulp_exp_mono:
  assumes "1 < b" "0 < x" "x \<le> y"
  shows "ulp_exp b p emin x \<le> ulp_exp b p emin y"
  using ilog_mono [OF assms] assms(2,3) by (simp add: ulp_exp_def)

lemma round_sig_mono_pos:
  assumes b: "1 < b" and p: "0 < p" and x: "0 < x" and xy: "x \<le> y"
  shows "round_sig b p emin x \<le> round_sig b p emin y"
proof -
  let ?ex = "ulp_exp b p emin x" and ?ey = "ulp_exp b p emin y"
  let ?ux = "(of_nat b :: rat) powi ?ex" and ?uy = "(of_nat b :: rat) powi ?ey"
  have ux: "0 < ?ux" and uy: "0 < ?uy" using b by simp_all
  have y: "0 < y" using x xy by simp
  have R: "round_sig b p emin x = of_int (rhe (x / ?ux)) * ?ux"
    "round_sig b p emin y = of_int (rhe (y / ?uy)) * ?uy"
    using x y by (simp_all add: round_sig_def Let_def)
  show ?thesis
  proof (cases "?ex = ?ey")
    case True
    have "rhe (x / ?ux) \<le> rhe (y / ?uy)"
      unfolding True using xy uy by (intro rhe_mono divide_right_mono) simp_all
    then show ?thesis unfolding R using uy True by (simp add: mult_right_mono)
  next
    case False
    let ?K = "ilog b y"
    let ?B = "(of_nat b :: rat) powi ?K"
    have lt: "?ex < ?ey" using False ulp_exp_mono [OF b x xy, of p emin] by simp
    have ey: "?ey = ?K - int p + 1" and K: "ilog b x < ?K" and exK: "?ex \<le> ?K" "?ey \<le> ?K"
      using lt x y p by (auto simp: ulp_exp_def max_def split: if_splits)
    have "x < of_nat b powi (ilog b x + 1)" using ilog_bounds(2) [OF b x] .
    also have "\<dots> \<le> ?B" using K b by (intro power_int_increasing) simp_all
    finally have xB: "x \<le> ?B" by simp
    have "x / ?ux \<le> ?B / ?ux" using xB ux by (simp add: divide_right_mono)
    also have "\<dots> = of_int (int b ^ nat (?K - ?ex))" using powi_int_multiple [OF b exK(1)] .
    finally have "rhe (x / ?ux) \<le> int b ^ nat (?K - ?ex)" by (rule rhe_le_of_int)
    then have "(of_int (rhe (x / ?ux)) :: rat) \<le> of_int (int b ^ nat (?K - ?ex))"
      by (simp only: of_int_le_iff)
    then have "of_int (rhe (x / ?ux)) * ?ux \<le> ?B / ?ux * ?ux"
      using ux unfolding powi_int_multiple [OF b exK(1)] by (simp add: mult_right_mono)
    then have 1: "of_int (rhe (x / ?ux)) * ?ux \<le> ?B"
      unfolding div_mult_cancel [OF ux] .
    have "of_int (int b ^ nat (?K - ?ey)) = ?B / ?uy" using powi_int_multiple [OF b exK(2)] by simp
    also have "\<dots> \<le> y / ?uy" using ilog_bounds(1) [OF b y] uy by (simp add: divide_right_mono)
    finally have "int b ^ nat (?K - ?ey) \<le> rhe (y / ?uy)" by (rule rhe_ge_of_int)
    then have "(of_int (int b ^ nat (?K - ?ey)) :: rat) \<le> of_int (rhe (y / ?uy))"
      by (simp only: of_int_le_iff)
    then have "?B / ?uy * ?uy \<le> of_int (rhe (y / ?uy)) * ?uy"
      using uy unfolding powi_int_multiple [OF b exK(2)] by (simp add: mult_right_mono)
    then have 2: "?B \<le> of_int (rhe (y / ?uy)) * ?uy"
      unfolding div_mult_cancel [OF uy] .
    show ?thesis unfolding R using 1 2 by linarith
  qed
qed

lemma round_sig_nonneg:
  assumes "1 < b" "0 \<le> x"
  shows "0 \<le> round_sig b p emin x"
  using assms by (simp add: round_sig_def Let_def rhe_nonneg)

lemma round_sig_mono:
  assumes b: "1 < b" and p: "0 < p" and xy: "x \<le> y"
  shows "round_sig b p emin x \<le> round_sig b p emin y"
proof -
  consider (pos) "0 < x" | (neg) "y < 0" | (mixed) "x \<le> 0" "0 \<le> y" by linarith
  then show ?thesis
  proof cases
    case pos then show ?thesis using round_sig_mono_pos [OF b p _ xy] by blast
  next
    case neg
    then have "round_sig b p emin (- y) \<le> round_sig b p emin (- x)"
      using xy by (intro round_sig_mono_pos [OF b p]) simp_all
    then show ?thesis by (simp add: round_sig_minus)
  next
    case mixed
    have "0 \<le> round_sig b p emin (- x)" using mixed(1) by (intro round_sig_nonneg [OF b]) simp
    then show ?thesis
      using round_sig_nonneg [OF b mixed(2), of p emin] by (simp add: round_sig_minus)
  qed
qed

text \<open>
  The representable numbers are the multiples \<open>n * b ^ e\<close> with at most \<open>p\<close> digits in \<open>n\<close>:
  rounding yields one, and leaves each of them unchanged.
\<close>

definition repr_num :: "nat \<Rightarrow> nat \<Rightarrow> int \<Rightarrow> rat \<Rightarrow> bool" where
  "repr_num b p emin x \<longleftrightarrow>
     (\<exists>n e. \<bar>n\<bar> \<le> int b ^ p \<and> emin \<le> e \<and> x = of_int n * of_nat b powi e)"

lemma ilog_less_iff:
  assumes "1 < b" "0 < x" "x < of_nat b powi k"
  shows "ilog b x < k"
proof (rule ccontr)
  assume "\<not> ilog b x < k"
  then have "(of_nat b :: rat) powi k \<le> of_nat b powi (ilog b x)"
    using assms(1) by (intro power_int_increasing) simp_all
  with ilog_bounds(1) [OF assms(1,2)] assms(3) show False by linarith
qed

lemma round_sig_repr:
  assumes b: "1 < b" and p: "0 < p"
  shows "repr_num b p emin (round_sig b p emin x)"
proof (cases "x = 0")
  case True
  then have "\<bar>0 :: int\<bar> \<le> int b ^ p \<and> emin \<le> emin
      \<and> round_sig b p emin x = of_int 0 * of_nat b powi emin" by simp
  then show ?thesis unfolding repr_num_def by blast
next
  case False
  define e where "e = ulp_exp b p emin x"
  let ?u = "(of_nat b :: rat) powi e"
  have u: "0 < ?u" using b by simp
  have le: "ilog b \<bar>x\<bar> + 1 \<le> int p + e" and em: "emin \<le> e"
    by (auto simp: e_def ulp_exp_def)
  have "\<bar>x\<bar> < of_nat b powi (ilog b \<bar>x\<bar> + 1)" using False by (intro ilog_bounds(2) [OF b]) simp
  also have "\<dots> \<le> of_nat b powi (int p + e)" using le b by (intro power_int_increasing) simp_all
  finally have "\<bar>x\<bar> / ?u \<le> of_nat b powi (int p + e) / ?u"
    using u by (intro divide_right_mono) simp_all
  also have "\<dots> = of_int (int b ^ p)"
    using powi_int_multiple [OF b, of e "int p + e"] by simp
  finally have bd: "\<bar>x / ?u\<bar> \<le> of_int (int b ^ p)" using u by (simp add: abs_divide)
  have "rhe (x / ?u) \<le> int b ^ p" using bd by (intro rhe_le_of_int) (simp only: abs_le_iff)
  moreover have "- (int b ^ p) \<le> rhe (x / ?u)"
    using bd by (intro rhe_ge_of_int) (simp only: abs_le_iff of_int_minus; linarith)
  ultimately have "\<bar>rhe (x / ?u)\<bar> \<le> int b ^ p" by simp
  then show ?thesis
    using False em unfolding repr_num_def round_sig_def Let_def e_def [symmetric] by auto
qed

lemma round_sig_of_repr_less:
  assumes b: "1 < b" and n: "\<bar>n\<bar> < int b ^ p" and e: "emin \<le> e"
  shows "round_sig b p emin (of_int n * of_nat b powi e) = of_int n * of_nat b powi e"
proof (cases "n = 0")
  case False
  let ?x = "of_int n * (of_nat b :: rat) powi e"
  have u: "0 < (of_nat b :: rat) powi e" using b by simp
  have x0: "0 < \<bar>?x\<bar>" using False b by simp
  have "\<bar>?x\<bar> = of_int \<bar>n\<bar> * of_nat b powi e" using u by (simp add: abs_mult)
  also have "\<dots> < of_int (int b ^ p) * of_nat b powi e"
    using n u by (intro mult_strict_right_mono) (simp only: of_int_less_iff)
  also have "\<dots> = of_nat b powi (int p + e)" using b by (simp add: power_int_add)
  finally have "ilog b \<bar>?x\<bar> < int p + e" by (rule ilog_less_iff [OF b x0])
  then have le: "ulp_exp b p emin ?x \<le> e" using e by (simp add: ulp_exp_def)
  have "?x / of_nat b powi (ulp_exp b p emin ?x)
      = of_int n * (of_nat b powi e / of_nat b powi (ulp_exp b p emin ?x))" by simp
  also have "\<dots> = of_int (n * int b ^ nat (e - ulp_exp b p emin ?x))"
    by (simp only: powi_int_multiple [OF b le] of_int_mult)
  finally show ?thesis by (rule round_sig_exact [OF b])
qed simp

lemma round_sig_id:
  assumes b: "1 < b" and p: "0 < p" and r: "repr_num b p emin x"
  shows "round_sig b p emin x = x"
proof -
  obtain n e where n: "\<bar>n\<bar> \<le> int b ^ p" and e: "emin \<le> e" and x: "x = of_int n * of_nat b powi e"
    using r unfolding repr_num_def by blast
  show ?thesis
  proof (cases "\<bar>n\<bar> = int b ^ p")
    case False
    then show ?thesis using round_sig_of_repr_less [OF b _ e] n unfolding x by simp
  next
    case True
    define m where "m = sgn n * int b ^ (p - 1)"
    have "n = sgn n * int b ^ p" using True by (metis mult.commute abs_mult_sgn)
    also have "\<dots> = m * int b" using p by (simp add: m_def power_eq_if)
    finally have "x = of_int m * (of_int (int b) * of_nat b powi e)" unfolding x by simp
    then have x': "x = of_int m * of_nat b powi (e + 1)"
      using b by (simp add: power_int_add mult.commute)
    have "\<bar>m\<bar> \<le> int b ^ (p - 1)" by (simp add: m_def abs_mult abs_sgn_eq)
    also have "\<dots> < int b ^ p" using b p by (intro power_strict_increasing) simp_all
    finally have "\<bar>m\<bar> < int b ^ p" .
    then show ?thesis using round_sig_of_repr_less [OF b, of m p emin "e + 1"] e unfolding x' by simp
  qed
qed

section \<open>The interface of a rounding\<close>

locale rounding =
  fixes rd :: "rat \<Rightarrow> rat"
  assumes rd_mono: "x \<le> y \<Longrightarrow> rd x \<le> rd y"
    and rd_idem: "rd (rd x) = rd x"
    and rd_zero: "rd 0 = 0"
    and rd_minus: "rd (- x) = - rd x"
begin

lemma rd_le: "x \<le> c \<Longrightarrow> rd c = c \<Longrightarrow> rd x \<le> c"
  using rd_mono [of x c] by simp

lemma rd_ge: "c \<le> x \<Longrightarrow> rd c = c \<Longrightarrow> c \<le> rd x"
  using rd_mono [of c x] by simp

lemma rd_nonneg: "0 \<le> x \<Longrightarrow> 0 \<le> rd x"
  by (rule rd_ge [OF _ rd_zero])

lemma rd_nonpos: "x \<le> 0 \<Longrightarrow> rd x \<le> 0"
  by (rule rd_le [OF _ rd_zero])

lemma rd_pos_imp: "0 < rd x \<Longrightarrow> 0 < x"
  using rd_nonpos [of x] by linarith

lemma rd_between: "lo \<le> x \<Longrightarrow> x \<le> hi \<Longrightarrow> rd lo = lo \<Longrightarrow> rd hi = hi \<Longrightarrow> lo \<le> rd x \<and> rd x \<le> hi"
  by (simp add: rd_le rd_ge)

lemma rd_less_imp: "rd x < rd y \<Longrightarrow> x < y"
  using rd_mono [of y x] by linarith

end

lemma rounding_round_sig: "1 < b \<Longrightarrow> 0 < p \<Longrightarrow> rounding (round_sig b p emin)"
  by unfold_locales
    (simp_all add: round_sig_mono round_sig_minus round_sig_id round_sig_repr)

section \<open>Evaluation\<close>

text \<open>The same functions on numerator and denominator, for the evaluation of concrete numbers.\<close>

definition rhe_q :: "int \<Rightarrow> int \<Rightarrow> int" where
  "rhe_q n d = (let q = n div d; r = 2 * (n - q * d) in
     if r < d then q else if r > d then q + 1 else if q mod 2 = 0 then q else q + 1)"

lemma rhe_q: "0 < d \<Longrightarrow> rhe (of_int n / of_int d) = rhe_q n d"
proof -
  assume d: "0 < d"
  let ?x = "of_int n / of_int d :: rat" and ?q = "n div d"
  have f: "\<lfloor>?x\<rfloor> = ?q" by (rule floor_divide_of_int_eq)
  have x: "?x - of_int ?q = of_int (n - ?q * d) / of_int d" using d by (simp add: field_simps)
  have half: "of_int a / of_int d < (1/2 :: rat) \<longleftrightarrow> 2 * a < d" "(1/2 :: rat) < of_int a / of_int d \<longleftrightarrow> d < 2 * a" for a
  proof -
    have "of_int a / of_int d < (1/2 :: rat) \<longleftrightarrow> (of_int (2 * a) :: rat) < of_int d"
      "(1/2 :: rat) < of_int a / of_int d \<longleftrightarrow> (of_int d :: rat) < of_int (2 * a)"
      using d by (simp_all add: field_simps)
    then show "of_int a / of_int d < (1/2 :: rat) \<longleftrightarrow> 2 * a < d" "(1/2 :: rat) < of_int a / of_int d \<longleftrightarrow> d < 2 * a"
      by (simp_all only: of_int_less_iff)
  qed
  show ?thesis unfolding rhe_def Let_def f rhe_q_def x half by (simp add: even_iff_mod_2_eq_zero)
qed

function ipow :: "int \<Rightarrow> int \<Rightarrow> int" where
  "ipow b e = (if e \<le> 0 then 1 else let h = ipow b (e div 2) in if e mod 2 = 0 then h * h else b * h * h)"
  by auto
termination by (relation "measure (\<lambda>(b, e). nat e)") auto
declare ipow.simps [simp del]

lemma ipow_power: "0 \<le> e \<Longrightarrow> ipow b e = b ^ nat e"
proof (induction b e rule: ipow.induct)
  case (1 b e)
  define h where "h = e div 2"
  show ?case
  proof (cases "e \<le> 0")
    case False
    then have h: "ipow b h = b ^ nat h" "0 \<le> h" using 1 by (simp_all add: h_def)
    have e: "e = 2 * h + e mod 2" by (simp add: h_def)
    show ?thesis
    proof (cases "e mod 2 = 0")
      case True
      then have "nat e = nat h + nat h" using e h(2) by linarith
      then show ?thesis using False True h by (simp add: ipow.simps [of b e] power_add Let_def flip: h_def)
    next
      case odd: False
      then have "e mod 2 = 1" by presburger
      then have "nat e = Suc (nat h + nat h)" using e h(2) by linarith
      then show ?thesis using False odd h by (simp add: ipow.simps [of b e] power_add mult.assoc Let_def flip: h_def)
    qed
  qed (use 1 in \<open>simp add: ipow.simps\<close>)
qed

definition ilog_q :: "int \<Rightarrow> int \<Rightarrow> int \<Rightarrow> int" where
  "ilog_q b n d = (if d \<le> n then ilogi b (n div d) else - (ilogi b ((d - 1) div n) + 1))"

lemma ilog_q: "0 < n \<Longrightarrow> 0 < d \<Longrightarrow> ilog b (of_int n / of_int d) = ilog_q (int b) n d"
proof -
  assume n: "0 < n" and d: "0 < d"
  have ge: "(1 :: rat) \<le> of_int n / of_int d \<longleftrightarrow> d \<le> n" using d by (simp add: field_simps)
  have "\<lceil>of_int d / of_int n :: rat\<rceil> - 1 = (d - 1) div n"
  proof -
    define c where "c = (d - 1) div n"
    have "d - 1 = n * c + (d - 1) mod n" "(d - 1) mod n < n" "0 \<le> (d - 1) mod n"
      using n by (simp_all add: c_def)
    then have "n * c < d" "d \<le> n * c + n" by linarith+
    then have "(of_int (n * c) :: rat) < of_int d" "(of_int d :: rat) \<le> of_int (n * c + n)"
      by (simp_all only: of_int_less_iff of_int_le_iff)
    then have "\<lceil>of_int d / of_int n :: rat\<rceil> = c + 1" using n by (simp add: ceiling_eq_iff field_simps)
    then show ?thesis by (simp add: c_def)
  qed
  then show ?thesis using ge by (simp add: ilog_def ilog_q_def floor_divide_of_int_eq)
qed

definition round_q :: "int \<Rightarrow> int \<Rightarrow> int \<Rightarrow> int \<Rightarrow> int \<Rightarrow> rat" where
  "round_q b p emin n d = (let e = max (ilog_q b \<bar>n\<bar> d - p + 1) emin in
     if 0 \<le> e then let u = ipow b e in of_int (rhe_q n (d * u) * u)
     else let u = ipow b (- e) in Fract (rhe_q (n * u) d) u)"

text \<open>So a rounding is computed with integers.\<close>

lemma round_sig_code:
  assumes b: "1 < b"
  shows "round_sig b p emin x = (if x = 0 then 0 else
    case quotient_of x of (n, d) \<Rightarrow> round_q (int b) (int p) emin n d)"
proof (cases "x = 0")
  case False
  obtain n d where q: "quotient_of x = (n, d)" by fastforce
  have d: "0 < d" using quotient_of_denom_pos [OF q] .
  have x: "x = of_int n / of_int d" using quotient_of_div [OF q] .
  have n: "n \<noteq> 0" using False x by auto
  have "\<bar>x\<bar> = of_int \<bar>n\<bar> / of_int d" using d by (simp add: x)
  then have e: "ulp_exp b p emin x = max (ilog_q (int b) \<bar>n\<bar> d - int p + 1) emin"
    using ilog_q [of "\<bar>n\<bar>" d b] n d by (simp add: ulp_exp_def)
  define e' where "e' = ulp_exp b p emin x"
  have rs: "round_sig b p emin x = of_int (rhe (x / of_nat b powi e')) * of_nat b powi e'"
    using False by (simp add: round_sig_def e'_def Let_def)
  show ?thesis
  proof (cases "0 \<le> e'")
    case True
    define u where "u = ipow (int b) e'"
    have u: "of_nat b powi e' = (of_int u :: rat)" "0 < u"
      using True b by (simp_all add: u_def ipow_power power_int_def)
    have "x / of_int u = of_int n / of_int (d * u)" by (simp add: x)
    then have "rhe (x / of_int u) = rhe_q n (d * u)" using rhe_q [of "d * u" n] d u(2) by simp
    then show ?thesis using False True q unfolding rs u(1)
      by (simp add: round_q_def Let_def flip: e e'_def u_def)
  next
    case neg: False
    define u where "u = ipow (int b) (- e')"
    have u: "of_nat b powi e' = (1 / of_int u :: rat)" "0 < u"
      using neg b by (simp_all add: u_def ipow_power power_int_def field_simps)
    have "x / (1 / of_int u) = of_int (n * u) / of_int d" by (simp add: x)
    then have "rhe (x / (1 / of_int u)) = rhe_q (n * u) d" using rhe_q [of d "n * u"] d by simp
    then show ?thesis using False neg q unfolding rs u(1)
      by (simp add: round_q_def Let_def Fract_of_int_quotient flip: e e'_def u_def)
  qed
qed simp

end
