(* ===== verification/PyNum.thy ===== *)
theory PyNum
  imports Rounding
begin

text \<open>
  Python's \<open>float\<close> and \<open>decimal.Decimal\<close>, with their special values and the operations the
  program uses. The sign of a zero is not kept (no modelled code observes it).
\<close>

section \<open>binary64\<close>

definition f64 :: "rat \<Rightarrow> rat" where
  "f64 = round_sig 2 53 (-1074)"

interpretation f64: rounding f64
  unfolding f64_def by (rule rounding_round_sig) simp_all

lemma f64_code [code]: "f64 x = (if x = 0 then 0 else case quotient_of x of (n, d) \<Rightarrow> round_q 2 53 (-1074) n d)"
  unfolding f64_def by (subst round_sig_code) simp_all

datatype pyfloat = Fin rat | PInf | NInf | NaN

definition f_max_finite :: rat where
  "f_max_finite = 2 ^ 1024"

lemma f_max_finite_code [code]: "f_max_finite = of_int
    179769313486231590772930519078902473361797697894230657273430081157732675805500963132708477322407536021120113879871393357658789768814416622492847430639474124377767893424865485276302219601246094119453082952085005768838150682342462881473913110540827237163350510684586298239947245938479716304835356329624224137216"
  by (simp add: f_max_finite_def)

definition mkf :: "rat \<Rightarrow> pyfloat" where
  "mkf x = (let r = f64 x in
     if r \<ge> f_max_finite then PInf else if r \<le> - f_max_finite then NInf else Fin r)"

definition fneg :: "pyfloat \<Rightarrow> pyfloat" where
  "fneg x = (case x of Fin a \<Rightarrow> Fin (- a) | PInf \<Rightarrow> NInf | NInf \<Rightarrow> PInf | NaN \<Rightarrow> NaN)"

definition f_abs :: "pyfloat \<Rightarrow> pyfloat" where
  "f_abs x = (case x of Fin a \<Rightarrow> Fin \<bar>a\<bar> | PInf \<Rightarrow> PInf | NInf \<Rightarrow> PInf | NaN \<Rightarrow> NaN)"

fun fadd :: "pyfloat \<Rightarrow> pyfloat \<Rightarrow> pyfloat" where
  "fadd (Fin a) (Fin b) = mkf (a + b)"
| "fadd NaN y = NaN"
| "fadd x NaN = NaN"
| "fadd PInf NInf = NaN"
| "fadd NInf PInf = NaN"
| "fadd PInf y = PInf"
| "fadd x PInf = PInf"
| "fadd NInf y = NInf"
| "fadd x NInf = NInf"

definition fsub :: "pyfloat \<Rightarrow> pyfloat \<Rightarrow> pyfloat" where
  "fsub x y = fadd x (fneg y)"

definition f_sgn :: "pyfloat \<Rightarrow> int" where
  "f_sgn x = (case x of Fin a \<Rightarrow> (if a > 0 then 1 else if a < 0 then -1 else 0)
     | PInf \<Rightarrow> 1 | NInf \<Rightarrow> -1 | NaN \<Rightarrow> 0)"

fun fmul :: "pyfloat \<Rightarrow> pyfloat \<Rightarrow> pyfloat" where
  "fmul (Fin a) (Fin b) = mkf (a * b)"
| "fmul NaN y = NaN"
| "fmul x NaN = NaN"
| "fmul x y = (let s = f_sgn x * f_sgn y in
     if s > 0 then PInf else if s < 0 then NInf else NaN)"

text \<open>Division raises on a zero divisor, whatever the dividend.\<close>

fun fdiv :: "pyfloat \<Rightarrow> pyfloat \<Rightarrow> pyfloat result" where
  "fdiv (Fin a) (Fin b) = (if b = 0 then Inl ZeroDivisionError else Inr (mkf (a / b)))"
| "fdiv NaN (Fin b) = (if b = 0 then Inl ZeroDivisionError else Inr NaN)"
| "fdiv NaN y = Inr NaN"
| "fdiv x NaN = Inr NaN"
| "fdiv (Fin a) y = Inr (Fin 0)"
| "fdiv x (Fin b) = (if b = 0 then Inl ZeroDivisionError
     else Inr (if f_sgn x * f_sgn (Fin b) > 0 then PInf else NInf))"
| "fdiv x y = Inr NaN"

fun flt :: "pyfloat \<Rightarrow> pyfloat \<Rightarrow> bool" where
  "flt (Fin a) (Fin b) = (a < b)"
| "flt NaN y = False"
| "flt x NaN = False"
| "flt NInf y = (y \<noteq> NInf)"
| "flt x PInf = (x \<noteq> PInf)"
| "flt x y = False"

definition feq :: "pyfloat \<Rightarrow> pyfloat \<Rightarrow> bool" where
  "feq x y = (x = y \<and> x \<noteq> NaN)"

definition fle :: "pyfloat \<Rightarrow> pyfloat \<Rightarrow> bool" where
  "fle x y = (flt x y \<or> feq x y)"

abbreviation fgt :: "pyfloat \<Rightarrow> pyfloat \<Rightarrow> bool" where "fgt x y \<equiv> flt y x"
abbreviation fge :: "pyfloat \<Rightarrow> pyfloat \<Rightarrow> bool" where "fge x y \<equiv> fle y x"

text \<open>\<open>max(a, b)\<close> keeps \<open>a\<close> unless \<open>b > a\<close>; \<open>min(a, b)\<close> keeps \<open>a\<close> unless \<open>b < a\<close>.\<close>

definition f_max :: "pyfloat \<Rightarrow> pyfloat \<Rightarrow> pyfloat" where
  "f_max a b = (if fgt b a then b else a)"

definition f_min :: "pyfloat \<Rightarrow> pyfloat \<Rightarrow> pyfloat" where
  "f_min a b = (if flt b a then b else a)"

definition isfinite :: "pyfloat \<Rightarrow> bool" where
  "isfinite x = (case x of Fin _ \<Rightarrow> True | _ \<Rightarrow> False)"

text \<open>\<open>bool(x)\<close>: only zero is false.\<close>

definition f_truthy :: "pyfloat \<Rightarrow> bool" where
  "f_truthy x = (x \<noteq> Fin 0)"

text \<open>A literal of the source denotes the nearest float; \<open>round(x, n)\<close> rounds the decimal
  expansion of the exact value, half to even, and takes the nearest float.\<close>

definition flit :: "rat \<Rightarrow> pyfloat" where
  "flit r = Fin (f64 r)"

definition f_round :: "nat \<Rightarrow> pyfloat \<Rightarrow> pyfloat" where
  "f_round n x = (case x of Fin a \<Rightarrow> mkf (of_int (rhe (a * 10 ^ n)) / 10 ^ n) | _ \<Rightarrow> x)"

text \<open>The built-in \<open>sum\<close> of floats, which compensates the rounding errors (CPython 3.12).\<close>

definition sum_step :: "pyfloat \<Rightarrow> pyfloat \<times> pyfloat \<Rightarrow> pyfloat \<times> pyfloat" where
  "sum_step x sc = (case sc of (s, c) \<Rightarrow> let t = fadd s x in
     (t, fadd c (if fge (f_abs s) (f_abs x) then fadd (fsub s t) x else fadd (fsub x t) s)))"

definition py_sum :: "pyfloat list \<Rightarrow> pyfloat" where
  "py_sum xs = (case fold sum_step xs (Fin 0, Fin 0) of (s, c) \<Rightarrow> if f_truthy c \<and> isfinite c then fadd s c else s)"

text \<open>\<open>math.sqrt\<close> is correctly rounded: the root of the scaled argument is found as an integer of at least 60
  bits; a remainder is kept as one more bit, so that rounding it rounds the exact root.\<close>

function isqrt :: "int \<Rightarrow> int" where
  "isqrt n = (if n < 1 then 0 else let r = 2 * isqrt (n div 4) in if (r + 1) * (r + 1) \<le> n then r + 1 else r)"
  by pat_completeness auto
termination
  by (relation "measure nat") auto

declare isqrt.simps [simp del]

definition sqrt_rat :: "rat \<Rightarrow> rat" where
  "sqrt_rat a = (let k = 61 - ilog 2 a div 2; x = a * 4 powi k; s = isqrt \<lfloor>x\<rfloor>;
     r = (if of_int (s * s) = x then of_int s else of_int (2 * s + 1) / 2) in f64 (r / 2 powi k))"

definition f_sqrt :: "pyfloat \<Rightarrow> pyfloat result" where
  "f_sqrt x = (case x of Fin a \<Rightarrow> if a < 0 then Inl ValueError else Inr (Fin (if a = 0 then 0 else sqrt_rat a))
     | PInf \<Rightarrow> Inr PInf | NInf \<Rightarrow> Inl ValueError | NaN \<Rightarrow> Inr NaN)"

subsection \<open>Order facts\<close>

lemma flt_irrefl [simp]: "\<not> flt x x"
  by (cases x) auto

lemma flt_trans: "flt x y \<Longrightarrow> flt y z \<Longrightarrow> flt x z"
  by (cases x; cases y; cases z) auto

lemma fle_trans: "fle x y \<Longrightarrow> fle y z \<Longrightarrow> fle x z"
  by (cases x; cases y; cases z) (auto simp: fle_def feq_def)

lemma fle_refl_iff [simp]: "fle x x \<longleftrightarrow> x \<noteq> NaN"
  by (simp add: fle_def feq_def)

lemma fle_antisym: "fle x y \<Longrightarrow> fle y x \<Longrightarrow> x = y"
  by (cases x; cases y) (auto simp: fle_def feq_def)

lemma fle_Fin [simp]: "fle (Fin a) (Fin b) \<longleftrightarrow> a \<le> b"
  by (auto simp: fle_def feq_def)

lemma fle_NaN [simp]: "\<not> fle NaN x" "\<not> fle x NaN"
  by (cases x; simp add: fle_def feq_def)+

lemma flt_NaN [simp]: "\<not> flt NaN x" "\<not> flt x NaN"
  by (cases x; simp)+

lemma fle_inf: "fle x PInf \<longleftrightarrow> x \<noteq> NaN" "fle NInf x \<longleftrightarrow> x \<noteq> NaN" "fle PInf x \<longleftrightarrow> x = PInf" "fle x NInf \<longleftrightarrow> x = NInf"
  by (cases x; auto simp: fle_def feq_def)+

lemma not_flt: "x \<noteq> NaN \<Longrightarrow> y \<noteq> NaN \<Longrightarrow> \<not> flt x y \<longleftrightarrow> fle y x"
  by (cases x; cases y) (auto simp: fle_def feq_def)

lemma flt_imp_not_fle: "flt x y \<Longrightarrow> \<not> fle y x"
  by (cases x; cases y) (auto simp: fle_def feq_def)

lemma f_max_ge: "a \<noteq> NaN \<Longrightarrow> b \<noteq> NaN \<Longrightarrow> fle a (f_max a b) \<and> fle b (f_max a b)"
  by (cases a; cases b) (auto simp: f_max_def fle_def feq_def)

lemma f_min_le: "a \<noteq> NaN \<Longrightarrow> b \<noteq> NaN \<Longrightarrow> fle (f_min a b) a \<and> fle (f_min a b) b"
  by (cases a; cases b) (auto simp: f_min_def fle_def feq_def)

lemma mkf_not_NaN [simp]: "mkf x \<noteq> NaN"
  by (simp add: mkf_def Let_def)

lemma mkf_mono: "x \<le> y \<Longrightarrow> fle (mkf x) (mkf y)"
  using f64.rd_mono [of x y]
  by (auto simp: mkf_def Let_def fle_def feq_def f_max_finite_def)

lemma mkf_repr: "f64 x = x \<Longrightarrow> \<bar>x\<bar> < f_max_finite \<Longrightarrow> mkf x = Fin x"
  by (auto simp: mkf_def Let_def abs_less_iff)

lemma f_max_finite_pos [simp]: "0 < f_max_finite"
  by (simp add: f_max_finite_def)

lemma mkf_0 [simp]: "mkf 0 = Fin 0"
  by (simp add: mkf_repr f64.rd_zero)

lemma mkf_nonneg: "0 \<le> x \<Longrightarrow> fle (Fin 0) (mkf x)"
  using mkf_mono [of 0 x] by simp

lemma mkf_le: "x \<le> c \<Longrightarrow> f64 c = c \<Longrightarrow> \<bar>c\<bar> < f_max_finite \<Longrightarrow> fle (mkf x) (Fin c)"
  using mkf_mono [of x c] by (simp add: mkf_repr)

lemma mkf_ge: "c \<le> x \<Longrightarrow> f64 c = c \<Longrightarrow> \<bar>c\<bar> < f_max_finite \<Longrightarrow> fle (Fin c) (mkf x)"
  using mkf_mono [of c x] by (simp add: mkf_repr)

lemma f64_idem [simp]: "f64 (f64 x) = f64 x"
  by (rule f64.rd_idem)

lemma f_round_mono: "fle x y \<Longrightarrow> fle (f_round n x) (f_round n y)"
proof (cases x; cases y)
  fix a b assume xy: "fle x y" "x = Fin a" "y = Fin b"
  then have "of_int (rhe (a * 10 ^ n)) / 10 ^ n \<le> (of_int (rhe (b * 10 ^ n)) / 10 ^ n :: rat)"
    by (intro divide_right_mono of_int_le_iff [THEN iffD2] rhe_mono mult_right_mono) auto
  with xy show ?thesis by (simp add: f_round_def mkf_mono)
qed (auto simp: f_round_def mkf_def Let_def fle_def feq_def)

lemma fmul_Fin_mono: "a \<le> b \<Longrightarrow> 0 \<le> c \<Longrightarrow> fle (fmul (Fin a) (Fin c)) (fmul (Fin b) (Fin c))"
  by (simp add: mkf_mono mult_right_mono)

lemma f_max_mono: "fle a b \<Longrightarrow> c \<noteq> NaN \<Longrightarrow> fle (f_max a c) (f_max b c)"
  by (cases a; cases b; cases c) (auto simp: f_max_def fle_def feq_def)

lemma flit_not_NaN [simp]: "flit r \<noteq> NaN" "NaN \<noteq> flit r"
  by (simp_all add: flit_def)

lemma fsub_not_NaN: "x \<noteq> NaN \<Longrightarrow> fsub x (Fin c) \<noteq> NaN" "x \<noteq> NaN \<Longrightarrow> fsub (Fin c) x \<noteq> NaN"
  by (cases x; simp add: fsub_def fneg_def)+

subsection \<open>Square roots\<close>

lemma isqrt_bounds: "0 \<le> n \<Longrightarrow> 0 \<le> isqrt n \<and> isqrt n * isqrt n \<le> n \<and> n < (isqrt n + 1) * (isqrt n + 1)"
proof (induction n rule: isqrt.induct)
  case (1 n)
  show ?case
  proof (cases "n < 1")
    case False
    define q where "q = isqrt (n div 4)"
    have q: "0 \<le> q" "q * q \<le> n div 4" "n div 4 < (q + 1) * (q + 1)" using 1 False by (simp_all add: q_def)
    have d: "4 * (n div 4) \<le> n" "n < 4 * (n div 4) + 4" by simp_all
    have "4 * (q * q) \<le> n" using q(2) d(1) by linarith
    moreover have "n div 4 + 1 \<le> (q + 1) * (q + 1)" using q(3) by linarith
    then have "n < 4 * ((q + 1) * (q + 1))" using d(2) by linarith
    ultimately have n: "(2 * q) * (2 * q) \<le> n" "n < (2 * q + 2) * (2 * q + 2)"
      by (simp_all add: algebra_simps)
    have r: "isqrt n = (if (2 * q + 1) * (2 * q + 1) \<le> n then 2 * q + 1 else 2 * q)"
      using False by (simp add: isqrt.simps [of n] Let_def flip: q_def)
    show ?thesis
    proof (cases "(2 * q + 1) * (2 * q + 1) \<le> n")
      case True
      moreover have "2 * q + 1 + 1 = 2 * q + 2" by simp
      ultimately show ?thesis using n(2) q(1) unfolding r by (simp only: if_True) simp
    next
      case False
      then show ?thesis using n(1) q(1) unfolding r by simp
    qed
  qed (use 1 in \<open>simp add: isqrt.simps\<close>)
qed

text \<open>The root of a square of an integer below \<open>2 ^ 53\<close> is exact.\<close>

lemma isqrt_square: "0 \<le> m \<Longrightarrow> isqrt (m * m) = m"
proof -
  assume m: "0 \<le> m"
  have b: "0 \<le> isqrt (m * m)" "isqrt (m * m) * isqrt (m * m) \<le> m * m"
    "m * m < (isqrt (m * m) + 1) * (isqrt (m * m) + 1)" using isqrt_bounds [of "m * m"] by simp_all
  have "isqrt (m * m) \<le> m"
    using b m mult_strict_mono [of m "isqrt (m * m)" m "isqrt (m * m)"] by (cases "m < isqrt (m * m)") auto
  moreover have "m < isqrt (m * m) + 1"
    using b m mult_mono [of "isqrt (m * m) + 1" m "isqrt (m * m) + 1" m] by (cases "m < isqrt (m * m) + 1") auto
  ultimately show ?thesis by linarith
qed

lemma sqrt_rat_nonneg: "0 < a \<Longrightarrow> 0 \<le> sqrt_rat a"
proof -
  assume "0 < a"
  then have "0 \<le> \<lfloor>a * 4 powi (61 - ilog 2 a div 2)\<rfloor>" by (simp add: zero_le_floor)
  then show ?thesis using isqrt_bounds unfolding sqrt_rat_def Let_def
    by (intro f64.rd_nonneg divide_nonneg_nonneg) auto
qed

lemma f_sqrt_result: "f_sqrt x = Inr y \<Longrightarrow> y = NaN \<or> fle (Fin 0) y"
  proof -
  show "f_sqrt x = Inr y \<Longrightarrow> ?thesis" using sqrt_rat_nonneg
    by (cases x) (auto simp: f_sqrt_def less_le fle_inf split: if_splits)
qed

lemma f_sqrt_Fin: "0 \<le> a \<Longrightarrow> \<exists>b. f_sqrt (Fin a) = Inr (Fin b) \<and> 0 \<le> b"
  using sqrt_rat_nonneg by (auto simp: f_sqrt_def)

end
