(* ===== verification/PyVal.thy ===== *)
theory PyVal
  imports PyNum
begin

text \<open>
  \<open>decimal.Decimal\<close> in its default context, the texts that \<open>Decimal\<close> and \<open>float\<close> accept, and
  the dynamically typed scalars that reach the program in JSON payloads. A signalling NaN is
  identified with a quiet one: the program only ever compares it, and both raise there.
\<close>

section \<open>Decimals of 28 digits\<close>

definition d28 :: "rat \<Rightarrow> rat" where
  "d28 = round_sig 10 28 (-1000026)"

interpretation d28: rounding d28
  unfolding d28_def by (rule rounding_round_sig) simp_all

lemma d28_code [code]: "d28 x = (if x = 0 then 0 else case quotient_of x of (n, d) \<Rightarrow> round_q 10 28 (-1000026) n d)"
  unfolding d28_def by (subst round_sig_code) simp_all

datatype dec = DFin rat | DPInf | DNInf | DNaN

fun dec_sgn :: "dec \<Rightarrow> int" where
  "dec_sgn (DFin a) = (if a > 0 then 1 else if a < 0 then -1 else 0)"
| "dec_sgn DPInf = 1"
| "dec_sgn DNInf = -1"
| "dec_sgn DNaN = 0"

fun dneg :: "dec \<Rightarrow> dec" where
  "dneg (DFin a) = DFin (- d28 a)"
| "dneg DPInf = DNInf"
| "dneg DNInf = DPInf"
| "dneg DNaN = DNaN"

definition dadd :: "dec \<Rightarrow> dec \<Rightarrow> dec result" where
  "dadd x y = (case (x, y) of
      (DFin a, DFin b) \<Rightarrow> Inr (DFin (d28 (a + b)))
    | (DNaN, _) \<Rightarrow> Inr DNaN | (_, DNaN) \<Rightarrow> Inr DNaN
    | (DPInf, DNInf) \<Rightarrow> Inl InvalidOperation | (DNInf, DPInf) \<Rightarrow> Inl InvalidOperation
    | (DPInf, _) \<Rightarrow> Inr DPInf | (_, DPInf) \<Rightarrow> Inr DPInf
    | _ \<Rightarrow> Inr DNInf)"

definition dsub :: "dec \<Rightarrow> dec \<Rightarrow> dec result" where
  "dsub x y = (case (x, y) of
      (DFin a, DFin b) \<Rightarrow> Inr (DFin (d28 (a - b)))
    | _ \<Rightarrow> dadd x (dneg y))"

definition dmul :: "dec \<Rightarrow> dec \<Rightarrow> dec result" where
  "dmul x y = (case (x, y) of
      (DFin a, DFin b) \<Rightarrow> Inr (DFin (d28 (a * b)))
    | (DNaN, _) \<Rightarrow> Inr DNaN | (_, DNaN) \<Rightarrow> Inr DNaN
    | _ \<Rightarrow> (let s = dec_sgn x * dec_sgn y in
        if s > 0 then Inr DPInf else if s < 0 then Inr DNInf else Inl InvalidOperation))"

definition ddiv :: "dec \<Rightarrow> dec \<Rightarrow> dec result" where
  "ddiv x y = (case (x, y) of
      (DNaN, _) \<Rightarrow> Inr DNaN | (_, DNaN) \<Rightarrow> Inr DNaN
    | (DFin a, DFin b) \<Rightarrow> (if b \<noteq> 0 then Inr (DFin (d28 (a / b)))
        else if a = 0 then Inl InvalidOperation else Inl ZeroDivisionError)
    | (DFin a, _) \<Rightarrow> Inr (DFin 0)
    | (_, DFin b) \<Rightarrow> Inr (if dec_sgn x * (if b < 0 then -1 else 1) > 0 then DPInf else DNInf)
    | _ \<Rightarrow> Inl InvalidOperation)"

text \<open>The four order comparisons signal on a NaN; equality does not.\<close>

definition dlt :: "dec \<Rightarrow> dec \<Rightarrow> bool result" where
  "dlt x y = (case (x, y) of
      (DNaN, _) \<Rightarrow> Inl InvalidOperation | (_, DNaN) \<Rightarrow> Inl InvalidOperation
    | (DFin a, DFin b) \<Rightarrow> Inr (a < b)
    | (DNInf, _) \<Rightarrow> Inr (y \<noteq> DNInf)
    | (_, DPInf) \<Rightarrow> Inr (x \<noteq> DPInf)
    | _ \<Rightarrow> Inr False)"

definition dle :: "dec \<Rightarrow> dec \<Rightarrow> bool result" where
  "dle x y = rbind (dlt x y) (\<lambda>b. Inr (b \<or> x = y))"

definition deq :: "dec \<Rightarrow> dec \<Rightarrow> bool" where
  "deq x y = (x = y \<and> x \<noteq> DNaN)"

definition dabs :: "dec \<Rightarrow> dec" where
  "dabs x = (case x of DFin a \<Rightarrow> DFin \<bar>d28 a\<bar> | DNInf \<Rightarrow> DPInf | _ \<Rightarrow> x)"

text \<open>\<open>x.quantize(Decimal("1e-k"))\<close> under a rounding to integers (half-even by default).\<close>

definition dquantize_with :: "(rat \<Rightarrow> int) \<Rightarrow> nat \<Rightarrow> dec \<Rightarrow> dec result" where
  "dquantize_with rnd k x = (case x of
      DFin a \<Rightarrow> (let n = rnd (a * 10 ^ k) in
        if \<bar>n\<bar> \<ge> 10 ^ 28 then Inl InvalidOperation else Inr (DFin (of_int n / 10 ^ k)))
    | DNaN \<Rightarrow> Inr DNaN
    | _ \<Rightarrow> Inl InvalidOperation)"

definition dquantize :: "nat \<Rightarrow> dec \<Rightarrow> dec result" where
  "dquantize = dquantize_with rhe"

lemma dadd_Fin [simp]: "dadd (DFin a) (DFin b) = Inr (DFin (d28 (a + b)))"
  by (simp add: dadd_def)

lemma dsub_Fin [simp]: "dsub (DFin a) (DFin b) = Inr (DFin (d28 (a - b)))"
  by (simp add: dsub_def)

lemma dmul_Fin [simp]: "dmul (DFin a) (DFin b) = Inr (DFin (d28 (a * b)))"
  by (simp add: dmul_def)

lemma ddiv_Fin: "ddiv (DFin a) (DFin b) = (if b \<noteq> 0 then Inr (DFin (d28 (a / b)))
    else if a = 0 then Inl InvalidOperation else Inl ZeroDivisionError)"
  by (simp add: ddiv_def)

lemma dlt_Fin [simp]: "dlt (DFin a) (DFin b) = Inr (a < b)"
  by (simp add: dlt_def)

lemma dle_Fin [simp]: "dle (DFin a) (DFin b) = Inr (a \<le> b)"
  by (auto simp: dle_def)

lemma dlt_error_iff: "dlt x y = Inl e \<longleftrightarrow> e = InvalidOperation \<and> (x = DNaN \<or> y = DNaN)"
  by (cases x; cases y) (auto simp: dlt_def)

lemma dle_error_iff: "dle x y = Inl e \<longleftrightarrow> e = InvalidOperation \<and> (x = DNaN \<or> y = DNaN)"
  by (cases x; cases y) (auto simp: dle_def dlt_def)

lemma dle_total: "dle x y = Inr False \<Longrightarrow> dlt y x = Inr True"
  by (cases x; cases y) (auto simp: dle_def dlt_def)

lemma dlt_imp_not_dle: "dlt x y = Inr True \<Longrightarrow> dle y x = Inr False"
  by (cases x; cases y) (auto simp: dle_def dlt_def)

lemma dlt_False_dle: "dlt x y = Inr False \<Longrightarrow> dle y x = Inr True"
  by (cases x; cases y) (auto simp: dle_def dlt_def split: if_splits)

section \<open>Numbers in text\<close>

definition is_digit :: "char \<Rightarrow> bool" where
  "is_digit c = (let n = of_char c :: nat in 48 \<le> n \<and> n \<le> 57)"

definition digit_val :: "char \<Rightarrow> int" where
  "digit_val c = int (of_char c :: nat) - 48"

definition digits_val :: "string \<Rightarrow> int" where
  "digits_val ds = foldl (\<lambda>a c. 10 * a + digit_val c) 0 ds"

datatype numtok = TNum rat | TInf | TNan string bool

definition split_sign :: "string \<Rightarrow> bool \<times> string" where
  "split_sign s = (case s of [] \<Rightarrow> (False, [])
     | c # cs \<Rightarrow> if c = CHR ''-'' then (True, cs) else if c = CHR ''+'' then (False, cs) else (False, s))"

definition parse_exp :: "string \<Rightarrow> int option" where
  "parse_exp s = (case s of [] \<Rightarrow> Some 0
     | c # cs \<Rightarrow> if c = CHR ''e'' then
         (let (neg, ds) = split_sign cs in
           if ds \<noteq> [] \<and> list_all is_digit ds
           then Some (if neg then - digits_val ds else digits_val ds) else None)
       else None)"

text \<open>The common grammar, on lower-case text without its sign:
  digits with an optional point and exponent, or \<open>inf\<close>, \<open>infinity\<close>, \<open>nan\<close>, \<open>snan\<close>.\<close>

definition parse_unsigned :: "string \<Rightarrow> numtok option" where
  "parse_unsigned s =
    (if s = ''inf'' \<or> s = ''infinity'' then Some TInf else
     case py_removeprefix ''nan'' s of
       Some ds \<Rightarrow> (if list_all is_digit ds then Some (TNan ds False) else None)
     | None \<Rightarrow>
     (case py_removeprefix ''snan'' s of
       Some ds \<Rightarrow> (if list_all is_digit ds then Some (TNan ds True) else None)
     | None \<Rightarrow>
       (let ip = takeWhile is_digit s; r = dropWhile is_digit s;
            (fp, r2) = (case r of [] \<Rightarrow> ([], [])
              | c # cs \<Rightarrow> if c = CHR ''.'' then (takeWhile is_digit cs, dropWhile is_digit cs)
                          else ([], r))
        in if ip = [] \<and> fp = [] then None
           else (case parse_exp r2 of None \<Rightarrow> None
             | Some e \<Rightarrow> Some (TNum (of_int (digits_val (ip @ fp)) * 10 powi (e - int (length fp))))))))"

definition parse_num :: "string \<Rightarrow> (bool \<times> numtok) option" where
  "parse_num s = (let (neg, u) = split_sign s in
     map_option (\<lambda>t. (neg, t)) (parse_unsigned (py_lower u)))"

text \<open>\<open>Decimal(s)\<close> strips the text and drops every underscore; \<open>float(s)\<close> allows an underscore
  between two digits only, and no NaN payload.\<close>

definition dec_of_string :: "string \<Rightarrow> dec result" where
  "dec_of_string s = (case parse_num (filter (\<lambda>c. c \<noteq> CHR ''_'') (py_strip s)) of
      None \<Rightarrow> Inl InvalidOperation
    | Some (neg, TNum r) \<Rightarrow> Inr (DFin (if neg then - r else r))
    | Some (neg, TInf) \<Rightarrow> Inr (if neg then DNInf else DPInf)
    | Some (neg, TNan _ _) \<Rightarrow> Inr DNaN)"

fun underscores_ok :: "bool \<Rightarrow> string \<Rightarrow> bool" where
  "underscores_ok prev [] = True"
| "underscores_ok prev (c # cs) =
     (if c = CHR ''_'' then prev \<and> cs \<noteq> [] \<and> is_digit (hd cs) \<and> underscores_ok False cs
      else underscores_ok (is_digit c) cs)"

definition float_of_string :: "string \<Rightarrow> pyfloat result" where
  "float_of_string s = (let t = py_strip s in
     if \<not> underscores_ok False t then Inl ValueError
     else case parse_num (filter (\<lambda>c. c \<noteq> CHR ''_'') t) of
        None \<Rightarrow> Inl ValueError
      | Some (neg, TNum r) \<Rightarrow> Inr (mkf (if neg then - r else r))
      | Some (neg, TInf) \<Rightarrow> Inr (if neg then NInf else PInf)
      | Some (neg, TNan p sg) \<Rightarrow> (if p = [] \<and> \<not> sg then Inr NaN else Inl ValueError))"

section \<open>Shortest representation of a float\<close>

text \<open>
  \<open>str(x)\<close> of a float is the shortest decimal that reads back as \<open>x\<close>, the nearest one of that
  length: the first of 1 to 17 significant digits whose rounding round-trips.
\<close>

definition float_repr :: "rat \<Rightarrow> rat" where
  "float_repr x = (case find (\<lambda>n. f64 (round_sig 10 n (-400) x) = x) [1..<18] of
     Some n \<Rightarrow> round_sig 10 n (-400) x | None \<Rightarrow> x)"

lemma float_repr_roundtrip: "f64 x = x \<Longrightarrow> f64 (float_repr x) = x"
  by (auto simp: float_repr_def find_Some_iff split: option.splits)

definition dec_of_float :: "pyfloat \<Rightarrow> dec" where
  "dec_of_float x = (case x of Fin a \<Rightarrow> DFin (float_repr a)
     | PInf \<Rightarrow> DPInf | NInf \<Rightarrow> DNInf | NaN \<Rightarrow> DNaN)"

definition float_of_dec :: "dec \<Rightarrow> pyfloat" where
  "float_of_dec d = (case d of DFin a \<Rightarrow> mkf a | DPInf \<Rightarrow> PInf | DNInf \<Rightarrow> NInf | DNaN \<Rightarrow> NaN)"

section \<open>Scalars of a JSON payload\<close>

datatype pyval = PNone | PBool bool | PInt int | PFloat pyfloat | PStr string

definition py_truthy :: "pyval \<Rightarrow> bool" where
  "py_truthy v = (case v of PNone \<Rightarrow> False | PBool b \<Rightarrow> b | PInt i \<Rightarrow> i \<noteq> 0
     | PFloat x \<Rightarrow> f_truthy x | PStr s \<Rightarrow> s \<noteq> [])"

text \<open>\<open>Decimal(str(v))\<close> and \<open>float(v)\<close>.\<close>

definition dec_of_val :: "pyval \<Rightarrow> dec result" where
  "dec_of_val v = (case v of
      PNone \<Rightarrow> Inl InvalidOperation | PBool _ \<Rightarrow> Inl InvalidOperation
    | PInt i \<Rightarrow> Inr (DFin (of_int i)) | PFloat x \<Rightarrow> Inr (dec_of_float x)
    | PStr s \<Rightarrow> dec_of_string s)"

definition float_of_val :: "pyval \<Rightarrow> pyfloat result" where
  "float_of_val v = (case v of
      PNone \<Rightarrow> Inl TypeError | PBool b \<Rightarrow> Inr (Fin (if b then 1 else 0))
    | PInt i \<Rightarrow> (case mkf (of_int i) of Fin r \<Rightarrow> Inr (Fin r) | _ \<Rightarrow> Inl OverflowError)
    | PFloat x \<Rightarrow> Inr x | PStr s \<Rightarrow> float_of_string s)"

text \<open>\<open>==\<close> compares numbers by value whatever their type: a canonical key per value.\<close>

definition py_key :: "pyval \<Rightarrow> pyval" where
  "py_key v = (case v of PBool b \<Rightarrow> PFloat (Fin (if b then 1 else 0))
     | PInt i \<Rightarrow> PFloat (Fin (of_int i)) | _ \<Rightarrow> v)"

definition py_eq :: "pyval \<Rightarrow> pyval \<Rightarrow> bool" where
  "py_eq v w = (py_key v = py_key w)"

text \<open>\<open>str(v or "")\<close>, where the values met are text, absent, or falsy.\<close>

definition show_digit :: "int \<Rightarrow> char" where
  "show_digit d = char_of (d + 48)"

function show_nat_int :: "int \<Rightarrow> string" where
  "show_nat_int n = (if n < 10 then [show_digit n] else show_nat_int (n div 10) @ [show_digit (n mod 10)])"
  by pat_completeness auto
termination
  by (relation "measure nat") auto

declare show_nat_int.simps [simp del]

definition show_int :: "int \<Rightarrow> string" where
  "show_int i = (if i < 0 then CHR ''-'' # show_nat_int (- i) else show_nat_int i)"

end
