(* ===== verification/Ledger.thy ===== *)
theory Ledger
  imports PyVal
begin

text \<open>
  The persistent state the order path reads and writes (\<open>db/schema.py\<close>): the tables
  \<open>order_intents\<close>, \<open>positions\<close>, \<open>execution_state\<close> and \<open>execution_state_events\<close>, and the
  in-memory position dict that \<open>main_loop.py\<close> shares with them. A world also carries a trace of
  the committed writes and of the orders sent to the exchange, in the order they happened: a
  process that dies leaves exactly a prefix of it. Time stamps are microseconds of the UTC clock
  (\<open>isoformat\<close> and \<open>fromisoformat\<close> are inverse at that resolution).
\<close>

type_synonym tstamp = int

section \<open>Order intents\<close>

datatype intent_status =
    INTENT_CREATED | SUBMITTED_UNKNOWN | ACCEPTED
  | PARTIAL_FILLED | FILLED | CANCELLED | REJECTED | RECOVERY_REQUIRED

fun status_text :: "intent_status \<Rightarrow> string" where
  "status_text INTENT_CREATED = ''INTENT_CREATED''"
| "status_text SUBMITTED_UNKNOWN = ''SUBMITTED_UNKNOWN''"
| "status_text ACCEPTED = ''ACCEPTED''"
| "status_text PARTIAL_FILLED = ''PARTIAL_FILLED''"
| "status_text FILLED = ''FILLED''"
| "status_text CANCELLED = ''CANCELLED''"
| "status_text REJECTED = ''REJECTED''"
| "status_text RECOVERY_REQUIRED = ''RECOVERY_REQUIRED''"

definition STATES :: "intent_status list" where
  "STATES = [INTENT_CREATED, SUBMITTED_UNKNOWN, ACCEPTED, PARTIAL_FILLED, FILLED,
     CANCELLED, REJECTED, RECOVERY_REQUIRED]"

definition status_of_text :: "string \<Rightarrow> intent_status option" where
  "status_of_text s = find (\<lambda>st. status_text st = s) STATES"

lemma status_of_text_text [simp]: "status_of_text (status_text st) = Some st"
  by (cases st) (simp_all add: status_of_text_def STATES_def)

lemma status_of_text_SomeD: "status_of_text s = Some st \<Longrightarrow> s = status_text st"
  by (auto simp: status_of_text_def find_Some_iff)

record intent_row =
  i_id :: string
  i_slug :: "string option"
  i_token :: string
  i_side :: string
  i_price :: pyfloat
  i_size :: pyfloat
  i_status :: intent_status
  i_ts :: tstamp
  i_submitted :: "tstamp option"
  i_wallet :: "string option"
  i_exch_id :: "string option"
  i_trade_id :: "string option"
  i_matched :: "pyfloat option"
  i_recon_status :: "string option"
  i_reason :: "string option"
  i_created :: tstamp
  i_updated :: tstamp

section \<open>Positions\<close>

text \<open>The keys of a position dict that record how its exit was triggered and filled.\<close>

record exit_telemetry =
  t_price_source :: "string option"
  t_mae_quality :: "string option"
  t_mae_px :: "pyfloat option"
  t_mae_pct :: "pyfloat option"
  t_mae_ts :: "tstamp option"
  t_mfe_px :: "pyfloat option"
  t_mfe_pct :: "pyfloat option"
  t_mfe_ts :: "tstamp option"
  t_sl_px :: "pyfloat option"
  t_sl_pct :: "pyfloat option"
  t_first_trigger :: "tstamp option"
  t_exit_bid :: "pyfloat option option"
  t_exit_ask :: "pyfloat option option"
  t_spread :: "pyfloat option"
  t_attempts :: int
  t_unmatched :: int
  t_sell_limit :: "pyfloat option"
  t_fill_ts :: "tstamp option"
  t_fill_px :: "pyfloat option"
  t_fill_pct :: "pyfloat option"
  t_gap_pct :: "pyfloat option"
  t_fill_secs :: "pyfloat option"
  t_current_bid :: "pyfloat option"
  t_first_exit_decision :: "tstamp option"

definition no_telemetry :: exit_telemetry where
  "no_telemetry = \<lparr>t_price_source = None, t_mae_quality = None, t_mae_px = None, t_mae_pct = None,
     t_mae_ts = None, t_mfe_px = None, t_mfe_pct = None, t_mfe_ts = None, t_sl_px = None,
     t_sl_pct = None, t_first_trigger = None, t_exit_bid = None, t_exit_ask = None,
     t_spread = None, t_attempts = 0, t_unmatched = 0, t_sell_limit = None, t_fill_ts = None,
     t_fill_px = None, t_fill_pct = None, t_gap_pct = None, t_fill_secs = None,
     t_current_bid = None, t_first_exit_decision = None\<rparr>"

record position =
  p_id :: string
  p_opened_at :: tstamp
  p_slug :: string
  p_asset :: string
  p_action :: string
  p_entry :: pyfloat
  p_fair :: pyfloat
  p_ref :: pyfloat
  p_edge :: pyfloat
  p_usd :: pyfloat
  p_kelly :: pyfloat
  p_conf :: pyfloat
  p_shares :: "pyfloat option"
  p_order_id :: "string option"
  p_yes_tok :: "string option"
  p_no_tok :: "string option"
  p_token_keys :: bool
  p_part_keys :: bool
  p_status :: string
  p_dry_run :: bool
  p_entry_hl :: "pyfloat option"
  p_ask_at_decision :: "pyfloat option"
  p_slippage :: "pyfloat option"
  p_intent :: "string option"
  p_seq :: "int option"
  p_closing :: bool
  p_confirm :: int
  p_confirm_ts :: "tstamp option"
  p_no_clob_bid :: "pyfloat option"
  p_cached_hl :: "pyfloat option"
  p_cached_secs :: "pyfloat option"
  p_part_count :: int
  p_part_shares :: "pyfloat option"
  p_part_usdc :: "pyfloat option"
  p_exit_reason :: "string option"
  p_closed_at :: "tstamp option"
  p_exit_price :: "pyfloat option"
  p_exit_hl :: "pyfloat option"
  p_pnl :: "pyfloat option"
  p_tel :: exit_telemetry

text \<open>\<open>p_token_keys\<close> says whether the dict has the keys \<open>yes_token_id\<close>, \<open>no_token_id\<close> and \<open>shares\<close> at all: a
  position opened by the dry executor has none of them. \<open>p_part_keys\<close> says whether it has the keys
  \<open>partial_fill_shares\<close> and \<open>partial_realized_usdc\<close> (with None for NULL) before any partial fill: only a
  reloaded position has.\<close>

section \<open>Execution state and the world\<close>

record es_row =
  es_paused :: bool
  es_reason :: "string option"
  es_source :: "string option"
  es_intent :: "string option"
  es_created :: "tstamp option"
  es_updated :: tstamp

datatype es_kind = TRIP | RESOLVE

record es_event =
  ev_kind :: es_kind
  ev_ts :: tstamp
  ev_old :: bool
  ev_new :: bool
  ev_reason :: "string option"
  ev_source :: "string option"
  ev_intent :: "string option"
  ev_observed :: "intent_status option"
  ev_resolved_by :: "string option"
  ev_force :: bool
  ev_verified :: bool

text \<open>Committed writes and network calls, oldest first.\<close>

datatype effect =
    EIntent string string            \<comment> \<open>intent row inserted: id, token\<close>
  | EStatus string intent_status     \<comment> \<open>intent row updated\<close>
  | EPost string string              \<comment> \<open>order sent to the exchange: intent id, token\<close>
  | EPosition string intent_status   \<comment> \<open>position inserted and intent made terminal\<close>
  | EPause

record world =
  w_intents :: "intent_row list"
  w_positions :: "position list"
  w_es :: "es_row option"
  w_events :: "es_event list"
  w_trace :: "effect list"

definition empty_world :: world where
  "empty_world = \<lparr>w_intents = [], w_positions = [], w_es = None, w_events = [], w_trace = []\<rparr>"

text \<open>A read may fail before any write, or the write itself may fail; neither leaves a change.\<close>

datatype db_fault = NoFault | ReadFault | WriteFault

definition intent_of :: "world \<Rightarrow> string \<Rightarrow> intent_row option" where
  "intent_of w iid = lookup_by i_id iid (w_intents w)"

definition status_of :: "world \<Rightarrow> string \<Rightarrow> intent_status option" where
  "status_of w iid = map_option i_status (intent_of w iid)"

definition positions_of :: "world \<Rightarrow> string \<Rightarrow> position list" where
  "positions_of w iid = filter (\<lambda>p. p_intent p = Some iid) (w_positions w)"

definition add_effect :: "effect \<Rightarrow> world \<Rightarrow> world" where
  "add_effect e w = w\<lparr>w_trace := w_trace w @ [e]\<rparr>"

lemma add_effect_simps [simp]:
  "w_intents (add_effect e w) = w_intents w"
  "w_positions (add_effect e w) = w_positions w"
  "w_es (add_effect e w) = w_es w"
  "w_events (add_effect e w) = w_events w"
  "w_trace (add_effect e w) = w_trace w @ [e]"
  by (simp_all add: add_effect_def)

lemma intent_of_add_effect [simp]: "intent_of (add_effect e w) iid = intent_of w iid"
  by (simp add: intent_of_def)

lemma status_of_add_effect [simp]: "status_of (add_effect e w) iid = status_of w iid"
  by (simp add: status_of_def)

lemma positions_of_add_effect [simp]: "positions_of (add_effect e w) iid = positions_of w iid"
  by (simp add: positions_of_def)

end
