(* ===== verification/OrderIntent.thy ===== *)
theory OrderIntent
  imports Ledger
begin

text \<open>
  \<open>execution/order_intent.py\<close>: the local idempotency record of an order. The state vocabulary and
  its three classes, the two classifications of an exchange response (\<open>classify_fill\<close>,
  \<open>classify_fak_fill\<close>), and the database operations \<open>create_intent\<close>, \<open>transition\<close>,
  \<open>has_unresolved_intent\<close> and \<open>confirm_fill_atomic\<close>, each with the database faults it can meet.
  The last part is the interface \<open>intent_ledger\<close> the executor relies on.
\<close>

section \<open>States\<close>

definition OPEN_STATES :: "intent_status list" where
  "OPEN_STATES = [FILLED, PARTIAL_FILLED]"

definition UNRESOLVED_STATES :: "intent_status list" where
  "UNRESOLVED_STATES = [SUBMITTED_UNKNOWN, RECOVERY_REQUIRED]"

definition TERMINAL_STATES :: "intent_status list" where
  "TERMINAL_STATES = [FILLED, PARTIAL_FILLED, CANCELLED, REJECTED]"

definition is_terminal :: "intent_status \<Rightarrow> bool" where
  "is_terminal s = (s \<in> set TERMINAL_STATES)"

definition is_position_open :: "intent_status \<Rightarrow> bool" where
  "is_position_open s = (s \<in> set OPEN_STATES)"

definition is_unresolved :: "intent_status \<Rightarrow> bool" where
  "is_unresolved s = (s \<in> set UNRESOLVED_STATES)"

lemma is_terminal_simps [simp, status_simps]:
  "is_terminal FILLED" "is_terminal PARTIAL_FILLED" "is_terminal CANCELLED" "is_terminal REJECTED"
  "\<not> is_terminal INTENT_CREATED" "\<not> is_terminal SUBMITTED_UNKNOWN" "\<not> is_terminal ACCEPTED"
  "\<not> is_terminal RECOVERY_REQUIRED"
  by (simp_all add: is_terminal_def TERMINAL_STATES_def)

lemma is_unresolved_simps [simp, status_simps]:
  "is_unresolved SUBMITTED_UNKNOWN" "is_unresolved RECOVERY_REQUIRED"
  "\<not> is_unresolved FILLED" "\<not> is_unresolved PARTIAL_FILLED" "\<not> is_unresolved CANCELLED"
  "\<not> is_unresolved REJECTED" "\<not> is_unresolved INTENT_CREATED" "\<not> is_unresolved ACCEPTED"
  by (simp_all add: is_unresolved_def UNRESOLVED_STATES_def)

lemma is_position_open_simps [simp, status_simps]:
  "is_position_open FILLED" "is_position_open PARTIAL_FILLED"
  "\<not> is_position_open CANCELLED" "\<not> is_position_open REJECTED"
  "\<not> is_position_open INTENT_CREATED" "\<not> is_position_open SUBMITTED_UNKNOWN"
  "\<not> is_position_open ACCEPTED" "\<not> is_position_open RECOVERY_REQUIRED"
  by (simp_all add: is_position_open_def OPEN_STATES_def)

lemma open_is_terminal: "is_position_open s \<Longrightarrow> is_terminal s"
  by (cases s) simp_all

lemma unresolved_not_terminal: "is_unresolved s \<Longrightarrow> \<not> is_terminal s"
  by (cases s) simp_all

section \<open>Classifying the exchange response\<close>

definition zero_f :: pyfloat where
  "zero_f = Fin 0"

definition float_or_0 :: "pyval \<Rightarrow> pyfloat result" where
  "float_or_0 v = (if py_truthy v then float_of_val v else Inr zero_f)"

definition str_truthy :: "string option \<Rightarrow> bool" where
  "str_truthy s = (case s of None \<Rightarrow> False | Some t \<Rightarrow> t \<noteq> [])"

definition classify_fill ::
  "string option \<Rightarrow> pyval \<Rightarrow> pyval \<Rightarrow> string option \<Rightarrow> bool
     \<Rightarrow> (intent_status \<times> pyfloat \<times> string option) result" where
  "classify_fill status taking_amount requested_size order_id exception =
    (if exception then Inr (SUBMITTED_UNKNOWN, zero_f, Some ''timeout'') else
     let s = py_lower (case status of None \<Rightarrow> [] | Some t \<Rightarrow> t);
         live = (s \<in> set [''live'', ''delayed'', ''accepted''] \<or> str_truthy order_id);
         no_fill = (if live then (ACCEPTED, zero_f, Some ''no_fill_proof'')
                    else (CANCELLED, zero_f, Some ''FAK_ZERO_FILL''))
     in rbind (float_or_0 taking_amount) (\<lambda>taking.
        if s = ''matched'' \<and> flt zero_f taking then
          rbind (float_of_val requested_size) (\<lambda>req.
            if fle (fmul req (flit 0.999)) taking then Inr (FILLED, taking, None)
            else Inr (PARTIAL_FILLED, taking, None))
        else Inr no_fill))"

datatype fak_kind = RECOVERY | BLOCK_UNKNOWN | TERMINAL_ZERO | OPEN_FILLED | OPEN_PARTIAL

record fak_decision =
  fk_kind :: fak_kind
  fk_state :: intent_status
  fk_shares :: "dec option"
  fk_spent :: "dec option"
  fk_price :: "dec option"
  fk_reason :: "string option"

definition RESTING_STATUSES :: "string list" where
  "RESTING_STATUSES = [''live'', ''delayed'', ''open'', ''resting'']"

definition FILL_DUST_TOLERANCE_USD :: dec where
  "FILL_DUST_TOLERANCE_USD = DFin 0.000001"

text \<open>\<open>str(status).strip().lower()\<close>; the text of a value that is not a string is never one of
  the four resting statuses, so it is represented by the empty text.\<close>

definition norm_status_text :: "pyval \<Rightarrow> string" where
  "norm_status_text v = (case v of PStr s \<Rightarrow> py_lower (py_strip s) | _ \<Rightarrow> [])"

definition classify_fak_fill ::
  "pyval \<Rightarrow> pyval \<Rightarrow> pyval \<Rightarrow> pyfloat \<Rightarrow> pyval \<Rightarrow> fak_decision result" where
  "classify_fak_fill status taking_amount making_amount requested_usd order_id =
    (let status_norm = norm_status_text status in
     rbind (if taking_amount = PNone then Inr (DFin 0) else dec_of_val taking_amount) (\<lambda>taking.
     rbind (if making_amount = PNone then Inr None else rbind (dec_of_val making_amount) (\<lambda>m. Inr (Some m)))
      (\<lambda>making.
     let req = dec_of_float requested_usd in
     if status_norm \<in> set RESTING_STATUSES then
       Inr \<lparr>fk_kind = RECOVERY, fk_state = RECOVERY_REQUIRED, fk_shares = None, fk_spent = None,
            fk_price = None, fk_reason = Some ''FAK_INVARIANT_BREACH_RESTING''\<rparr>
     else rbind (dle taking (DFin 0)) (\<lambda>no_shares.
     if no_shares then
       (if py_truthy order_id then
          Inr \<lparr>fk_kind = BLOCK_UNKNOWN, fk_state = SUBMITTED_UNKNOWN, fk_shares = None,
               fk_spent = None, fk_price = None, fk_reason = Some ''no_fill_proof''\<rparr>
        else Inr \<lparr>fk_kind = TERMINAL_ZERO, fk_state = CANCELLED, fk_shares = Some (DFin 0),
               fk_spent = Some (DFin 0), fk_price = None, fk_reason = Some ''FAK_ZERO_FILL''\<rparr>)
     else rbind (case making of None \<Rightarrow> Inr True | Some m \<Rightarrow> dle m (DFin 0)) (\<lambda>no_cost.
     if no_cost then
       Inr \<lparr>fk_kind = RECOVERY, fk_state = RECOVERY_REQUIRED, fk_shares = Some taking,
            fk_spent = None, fk_price = None, fk_reason = Some ''FILL_COST_MISSING''\<rparr>
     else (case making of None \<Rightarrow> Inl TypeError | Some m \<Rightarrow>
       rbind (ddiv m taking) (\<lambda>q. rbind (dquantize 6 q) (\<lambda>fill_price.
       rbind (dadd m FILL_DUST_TOLERANCE_USD) (\<lambda>mt. rbind (dle req mt) (\<lambda>full.
         Inr \<lparr>fk_kind = (if full then OPEN_FILLED else OPEN_PARTIAL),
              fk_state = (if full then FILLED else PARTIAL_FILLED),
              fk_shares = Some taking, fk_spent = Some m, fk_price = Some fill_price,
              fk_reason = None\<rparr>)))))))))) "

section \<open>Database operations\<close>

record trans_args =
  ta_server :: "string option"
  ta_trade :: "string option"
  ta_size :: "pyfloat option"
  ta_reason :: "string option"
  ta_submitted :: "tstamp option"

definition no_args :: trans_args where
  "no_args = \<lparr>ta_server = None, ta_trade = None, ta_size = None, ta_reason = None, ta_submitted = None\<rparr>"

definition create_intent ::
  "db_fault \<Rightarrow> tstamp \<Rightarrow> string \<Rightarrow> string \<Rightarrow> string \<Rightarrow> pyfloat \<Rightarrow> pyfloat \<Rightarrow> string option
     \<Rightarrow> string option \<Rightarrow> world \<Rightarrow> string result \<times> world" where
  "create_intent dbf now iid token side price sz slug wallet w =
    (if dbf \<noteq> NoFault then (Inl DbError, w)
     else if iid \<in> i_id ` set (w_intents w) then (Inl IntegrityError, w)
     else (Inr iid, add_effect (EIntent iid token)
       (w\<lparr>w_intents := w_intents w @
           [\<lparr>i_id = iid, i_slug = slug, i_token = token, i_side = side, i_price = price,
             i_size = sz, i_status = INTENT_CREATED, i_ts = now, i_submitted = None,
             i_wallet = wallet, i_exch_id = None, i_trade_id = None, i_matched = None,
             i_recon_status = None, i_reason = None, i_created = now, i_updated = now\<rparr>]\<rparr>)))"

definition or_else :: "'a option \<Rightarrow> 'a option \<Rightarrow> 'a option" where
  "or_else new old = (case new of None \<Rightarrow> old | Some _ \<Rightarrow> new)"

definition set_transition :: "tstamp \<Rightarrow> intent_status \<Rightarrow> trans_args \<Rightarrow> intent_row \<Rightarrow> intent_row" where
  "set_transition now st a r = r\<lparr>i_status := st, i_updated := now,
     i_exch_id := or_else (ta_server a) (i_exch_id r),
     i_trade_id := or_else (ta_trade a) (i_trade_id r),
     i_matched := or_else (ta_size a) (i_matched r),
     i_reason := or_else (ta_reason a) (i_reason r),
     i_recon_status := (if st \<in> set UNRESOLVED_STATES then Some ''pending'' else i_recon_status r),
     i_submitted := or_else (ta_submitted a) (i_submitted r)\<rparr>"

text \<open>A blocked transition returns without an error and without a change. The code reads the status and
  writes the update over a connection each; it is one step here, so no other writer of the same intent may
  come between the two: in the bot an intent is written only by the call that made it.\<close>

definition transition ::
  "db_fault \<Rightarrow> tstamp \<Rightarrow> string \<Rightarrow> string \<Rightarrow> trans_args \<Rightarrow> world \<Rightarrow> unit result \<times> world" where
  "transition dbf now iid new_state a w =
    (case status_of_text new_state of None \<Rightarrow> (Inl ValueError, w)
     | Some st \<Rightarrow>
       if dbf = ReadFault then (Inl DbError, w) else
       (case status_of w iid of
          Some cur \<Rightarrow>
            if is_terminal cur \<and> cur \<noteq> st then (Inr (), w)
            else if dbf = WriteFault then (Inl DbError, w)
            else (Inr (), add_effect (EStatus iid st)
              (w\<lparr>w_intents := update_where (\<lambda>r. i_id r = iid) (set_transition now st a) (w_intents w)\<rparr>))
        | None \<Rightarrow> if dbf = WriteFault then (Inl DbError, w) else (Inr (), w)))"

definition has_unresolved_intent :: "db_fault \<Rightarrow> string \<Rightarrow> world \<Rightarrow> bool result" where
  "has_unresolved_intent dbf token w =
    (if dbf \<noteq> NoFault then Inl DbError
     else Inr (0 < length (filter (\<lambda>r. i_token r = token \<and> i_status r \<in> set UNRESOLVED_STATES)
        (w_intents w))))"

datatype confirm_result = OPENED | DUPLICATE

text \<open>Where the transaction of \<open>confirm_fill_atomic\<close> fails, if it does; a fault of a statement
  inside the transaction carries the exception.\<close>

datatype confirm_fault = CNone | CBegin exn | CStatement exn

definition next_seq :: "world \<Rightarrow> int" where
  "next_seq w = (let ns = List.map_filter p_seq (w_positions w)
     in if ns = [] then 1 else Max (set ns) + 1)"

definition intent_has_position :: "string \<Rightarrow> world \<Rightarrow> bool" where
  "intent_has_position iid w = list_ex (\<lambda>p. p_intent p = Some iid) (w_positions w)"

definition confirm_commit ::
  "bool \<Rightarrow> tstamp \<Rightarrow> string \<Rightarrow> position \<Rightarrow> intent_status \<Rightarrow> world \<Rightarrow> world" where
  "confirm_commit dry_run now iid row st w = add_effect (EPosition iid st)
    (w\<lparr>w_positions := w_positions w @
          [row\<lparr>p_dry_run := dry_run, p_intent := Some iid, p_seq := Some (next_seq w)\<rparr>],
       w_intents := update_where (\<lambda>r. i_id r = iid)
          (\<lambda>r. r\<lparr>i_status := st, i_matched := p_shares row, i_exch_id := p_order_id row, i_updated := now\<rparr>)
          (w_intents w)\<rparr>)"

definition confirm_fill_atomic ::
  "confirm_fault \<Rightarrow> bool \<Rightarrow> tstamp \<Rightarrow> string \<Rightarrow> position \<Rightarrow> intent_status \<Rightarrow> world
     \<Rightarrow> confirm_result result \<times> world" where
  "confirm_fill_atomic dbf dry_run now iid row terminal_state w =
    (if terminal_state \<notin> set [FILLED, PARTIAL_FILLED] then (Inl ValueError, w) else
     case dbf of CBegin e \<Rightarrow> (Inl e, w)
     | _ \<Rightarrow>
       if intent_has_position iid w then (Inr DUPLICATE, w) else
       (let stmt = (case dbf of CStatement e \<Rightarrow> Some e
             | _ \<Rightarrow> if p_id row \<in> p_id ` set (w_positions w) then Some IntegrityError else None)
        in case stmt of
             None \<Rightarrow> (Inr OPENED, confirm_commit dry_run now iid row terminal_state w)
           | Some IntegrityError \<Rightarrow>
               (if intent_has_position iid w then (Inr DUPLICATE, w) else (Inl IntegrityError, w))
           | Some e \<Rightarrow> (Inl e, w)))"

section \<open>What the operations do\<close>

lemma set_transition_simps [simp]:
  "i_id (set_transition now st a r) = i_id r"
  "i_status (set_transition now st a r) = st"
  "i_token (set_transition now st a r) = i_token r"
  by (simp_all add: set_transition_def)

lemma intent_has_position_iff:
  "intent_has_position iid w \<longleftrightarrow> (\<exists>p \<in> set (w_positions w). p_intent p = Some iid)"
  by (simp add: intent_has_position_def list_ex_iff)

lemma intent_has_position_positions: "intent_has_position iid w \<longleftrightarrow> positions_of w iid \<noteq> []"
  by (simp add: intent_has_position_iff positions_of_def filter_empty_conv)

lemma has_unresolved_iff:
  "has_unresolved_intent NoFault token w =
     Inr (\<exists>r \<in> set (w_intents w). i_token r = token \<and> is_unresolved (i_status r))"
  by (auto simp: has_unresolved_intent_def is_unresolved_def filter_empty_conv)

lemma has_unresolved_fault: "dbf \<noteq> NoFault \<Longrightarrow> has_unresolved_intent dbf token w = Inl DbError"
  by (simp add: has_unresolved_intent_def)

lemma create_intent_cases:
  obtains (fail) e where "create_intent dbf now iid token side price sz slug wallet w = (Inl e, w)"
  | (ok) w' r where "create_intent dbf now iid token side price sz slug wallet w = (Inr iid, w')"
      "dbf = NoFault" "iid \<notin> i_id ` set (w_intents w)"
      "w_intents w' = w_intents w @ [r]" "i_id r = iid" "i_token r = token" "i_status r = INTENT_CREATED"
      "w_positions w' = w_positions w" "w_es w' = w_es w" "w_events w' = w_events w"
      "w_trace w' = w_trace w @ [EIntent iid token]"
  by (cases "dbf = NoFault"; cases "iid \<in> i_id ` set (w_intents w)")
    (auto simp: create_intent_def)

lemma transition_frame [simp]:
  "w_positions (snd (transition dbf now iid s a w)) = w_positions w"
  "w_es (snd (transition dbf now iid s a w)) = w_es w"
  "w_events (snd (transition dbf now iid s a w)) = w_events w"
  by (simp_all add: transition_def split: option.split)

lemma transition_ids [simp]:
  "map i_id (w_intents (snd (transition dbf now iid s a w))) = map i_id (w_intents w)"
  "map i_token (w_intents (snd (transition dbf now iid s a w))) = map i_token (w_intents w)"
  by (simp_all add: transition_def table_simps split: option.split)

lemma transition_status_other [simp]:
  "iid' \<noteq> iid \<Longrightarrow> status_of (snd (transition dbf now iid s a w)) iid' = status_of w iid'"
  by (simp add: transition_def status_of_def intent_of_def table_simps split: option.split)

lemma transition_ok:
  assumes "status_of w iid = Some cur" "\<not> is_terminal cur \<or> cur = st"
  shows "fst (transition NoFault now iid (status_text st) a w) = Inr ()"
    and "status_of (snd (transition NoFault now iid (status_text st) a w)) iid = Some st"
    and "w_trace (snd (transition NoFault now iid (status_text st) a w)) = w_trace w @ [EStatus iid st]"
  using assms by (auto simp: transition_def status_of_def intent_of_def table_simps)

lemma transition_error_unchanged: "fst (transition dbf now iid s a w) = Inl e \<Longrightarrow> snd (transition dbf now iid s a w) = w"
  by (auto simp: transition_def split: option.splits if_splits)

lemma transition_status_same:
  "fst (transition dbf now iid (status_text st) a w) = Inr () \<Longrightarrow> status_of w iid = Some cur \<Longrightarrow>
   status_of (snd (transition dbf now iid (status_text st) a w)) iid =
     Some (if is_terminal cur \<and> cur \<noteq> st then cur else st)"
  by (auto simp: transition_def status_of_def intent_of_def table_simps split: if_splits)

lemma transition_ok_trace:
  "fst (transition dbf now iid (status_text st) a w) = Inr () \<Longrightarrow> status_of w iid = Some cur \<Longrightarrow>
   \<not> is_terminal cur \<Longrightarrow>
   w_trace (snd (transition dbf now iid (status_text st) a w)) = w_trace w @ [EStatus iid st]"
  by (auto simp: transition_def split: if_splits)

section \<open>The interface the executor relies on\<close>

text \<open>
  An idempotency ledger: creation is fresh, advancing an intent is monotone at the terminal states and
  touches no other intent, and a token is blocked exactly while an intent of it is unresolved.
\<close>

locale intent_ledger =
  fixes wf :: "'w \<Rightarrow> bool"
    and status :: "'w \<Rightarrow> string \<Rightarrow> intent_status option"
    and token :: "'w \<Rightarrow> string \<Rightarrow> string option"
    and create :: "string \<Rightarrow> string \<Rightarrow> 'w \<Rightarrow> 'w option"
    and advance :: "string \<Rightarrow> intent_status \<Rightarrow> 'w \<Rightarrow> 'w option"
    and blocked :: "string \<Rightarrow> 'w \<Rightarrow> bool"
  assumes create_wf: "wf w \<Longrightarrow> create iid tok w = Some w' \<Longrightarrow> wf w'"
    and create_fresh: "create iid tok w = Some w' \<Longrightarrow> status w iid = None"
    and create_status: "create iid tok w = Some w' \<Longrightarrow>
      status w' k = (if k = iid then Some INTENT_CREATED else status w k)"
    and create_token: "create iid tok w = Some w' \<Longrightarrow>
      token w' k = (if k = iid then Some tok else token w k)"
    and advance_wf: "wf w \<Longrightarrow> advance iid st w = Some w' \<Longrightarrow> wf w'"
    and advance_status: "advance iid st w = Some w' \<Longrightarrow> status w iid = Some cur \<Longrightarrow>
      status w' iid = Some (if is_terminal cur \<and> cur \<noteq> st then cur else st)"
    and advance_other: "advance iid st w = Some w' \<Longrightarrow> k \<noteq> iid \<Longrightarrow> status w' k = status w k"
    and advance_token: "advance iid st w = Some w' \<Longrightarrow> token w' k = token w k"
    and blocked_iff: "wf w \<Longrightarrow> blocked tok w \<longleftrightarrow>
      (\<exists>k st. token w k = Some tok \<and> status w k = Some st \<and> is_unresolved st)"
begin

fun run :: "(string \<times> intent_status) list \<Rightarrow> 'w \<Rightarrow> 'w option" where
  "run [] w = Some w"
| "run ((iid, st) # steps) w = (case advance iid st w of None \<Rightarrow> None | Some w' \<Rightarrow> run steps w')"

text \<open>A terminal status is never left.\<close>

lemma terminal_stable:
  "run steps w = Some w' \<Longrightarrow> status w k = Some st \<Longrightarrow> is_terminal st \<Longrightarrow>
   status w' k = Some st"
proof (induction steps arbitrary: w)
  case (Cons x steps)
  obtain iid s where x: "x = (iid, s)" by (cases x)
  with Cons.prems obtain w1 where w1: "advance iid s w = Some w1" "run steps w1 = Some w'"
    by (auto split: option.splits)
  have "status w1 k = Some st"
    using advance_status [OF w1(1)] advance_other [OF w1(1)] Cons.prems by (cases "k = iid") auto
  then show ?case using Cons.IH w1(2) Cons.prems by blast
qed simp

text \<open>Writing ahead blocks the token: after a create and the move to \<open>SUBMITTED_UNKNOWN\<close>, no other
  submission for the token can pass the guard.\<close>

lemma write_ahead_blocks:
  assumes "wf w" "create iid tok w = Some w1" "advance iid SUBMITTED_UNKNOWN w1 = Some w2"
  shows "blocked tok w2" and "status w2 iid = Some SUBMITTED_UNKNOWN"
proof -
  have s1: "status w1 iid = Some INTENT_CREATED" using create_status [OF assms(2)] by simp
  then show s2: "status w2 iid = Some SUBMITTED_UNKNOWN" using advance_status [OF assms(3)] by simp
  have "token w2 iid = Some tok"
    using advance_token [OF assms(3)] create_token [OF assms(2)] by simp
  moreover have "wf w2" using assms create_wf advance_wf by blast
  ultimately show "blocked tok w2" using s2 blocked_iff by force
qed

text \<open>An unresolved intent keeps its token blocked until it is advanced itself.\<close>

lemma blocked_until_advanced:
  assumes "wf w" "token w k = Some tok" "status w k = Some st" "is_unresolved st"
    and "run steps w = Some w'" "k \<notin> fst ` set steps"
  shows "blocked tok w'"
  using assms
proof (induction steps arbitrary: w)
  case (Cons x steps)
  obtain iid s where x: "x = (iid, s)" by (cases x)
  with Cons.prems obtain w1 where w1: "advance iid s w = Some w1" "run steps w1 = Some w'"
    by (auto split: option.splits)
  have "k \<noteq> iid" "k \<notin> fst ` set steps" using Cons.prems(6) x by auto
  then show ?case
    using Cons.IH [of w1] Cons.prems w1 advance_other [OF w1(1)] advance_token [OF w1(1)] advance_wf
    by simp
qed (use blocked_iff in force)

end

definition intents_distinct :: "world \<Rightarrow> bool" where
  "intents_distinct w = distinct (map i_id (w_intents w))"

definition token_of :: "world \<Rightarrow> string \<Rightarrow> string option" where
  "token_of w iid = map_option i_token (intent_of w iid)"

definition ok_world :: "'a result \<times> world \<Rightarrow> world option" where
  "ok_world r = (case r of (Inr _, w) \<Rightarrow> Some w | (Inl _, w) \<Rightarrow> None)"

definition blocked_token :: "string \<Rightarrow> world \<Rightarrow> bool" where
  "blocked_token tok w = (has_unresolved_intent NoFault tok w = Inr True)"

lemma create_intent_world:
  "create_intent dbf now iid token side price sz slug wallet w = (Inr x, w') \<Longrightarrow>
   x = iid \<and> status_of w iid = None \<and> iid \<notin> i_id ` set (w_intents w) \<and>
   w_positions w' = w_positions w \<and> w_es w' = w_es w \<and> w_events w' = w_events w \<and>
   w_trace w' = w_trace w @ [EIntent iid token] \<and>
   map i_id (w_intents w') = map i_id (w_intents w) @ [iid] \<and>
   status_of w' k = (if k = iid then Some INTENT_CREATED else status_of w k) \<and>
   token_of w' k = (if k = iid then Some token else token_of w k)"
  by (auto simp: create_intent_def status_of_def token_of_def intent_of_def lookup_by_append
      lookup_by_None_iff [THEN iffD2] split: if_splits option.splits)

lemma transition_token [simp]: "token_of (snd (transition dbf now iid s a w)) k = token_of w k"
  by (auto simp: transition_def token_of_def intent_of_def table_simps option.map_comp comp_def split: option.split)

lemma transition_intents_distinct [simp]:
  "intents_distinct (snd (transition dbf now iid s a w)) = intents_distinct w"
  by (simp add: intents_distinct_def)

lemma blocked_token_iff:
  assumes "intents_distinct w"
  shows "blocked_token tok w \<longleftrightarrow>
    (\<exists>k st. token_of w k = Some tok \<and> status_of w k = Some st \<and> is_unresolved st)"
proof -
  have "r \<in> set (w_intents w) \<longleftrightarrow> intent_of w (i_id r) = Some r" for r
    using assms lookup_by_unique [of i_id "w_intents w" r]
    by (auto simp: intents_distinct_def intent_of_def dest: lookup_by_SomeD)
  then have "blocked_token tok w \<longleftrightarrow> (\<exists>r. intent_of w (i_id r) = Some r \<and> i_token r = tok \<and> is_unresolved (i_status r))"
    by (auto simp: blocked_token_def has_unresolved_iff)
  also have "\<dots> \<longleftrightarrow> (\<exists>k r. intent_of w k = Some r \<and> i_token r = tok \<and> is_unresolved (i_status r))"
    by (auto simp: intent_of_def dest: lookup_by_SomeD)
  finally show ?thesis by (auto simp: token_of_def status_of_def)
qed

lemma ok_world_SomeD: "ok_world r = Some w \<Longrightarrow> w = snd r \<and> (\<exists>x. fst r = Inr x)"
  by (cases r) (auto simp: ok_world_def split: sum.splits)

interpretation il: intent_ledger intents_distinct status_of token_of
    "\<lambda>iid tok w. ok_world (create_intent dbf now iid tok side price sz slug wallet w)"
    "\<lambda>iid st w. ok_world (transition dbf' now' iid (status_text st) a w)"
    blocked_token
  for dbf now side price sz slug wallet dbf' now' a
proof (unfold_locales, goal_cases)
  case (1 w iid tok w')
  then show ?case
    by (auto simp: ok_world_def intents_distinct_def dest!: create_intent_world split: prod.splits sum.splits)
next
  case (2 iid tok w w')
  then show ?case by (auto simp: ok_world_def dest: create_intent_world split: prod.splits sum.splits)
next
  case (3 iid tok w w' k)
  then show ?case
    by (auto simp: ok_world_def dest: create_intent_world [of _ _ _ _ _ _ _ _ _ _ _ _ k] split: prod.splits sum.splits)
next
  case (4 iid tok w w' k)
  then show ?case
    by (auto simp: ok_world_def dest: create_intent_world [of _ _ _ _ _ _ _ _ _ _ _ _ k] split: prod.splits sum.splits)
next
  case (5 w iid st w')
  then show ?case by (auto dest!: ok_world_SomeD)
next
  case (6 iid st w w' cur)
  then show ?case using transition_status_same [of dbf' now' iid st a w cur] by (auto dest!: ok_world_SomeD)
next
  case (7 iid st w w' k)
  then show ?case by (auto dest!: ok_world_SomeD)
next
  case (8 iid st w w' k)
  then show ?case by (auto dest!: ok_world_SomeD)
next
  case (9 w tok)
  then show ?case by (rule blocked_token_iff)
qed

section \<open>Properties\<close>

lemma confirm_commit_simps [simp]:
  "positions_of (confirm_commit dry_run now iid row st w) k = positions_of w k @
     (if k = iid then [row\<lparr>p_dry_run := dry_run, p_intent := Some iid, p_seq := Some (next_seq w)\<rparr>] else [])"
  "status_of (confirm_commit dry_run now iid row st w) k =
     (if k = iid then map_option (\<lambda>_. st) (status_of w k) else status_of w k)"
  "map i_id (w_intents (confirm_commit dry_run now iid row st w)) = map i_id (w_intents w)"
  "w_trace (confirm_commit dry_run now iid row st w) = w_trace w @ [EPosition iid st]"
  "w_es (confirm_commit dry_run now iid row st w) = w_es w"
  "w_events (confirm_commit dry_run now iid row st w) = w_events w"
  by (simp_all add: confirm_commit_def positions_of_def status_of_def intent_of_def table_simps
      option.map_comp comp_def)

lemma confirm_fill_cases [case_names opened other]:
  obtains "confirm_fill_atomic dbf dry_run now iid row st w =
      (Inr OPENED, confirm_commit dry_run now iid row st w)"
      "st \<in> {FILLED, PARTIAL_FILLED}" "\<not> intent_has_position iid w" "p_id row \<notin> p_id ` set (w_positions w)"
  | r where "confirm_fill_atomic dbf dry_run now iid row st w = (r, w)" "r \<noteq> Inr OPENED"
      "r = Inr DUPLICATE \<Longrightarrow> intent_has_position iid w"
proof (cases "snd (confirm_fill_atomic dbf dry_run now iid row st w) = w \<and>
    fst (confirm_fill_atomic dbf dry_run now iid row st w) \<noteq> Inr OPENED \<and>
    (fst (confirm_fill_atomic dbf dry_run now iid row st w) = Inr DUPLICATE \<longrightarrow> intent_has_position iid w)")
  case True
  then show thesis using that(2) by (metis prod.collapse)
next
  case False
  then show thesis using that(1)
    by (auto simp: confirm_fill_atomic_def Let_def split: if_splits confirm_fault.splits exn.splits option.splits)
qed

lemma confirm_opened_commit:
  "confirm_fill_atomic dbf dry_run now iid row st w = (Inr OPENED, w') \<Longrightarrow>
   w' = confirm_commit dry_run now iid row st w \<and> st \<in> {FILLED, PARTIAL_FILLED} \<and> positions_of w iid = []"
  by (cases rule: confirm_fill_cases [of dbf dry_run now iid row st w]) (auto simp: intent_has_position_positions)

text \<open>C18: Confirming a fill is all or nothing. When it reports \<open>OPENED\<close>, the intent had no position before,
  has exactly the given one after, and (if it exists) carries the terminal status of the fill; a
  repetition with any row, status among the two fill statuses and clock finds a \<open>DUPLICATE\<close> and changes
  nothing. Every other outcome leaves the database as it was.\<close>

theorem confirm_fill_all_or_nothing:
  "case confirm_fill_atomic dbf dry_run now iid row st w of (r, w') \<Rightarrow>
     (if r = Inr OPENED then
        positions_of w iid = [] \<and> map p_id (positions_of w' iid) = [p_id row] \<and>
        st \<in> {FILLED, PARTIAL_FILLED} \<and> status_of w' iid = map_option (\<lambda>_. st) (status_of w iid) \<and>
        confirm_fill_atomic CNone dry_run' now' iid row' st w' = (Inr DUPLICATE, w')
      else w' = w)"
proof (cases rule: confirm_fill_cases [of dbf dry_run now iid row st w])
  case opened
  have "intent_has_position iid (confirm_commit dry_run now iid row st w)"
    by (simp add: intent_has_position_positions)
  then have "confirm_fill_atomic CNone dry_run' now' iid row' st (confirm_commit dry_run now iid row st w) =
      (Inr DUPLICATE, confirm_commit dry_run now iid row st w)"
    using opened(2) by (auto simp: confirm_fill_atomic_def)
  then show ?thesis using opened by (simp add: intent_has_position_positions)
next
  case (other r)
  then show ?thesis by simp
qed

lemma transition_terminal:
  assumes "status_of w k = Some cur" "is_terminal cur \<or> k \<noteq> iid"
  shows "status_of (snd (transition dbf now iid s a w)) k = Some cur"
proof (cases "k = iid")
  case True
  then show ?thesis using assms
    by (auto simp: transition_def status_of_def intent_of_def table_simps split: option.splits)
qed (use assms in simp)

text \<open>C19: The terminal statuses are final: no transition, whatever its arguments and faults, moves an
  intent out of a terminal status, and no other intent is affected by it.\<close>

theorem transition_monotone:
  assumes "status_of w k = Some cur" "is_terminal cur \<or> k \<noteq> iid"
  shows "status_of (snd (transition dbf now iid s a w)) k = Some cur"
  using assms by (rule transition_terminal)

definition sample_intent :: "string \<Rightarrow> string \<Rightarrow> intent_status \<Rightarrow> intent_row" where
  "sample_intent iid tok st = \<lparr>i_id = iid, i_slug = None, i_token = tok, i_side = ''BUY'', i_price = flit 0.5,
     i_size = Fin 5, i_status = st, i_ts = 0, i_submitted = None, i_wallet = None, i_exch_id = None,
     i_trade_id = None, i_matched = None, i_recon_status = None, i_reason = None, i_created = 0,
     i_updated = 0\<rparr>"

definition sample_world :: "intent_status \<Rightarrow> world" where
  "sample_world st = empty_world\<lparr>w_intents := [sample_intent ''i1'' ''t1'' st]\<rparr>"

lemma sample_world_status: "status_of (sample_world st) ''i1'' = Some st"
  by (simp add: sample_world_def sample_intent_def status_of_def intent_of_def)

lemma transition_monotone_witness:
  "status_of (snd (transition NoFault 9 ''i1'' ''ACCEPTED'' no_args (sample_world FILLED))) ''i1'' = Some FILLED"
  using transition_monotone [OF sample_world_status, of FILLED "''i1''"] by simp

text \<open>A response of the exchange is booked as an open fill only when it shows shares and a cost: both
  amounts are positive, the order is not resting on the book, the shares and the cost booked are the
  ones reported, and the fill is complete exactly when the cost reaches the requested amount up to the
  dust tolerance.\<close>

theorem classify_open_needs_proof:
  assumes "classify_fak_fill status taking making usd oid = Inr d"
    and "fk_kind d \<in> {OPEN_FILLED, OPEN_PARTIAL}"
  shows "\<exists>t m mt. dec_of_val taking = Inr t \<and> dec_of_val making = Inr m \<and>
     dlt (DFin 0) t = Inr True \<and> dlt (DFin 0) m = Inr True \<and>
     norm_status_text status \<notin> set RESTING_STATUSES \<and>
     fk_shares d = Some t \<and> fk_spent d = Some m \<and> dadd m FILL_DUST_TOLERANCE_USD = Inr mt \<and>
     (fk_state d = FILLED \<longleftrightarrow> dle (dec_of_float usd) mt = Inr True) \<and>
     fk_state d \<in> {FILLED, PARTIAL_FILLED}"
  using assms unfolding classify_fak_fill_def
  by (auto simp: rbind_eq_Inr Let_def dle_total split: if_splits option.splits)

lemma classify_open_needs_proof_witness:
  "\<exists>d. classify_fak_fill (PStr ''MATCHED'') (PStr ''10'') (PStr ''5'') (Fin 5) (PStr ''0x1'') = Inr d \<and>
     fk_state d = FILLED"
proof -
  have "case classify_fak_fill (PStr ''MATCHED'') (PStr ''10'') (PStr ''5'') (Fin 5) (PStr ''0x1'') of
      Inr d \<Rightarrow> fk_kind d = OPEN_FILLED \<and> fk_spent d = Some (DFin 5) | _ \<Rightarrow> False" by code_simp
  then obtain d where d: "classify_fak_fill (PStr ''MATCHED'') (PStr ''10'') (PStr ''5'') (Fin 5) (PStr ''0x1'') = Inr d"
    "fk_kind d \<in> {OPEN_FILLED, OPEN_PARTIAL}" "fk_spent d = Some (DFin 5)" by (auto split: sum.splits)
  have e: "dadd (DFin 5) FILL_DUST_TOLERANCE_USD = Inr (DFin 5.000001)"
    "dle (dec_of_float (Fin 5)) (DFin 5.000001) = Inr True" by code_simp+
  show ?thesis using classify_open_needs_proof [OF d(1,2)] d(1,3) e by auto
qed

end
