(* ===== verification/Reconciliation.thy ===== *)
theory Reconciliation
  imports OrderIntent
begin

text \<open>
  \<open>execution/reconciliation.py\<close>: what became of an intent, from the trades of the account. Times
  are epoch seconds; prices and sizes are whatever scalar the payload holds, read by
  \<open>Decimal(str(x))\<close>.
\<close>

record trade =
  tr_id :: "string option"
  tr_asset :: "string option"
  tr_side :: "string option"
  tr_time :: "int option"
  tr_price :: pyval
  tr_size :: pyval

definition side_match :: "string \<Rightarrow> string option \<Rightarrow> bool" where
  "side_match intent_side trade_side =
    (let ts = py_upper (case trade_side of None \<Rightarrow> [] | Some s \<Rightarrow> s) in
     (intent_side = ''TAKER_BUY'' \<and> ts = ''BUY'') \<or> (intent_side = ''TAKER_SELL'' \<and> ts = ''SELL''))"

definition directional_ok :: "string \<Rightarrow> dec \<Rightarrow> dec \<Rightarrow> bool result" where
  "directional_ok intent_side exec_price limit =
    (if intent_side = ''TAKER_BUY'' then dle exec_price limit
     else if intent_side = ''TAKER_SELL'' then dle limit exec_price
     else Inr False)"

definition in_window :: "int \<Rightarrow> int \<Rightarrow> int option \<Rightarrow> bool" where
  "in_window intent_ts window_s t =
     (case t of None \<Rightarrow> False | Some t' \<Rightarrow> \<not> (t' < intent_ts \<or> t' - intent_ts > window_s))"

definition is_candidate :: "string \<Rightarrow> string \<Rightarrow> int \<Rightarrow> int \<Rightarrow> string option list \<Rightarrow> trade \<Rightarrow> bool" where
  "is_candidate side token intent_ts window_s already tr =
     (tr_id tr \<notin> set already \<and> tr_asset tr = Some token \<and> side_match side (tr_side tr) \<and>
      in_window intent_ts window_s (tr_time tr))"

text \<open>One pass of the loop: the ids, the total size and the notional gathered so far.\<close>

fun recon_scan ::
  "string \<Rightarrow> dec \<Rightarrow> string \<Rightarrow> int \<Rightarrow> int \<Rightarrow> string option list \<Rightarrow> trade list
    \<Rightarrow> string option list \<times> dec \<times> dec \<Rightarrow> (string option list \<times> dec \<times> dec) result" where
  "recon_scan side limit token its win already [] acc = Inr acc"
| "recon_scan side limit token its win already (tr # trs) (ids, tot, notional) =
    (if \<not> is_candidate side token its win already tr
     then recon_scan side limit token its win already trs (ids, tot, notional)
     else rbind (dec_of_val (tr_price tr)) (\<lambda>price. rbind (dec_of_val (tr_size tr)) (\<lambda>sz.
       rbind (dle sz (DFin 0)) (\<lambda>empty_fill.
       if empty_fill then recon_scan side limit token its win already trs (ids, tot, notional)
       else rbind (directional_ok side price limit) (\<lambda>ours.
       if \<not> ours then recon_scan side limit token its win already trs (ids, tot, notional)
       else rbind (dadd tot sz) (\<lambda>tot'. rbind (dmul price sz) (\<lambda>n. rbind (dadd notional n) (\<lambda>notional'.
         recon_scan side limit token its win already trs (ids @ [tr_id tr], tot', notional')))))))))"

record recon_decision =
  rc_state :: intent_status
  rc_size :: dec
  rc_avg :: "dec option"
  rc_ids :: "string option list"
  rc_reason :: "string option"
  rc_pause :: bool

definition recon_verdict ::
  "dec \<Rightarrow> int \<Rightarrow> int \<Rightarrow> int \<Rightarrow> string option list \<times> dec \<times> dec \<Rightarrow> recon_decision result" where
  "recon_verdict intended its now_ts win acc = (case acc of (ids, tot, notional) \<Rightarrow>
    rbind (dlt (DFin 0) tot) (\<lambda>some.
    rbind (if some then rbind (ddiv notional tot) (\<lambda>q. rbind (dquantize 4 q) (\<lambda>a. Inr (Some a))) else Inr None)
      (\<lambda>avg.
    rbind (dlt intended tot) (\<lambda>over.
    if over then Inr \<lparr>rc_state = RECOVERY_REQUIRED, rc_size = tot, rc_avg = avg, rc_ids = ids,
        rc_reason = Some ''ambiguous_overfill'', rc_pause = True\<rparr>
    else rbind (dle intended tot) (\<lambda>full.
    if full then Inr \<lparr>rc_state = FILLED, rc_size = tot, rc_avg = avg, rc_ids = ids,
        rc_reason = None, rc_pause = False\<rparr>
    else if some then Inr \<lparr>rc_state = PARTIAL_FILLED, rc_size = tot, rc_avg = avg, rc_ids = ids,
        rc_reason = None, rc_pause = False\<rparr>
    else if now_ts - its > win then Inr \<lparr>rc_state = CANCELLED, rc_size = DFin 0, rc_avg = None,
        rc_ids = [], rc_reason = Some ''no_fill_window_expired'', rc_pause = False\<rparr>
    else Inr \<lparr>rc_state = SUBMITTED_UNKNOWN, rc_size = DFin 0, rc_avg = None, rc_ids = [],
        rc_reason = Some ''awaiting_fill'', rc_pause = False\<rparr>)))))"

definition reconcile_intent ::
  "string \<Rightarrow> pyval \<Rightarrow> pyval \<Rightarrow> string \<Rightarrow> int \<Rightarrow> string option list \<Rightarrow> trade list \<Rightarrow> int \<Rightarrow> int
     \<Rightarrow> recon_decision result" where
  "reconcile_intent side price0 size0 token its already trades now_ts win =
    rbind (dec_of_val price0) (\<lambda>limit. rbind (dec_of_val size0) (\<lambda>intended.
    rbind (recon_scan side limit token its win already trades ([], DFin 0, DFin 0))
      (recon_verdict intended its now_ts win)))"

section \<open>Lemmas\<close>

lemma recon_scan_filter:
  "recon_scan side limit token its win already trs acc =
   recon_scan side limit token its win already (filter (is_candidate side token its win already) trs) acc"
  by (induction side limit token its win already trs acc rule: recon_scan.induct)
    (auto intro!: arg_cong [where f = "rbind _"] ext simp: rbind_def split: sum.split)

lemma recon_scan_none:
  "(\<And>tr. tr \<in> set trs \<Longrightarrow> \<not> is_candidate side token its win already tr) \<Longrightarrow>
   recon_scan side limit token its win already trs acc = Inr acc"
  by (subst recon_scan_filter) (simp add: filter_empty_conv [THEN iffD2])

text \<open>What is gathered comes from candidates only.\<close>

lemma recon_scan_ids:
  "recon_scan side limit token its win already trs acc = Inr res \<Longrightarrow>
   set (fst res) \<subseteq> set (fst acc) \<union> tr_id ` set (filter (is_candidate side token its win already) trs)"
proof (induction trs arbitrary: acc)
  case (Cons tr trs)
  obtain ids tot n where [simp]: "acc = (ids, tot, n)" by (cases acc)
  let ?C = "is_candidate side token its win already"
  have "\<exists>acc'. recon_scan side limit token its win already trs acc' = Inr res \<and>
      set (fst acc') \<subseteq> set ids \<union> (if ?C tr then {tr_id tr} else {})"
    using Cons.prems by (cases "?C tr") (fastforce simp: rbind_eq_Inr split: if_splits)+
  then obtain acc' where "recon_scan side limit token its win already trs acc' = Inr res"
    "set (fst acc') \<subseteq> set ids \<union> (if ?C tr then {tr_id tr} else {})" by blast
  with Cons.IH [of acc'] show ?case by (auto split: if_splits)
qed simp

lemma recon_scan_mono:
  "recon_scan side limit token its win already trs acc = Inr res \<Longrightarrow> set (fst acc) \<subseteq> set (fst res)"
proof (induction trs arbitrary: acc)
  case (Cons tr trs)
  obtain ids tot n where [simp]: "acc = (ids, tot, n)" by (cases acc)
  have "\<exists>acc'. recon_scan side limit token its win already trs acc' = Inr res \<and> set ids \<subseteq> set (fst acc')"
    using Cons.prems by (cases "is_candidate side token its win already tr")
      (fastforce simp: rbind_eq_Inr split: if_splits)+
  then show ?case using Cons.IH by fastforce
qed simp

lemma recon_scan_rerun:
  assumes "recon_scan side limit token its win already trs acc = Inr res"
    and "set already \<subseteq> set seen" "set (fst res) \<subseteq> set seen"
  shows "recon_scan side limit token its win seen trs acc' = Inr acc'"
  using assms(1)
proof (induction trs arbitrary: acc acc')
  case (Cons tr trs)
  obtain ids tot n where acc [simp]: "acc = (ids, tot, n)" by (cases acc)
  obtain ids' tot' n' where acc' [simp]: "acc' = (ids', tot', n')" by (cases acc')
  let ?old = "is_candidate side token its win already tr"
  let ?new = "is_candidate side token its win seen tr"
  have new_old: "?new \<Longrightarrow> ?old" using assms(2) by (auto simp: is_candidate_def)
  show ?case
  proof (cases ?new)
    case False
    have "\<exists>acc1. recon_scan side limit token its win already trs acc1 = Inr res"
      using Cons.prems by (cases ?old) (auto simp: rbind_eq_Inr split: if_splits)
    then show ?thesis using Cons.IH False by auto
  next
    case True
    then have old: ?old by (rule new_old)
    have notin: "tr_id tr \<notin> set (fst res)" using True assms(3) by (auto simp: is_candidate_def)
    obtain price sz e where p: "dec_of_val (tr_price tr) = Inr price" "dec_of_val (tr_size tr) = Inr sz"
      "dle sz (DFin 0) = Inr e" using Cons.prems old by (auto simp: rbind_eq_Inr)
    have skip: "e \<or> directional_ok side price limit = Inr False"
    proof (rule ccontr)
      assume "\<not> ?thesis"
      then obtain acc1 where "recon_scan side limit token its win already trs acc1 = Inr res" "tr_id tr \<in> set (fst acc1)"
        using Cons.prems old p by (auto simp: rbind_eq_Inr split: if_splits)
      then show False using recon_scan_mono notin by blast
    qed
    then have "\<exists>acc1. recon_scan side limit token its win already trs acc1 = Inr res"
      using Cons.prems old p by (auto simp: rbind_eq_Inr split: if_splits)
    then show ?thesis using Cons.IH True p skip by (auto split: if_splits)
  qed
qed simp

section \<open>Properties\<close>

text \<open>C35: No double counting across runs: once the trade ids that a reconciliation gathered are recorded as
  matched, a later scan of the same trades (from any accumulator) gathers nothing and raises nothing.\<close>

theorem reconcile_no_double_count:
  assumes "recon_scan side limit token its win already trs acc = Inr (ids, tot, notional)"
  shows "recon_scan side limit token its win (already @ ids) trs acc' = Inr acc'"
  using recon_scan_rerun [OF assms, of "already @ ids"] by simp

definition sample_trade :: "string \<Rightarrow> trade" where
  "sample_trade tid = \<lparr>tr_id = Some tid, tr_asset = Some ''t1'', tr_side = Some ''buy'', tr_time = Some 103,
     tr_price = PStr ''0.45'', tr_size = PStr ''10''\<rparr>"

lemma reconcile_no_double_count_witness:
  "\<exists>ids tot notional.
     recon_scan ''TAKER_BUY'' (DFin 0.5) ''t1'' 100 60 [] [sample_trade ''a''] ([], DFin 0, DFin 0) = Inr (ids, tot, notional) \<and>
     ids = [Some ''a''] \<and>
     recon_scan ''TAKER_BUY'' (DFin 0.5) ''t1'' 100 60 ([] @ ids) [sample_trade ''a''] ([], DFin 0, DFin 0) = Inr ([], DFin 0, DFin 0)"
proof -
  have "case recon_scan ''TAKER_BUY'' (DFin 0.5) ''t1'' 100 60 [] [sample_trade ''a''] ([], DFin 0, DFin 0) of
      Inr (ids, _, _) \<Rightarrow> ids = [Some ''a''] | _ \<Rightarrow> False" by code_simp
  then obtain tot n where r: "recon_scan ''TAKER_BUY'' (DFin 0.5) ''t1'' 100 60 [] [sample_trade ''a'']
      ([], DFin 0, DFin 0) = Inr ([Some ''a''], tot, n)" by (auto split: sum.splits)
  show ?thesis using reconcile_no_double_count [OF r] r by blast
qed

text \<open>The verdict: the emergency pause is raised exactly for more than the intended size, a fill is
  complete exactly at the intended size, a positive smaller size is partial, and only without any fill
  does the window decide between waiting and cancelled.\<close>

theorem reconcile_verdict:
  assumes "0 < want" "0 \<le> got" "got > 0 \<longrightarrow> \<bar>rhe (d28 (money / got) * 10 ^ 4)\<bar> < 10 ^ 28"
  shows "\<exists>d. recon_verdict (DFin want) its now_ts win (ids, DFin got, DFin money) = Inr d \<and>
    (rc_pause d \<longleftrightarrow> want < got) \<and>
    rc_state d = (if want < got then RECOVERY_REQUIRED else if got = want then FILLED
      else if 0 < got then PARTIAL_FILLED else if now_ts - its > win then CANCELLED else SUBMITTED_UNKNOWN) \<and>
    rc_ids d = (if 0 < got then ids else []) \<and> rc_size d = DFin got"
proof (cases "0 < got")
  case True
  then obtain a where "rbind (ddiv (DFin money) (DFin got)) (\<lambda>q. rbind (dquantize 4 q) (\<lambda>a. Inr (Some a))) = Inr (Some a)"
    using assms(3) by (simp add: ddiv_Fin dquantize_def dquantize_with_def Let_def)
  then show ?thesis using True assms(1) by (auto simp: recon_verdict_def)
next
  case False
  then show ?thesis using assms(1,2) by (auto simp: recon_verdict_def)
qed

lemma reconcile_verdict_witness:
  "\<exists>d. recon_verdict (DFin 10) 100 500 60 ([Some ''a''], DFin 12, DFin 6) = Inr d \<and> rc_pause d"
proof -
  have "\<bar>rhe (d28 (6 / 12) * 10 ^ 4)\<bar> < 10 ^ 28" by code_simp
  then show ?thesis using reconcile_verdict [of 10 12 6 100 500 60 "[Some ''a'']"] by auto
qed

end
