(* ===== verification/ClobReconcile.thy ===== *)
theory ClobReconcile
  imports OrderIntent
begin

text \<open>
  \<open>data/clob_reconcile.py\<close>: the dual-oracle decision on an order in limbo. The exchange's trades
  are the settlement evidence, its order record the lifecycle evidence. Identifiers, statuses and
  sides of the payload are text or absent; amounts are any scalar, read by \<open>Decimal(str(x))\<close>; a
  list may hold \<open>null\<close> elements. A trade list is what \<open>(trades or {}).get("data", []) or []\<close> is.
  Payloads are decoded JSON: its decoder reads every \<open>NaN\<close> literal as the same object, and tuples compare
  their elements by identity first, so two rows that agree also in a NaN are the same row. Text may spell a
  signalling NaN, on which arithmetic and hashing raise; only as the matched size of an order, where the
  comparison with zero would raise, it is taken for a quiet one.
\<close>

section \<open>Payload\<close>

record maker_slot =
  mk_order :: "string option"
  mk_side :: "string option"
  mk_amount :: pyval
  mk_price :: pyval
  mk_fee :: pyval

record ctrade =
  ct_id :: "string option"
  ct_status :: "string option"
  ct_taker :: "string option"
  ct_order :: "string option"
  ct_side :: "string option"
  ct_size :: pyval
  ct_price :: pyval
  ct_fee :: pyval
  ct_makers :: "maker_slot option list"

type_synonym rows = "ctrade option list"

record corder =
  co_id :: "string option"
  co_status :: "string option"
  co_original :: pyval
  co_matched :: pyval

text \<open>\<open>ci_intended\<close> is \<open>None\<close> when the intent has no such key.\<close>

record cintent =
  ci_exch :: "string option"
  ci_side :: "string option"
  ci_intended :: "pyval option"
  ci_original :: pyval

record acc_evidence =
  ae_size :: dec
  ae_avg :: dec
  ae_fee :: "dec option"
  ae_ids :: "string list"
  ae_source :: string

record resolution =
  rs_state :: intent_status
  rs_acc :: "acc_evidence option"

section \<open>Normalisation and matching\<close>

fun strip_prefixes :: "string list \<Rightarrow> string \<Rightarrow> string" where
  "strip_prefixes [] s = s"
| "strip_prefixes (p # ps) s = (case py_removeprefix p s of Some t \<Rightarrow> t | None \<Rightarrow> strip_prefixes ps s)"

definition norm_status :: "string option \<Rightarrow> string" where
  "norm_status raw = strip_prefixes [''ORDER_STATUS_'', ''TRADE_STATUS_'']
     (py_upper (py_strip (case raw of None \<Rightarrow> [] | Some s \<Rightarrow> s)))"

definition norm_side :: "string option \<Rightarrow> string" where
  "norm_side raw = strip_prefixes [''TAKER_'', ''MAKER_'']
     (py_upper (py_strip (case raw of None \<Rightarrow> [] | Some s \<Rightarrow> s)))"

definition confirmed :: "ctrade \<Rightarrow> bool" where
  "confirmed t = (norm_status (ct_status t) = ''CONFIRMED'')"

definition id_text :: "string option \<Rightarrow> string" where
  "id_text s = (case s of None \<Rightarrow> ''None'' | Some t \<Rightarrow> t)"

text \<open>The slots of a trade that carry our order id, in order.\<close>

definition our_slots :: "string option \<Rightarrow> ctrade \<Rightarrow> maker_slot list" where
  "our_slots oid t = filter (\<lambda>m. mk_order m = oid)
     (map (\<lambda>m. case m of Some s \<Rightarrow> s
        | None \<Rightarrow> \<lparr>mk_order = None, mk_side = None, mk_amount = PNone, mk_price = PNone, mk_fee = PNone\<rparr>)
      (ct_makers t))"

datatype slot_kind = Taker | Maker

text \<open>A \<open>null\<close> row has no \<open>get\<close>.\<close>

fun find_confirmed_fill :: "rows \<Rightarrow> string option
    \<Rightarrow> (slot_kind \<times> string option \<times> pyval) option result" where
  "find_confirmed_fill [] oid = Inr None"
| "find_confirmed_fill (None # rs) oid = Inl AttributeError"
| "find_confirmed_fill (Some t # rs) oid =
    (if \<not> confirmed t then find_confirmed_fill rs oid
     else if ct_taker t = oid then Inr (Some (Taker, ct_side t, ct_size t))
     else case our_slots oid t of
        m # _ \<Rightarrow> Inr (Some (Maker, mk_side m, mk_amount m))
      | [] \<Rightarrow> find_confirmed_fill rs oid)"

definition empty_trade :: ctrade where
  "empty_trade = \<lparr>ct_id = None, ct_status = None, ct_taker = None, ct_order = None, ct_side = None,
     ct_size = PNone, ct_price = PNone, ct_fee = PNone, ct_makers = []\<rparr>"

definition row_trade :: "ctrade option \<Rightarrow> ctrade" where
  "row_trade r = (case r of None \<Rightarrow> empty_trade | Some t \<Rightarrow> t)"

definition has_any_order_trace :: "rows \<Rightarrow> string option \<Rightarrow> bool" where
  "has_any_order_trace rs oid = list_ex (\<lambda>r. let t = row_trade r in
     ct_taker t = oid \<or> our_slots oid t \<noteq> [] \<or> ct_order t = oid) rs"

section \<open>Accounting evidence of one trade\<close>

definition opt_dec :: "pyval \<Rightarrow> dec option" where
  "opt_dec v = (if v = PNone then None else case dec_of_val v of Inr d \<Rightarrow> Some d | Inl _ \<Rightarrow> None)"

definition single_evidence :: "pyval \<Rightarrow> pyval \<Rightarrow> pyval \<Rightarrow> string option \<Rightarrow> acc_evidence option" where
  "single_evidence amount price fee tid = (case dec_of_val amount of Inl _ \<Rightarrow> None
     | Inr a \<Rightarrow> (case dec_of_val price of Inl _ \<Rightarrow> None
     | Inr p \<Rightarrow> Some \<lparr>ae_size = a, ae_avg = p, ae_fee = opt_dec fee, ae_ids = [id_text tid],
         ae_source = ''CONFIRMED_TRADE''\<rparr>))"

fun extract_taker :: "rows \<Rightarrow> string option \<Rightarrow> acc_evidence option" where
  "extract_taker [] oid = None"
| "extract_taker (r # rs) oid = (let t = row_trade r in
     if \<not> confirmed t \<or> ct_taker t \<noteq> oid then extract_taker rs oid
     else single_evidence (ct_size t) (ct_price t) (ct_fee t) (ct_id t))"

fun extract_maker :: "rows \<Rightarrow> string option \<Rightarrow> acc_evidence option" where
  "extract_maker [] oid = None"
| "extract_maker (r # rs) oid = (let t = row_trade r in
     if \<not> confirmed t then extract_maker rs oid
     else case our_slots oid t of [] \<Rightarrow> extract_maker rs oid
       | m # _ \<Rightarrow> single_evidence (mk_amount m) (mk_price m) (mk_fee m) (ct_id t))"

section \<open>Aggregated evidence\<close>

text \<open>
  A fill line: its deduplication key, its identity (all raw fields, numbers compared by value),
  and the amounts to be parsed.
\<close>

record fill_line =
  fl_key :: "string \<times> string option"
  fl_ident :: "(string option \<times> pyval) list"
  fl_amount :: pyval
  fl_price :: pyval
  fl_fee :: pyval

definition taker_line :: "ctrade \<Rightarrow> fill_line" where
  "taker_line t = \<lparr>fl_key = (id_text (ct_id t), None),
     fl_ident = [(Some (id_text (ct_id t)), PNone), (ct_status t, PNone), (ct_taker t, PNone),
       (ct_side t, PNone), (None, py_key (ct_size t)), (None, py_key (ct_price t)),
       (None, py_key (ct_fee t))],
     fl_amount = ct_size t, fl_price = ct_price t, fl_fee = ct_fee t\<rparr>"

definition maker_line :: "ctrade \<Rightarrow> maker_slot \<Rightarrow> fill_line" where
  "maker_line t m = \<lparr>fl_key = (id_text (ct_id t), mk_order m),
     fl_ident = [(Some (id_text (ct_id t)), PNone), (ct_status t, PNone), (ct_taker t, PNone),
       (mk_order m, PNone), (mk_side m, PNone), (None, py_key (mk_amount m)),
       (None, py_key (mk_price m)), (None, py_key (mk_fee m))],
     fl_amount = mk_amount m, fl_price = mk_price m, fl_fee = mk_fee m\<rparr>"

definition taker_lines :: "string option \<Rightarrow> ctrade option \<Rightarrow> fill_line list" where
  "taker_lines oid r = (let t = row_trade r in
     if confirmed t \<and> ct_taker t = oid then [taker_line t] else [])"

definition maker_lines :: "string option \<Rightarrow> ctrade option \<Rightarrow> fill_line list" where
  "maker_lines oid r = (let t = row_trade r in
     if confirmed t then map (maker_line t) (our_slots oid t) else [])"

text \<open>The text of a signalling NaN.\<close>

definition signalling :: "pyval \<Rightarrow> bool" where
  "signalling v = (case v of
     PStr s \<Rightarrow> (case parse_num (filter (\<lambda>c. c \<noteq> CHR ''_'') (py_strip s)) of Some (_, TNan _ sg) \<Rightarrow> sg | _ \<Rightarrow> False)
   | _ \<Rightarrow> False)"

text \<open>A fill: its amount, its price and whether that is a signalling NaN, the trade and the raw fee.\<close>

type_synonym fill = "dec \<times> (dec \<times> bool) \<times> string \<times> pyval"

datatype 'a scan = ScanFail | ScanConflict | Scanned 'a

text \<open>The loop over the lines: repeated identities are skipped, a known key with another identity
  is a conflict, an amount that does not parse ends the scan.\<close>

fun scan_lines :: "fill_line list \<Rightarrow> fill_line list \<Rightarrow> fill list \<Rightarrow> fill list scan" where
  "scan_lines [] seen acc = Scanned acc"
| "scan_lines (l # ls) seen acc =
    (if fl_ident l \<in> fl_ident ` set seen then scan_lines ls seen acc
     else if fl_key l \<in> fl_key ` set seen then ScanConflict
     else case (dec_of_val (fl_amount l), dec_of_val (fl_price l)) of
        (Inr a, Inr p) \<Rightarrow> scan_lines ls (l # seen) (acc @ [(a, (p, signalling (fl_price l)), fst (fl_key l), fl_fee l)])
      | _ \<Rightarrow> ScanFail)"

fun dec_sum :: "dec \<Rightarrow> dec list \<Rightarrow> dec result" where
  "dec_sum acc [] = Inr acc"
| "dec_sum acc (x # xs) = rbind (dadd acc x) (\<lambda>a. dec_sum a xs)"

fun dec_notional :: "dec \<Rightarrow> fill list \<Rightarrow> dec result" where
  "dec_notional acc [] = Inr acc"
| "dec_notional acc ((a, (p, sg), _) # fs) =
     rbind (if sg then Inl InvalidOperation else dmul a p) (\<lambda>n. rbind (dadd acc n) (\<lambda>acc'. dec_notional acc' fs))"

fun parse_fees :: "pyval list \<Rightarrow> dec list option" where
  "parse_fees [] = Some []"
| "parse_fees (v # vs) = (case opt_dec v of None \<Rightarrow> None
     | Some d \<Rightarrow> map_option (Cons d) (parse_fees vs))"

text \<open>\<open>len(set(fees)) == 1\<close>: equal by value; a NaN differs from any other, and a signalling one has no hash.\<close>

definition uniform_fee :: "pyval list \<Rightarrow> dec option result" where
  "uniform_fee fees = (case parse_fees fees of
     Some (d # ds) \<Rightarrow> if list_ex signalling fees then Inl TypeError
       else Inr (if list_all (deq d) ds then Some d else None)
   | _ \<Rightarrow> Inr None)"

definition finish_aggregate :: "fill list \<Rightarrow> acc_evidence option result" where
  "finish_aggregate fs = (if fs = [] then Inr None else
     rbind (dec_sum (DFin 0) (map fst fs)) (\<lambda>tot. rbind (dle tot (DFin 0)) (\<lambda>none.
     if none then Inr None else
     rbind (dec_notional (DFin 0) fs) (\<lambda>n. rbind (ddiv n tot) (\<lambda>avg.
     rbind (uniform_fee (map (\<lambda>(_, _, _, f). f) fs)) (\<lambda>fee.
       Inr (Some \<lparr>ae_size = tot, ae_avg = avg, ae_fee = fee,
         ae_ids = map (\<lambda>(_, _, i, _). i) fs, ae_source = ''CONFIRMED_TRADE''\<rparr>)))))))"

definition aggregate_scan :: "fill list scan \<Rightarrow> acc_evidence option scan result" where
  "aggregate_scan s = (case s of
     ScanConflict \<Rightarrow> Inr ScanConflict
   | ScanFail \<Rightarrow> Inr (Scanned None)
   | Scanned fs \<Rightarrow> rbind (finish_aggregate fs) (\<lambda>e. Inr (Scanned e)))"

definition aggregate_taker :: "rows \<Rightarrow> string option \<Rightarrow> acc_evidence option scan result" where
  "aggregate_taker rs oid = aggregate_scan (scan_lines (concat (map (taker_lines oid) rs)) [] [])"

definition aggregate_maker :: "rows \<Rightarrow> string option \<Rightarrow> acc_evidence option scan result" where
  "aggregate_maker rs oid = aggregate_scan (scan_lines (concat (map (maker_lines oid) rs)) [] [])"

section \<open>The decision\<close>

definition recovery :: resolution where
  "recovery = \<lparr>rs_state = RECOVERY_REQUIRED, rs_acc = None\<rparr>"

definition target_raw :: "cintent \<Rightarrow> corder \<Rightarrow> pyval" where
  "target_raw it od = (if co_original od \<noteq> PNone then co_original od
     else case ci_intended it of Some v \<Rightarrow> v | None \<Rightarrow> ci_original it)"

definition araf_full_aggregate ::
  "slot_kind \<Rightarrow> dec \<Rightarrow> rows \<Rightarrow> string option \<Rightarrow> resolution option result" where
  "araf_full_aggregate slot target rs oid = rbind (dlt (DFin 0) target) (\<lambda>pos.
     if \<not> pos then Inr None else
     rbind (case slot of Taker \<Rightarrow> aggregate_taker rs oid | Maker \<Rightarrow> aggregate_maker rs oid) (\<lambda>agg.
     case agg of ScanConflict \<Rightarrow> Inr (Some recovery)
     | Scanned (Some ev) \<Rightarrow> (if deq (ae_size ev) target
         then Inr (Some \<lparr>rs_state = FILLED, rs_acc = Some ev\<rparr>) else Inr None)
     | _ \<Rightarrow> Inr None))"

definition araf_single_full :: "rows \<Rightarrow> string option \<Rightarrow> resolution" where
  "araf_single_full rs oid = \<lparr>rs_state = FILLED,
     rs_acc = (case extract_taker rs oid of Some ev \<Rightarrow> Some ev | None \<Rightarrow> extract_maker rs oid)\<rparr>"

definition araf_residual ::
  "corder \<Rightarrow> dec \<Rightarrow> dec \<Rightarrow> rows \<Rightarrow> string option \<Rightarrow> resolution result" where
  "araf_residual od filled target rs oid = rbind (dlt filled target) (\<lambda>part.
     if part \<and> norm_status (co_status od) \<in> set [''LIVE'', ''MATCHED''] then Inr recovery else
     rbind (aggregate_taker rs oid) (\<lambda>tk. case tk of ScanConflict \<Rightarrow> Inr recovery
     | Scanned (Some ev) \<Rightarrow> Inr \<lparr>rs_state = PARTIAL_FILLED, rs_acc = Some ev\<rparr>
     | _ \<Rightarrow> rbind (aggregate_maker rs oid) (\<lambda>mk. case mk of ScanConflict \<Rightarrow> Inr recovery
       | Scanned (Some ev) \<Rightarrow> Inr \<lparr>rs_state = PARTIAL_FILLED, rs_acc = Some ev\<rparr>
       | _ \<Rightarrow> Inr \<lparr>rs_state = PARTIAL_FILLED, rs_acc = None\<rparr>)))"

definition decide_araf_resolution :: "cintent \<Rightarrow> corder \<Rightarrow> rows \<Rightarrow> resolution result" where
  "decide_araf_resolution it od rs = (let oid = ci_exch it in
     rbind (find_confirmed_fill rs oid) (\<lambda>m. case m of None \<Rightarrow> Inr recovery
     | Some (slot, fill_side, amount) \<Rightarrow>
       if norm_side fill_side \<noteq> norm_side (ci_side it) then Inr recovery else
       (case (dec_of_val amount, dec_of_val (target_raw it od)) of
          (Inr filled, Inr target) \<Rightarrow>
            rbind (dle filled (DFin 0)) (\<lambda>none. if none then Inr recovery else
            rbind (araf_full_aggregate slot target rs oid) (\<lambda>agg. case agg of Some r \<Rightarrow> Inr r
            | None \<Rightarrow> rbind (dlt (DFin 0) target) (\<lambda>pos.
                if pos \<and> deq filled target then Inr (araf_single_full rs oid)
                else araf_residual od filled target rs oid)))
        | _ \<Rightarrow> Inr recovery)))"

section \<open>Zero-fill cancellation\<close>

record observation =
  ob_order :: corder
  ob_cursor :: "string option"
  ob_rows :: rows

definition CANONICAL_CANCEL_STATUSES :: "string list" where
  "CANONICAL_CANCEL_STATUSES = [''CANCELED'', ''CANCELLED'']"

definition zero_fill_cancel_evidence ::
  "string \<Rightarrow> observation \<Rightarrow> (string \<times> string \<times> dec \<times> string \<times> bool) option" where
  "zero_fill_cancel_evidence oid obs =
    (if co_id (ob_order obs) \<noteq> Some oid then None
     else if norm_status (co_status (ob_order obs)) \<notin> set CANONICAL_CANCEL_STATUSES then None
     else case dec_of_val (co_matched (ob_order obs)) of Inl _ \<Rightarrow> None
     | Inr sz \<Rightarrow>
        if \<not> deq sz (DFin 0) then None
        else if ob_cursor obs \<noteq> Some ''LTE='' then None
        else if has_any_order_trace (ob_rows obs) (Some oid) then None
        else Some (oid, ''CANCELED'', sz, ''LTE='', True))"

definition decide_zero_fill_cancel ::
  "string option \<Rightarrow> observation \<Rightarrow> observation option \<Rightarrow> resolution" where
  "decide_zero_fill_cancel order_id first_obs second_obs = (case second_obs of None \<Rightarrow> recovery
     | Some obs2 \<Rightarrow> (case order_id of None \<Rightarrow> recovery
     | Some oid \<Rightarrow> if oid = [] then recovery else
        (case (zero_fill_cancel_evidence oid first_obs, zero_fill_cancel_evidence oid obs2) of
           (Some e1, Some e2) \<Rightarrow> if e1 \<noteq> e2 then recovery
              else \<lparr>rs_state = CANCELLED, rs_acc = None\<rparr>
         | _ \<Rightarrow> recovery)))"

section \<open>Lemmas\<close>

lemma our_slots_order: "m \<in> set (our_slots oid t) \<Longrightarrow> mk_order m = oid"
  by (simp add: our_slots_def)

text \<open>The trade behind a fill found by the first oracle.\<close>

definition settles :: "string option \<Rightarrow> string \<Rightarrow> rows \<Rightarrow> bool" where
  "settles oid side rs = (\<exists>t. Some t \<in> set rs \<and> confirmed t \<and>
     (ct_taker t = oid \<and> norm_side (ct_side t) = side \<or>
      (\<exists>m \<in> set (our_slots oid t). norm_side (mk_side m) = side)))"

lemma settles_Cons:
  "settles oid side (r # rs) \<longleftrightarrow> settles oid side rs \<or> (\<exists>t. r = Some t \<and> confirmed t \<and>
     (ct_taker t = oid \<and> norm_side (ct_side t) = side \<or>
      (\<exists>m \<in> set (our_slots oid t). norm_side (mk_side m) = side)))"
  by (auto simp: settles_def)

lemma find_confirmed_settles:
  "find_confirmed_fill rs oid = Inr (Some (slot, side, amt)) \<Longrightarrow> settles oid (norm_side side) rs"
proof (induction rs oid rule: find_confirmed_fill.induct)
  case (3 t rs oid)
  then show ?case
    by (cases "confirmed t"; cases "our_slots oid t") (auto simp: settles_Cons split: if_splits)
qed simp_all

lemma find_confirmed_append:
  "find_confirmed_fill rs oid = Inr (Some x) \<Longrightarrow> find_confirmed_fill (rs @ rs') oid = Inr (Some x)"
  "find_confirmed_fill rs oid = Inl e \<Longrightarrow> find_confirmed_fill (rs @ rs') oid = Inl e"
  by (induction rs oid rule: find_confirmed_fill.induct) (auto split: if_splits list.splits)

lemma find_confirmed_none:
  "find_confirmed_fill rs oid = Inr None \<longleftrightarrow>
   (\<forall>r \<in> set rs. \<exists>t. r = Some t \<and> (confirmed t \<longrightarrow> ct_taker t \<noteq> oid \<and> our_slots oid t = []))"
  by (induction rs oid rule: find_confirmed_fill.induct) (auto split: if_splits list.splits)

text \<open>A row that occurs before is skipped at any later place.\<close>

lemma find_confirmed_repeat:
  assumes "r \<in> set xs"
  shows "find_confirmed_fill (xs @ r # ys) oid = find_confirmed_fill (xs @ ys) oid"
proof (cases "find_confirmed_fill xs oid")
  case (Inr m)
  show ?thesis
  proof (cases m)
    case None
    then obtain t where "r = Some t" "confirmed t \<longrightarrow> ct_taker t \<noteq> oid \<and> our_slots oid t = []"
      using Inr find_confirmed_none [of xs oid] assms by blast
    then have r: "find_confirmed_fill (r # zs) oid = find_confirmed_fill zs oid" for zs by (auto split: list.split)
    have "find_confirmed_fill (xs @ zs) oid = find_confirmed_fill zs oid" for zs
      using Inr None by (induction xs oid rule: find_confirmed_fill.induct) (auto split: if_splits list.splits)
    then show ?thesis using r by simp
  next
    case (Some x)
    then show ?thesis using Inr find_confirmed_append(1) [of xs oid x] by simp
  qed
qed (simp add: find_confirmed_append(2))

lemma extract_repeat:
  assumes "r \<in> set xs"
  shows "extract_taker (xs @ r # ys) oid = extract_taker (xs @ ys) oid"
    and "extract_maker (xs @ r # ys) oid = extract_maker (xs @ ys) oid"
proof -
  have tk: "extract_taker (zs @ r # ys) oid = extract_taker (zs @ ys) oid"
    if "\<not> confirmed (row_trade r) \<or> ct_taker (row_trade r) \<noteq> oid" for zs
    using that by (induction zs) (auto simp: Let_def)
  have tkf: "extract_taker (zs @ us) oid = extract_taker zs oid"
    if "\<exists>r \<in> set zs. confirmed (row_trade r) \<and> ct_taker (row_trade r) = oid" for zs us
    using that by (induction zs) (auto simp: Let_def)
  have mk: "extract_maker (zs @ r # ys) oid = extract_maker (zs @ ys) oid"
    if "\<not> confirmed (row_trade r) \<or> our_slots oid (row_trade r) = []" for zs
    using that by (induction zs) (auto simp: Let_def split: list.split)
  have mkf: "extract_maker (zs @ us) oid = extract_maker zs oid"
    if "\<exists>r \<in> set zs. confirmed (row_trade r) \<and> our_slots oid (row_trade r) \<noteq> []" for zs us
    using that by (induction zs) (auto simp: Let_def split: list.split)
  show "extract_taker (xs @ r # ys) oid = extract_taker (xs @ ys) oid"
    using tk [of xs] tkf [of xs "r # ys"] tkf [of xs ys] assms by fastforce
  show "extract_maker (xs @ r # ys) oid = extract_maker (xs @ ys) oid"
    using mk [of xs] mkf [of xs "r # ys"] mkf [of xs ys] assms by fastforce
qed

text \<open>Lines seen before add nothing to a scan.\<close>

lemma scan_lines_seen:
  "fl_ident ` set ls \<subseteq> fl_ident ` set seen \<Longrightarrow> scan_lines (ls @ ls') seen acc = scan_lines ls' seen acc"
  by (induction ls) auto

lemma scan_lines_repeat:
  "fl_ident ` set ls' \<subseteq> fl_ident ` set seen \<union> fl_ident ` set ls \<Longrightarrow>
   scan_lines (ls @ ls' @ ls'') seen acc = scan_lines (ls @ ls'') seen acc"
proof (induction ls seen acc rule: scan_lines.induct)
  case (1 seen acc)
  then show ?case by (simp add: scan_lines_seen)
next
  case (2 l ls seen acc)
  have "fl_ident ` set ls' \<subseteq> fl_ident ` set (l # seen) \<union> fl_ident ` set ls"
    using 2(3) by auto
  moreover have "fl_ident l \<in> fl_ident ` set seen \<Longrightarrow> fl_ident ` set ls' \<subseteq> fl_ident ` set seen \<union> fl_ident ` set ls"
    using 2(3) by auto
  ultimately show ?case using 2(1,2) by (auto split: sum.split)
qed

lemma aggregate_repeat:
  assumes "r \<in> set xs"
  shows "aggregate_taker (xs @ r # ys) oid = aggregate_taker (xs @ ys) oid"
    and "aggregate_maker (xs @ r # ys) oid = aggregate_maker (xs @ ys) oid"
proof -
  have "scan_lines (concat (map f (xs @ r # ys))) [] [] = scan_lines (concat (map f (xs @ ys))) [] []" for f
    using scan_lines_repeat [of "f r" "[]" "concat (map f xs)" "concat (map f ys)" "[]"] assms by auto
  then show "aggregate_taker (xs @ r # ys) oid = aggregate_taker (xs @ ys) oid"
    and "aggregate_maker (xs @ r # ys) oid = aggregate_maker (xs @ ys) oid"
    by (simp_all only: aggregate_taker_def aggregate_maker_def)
qed

lemma decide_repeat:
  assumes "r \<in> set xs"
  shows "decide_araf_resolution it od (xs @ r # ys) = decide_araf_resolution it od (xs @ ys)"
proof -
  have "araf_full_aggregate slot target (xs @ r # ys) oid = araf_full_aggregate slot target (xs @ ys) oid" for slot target oid
    unfolding araf_full_aggregate_def aggregate_repeat [OF assms] by simp
  moreover have "araf_residual od fl target (xs @ r # ys) oid = araf_residual od fl target (xs @ ys) oid" for fl target oid
    unfolding araf_residual_def aggregate_repeat [OF assms] by simp
  moreover have "araf_single_full (xs @ r # ys) oid = araf_single_full (xs @ ys) oid" for oid
    unfolding araf_single_full_def extract_repeat [OF assms] by simp
  ultimately show ?thesis
    unfolding decide_araf_resolution_def find_confirmed_repeat [OF assms] by presburger
qed

lemma agg_cases [case_names err fail conflict none some]:
  fixes a :: "acc_evidence option scan result"
  obtains e where "a = Inl e" | "a = Inr ScanFail" | "a = Inr ScanConflict" | "a = Inr (Scanned None)"
    | ev where "a = Inr (Scanned (Some ev))"
  by (metis obj_sumE option.exhaust scan.exhaust)

lemma araf_aggregate_state:
  "araf_full_aggregate slot target rs oid = Inr (Some r) \<Longrightarrow> r = recovery \<or> rs_state r = FILLED"
  by (cases "case slot of Taker \<Rightarrow> aggregate_taker rs oid | Maker \<Rightarrow> aggregate_maker rs oid" rule: agg_cases)
    (auto simp: araf_full_aggregate_def rbind_eq_Inr split: if_splits)

lemma araf_residual_state:
  "araf_residual od filled target rs oid = Inr r \<Longrightarrow> r = recovery \<or> rs_state r = PARTIAL_FILLED"
  by (cases "aggregate_taker rs oid" rule: agg_cases; cases "aggregate_maker rs oid" rule: agg_cases)
    (auto simp: araf_residual_def rbind_eq_Inr split: if_splits)

lemma recovery_state [simp]: "rs_state recovery = RECOVERY_REQUIRED"
  by (simp add: recovery_def)

lemma decide_araf_cases:
  assumes "decide_araf_resolution it od rs = Inr r"
  obtains (rec) "r = recovery"
    | (fill) slot side amt where "find_confirmed_fill rs (ci_exch it) = Inr (Some (slot, side, amt))"
        "norm_side side = norm_side (ci_side it)" "rs_state r \<in> {FILLED, PARTIAL_FILLED}"
proof (cases "find_confirmed_fill rs (ci_exch it)")
  case (Inr m)
  show thesis
  proof (cases m)
    case (Some x)
    obtain slot side amt where x: "x = (slot, side, amt)" by (cases x)
    show thesis
    proof (cases "r = recovery \<or> norm_side side \<noteq> norm_side (ci_side it)")
      case True
      then show thesis using assms Inr Some x rec by (auto simp: decide_araf_resolution_def Let_def)
    next
      case False
      have "rs_state r \<in> {FILLED, PARTIAL_FILLED}"
        using assms Inr Some x False
        by (auto simp: decide_araf_resolution_def Let_def rbind_eq_Inr araf_single_full_def
            split: if_splits sum.splits option.splits
            dest!: araf_aggregate_state araf_residual_state)
      then show thesis using fill Inr Some x False by blast
    qed
  qed (use assms Inr rec in \<open>simp add: decide_araf_resolution_def Let_def\<close>)
qed (use assms in \<open>simp add: decide_araf_resolution_def Let_def\<close>)

lemma zero_fill_evidence_trace:
  "zero_fill_cancel_evidence oid obs = Some e \<Longrightarrow> \<not> has_any_order_trace (ob_rows obs) (Some oid)"
  by (auto simp: zero_fill_cancel_evidence_def split: if_splits sum.splits)

lemma zero_fill_evidence_value:
  "zero_fill_cancel_evidence oid obs = Some e \<Longrightarrow> e = (oid, ''CANCELED'', DFin 0, ''LTE='', True)"
  by (auto simp: zero_fill_cancel_evidence_def deq_def split: if_splits sum.splits)

lemma no_trace_not_settled: "\<not> has_any_order_trace rs oid \<Longrightarrow> \<not> settles oid side rs"
  by (fastforce simp: settles_def has_any_order_trace_def list_ex_iff row_trade_def Let_def)

section \<open>Properties\<close>

text \<open>C25: No accounting without settlement. A terminal decision of the dual-oracle resolver is a full or
  partial fill (never a cancellation), and there is a confirmed trade that carries our order id, as
  taker or in one of its maker slots, on the side of the intent.\<close>

theorem araf_terminal_needs_settlement:
  assumes "decide_araf_resolution it od rs = Inr r" "is_terminal (rs_state r)"
  shows "rs_state r \<in> {FILLED, PARTIAL_FILLED} \<and> settles (ci_exch it) (norm_side (ci_side it)) rs"
  using assms(1)
proof (cases rule: decide_araf_cases)
  case rec
  then show ?thesis using assms(2) by simp
next
  case (fill slot side amt)
  then show ?thesis using find_confirmed_settles [OF fill(1)] by simp
qed

definition sample_row :: "string \<Rightarrow> string \<Rightarrow> ctrade option" where
  "sample_row tid sz = Some (empty_trade\<lparr>ct_id := Some tid, ct_status := Some ''TRADE_STATUS_CONFIRMED'',
     ct_taker := Some ''o1'', ct_side := Some ''buy'', ct_size := PStr sz, ct_price := PStr ''0.5''\<rparr>)"

definition sample_cintent :: cintent where
  "sample_cintent = \<lparr>ci_exch = Some ''o1'', ci_side = Some ''TAKER_BUY'', ci_intended = Some (PInt 10),
     ci_original = PNone\<rparr>"

definition sample_corder :: corder where
  "sample_corder = \<lparr>co_id = Some ''o1'', co_status = Some ''CANCELED'', co_original = PStr ''10'', co_matched = PStr ''0''\<rparr>"

lemma araf_terminal_needs_settlement_witness:
  "\<exists>r. decide_araf_resolution sample_cintent sample_corder [sample_row ''x'' ''10''] = Inr r \<and> rs_state r = FILLED \<and>
     settles (Some ''o1'') ''BUY'' [sample_row ''x'' ''10'']"
proof -
  have "case decide_araf_resolution sample_cintent sample_corder [sample_row ''x'' ''10''] of
      Inr r \<Rightarrow> rs_state r = FILLED | _ \<Rightarrow> False" by code_simp
  then obtain r where r: "decide_araf_resolution sample_cintent sample_corder [sample_row ''x'' ''10''] = Inr r"
    "rs_state r = FILLED" by (auto split: sum.splits)
  have "norm_side (ci_side sample_cintent) = ''BUY''" "ci_exch sample_cintent = Some ''o1''" by code_simp+
  then show ?thesis using araf_terminal_needs_settlement [OF r(1)] r by simp
qed

text \<open>The rows without the repetitions of earlier ones.\<close>

fun first_rows :: "ctrade option list \<Rightarrow> rows \<Rightarrow> rows" where
  "first_rows seen [] = []"
| "first_rows seen (r # rs) = (if r \<in> set seen then first_rows seen rs else r # first_rows (seen @ [r]) rs)"

lemma decide_first_rows: "decide_araf_resolution it od (seen @ first_rows seen rs) = decide_araf_resolution it od (seen @ rs)"
proof (induction seen rs rule: first_rows.induct)
  case (2 seen r rs)
  then show ?case using decide_repeat [of r seen it od rs] by simp
qed simp

text \<open>C26: Overlapping pages are harmless: a row that repeats an earlier one, at whatever place of the trade list
  and however often, changes neither the decision nor its accounting nor its errors; any list is decided
  like the list of the first occurrences of its rows.\<close>

theorem araf_duplicate_rows:
  "decide_araf_resolution it od rs = decide_araf_resolution it od (first_rows [] rs)"
  using decide_first_rows [of it od "[]" rs] by simp

text \<open>Two pages that overlap in four of ten shares: counted once, the order is filled.\<close>

lemma overlapping_pages:
  "first_rows [] [sample_row ''x'' ''4'', sample_row ''y'' ''4'', sample_row ''y'' ''4'', sample_row ''z'' ''2''] =
     [sample_row ''x'' ''4'', sample_row ''y'' ''4'', sample_row ''z'' ''2'']"
  "case decide_araf_resolution sample_cintent sample_corder
      [sample_row ''x'' ''4'', sample_row ''y'' ''4'', sample_row ''y'' ''4'', sample_row ''z'' ''2''] of
     Inr r \<Rightarrow> rs_state r = FILLED | _ \<Rightarrow> False"
  by code_simp+

text \<open>A zero-fill cancellation is decided exactly when two observations were made for a known order id
  and both are canonical: the order is cancelled with nothing matched, the scan of the trades is
  complete, and no trade of any status mentions the order.\<close>

theorem zero_fill_cancel_iff:
  "rs_state (decide_zero_fill_cancel order_id first_obs second_obs) = CANCELLED \<longleftrightarrow>
     (\<exists>oid obs2. order_id = Some oid \<and> oid \<noteq> [] \<and> second_obs = Some obs2 \<and>
        (\<forall>ob \<in> {first_obs, obs2}. zero_fill_cancel_evidence oid ob \<noteq> None))"
  by (auto simp: decide_zero_fill_cancel_def dest: zero_fill_evidence_value split: option.splits if_splits)

definition sample_observation :: observation where
  "sample_observation = \<lparr>ob_order = sample_corder, ob_cursor = Some ''LTE='', ob_rows = []\<rparr>"

lemma zero_fill_cancel_iff_witness:
  "rs_state (decide_zero_fill_cancel (Some ''o1'') sample_observation (Some sample_observation)) = CANCELLED"
proof -
  have "zero_fill_cancel_evidence ''o1'' sample_observation \<noteq> None" by code_simp
  then show ?thesis using zero_fill_cancel_iff [of "Some ''o1''" sample_observation "Some sample_observation"] by simp
qed

text \<open>C38: The two oracles never contradict each other: trades on which a zero-fill cancellation was decided
  give no terminal decision to the settlement resolver for the same order.\<close>

theorem oracles_exclusive:
  assumes "rs_state (decide_zero_fill_cancel (ci_exch it) first_obs (Some obs2)) = CANCELLED"
    and "decide_araf_resolution it od (ob_rows obs2) = Inr r"
  shows "r = recovery"
proof -
  obtain oid e where "ci_exch it = Some oid" "zero_fill_cancel_evidence oid obs2 = Some e"
    using assms(1) by (auto simp: decide_zero_fill_cancel_def split: option.splits if_splits)
  then have no: "\<not> has_any_order_trace (ob_rows obs2) (ci_exch it)"
    using zero_fill_evidence_trace by simp
  show ?thesis using assms(2)
  proof (cases rule: decide_araf_cases)
    case (fill slot side amt)
    then show ?thesis using find_confirmed_settles [OF fill(1)] no_trace_not_settled [OF no] by blast
  qed
qed

lemma oracles_exclusive_witness:
  "rs_state (decide_zero_fill_cancel (Some ''o1'') sample_observation (Some sample_observation)) = CANCELLED \<and>
   decide_araf_resolution sample_cintent sample_corder (ob_rows sample_observation) = Inr recovery"
proof -
  have c: "rs_state (decide_zero_fill_cancel (ci_exch sample_cintent) sample_observation (Some sample_observation)) = CANCELLED"
    by code_simp
  have "case decide_araf_resolution sample_cintent sample_corder (ob_rows sample_observation) of
      Inr _ \<Rightarrow> True | _ \<Rightarrow> False" by code_simp
  then obtain r where "decide_araf_resolution sample_cintent sample_corder (ob_rows sample_observation) = Inr r"
    by (auto split: sum.splits)
  then show ?thesis using oracles_exclusive [OF c] c by (simp add: sample_cintent_def)
qed

end
