(* ===== verification/Config.thy ===== *)
theory Config
  imports PyVal
begin

text \<open>
  The guardrail constants of \<open>config.py\<close> and the dicts that the council layers hand to each other
  (\<open>finding\<close>, \<open>verification\<close>, the red-team, risk and gate results), as records. A key whose
  absence a modelled function can observe is an \<open>option\<close>.
\<close>

section \<open>config.py\<close>

definition DRY_RUN :: bool where "DRY_RUN = True"
definition MAX_TRADE_PCT :: pyfloat where "MAX_TRADE_PCT = flit 0.05"
definition MAX_OPEN_POSITIONS :: int where "MAX_OPEN_POSITIONS = 1"
definition BUST_PROTECTION_PCT :: pyfloat where "BUST_PROTECTION_PCT = flit 0.5"
definition STREAK_WARN_COUNT :: int where "STREAK_WARN_COUNT = 6"
definition DAILY_LOSS_LIMIT :: pyfloat where "DAILY_LOSS_LIMIT = flit 0.35"
definition MAX_TRADES_FIRST_SESSION :: int where "MAX_TRADES_FIRST_SESSION = 6"
definition MIN_EDGE_PCT :: pyfloat where "MIN_EDGE_PCT = flit 0.05"
definition CONFIDENCE_THRESHOLD :: pyfloat where "CONFIDENCE_THRESHOLD = Fin 50"
definition MAX_HOLD_MINUTES :: int where "MAX_HOLD_MINUTES = 20"
definition HUMAN_APPROVAL_USD :: pyfloat where "HUMAN_APPROVAL_USD = Fin 50"
definition NEW_ENTRIES_ENABLED :: bool where "NEW_ENTRIES_ENABLED = False"
definition COUNCIL_DECISION_AUTHORITY_ENABLED :: bool where "COUNCIL_DECISION_AUTHORITY_ENABLED = False"
definition PRICE_MIN :: dec where "PRICE_MIN = DFin 0.01"
definition PRICE_MAX :: dec where "PRICE_MAX = DFin 0.99"
definition MAX_SLIPPAGE_CAP :: dec where "MAX_SLIPPAGE_CAP = DFin 0.03"
definition MIN_EXECUTABLE_NOTIONAL_USD :: pyfloat where "MIN_EXECUTABLE_NOTIONAL_USD = Fin 5"
definition WS_SNAPSHOT_MAX_AGE_S :: pyfloat where "WS_SNAPSHOT_MAX_AGE_S = Fin 10"
definition TRACKED_ASSETS :: "string list" where "TRACKED_ASSETS = [''BTC'', ''ETH'', ''SOL'', ''XRP'']"
definition BLOCKED_COMBOS :: "(string \<times> string) list" where "BLOCKED_COMBOS = [(''ETH'', ''NO'')]"
definition HALT_ON_API_MISMATCH :: bool where "HALT_ON_API_MISMATCH = True"

section \<open>The dicts of the council\<close>

record gamma_market =
  gm_spread :: pyval
  gm_liquidity :: pyval
  gm_volume :: pyval
  gm_fee :: pyval

record finding =
  fd_asset :: string
  fd_action :: string
  fd_slug :: string
  fd_yes_tok :: "string option"
  fd_no_tok :: "string option"
  fd_fair :: "pyfloat option"
  fd_ref :: "pyfloat option"
  fd_edge :: "pyfloat option"
  fd_cur :: pyfloat
  fd_ask :: pyfloat
  fd_bid :: pyfloat
  fd_secs :: pyfloat
  fd_no_ask :: "pyfloat option"
  fd_basis :: "pyfloat option"
  fd_funding :: "pyfloat option"
  fd_fee :: "pyfloat option"
  fd_market :: "gamma_market option"

definition key_of :: "'a option \<Rightarrow> 'a result" where
  "key_of v = (case v of None \<Rightarrow> Inl KeyError | Some x \<Rightarrow> Inr x)"

lemma key_of_simps [simp]: "key_of None = Inl KeyError" "key_of (Some x) = Inr x"
  by (simp_all add: key_of_def)

record verification =
  v_pass :: bool
  v_reason :: string
  v_halt :: bool
  v_cur :: pyfloat
  v_ask :: pyfloat
  v_bid :: pyfloat
  v_fair :: pyfloat
  v_edge :: pyfloat
  v_secs :: pyfloat
  v_drift :: pyfloat
  v_error :: "string option"

record redteam_result =
  rt_pass :: bool
  rt_vetoes :: "string list"
  rt_warnings :: "string list"
  rt_fee_adj :: pyfloat
  rt_fee :: pyfloat
  rt_spread :: pyfloat
  rt_liq :: pyfloat

record risk_result =
  rk_pass :: bool
  rk_usd :: pyfloat
  rk_kelly :: pyfloat
  rk_approval :: bool
  rk_halt :: bool
  rk_reason :: string

record gate_result =
  g_pass :: bool
  g_score :: pyfloat
  g_action :: string
  g_reason :: string
  g_fee_adj :: pyfloat
  g_liq :: pyfloat

end
