(* ===== verification/PositionManager.thy ===== *)
theory PositionManager
  imports Ledger Config
begin

text \<open>
  \<open>position/manager.py\<close>: the exit decision for an open position and the closing of its dict. The
  decision reads the clock and the websocket bid of the NO token once each, which are arguments; it
  updates the position dict in place, so it returns the new position beside its verdict, also when it
  raises. The JSONL log and the operator's print are not modelled, and \<open>hl_price\<close> is not read by it.
\<close>

section \<open>Constants and the dynamic stop\<close>

definition PROFIT_TARGET_FRACTION :: pyfloat where "PROFIT_TARGET_FRACTION = flit 0.85"
definition PROFIT_LOCK_MIN :: pyfloat where "PROFIT_LOCK_MIN = flit 0.10"
definition PROFIT_CONFIRM_CYCLES :: int where "PROFIT_CONFIRM_CYCLES = 2"
definition NEAR_EXPIRY_SECS :: pyfloat where "NEAR_EXPIRY_SECS = Fin 90"
definition STOP_LOSS_MAX :: pyfloat where "STOP_LOSS_MAX = flit 0.25"
definition STOP_LOSS_MIN :: pyfloat where "STOP_LOSS_MIN = flit 0.12"
definition MIN_HOLD_SECS :: pyfloat where "MIN_HOLD_SECS = Fin 15"
definition MIN_PROFIT_CONFIRM_SECS :: pyfloat where "MIN_PROFIT_CONFIRM_SECS = Fin 3"

text \<open>\<open>(t2 - t1).total_seconds()\<close>: the exact number of microseconds, divided once.\<close>

definition total_seconds :: "tstamp \<Rightarrow> tstamp \<Rightarrow> pyfloat" where
  "total_seconds t2 t1 = mkf (of_int (t2 - t1) / 10 ^ 6)"

definition dynamic_stop :: "pyfloat \<Rightarrow> pyfloat \<Rightarrow> pyfloat result" where
  "dynamic_stop held_secs time_to_expiry_secs =
    (let whole = fadd held_secs (f_max time_to_expiry_secs (Fin 1)) in
     rbind (fdiv held_secs whole) (\<lambda>fraction_elapsed.
       Inr (fsub STOP_LOSS_MAX (fmul fraction_elapsed (fsub STOP_LOSS_MAX STOP_LOSS_MIN)))))"

section \<open>The exit decision\<close>

definition nonempty :: "string option \<Rightarrow> string option" where
  "nonempty t = (case t of Some s \<Rightarrow> if s = [] then None else Some s | None \<Rightarrow> None)"

text \<open>The value of the token held, the value the thesis aims at, and the quality of the former.\<close>

definition valuation ::
  "(string \<Rightarrow> pyfloat option) \<Rightarrow> position \<Rightarrow> pyfloat \<Rightarrow> pyfloat \<times> pyfloat \<times> string" where
  "valuation bid pos pm_yes_price =
    (if p_action pos = ''YES'' then (pm_yes_price, p_fair pos, ''exact'')
     else (let target_val = fsub (Fin 1) (p_fair pos) in
       case Option.bind (nonempty (p_no_tok pos)) bid of
         Some no_bid \<Rightarrow> (no_bid, target_val, ''exact'')
       | None \<Rightarrow> (case p_no_clob_bid pos of
           Some no_clob \<Rightarrow> (no_clob, target_val, ''clob_fallback'')
         | None \<Rightarrow> (fsub (Fin 1) pm_yes_price, target_val, ''estimated''))))"

definition entry_positive :: "position \<Rightarrow> bool" where
  "entry_positive pos = (f_truthy (p_entry pos) \<and> fgt (p_entry pos) (Fin 0))"

definition change_pct :: "pyfloat \<Rightarrow> position \<Rightarrow> pyfloat result" where
  "change_pct v pos = fdiv (fsub v (p_entry pos)) (p_entry pos)"

definition track_extremes :: "tstamp \<Rightarrow> pyfloat \<Rightarrow> string \<Rightarrow> position \<Rightarrow> position result" where
  "track_extremes now current_val quality pos =
    (if \<not> entry_positive pos then Inr pos else
     rbind (change_pct current_val pos) (\<lambda>pct.
       let t = (p_tel pos)\<lparr>t_price_source := Some ''rest'', t_mae_quality := Some quality\<rparr>;
           t1 = (if (case t_mae_px t of None \<Rightarrow> True | Some m \<Rightarrow> flt current_val m)
                 then t\<lparr>t_mae_px := Some current_val, t_mae_pct := Some pct, t_mae_ts := Some now\<rparr> else t);
           t2 = (if (case t_mfe_px t1 of None \<Rightarrow> True | Some m \<Rightarrow> fgt current_val m)
                 then t1\<lparr>t_mfe_px := Some current_val, t_mfe_pct := Some pct, t_mfe_ts := Some now\<rparr> else t1)
       in Inr (pos\<lparr>p_tel := t2\<rparr>)))"

definition profit_ready :: "pyfloat \<Rightarrow> pyfloat \<Rightarrow> position \<Rightarrow> bool result" where
  "profit_ready current_val target_val pos =
    (let edge = fsub target_val (p_entry pos); captured = fsub current_val (p_entry pos) in
     if \<not> fgt edge (Fin 0) then Inr False else
     rbind (fdiv captured edge) (\<lambda>r.
       Inr (fge r PROFIT_TARGET_FRACTION \<and> fge captured PROFIT_LOCK_MIN)))"

definition confirm_profit :: "tstamp \<Rightarrow> position \<Rightarrow> position" where
  "confirm_profit now pos = pos\<lparr>p_confirm := p_confirm pos + 1,
     p_confirm_ts := Some (case p_confirm_ts pos of None \<Rightarrow> now | Some t \<Rightarrow> t)\<rparr>"

definition profit_confirmed :: "tstamp \<Rightarrow> position \<Rightarrow> bool" where
  "profit_confirmed now pos = (p_confirm pos \<ge> PROFIT_CONFIRM_CYCLES \<and>
     (case p_confirm_ts pos of None \<Rightarrow> False | Some t \<Rightarrow> fge (total_seconds now t) MIN_PROFIT_CONFIRM_SECS))"

definition unconfirm_profit :: "position \<Rightarrow> position" where
  "unconfirm_profit pos = pos\<lparr>p_confirm := 0, p_confirm_ts := None\<rparr>"

definition setdefault :: "'a option \<Rightarrow> 'a \<Rightarrow> 'a option" where
  "setdefault old v = (case old of None \<Rightarrow> Some v | Some _ \<Rightarrow> old)"

definition mark_stop :: "tstamp \<Rightarrow> pyfloat \<Rightarrow> position \<Rightarrow> position result" where
  "mark_stop now current_val pos =
    (let t = (p_tel pos)\<lparr>t_sl_px := setdefault (t_sl_px (p_tel pos)) current_val,
                         t_first_trigger := setdefault (t_first_trigger (p_tel pos)) now\<rparr> in
     if entry_positive pos
     then rbind (change_pct current_val pos) (\<lambda>pct.
       Inr (pos\<lparr>p_tel := t\<lparr>t_sl_pct := setdefault (t_sl_pct t) pct\<rparr>\<rparr>))
     else Inr (pos\<lparr>p_tel := t\<rparr>))"

text \<open>Steps 4 to 6: the stop loss behind the minimal holding time.\<close>

definition check_stop ::
  "tstamp \<Rightarrow> pyfloat \<Rightarrow> pyfloat \<Rightarrow> position \<Rightarrow> string option result \<times> position" where
  "check_stop now time_to_expiry_secs current_val pos =
    (let held_seconds = total_seconds now (p_opened_at pos) in
     if flt held_seconds MIN_HOLD_SECS then (Inr None, pos) else
     case dynamic_stop held_seconds time_to_expiry_secs of
       Inl e \<Rightarrow> (Inl e, pos)
     | Inr sl_threshold \<Rightarrow>
        if flt current_val (fmul (p_entry pos) (fsub (Fin 1) sl_threshold))
        then (case mark_stop now current_val pos of
            Inl e \<Rightarrow> (Inl e, pos)
          | Inr pos' \<Rightarrow> (Inr (Some ''stop_loss_hit''), pos'))
        else (Inr None, pos))"

definition check_exit ::
  "(string \<Rightarrow> pyfloat option) \<Rightarrow> tstamp \<Rightarrow> position \<Rightarrow> pyfloat \<Rightarrow> pyfloat
     \<Rightarrow> string option result \<times> position" where
  "check_exit bid now pos pm_yes_price time_to_expiry_secs =
    (let near_expiry = flt time_to_expiry_secs NEAR_EXPIRY_SECS;
         (current_val, target_val, quality) = valuation bid pos pm_yes_price in
     case fdiv (total_seconds now (p_opened_at pos)) (Fin 60) of Inl e \<Rightarrow> (Inl e, pos)
     | Inr held_minutes \<Rightarrow>
     (case track_extremes now current_val quality pos of Inl e \<Rightarrow> (Inl e, pos)
      | Inr pos1 \<Rightarrow>
        if \<not> near_expiry \<and> fge held_minutes (Fin (of_int MAX_HOLD_MINUTES))
        then (Inr (Some ''max_hold_time''), pos1)
        else (case profit_ready current_val target_val pos1 of Inl e \<Rightarrow> (Inl e, pos1)
          | Inr ready \<Rightarrow>
             if ready \<and> \<not> near_expiry
             then (let pos2 = confirm_profit now pos1 in
               if profit_confirmed now pos2 then (Inr (Some ''profit_target_hit''), pos2)
               else check_stop now time_to_expiry_secs current_val pos2)
             else check_stop now time_to_expiry_secs current_val (unconfirm_profit pos1))))"

section \<open>Closing\<close>

definition close_position ::
  "tstamp \<Rightarrow> position \<Rightarrow> string \<Rightarrow> pyfloat option \<Rightarrow> pyfloat option \<Rightarrow> position" where
  "close_position now pos exit_reason pm_exit_price exit_hl_price =
     pos\<lparr>p_status := ''closed'', p_exit_reason := Some exit_reason, p_closed_at := Some now,
         p_exit_price := pm_exit_price, p_exit_hl := exit_hl_price\<rparr>"

section \<open>Facts\<close>

lemma total_seconds_not_NaN [simp]: "total_seconds t2 t1 \<noteq> NaN"
  by (simp add: total_seconds_def)

lemma fdiv_Fin_nonzero: "a \<noteq> 0 \<Longrightarrow> \<exists>r. fdiv x (Fin a) = Inr r"
  by (cases x) auto

lemma fdiv_positive: "fgt y (Fin 0) \<Longrightarrow> \<exists>r. fdiv x y = Inr r"
  by (cases y; cases x) auto

lemma mkf_between:
  assumes "a \<le> x" "x \<le> b" "f64 a = a" "f64 b = b" "\<bar>a\<bar> < f_max_finite" "\<bar>b\<bar> < f_max_finite"
  shows "\<exists>r. mkf x = Fin r \<and> f64 r = r \<and> a \<le> r \<and> r \<le> b"
proof -
  have "fle (Fin a) (mkf x)" "fle (mkf x) (Fin b)" using assms by (auto intro: mkf_ge mkf_le)
  then obtain r where "mkf x = Fin r" "a \<le> r" "r \<le> b" by (cases "mkf x") (auto simp: fle_def feq_def)
  moreover from this(1) have "f64 r = r" by (auto simp: mkf_def Let_def split: if_splits)
  ultimately show ?thesis by blast
qed

lemma f64_1 [simp]: "f64 1 = 1" by code_simp

lemma f_max_finite_gt_1: "\<bar>1\<bar> < f_max_finite" by (simp add: f_max_finite_def)

lemma stop_range:
  obtains D where "fsub STOP_LOSS_MAX STOP_LOSS_MIN = Fin D" "0 \<le> D" "f64 D = D" "\<bar>D\<bar> < f_max_finite"
    "STOP_LOSS_MAX = Fin 0.25" "STOP_LOSS_MIN = Fin (0.25 - D)" "f64 (0.25 - D) = 0.25 - D"
proof
  let ?D = "1170935903116329 / 9007199254740992 :: rat"
  show "fsub STOP_LOSS_MAX STOP_LOSS_MIN = Fin ?D" by code_simp
  show "0 \<le> ?D" by simp
  show "f64 ?D = ?D" by code_simp
  show "\<bar>?D\<bar> < f_max_finite" by code_simp
  show "STOP_LOSS_MAX = Fin 0.25" by code_simp
  show "STOP_LOSS_MIN = Fin (0.25 - ?D)" by code_simp
  show "f64 (0.25 - ?D) = 0.25 - ?D" by code_simp
qed

lemma elapsed_fraction:
  assumes "0 \<le> h" "f64 h = h" "f_max t (Fin 1) \<noteq> NaN"
  shows "\<exists>r. fdiv (Fin h) (fadd (Fin h) (f_max t (Fin 1))) = Inr (Fin r) \<and> 0 \<le> r \<and> r \<le> 1 \<and> f64 r = r"
proof -
  have "fle (Fin 1) (f_max t (Fin 1))" using assms(3) by (cases t) (auto simp: f_max_def fle_def feq_def)
  then consider m where "f_max t (Fin 1) = Fin m" "1 \<le> m" | "f_max t (Fin 1) = PInf"
    by (cases "f_max t (Fin 1)") (auto simp: fle_def feq_def)
  then show ?thesis
  proof cases
    case (1 m)
    show ?thesis
    proof (cases "mkf (h + m)")
      case (Fin w)
      have "h \<le> f64 (h + m)" using 1 assms by (simp add: f64.rd_ge)
      moreover have "1 \<le> f64 (h + m)" using 1 assms by (simp add: f64.rd_ge)
      ultimately have w: "h \<le> w" "1 \<le> w" using Fin by (auto simp: mkf_def Let_def split: if_splits)
      then have "\<exists>r. mkf (h / w) = Fin r \<and> f64 r = r \<and> 0 \<le> r \<and> r \<le> 1"
        using assms f_max_finite_gt_1 by (intro mkf_between) (simp_all add: f64.rd_zero)
      then show ?thesis using Fin w 1 by auto
    next
      case PInf
      then show ?thesis using 1 by (simp add: f64.rd_zero)
    next
      case NInf
      then have "f64 (h + m) \<le> - f_max_finite" by (auto simp: mkf_def Let_def split: if_splits)
      moreover have "0 \<le> f64 (h + m)" using 1 assms by (simp add: f64.rd_nonneg)
      ultimately show ?thesis using f_max_finite_pos by linarith
    qed simp
  next
    case 2
    then show ?thesis by (simp add: f64.rd_zero)
  qed
qed

lemma total_seconds_repr: "total_seconds t2 t1 = Fin h \<Longrightarrow> f64 h = h"
  by (auto simp: total_seconds_def mkf_def Let_def split: if_splits)

lemma dynamic_stop_total: "fge h MIN_HOLD_SECS \<Longrightarrow> \<exists>s. dynamic_stop h t = Inr s"
proof -
  assume "fge h MIN_HOLD_SECS"
  then have h: "fle (Fin 15) h" by (simp add: MIN_HOLD_SECS_def)
  let ?m = "f_max t (Fin 1)"
  have m: "?m = NaN \<or> fle (Fin 1) ?m" by (cases t) (auto simp: f_max_def fle_def feq_def)
  have pos: "fadd h ?m = NaN \<or> fgt (fadd h ?m) (Fin 0)"
  proof (cases h)
    case (Fin a)
    show ?thesis
    proof (cases ?m)
      case (Fin b)
      then have "16 \<le> a + b" using m h \<open>h = Fin a\<close> by simp
      moreover have "f64 16 = 16" by code_simp
      ultimately have "fle (Fin 16) (mkf (a + b))" by (simp add: mkf_ge f_max_finite_def)
      then show ?thesis using Fin \<open>h = Fin a\<close> by (cases "mkf (a + b)") (auto simp: fle_def feq_def)
    qed (use Fin m in \<open>auto simp: fle_def feq_def\<close>)
  qed (use h m in \<open>cases ?m; auto simp: fle_def feq_def\<close>)+
  have "\<exists>r. fdiv h (fadd h ?m) = Inr r"
  proof (cases "fadd h ?m = NaN")
    case True
    then show ?thesis by (cases h) auto
  next
    case False
    then show ?thesis using pos by (simp add: fdiv_positive)
  qed
  then show ?thesis by (auto simp: dynamic_stop_def Let_def)
qed

lemma change_pct_total:
  assumes "entry_positive pos"
  obtains r where "change_pct v pos = Inr r"
  using assms fdiv_positive unfolding entry_positive_def change_pct_def by blast

lemma tel_id: "pos = pos\<lparr>p_tel := p_tel pos\<rparr>" for pos :: position
  by simp

text \<open>Tracking and marking touch the telemetry only, and never raise.\<close>

lemma track_extremes_tel: "\<exists>te. track_extremes now v q pos = Inr (pos\<lparr>p_tel := te\<rparr>)"
proof (cases "entry_positive pos")
  case True
  then obtain r where r: "change_pct v pos = Inr r" by (rule change_pct_total)
  show ?thesis unfolding track_extremes_def Let_def r rbind_simps using True by simp blast
next
  case False
  then show ?thesis unfolding track_extremes_def by (metis tel_id)
qed

lemma mark_stop_tel: "\<exists>te. mark_stop now v pos = Inr (pos\<lparr>p_tel := te\<rparr>)"
proof (cases "entry_positive pos")
  case True
  then obtain r where r: "change_pct v pos = Inr r" by (rule change_pct_total)
  show ?thesis unfolding mark_stop_def Let_def r rbind_simps using True by simp blast
next
  case False
  then show ?thesis unfolding mark_stop_def Let_def by simp blast
qed

lemma profit_ready_total: "\<exists>b. profit_ready v t pos = Inr b"
  using fdiv_positive [of "fsub t (p_entry pos)" "fsub v (p_entry pos)"]
  by (auto simp: profit_ready_def Let_def)

lemma profit_ready_tel [simp]: "profit_ready v t (pos\<lparr>p_tel := te\<rparr>) = profit_ready v t pos"
  by (simp add: profit_ready_def)

section \<open>The verdict\<close>

definition near_expiry :: "pyfloat \<Rightarrow> bool" where
  "near_expiry secs = flt secs NEAR_EXPIRY_SECS"

definition hold_expired :: "tstamp \<Rightarrow> position \<Rightarrow> bool" where
  "hold_expired now pos = (\<exists>m. fdiv (total_seconds now (p_opened_at pos)) (Fin 60) = Inr m \<and> fge m (Fin 20))"

definition stop_due :: "tstamp \<Rightarrow> pyfloat \<Rightarrow> pyfloat \<Rightarrow> position \<Rightarrow> bool" where
  "stop_due now secs v pos = (\<not> flt (total_seconds now (p_opened_at pos)) MIN_HOLD_SECS \<and>
     (\<exists>s. dynamic_stop (total_seconds now (p_opened_at pos)) secs = Inr s \<and>
          flt v (fmul (p_entry pos) (fsub (Fin 1) s))))"

definition profit_signal ::
  "(string \<Rightarrow> pyfloat option) \<Rightarrow> pyfloat \<Rightarrow> pyfloat \<Rightarrow> position \<Rightarrow> bool" where
  "profit_signal bid pm_yes_price secs pos = (\<not> near_expiry secs \<and>
     (case valuation bid pos pm_yes_price of (v, t, q) \<Rightarrow> profit_ready v t pos = Inr True))"

lemma not_flt_total: "\<not> flt (total_seconds a b) MIN_HOLD_SECS \<Longrightarrow> fge (total_seconds a b) MIN_HOLD_SECS"
  by (simp add: not_flt MIN_HOLD_SECS_def)

lemma check_stop_verdict:
  "\<exists>te. check_stop now secs v pos = (Inr (if stop_due now secs v pos then Some ''stop_loss_hit'' else None),
     pos\<lparr>p_tel := te\<rparr>)"
proof (cases "flt (total_seconds now (p_opened_at pos)) MIN_HOLD_SECS")
  case True
  then show ?thesis unfolding check_stop_def Let_def stop_due_def by simp (metis tel_id)
next
  case False
  then obtain s where s: "dynamic_stop (total_seconds now (p_opened_at pos)) secs = Inr s"
    using dynamic_stop_total not_flt_total by blast
  obtain te where te: "mark_stop now v pos = Inr (pos\<lparr>p_tel := te\<rparr>)" using mark_stop_tel by blast
  show ?thesis
  proof (cases "flt v (fmul (p_entry pos) (fsub (Fin 1) s))")
    case True
    with False s te show ?thesis by (simp add: check_stop_def Let_def stop_due_def) blast
  next
    case nohit: False
    with False s show ?thesis by (simp add: check_stop_def Let_def stop_due_def) (metis tel_id)
  qed
qed

lemma stop_due_simps [simp]:
  "stop_due now secs v (pos\<lparr>p_tel := te\<rparr>) = stop_due now secs v pos"
  "stop_due now secs v (confirm_profit now pos) = stop_due now secs v pos"
  "stop_due now secs v (unconfirm_profit pos) = stop_due now secs v pos"
  by (simp_all add: stop_due_def confirm_profit_def unconfirm_profit_def)

lemma confirm_tel:
  "confirm_profit now (pos\<lparr>p_tel := te\<rparr>) = (confirm_profit now pos)\<lparr>p_tel := te\<rparr>"
  "unconfirm_profit (pos\<lparr>p_tel := te\<rparr>) = (unconfirm_profit pos)\<lparr>p_tel := te\<rparr>"
  "profit_confirmed now (pos\<lparr>p_tel := te\<rparr>) = profit_confirmed now pos"
  by (simp_all add: confirm_profit_def unconfirm_profit_def profit_confirmed_def)

lemma total_minutes: "\<exists>m. fdiv (total_seconds a b) (Fin 60) = Inr m"
  by (rule fdiv_Fin_nonzero) simp

text \<open>The whole decision in closed form: the verdict, and what it does to the confirmation state.\<close>

lemma check_exit_cases:
  assumes "valuation bid pos pm = (v, t, q)"
  shows "\<exists>te. check_exit bid now pos pm secs =
    (if \<not> near_expiry secs \<and> hold_expired now pos then (Inr (Some ''max_hold_time''), pos\<lparr>p_tel := te\<rparr>)
     else if profit_signal bid pm secs pos \<and> profit_confirmed now (confirm_profit now pos)
     then (Inr (Some ''profit_target_hit''), (confirm_profit now pos)\<lparr>p_tel := te\<rparr>)
     else (Inr (if stop_due now secs v pos then Some ''stop_loss_hit'' else None),
       (if profit_signal bid pm secs pos then confirm_profit now pos else unconfirm_profit pos)\<lparr>p_tel := te\<rparr>))"
proof -
  obtain m where m: "fdiv (total_seconds now (p_opened_at pos)) (Fin 60) = Inr m" using total_minutes by blast
  obtain te where te: "track_extremes now v q pos = Inr (pos\<lparr>p_tel := te\<rparr>)" using track_extremes_tel by blast
  obtain b where b: "profit_ready v t pos = Inr b" using profit_ready_total by blast
  have h: "hold_expired now pos \<longleftrightarrow> fge m (Fin 20)" by (simp add: hold_expired_def m)
  have ps: "profit_signal bid pm secs pos \<longleftrightarrow> b \<and> \<not> near_expiry secs"
    by (auto simp: profit_signal_def assms b)
  have cs: "\<exists>te'. check_stop now secs v (p\<lparr>p_tel := te\<rparr>) =
      (Inr (if stop_due now secs v p then Some ''stop_loss_hit'' else None), p\<lparr>p_tel := te'\<rparr>)" for p
    using check_stop_verdict [of now secs v "p\<lparr>p_tel := te\<rparr>"] by simp
  have eq: "check_exit bid now pos pm secs =
    (if \<not> near_expiry secs \<and> fge m (Fin 20) then (Inr (Some ''max_hold_time''), pos\<lparr>p_tel := te\<rparr>)
     else if b \<and> \<not> near_expiry secs
     then (if profit_confirmed now (confirm_profit now pos)
       then (Inr (Some ''profit_target_hit''), (confirm_profit now pos)\<lparr>p_tel := te\<rparr>)
       else check_stop now secs v ((confirm_profit now pos)\<lparr>p_tel := te\<rparr>))
     else check_stop now secs v ((unconfirm_profit pos)\<lparr>p_tel := te\<rparr>))"
    by (simp add: check_exit_def assms m te b near_expiry_def MAX_HOLD_MINUTES_def confirm_tel Let_def)
  obtain t1 where t1: "check_stop now secs v ((confirm_profit now pos)\<lparr>p_tel := te\<rparr>) =
      (Inr (if stop_due now secs v pos then Some ''stop_loss_hit'' else None), (confirm_profit now pos)\<lparr>p_tel := t1\<rparr>)"
    using cs [of "confirm_profit now pos"] unfolding stop_due_simps by blast
  obtain t2 where t2: "check_stop now secs v ((unconfirm_profit pos)\<lparr>p_tel := te\<rparr>) =
      (Inr (if stop_due now secs v pos then Some ''stop_loss_hit'' else None), (unconfirm_profit pos)\<lparr>p_tel := t2\<rparr>)"
    using cs [of "unconfirm_profit pos"] unfolding stop_due_simps by blast
  show ?thesis
  proof (cases "b \<and> \<not> near_expiry secs")
    case False
    then show ?thesis unfolding eq h ps t1 t2
      by (cases "\<not> near_expiry secs \<and> fge m (Fin 20)") (simp_all only: if_True if_False simp_thms, blast+)
  next
    case True
    then show ?thesis unfolding eq h ps t1 t2
      by (cases "\<not> near_expiry secs \<and> fge m (Fin 20)"; cases "profit_confirmed now (confirm_profit now pos)")
        (simp_all only: if_True if_False simp_thms, blast+)
  qed
qed

section \<open>A watched position\<close>

text \<open>What one monitor cycle sees of a position: the clock, the websocket bids, the fallback bid of the NO
  token that the cycle has fetched, the YES price and the time to expiry.\<close>

record sighting =
  so_now :: tstamp
  so_bid :: "string \<Rightarrow> pyfloat option"
  so_no_clob :: "pyfloat option"
  so_yes :: pyfloat
  so_secs :: pyfloat

definition look :: "sighting \<Rightarrow> position \<Rightarrow> string option result \<times> position" where
  "look x pos = check_exit (so_bid x) (so_now x) (pos\<lparr>p_no_clob_bid := so_no_clob x\<rparr>) (so_yes x) (so_secs x)"

definition in_profit :: "position \<Rightarrow> sighting \<Rightarrow> bool" where
  "in_profit pos x = profit_signal (so_bid x) (so_yes x) (so_secs x) (pos\<lparr>p_no_clob_bid := so_no_clob x\<rparr>)"

text \<open>The position after sightings that all said to hold it.\<close>

fun held_through :: "sighting list \<Rightarrow> position \<Rightarrow> position option" where
  "held_through [] pos = Some pos"
| "held_through (x # xs) pos = (case look x pos of (Inr None, pos') \<Rightarrow> held_through xs pos' | _ \<Rightarrow> None)"

lemma look_None:
  assumes "look x pos = (Inr None, pos')"
  shows "p_confirm pos' = (if in_profit pos x then p_confirm pos + 1 else 0) \<and>
    p_confirm_ts pos' = (if in_profit pos x then Some (case p_confirm_ts pos of None \<Rightarrow> so_now x | Some t \<Rightarrow> t) else None) \<and>
    p_action pos' = p_action pos \<and> p_entry pos' = p_entry pos \<and> p_fair pos' = p_fair pos \<and> p_no_tok pos' = p_no_tok pos \<and>
    p_opened_at pos' = p_opened_at pos"
proof -
  let ?p = "pos\<lparr>p_no_clob_bid := so_no_clob x\<rparr>"
  obtain v t q where val: "valuation (so_bid x) ?p (so_yes x) = (v, t, q)" by (metis prod_cases3)
  from check_exit_cases [OF val, of "so_now x" "so_secs x"] assms show ?thesis
    by (auto simp: look_def in_profit_def confirm_profit_def unconfirm_profit_def split: if_splits)
qed

lemma look_verdict:
  assumes "valuation (so_bid x) (pos\<lparr>p_no_clob_bid := so_no_clob x\<rparr>) (so_yes x) = (v, t, q)"
  shows "fst (look x pos) = Inr (if \<not> near_expiry (so_secs x) \<and> hold_expired (so_now x) pos then Some ''max_hold_time''
    else if in_profit pos x \<and> profit_confirmed (so_now x) (confirm_profit (so_now x) pos) then Some ''profit_target_hit''
    else if stop_due (so_now x) (so_secs x) v pos then Some ''stop_loss_hit'' else None)"
  using check_exit_cases [OF assms, of "so_now x" "so_secs x"]
  by (auto simp: look_def in_profit_def hold_expired_def stop_due_def profit_confirmed_def confirm_profit_def)

lemma in_profit_cong:
  assumes "p_action p = p_action p'" "p_entry p = p_entry p'" "p_fair p = p_fair p'" "p_no_tok p = p_no_tok p'"
  shows "in_profit p x = in_profit p' x"
proof -
  let ?p = "p\<lparr>p_no_clob_bid := so_no_clob x\<rparr>" and ?p' = "p'\<lparr>p_no_clob_bid := so_no_clob x\<rparr>"
  have "valuation b ?p y = valuation b ?p' y" for b y
    using assms by (simp add: valuation_def Let_def split: option.split)
  moreover have "profit_ready v t ?p = profit_ready v t ?p'" for v t
    using assms(2) by (simp add: profit_ready_def)
  ultimately show ?thesis by (simp add: in_profit_def profit_signal_def)
qed

text \<open>The confirmation counter is the length of the current run of profitable sightings, and its time
  stamp is the time of the first of them.\<close>

lemma confirm_is_streak:
  assumes "held_through xs pos = Some pos'" "p_confirm pos = 0" "p_confirm_ts pos = None"
  defines "s \<equiv> takeWhile (in_profit pos) (rev xs)"
  shows "p_confirm pos' = int (length s) \<and> p_confirm_ts pos' = (if s = [] then None else Some (so_now (last s))) \<and>
    (\<forall>x. in_profit pos' x = in_profit pos x)"
  using assms(1) unfolding s_def
proof (induction xs arbitrary: pos' rule: rev_induct)
  case Nil
  then show ?case using assms(2,3) by simp
next
  case (snoc y ys)
  have split: "held_through (ys @ [y]) p = Some q \<Longrightarrow>
      \<exists>r. held_through ys p = Some r \<and> look y r = (Inr None, q)" for p q
    by (induction ys p rule: held_through.induct) (auto split: prod.splits sum.splits option.splits)
  obtain r where r: "held_through ys pos = Some r" "look y r = (Inr None, pos')" using split [OF snoc.prems] by blast
  note ih = snoc.IH [OF r(1)] and l = look_None [OF r(2)]
  have "in_profit pos' x = in_profit r x" for x using l by (intro in_profit_cong) auto
  with ih l show ?case by auto
qed

text \<open>C20: A profit exit is never the work of one spike: when the exit says \<open>profit_target_hit\<close> after any
  history of holding, the last sightings form an unbroken run of at least two that were all in profit away
  from expiry, and the first of that run lies at least three seconds back.\<close>

theorem profit_exit_confirmed:
  assumes "held_through xs pos = Some pos'" "p_confirm pos = 0" "p_confirm_ts pos = None"
    and "fst (look x pos') = Inr (Some ''profit_target_hit'')"
  shows "let s = takeWhile (in_profit pos) (rev (xs @ [x])) in
    2 \<le> length s \<and> fge (total_seconds (so_now x) (so_now (last s))) (Fin 3) \<and> \<not> near_expiry (so_secs x)"
proof -
  let ?p = "pos'\<lparr>p_no_clob_bid := so_no_clob x\<rparr>"
  note inv = confirm_is_streak [OF assms(1-3)]
  obtain v t q where val: "valuation (so_bid x) ?p (so_yes x) = (v, t, q)" by (metis prod_cases3)
  from check_exit_cases [OF val, of "so_now x" "so_secs x"] assms(4)
  have c: "in_profit pos' x" "profit_confirmed (so_now x) (confirm_profit (so_now x) ?p)"
    by (auto simp: look_def in_profit_def split: if_splits)
  then have "in_profit pos x" using inv by simp
  then show ?thesis using c inv
    by (auto simp: profit_confirmed_def confirm_profit_def PROFIT_CONFIRM_CYCLES_def MIN_PROFIT_CONFIRM_SECS_def
        in_profit_def profit_signal_def Let_def)
qed

text \<open>C21: The exit decision never raises and is exactly this: away from expiry (ninety seconds) a position held
  for twenty minutes is closed for its age; else a price that has moved far enough away from expiry is taken
  as profit exactly when it is at least the second such sighting in a row and the first lies at least three
  seconds back; else the stop is hit exactly when the minimal holding time is over and the value is below
  the dynamic threshold; else the position is held. The confirmation state is kept by the age exit,
  advanced by every profitable sighting and reset by every other one, and beside it only the telemetry
  changes.\<close>

theorem exit_verdict:
  assumes "valuation bid pos pm = (v, t, q)"
  shows "\<exists>te. check_exit bid now pos pm secs =
    (let away = \<not> flt secs (Fin 90);
         old = away \<and> (\<exists>m. fdiv (total_seconds now (p_opened_at pos)) (Fin 60) = Inr m \<and> fge m (Fin 20));
         signal = (away \<and> profit_ready v t pos = Inr True);
         first = (case p_confirm_ts pos of None \<Rightarrow> now | Some t0 \<Rightarrow> t0);
         profit = (signal \<and> 2 \<le> p_confirm pos + 1 \<and> fge (total_seconds now first) (Fin 3)) in
     (Inr (if old then Some ''max_hold_time'' else if profit then Some ''profit_target_hit''
           else if stop_due now secs v pos then Some ''stop_loss_hit'' else None),
      pos\<lparr>p_confirm := if old then p_confirm pos else if signal then p_confirm pos + 1 else 0,
          p_confirm_ts := if old then p_confirm_ts pos else if signal then Some first else None, p_tel := te\<rparr>))"
proof -
  have h: "hold_expired now pos \<longleftrightarrow> (\<exists>m. fdiv (total_seconds now (p_opened_at pos)) (Fin 60) = Inr m \<and> fge m (Fin 20))"
    by (simp add: hold_expired_def)
  have s: "profit_signal bid pm secs pos \<longleftrightarrow> \<not> flt secs (Fin 90) \<and> profit_ready v t pos = Inr True"
    by (simp add: profit_signal_def assms near_expiry_def NEAR_EXPIRY_SECS_def)
  have n: "near_expiry secs \<longleftrightarrow> flt secs (Fin 90)" by (simp add: near_expiry_def NEAR_EXPIRY_SECS_def)
  have c: "profit_confirmed now (confirm_profit now pos) \<longleftrightarrow> 2 \<le> p_confirm pos + 1 \<and>
      fge (total_seconds now (case p_confirm_ts pos of None \<Rightarrow> now | Some t0 \<Rightarrow> t0)) (Fin 3)"
    by (simp add: profit_confirmed_def confirm_profit_def PROFIT_CONFIRM_CYCLES_def MIN_PROFIT_CONFIRM_SECS_def)
  have shape: "(if A then (r1, pos\<lparr>p_tel := te\<rparr>) else if S \<and> K then (r2, (confirm_profit now pos)\<lparr>p_tel := te\<rparr>)
      else (r3, (if S then confirm_profit now pos else unconfirm_profit pos)\<lparr>p_tel := te\<rparr>)) =
    (if A then r1 else if S \<and> K then r2 else r3,
     pos\<lparr>p_confirm := if A then p_confirm pos else if S then p_confirm pos + 1 else 0,
       p_confirm_ts := if A then p_confirm_ts pos else if S then Some (case p_confirm_ts pos of None \<Rightarrow> now | Some t0 \<Rightarrow> t0) else None,
       p_tel := te\<rparr>)" for A S K and r1 r2 r3 :: "string option result" and te
    by (cases A; cases S; cases K) (simp_all add: confirm_profit_def unconfirm_profit_def)
  have verdict: "(if A then Inr (Some x) else if P then Inr (Some y) else Inr (if D then Some z else None)) =
      (Inr (if A then Some x else if P then Some y else if D then Some z else None) :: string option result)" for A P D x y z
    by simp
  show ?thesis using check_exit_cases [OF assms, of now secs]
    unfolding shape verdict unfolding h s n c Let_def by (simp only: conj_assoc)
qed

text \<open>The dynamic stop stays in its band: for any holding time that is not negative and any time to expiry
  that is a number, the tolerated loss lies between the minimum and the maximum, to the last bit.\<close>

theorem dynamic_stop_band:
  assumes "total_seconds now opened = Fin h" "0 \<le> h" "secs \<noteq> NaN"
  shows "\<exists>s. dynamic_stop (total_seconds now opened) secs = Inr s \<and> fle STOP_LOSS_MIN s \<and> fle s STOP_LOSS_MAX"
proof -
  obtain D where D: "fsub STOP_LOSS_MAX STOP_LOSS_MIN = Fin D" "0 \<le> D" "f64 D = D" "\<bar>D\<bar> < f_max_finite"
    "STOP_LOSS_MAX = Fin 0.25" "STOP_LOSS_MIN = Fin (0.25 - D)" "f64 (0.25 - D) = 0.25 - D"
    by (rule stop_range)
  have "f_max secs (Fin 1) \<noteq> NaN" using assms(3) by (auto simp: f_max_def)
  from elapsed_fraction [OF assms(2) total_seconds_repr [OF assms(1)] this] obtain r where
    r: "fdiv (Fin h) (fadd (Fin h) (f_max secs (Fin 1))) = Inr (Fin r)" "0 \<le> r" "r \<le> 1" by blast
  have "r * D \<le> D" using r D(2) by (simp add: mult_left_le_one_le)
  then obtain x where x: "mkf (r * D) = Fin x" "0 \<le> x" "x \<le> D"
    using mkf_between [of 0 "r * D" D] r D by (auto simp: f64.rd_zero)
  have q: "f64 (1/4) = 1/4" by code_simp
  have "\<bar>1/4 - D\<bar> < f_max_finite" "\<bar>1/4 :: rat\<bar> < f_max_finite"
    using D(2,4) f_max_finite_gt_1 by (auto simp: abs_less_iff)
  then obtain y where y: "mkf (1/4 - x) = Fin y" "1/4 - D \<le> y" "y \<le> 1/4"
    using mkf_between [of "1/4 - D" "1/4 - x" "1/4"] x D(7) q by auto
  have "dynamic_stop (total_seconds now opened) secs = Inr (fsub STOP_LOSS_MAX (Fin x))"
    by (simp add: dynamic_stop_def Let_def assms(1) r(1) D(1) x(1))
  moreover have "fsub STOP_LOSS_MAX (Fin x) = Fin y" using y(1) by (simp add: D(5) fsub_def fneg_def)
  ultimately show ?thesis unfolding D(5,6) using y by simp
qed

lemma dynamic_stop_band_witness:
  "\<exists>s. dynamic_stop (total_seconds 30000000 0) (Fin 500) = Inr s \<and> fle STOP_LOSS_MIN s \<and> fle s STOP_LOSS_MAX"
proof -
  have "total_seconds 30000000 0 = Fin 30" by code_simp
  then show ?thesis by (rule dynamic_stop_band) simp_all
qed

section \<open>Witnesses\<close>

definition sample_position :: position where
  "sample_position = \<lparr>p_id = ''p1'', p_opened_at = 0, p_slug = ''btc-updown-15m-1'', p_asset = ''BTC'',
     p_action = ''YES'', p_entry = Fin (1/2), p_fair = Fin (3/4), p_ref = Fin 100, p_edge = Fin (1/4), p_usd = Fin 5,
     p_kelly = flit 0.1, p_conf = Fin 80, p_shares = Some (Fin 10), p_order_id = None, p_yes_tok = Some ''Y'',
     p_no_tok = Some ''N'', p_token_keys = True, p_part_keys = False, p_status = ''open'', p_dry_run = False, p_entry_hl = None, p_ask_at_decision = None,
     p_slippage = None, p_intent = None, p_seq = None, p_closing = False, p_confirm = 0, p_confirm_ts = None,
     p_no_clob_bid = None, p_cached_hl = None, p_cached_secs = None, p_part_count = 0, p_part_shares = None,
     p_part_usdc = None, p_exit_reason = None, p_closed_at = None, p_exit_price = None, p_exit_hl = None,
     p_pnl = None, p_tel = no_telemetry\<rparr>"

definition sample_sighting :: "tstamp \<Rightarrow> rat \<Rightarrow> rat \<Rightarrow> sighting" where
  "sample_sighting now price secs = \<lparr>so_now = now, so_bid = (\<lambda>_. None), so_no_clob = None, so_yes = Fin price,
     so_secs = Fin secs\<rparr>"

lemma exit_verdict_witness:
  "fst (check_exit (\<lambda>_. None) 20000000 sample_position (Fin (1/4)) (Fin 500)) = Inr (Some ''stop_loss_hit'')"
proof -
  have v: "valuation (\<lambda>_. None) sample_position (Fin (1/4)) = (Fin (1/4), Fin (3/4), ''exact'')"
    by (simp add: valuation_def sample_position_def)
  have d: "dynamic_stop (total_seconds 20000000 0) (Fin 500) = Inr (Fin (2206763817411543 / 9007199254740992))"
    by code_simp
  have "\<not> flt (total_seconds 20000000 0) MIN_HOLD_SECS" by code_simp
  moreover have "flt (Fin (1/4)) (fmul (Fin (1/2)) (fsub (Fin 1) (Fin (2206763817411543 / 9007199254740992))))"
    by code_simp
  ultimately have s: "stop_due 20000000 (Fin 500) (Fin (1/4)) sample_position"
    using d by (auto simp: stop_due_def sample_position_def)
  have "case fdiv (total_seconds 20000000 0) (Fin 60) of Inl e \<Rightarrow> False | Inr m \<Rightarrow> \<not> fge m (Fin 20)" by code_simp
  then have "\<not> (\<exists>m. fdiv (total_seconds 20000000 (p_opened_at sample_position)) (Fin 60) = Inr m \<and> fge m (Fin 20))"
    by (auto simp: sample_position_def)
  moreover have "p_confirm sample_position = 0" by (simp add: sample_position_def)
  ultimately show ?thesis using exit_verdict [OF v, of 20000000 "Fin 500"] s by (auto simp: Let_def)
qed

lemma sample_signal: "in_profit sample_position (sample_sighting 17000000 (3/4) 800)"
  "in_profit sample_position (sample_sighting 21000000 (3/4) 796)"
  by code_simp+

lemma sample_times:
  "(case fdiv (total_seconds 17000000 0) (Fin 60) of Inl e \<Rightarrow> False | Inr m \<Rightarrow> \<not> fge m (Fin 20))"
  "(case fdiv (total_seconds 21000000 0) (Fin 60) of Inl e \<Rightarrow> False | Inr m \<Rightarrow> \<not> fge m (Fin 20))"
  "fge (total_seconds 21000000 17000000) MIN_PROFIT_CONFIRM_SECS"
  by code_simp+

lemma profit_exit_confirmed_witness:
  "let s = takeWhile (in_profit sample_position)
      (rev ([sample_sighting 17000000 (3/4) 800] @ [sample_sighting 21000000 (3/4) 796])) in
    2 \<le> length s \<and> fge (total_seconds (so_now (sample_sighting 21000000 (3/4) 796)) (so_now (last s))) (Fin 3) \<and>
      \<not> near_expiry (so_secs (sample_sighting 21000000 (3/4) 796))"
proof -
  let ?x = "sample_sighting 17000000 (3/4) 800" and ?y = "sample_sighting 21000000 (3/4) 796"
  have zero: "p_confirm sample_position = 0" "p_confirm_ts sample_position = None" by (simp_all add: sample_position_def)
  have "fst (look ?x sample_position) = Inr None"
  proof -
    have v: "valuation (so_bid ?x) (sample_position\<lparr>p_no_clob_bid := so_no_clob ?x\<rparr>) (so_yes ?x) =
        (Fin (3/4), Fin (3/4), ''exact'')"
      by (simp add: valuation_def sample_position_def sample_sighting_def)
    have "case dynamic_stop (total_seconds 17000000 0) (Fin 800) of Inl e \<Rightarrow> False
        | Inr s \<Rightarrow> \<not> flt (Fin (3/4)) (fmul (Fin (1/2)) (fsub (Fin 1) s))" by code_simp
    then have "\<not> stop_due (so_now ?x) (so_secs ?x) (Fin (3/4)) sample_position"
      by (auto simp: stop_due_def sample_position_def sample_sighting_def)
    moreover have "\<not> hold_expired (so_now ?x) sample_position"
      using sample_times(1) by (auto simp: hold_expired_def sample_position_def sample_sighting_def)
    ultimately show ?thesis using zero unfolding look_verdict [OF v]
      by (simp add: profit_confirmed_def confirm_profit_def PROFIT_CONFIRM_CYCLES_def)
  qed
  then obtain p where p: "look ?x sample_position = (Inr None, p)" by (metis prod.collapse)
  then have held: "held_through [?x] sample_position = Some p" by simp
  note l = look_None [OF p]
  have "fst (look ?y p) = Inr (Some ''profit_target_hit'')"
  proof -
    obtain v t q where v: "valuation (so_bid ?y) (p\<lparr>p_no_clob_bid := so_no_clob ?y\<rparr>) (so_yes ?y) = (v, t, q)"
      by (metis prod_cases3)
    have "in_profit p ?y" using sample_signal(2) in_profit_cong [of p sample_position ?y] l by simp
    moreover have "\<not> hold_expired (so_now ?y) p"
      using sample_times(2) l by (auto simp: hold_expired_def sample_position_def sample_sighting_def)
    moreover have "profit_confirmed (so_now ?y) (confirm_profit (so_now ?y) p)"
      using sample_times(3) l zero sample_signal(1)
      by (simp add: profit_confirmed_def confirm_profit_def PROFIT_CONFIRM_CYCLES_def sample_sighting_def)
    ultimately show ?thesis unfolding look_verdict [OF v] by simp
  qed
  from profit_exit_confirmed [OF held zero this] show ?thesis .
qed

end
