(* ===== verification/Json.thy ===== *)
theory Json
  imports PyVal
begin

text \<open>
  JSON documents as Python sees them after \<open>json.loads\<close>, and the operations the program applies to
  them without knowing their shape: truth, \<open>d.get(k)\<close>, \<open>d[k]\<close>, iteration and \<open>float\<close>. The keys of an
  object are distinct.
\<close>

datatype json = JVal pyval | JList "json list" | JObj "(string \<times> json) list"

definition jstr :: "string \<Rightarrow> json" where "jstr s = JVal (PStr s)"

lemma jstr_inj [simp]: "jstr a = jstr b \<longleftrightarrow> a = b"
  by (simp add: jstr_def)

definition float_of_json :: "json \<Rightarrow> pyfloat result" where
  "float_of_json j = (case j of JVal v \<Rightarrow> float_of_val v | _ \<Rightarrow> Inl TypeError)"

definition json_truthy :: "json \<Rightarrow> bool" where
  "json_truthy j = (case j of JVal v \<Rightarrow> py_truthy v | JList xs \<Rightarrow> xs \<noteq> [] | JObj kvs \<Rightarrow> kvs \<noteq> [])"

text \<open>\<open>j.get(k)\<close>: only a dict has the method; an absent key gives \<open>None\<close>, like a null.\<close>

definition json_get :: "json \<Rightarrow> string \<Rightarrow> json option result" where
  "json_get j k = (case j of JObj kvs \<Rightarrow> Inr (map_of kvs k) | _ \<Rightarrow> Inl AttributeError)"

text \<open>\<open>j[k]\<close> for a text \<open>k\<close>: a dict raises on an absent key, anything else has no text index.\<close>

definition json_index :: "json \<Rightarrow> string \<Rightarrow> json result" where
  "json_index j k = (case j of
     JObj kvs \<Rightarrow> (case map_of kvs k of None \<Rightarrow> Inl KeyError | Some v \<Rightarrow> Inr v) | _ \<Rightarrow> Inl TypeError)"

text \<open>\<open>for x in j\<close>: a dict yields its keys, a text its characters.\<close>

definition json_iter :: "json \<Rightarrow> json list result" where
  "json_iter j = (case j of
     JList xs \<Rightarrow> Inr xs | JObj kvs \<Rightarrow> Inr (map (jstr \<circ> fst) kvs)
   | JVal (PStr s) \<Rightarrow> Inr (map (\<lambda>c. jstr [c]) s) | _ \<Rightarrow> Inl TypeError)"

text \<open>\<open>float(v) if v else None\<close> and \<open>float(v or 0)\<close>.\<close>

definition opt_float :: "json option \<Rightarrow> pyfloat option result" where
  "opt_float v = (case v of None \<Rightarrow> Inr None
     | Some j \<Rightarrow> if json_truthy j then rbind (float_of_json j) (\<lambda>x. Inr (Some x)) else Inr None)"

definition float_or_zero :: "json option \<Rightarrow> pyfloat result" where
  "float_or_zero v = rbind (opt_float v) (\<lambda>x. Inr (case x of None \<Rightarrow> Fin 0 | Some y \<Rightarrow> y))"

end
