(* ===== verification/MarketData.thy ===== *)
theory MarketData
  imports Json
begin

text \<open>
  What the program knows about prices: the levels of a REST order book (\<open>data/clob_price.py\<close>), the
  atomic snapshot handed to the decision paths (\<open>data/orderbook_snapshot.py\<close>) and the websocket price
  cache with its event handlers (\<open>data/ws_prices.py\<close>). The bodies of REST responses and websocket
  events are JSON arguments, the clock is a float argument (\<open>time.time()\<close>). The HTTP requests, the
  reconnect loop and the pings are not modelled; a failed request is the absent book.
\<close>

section \<open>Order book levels\<close>

type_synonym level = "pyfloat \<times> pyfloat"

text \<open>One raw level: \<open>None\<close> is a skipped one. An integer too big for a float is not skipped, it raises.\<close>

definition raw_level :: "json \<Rightarrow> level option result" where
  "raw_level x =
    (let parsed = rbind (json_get x ''price'') (\<lambda>pv. rbind (float_or_zero pv) (\<lambda>p.
         rbind (json_get x ''size'') (\<lambda>sv. rbind (float_or_zero sv) (\<lambda>s. Inr (p, s))))) in
     case parsed of
       Inl e \<Rightarrow> if e \<in> {TypeError, ValueError, AttributeError} then Inr None else Inl e
     | Inr (p, s) \<Rightarrow> Inr (if fgt p (Fin 0) \<and> fgt s (Fin 0) then Some (p, s) else None))"

definition some_values :: "'a option list \<Rightarrow> 'a list" where
  "some_values xs = [x. Some x \<leftarrow> xs]"

definition book_levels :: "json option \<Rightarrow> level list result" where
  "book_levels raw = (case raw of None \<Rightarrow> Inr []
     | Some j \<Rightarrow> if \<not> json_truthy j then Inr [] else
         rbind (json_iter j) (\<lambda>xs. rbind (mapM_r raw_level xs) (\<lambda>ls. Inr (some_values ls))))"

text \<open>A stable sort: an element is placed before the first one that does not precede it strictly.\<close>

fun place :: "('a \<Rightarrow> 'a \<Rightarrow> bool) \<Rightarrow> 'a \<Rightarrow> 'a list \<Rightarrow> 'a list" where
  "place before x [] = [x]"
| "place before x (y # ys) = (if before y x then y # place before x ys else x # y # ys)"

definition stable_sort :: "('a \<Rightarrow> 'a \<Rightarrow> bool) \<Rightarrow> 'a list \<Rightarrow> 'a list" where
  "stable_sort before xs = foldr (place before) xs []"

definition cheaper :: "pyfloat \<times> 'a \<Rightarrow> pyfloat \<times> 'a \<Rightarrow> bool" where "cheaper a b = flt (fst a) (fst b)"
definition dearer :: "pyfloat \<times> 'a \<Rightarrow> pyfloat \<times> 'a \<Rightarrow> bool" where "dearer a b = flt (fst b) (fst a)"

text \<open>\<open>(book or {}).get(side)\<close>: the body of a book is an object here, \<open>get_book\<close> has checked it.\<close>

type_synonym rest_book = "(string \<times> json) list"

definition book_side :: "rest_book option \<Rightarrow> string \<Rightarrow> json option" where
  "book_side b side = (case b of None \<Rightarrow> None | Some kvs \<Rightarrow> map_of kvs side)"

definition sorted_asks :: "rest_book option \<Rightarrow> level list result" where
  "sorted_asks b = rbind (book_levels (book_side b ''asks'')) (\<lambda>ls. Inr (stable_sort cheaper ls))"

definition sorted_bids :: "rest_book option \<Rightarrow> level list result" where
  "sorted_bids b = rbind (book_levels (book_side b ''bids'')) (\<lambda>ls. Inr (stable_sort dearer ls))"

text \<open>\<open>min\<close> and \<open>max\<close> with a key keep the first extreme element.\<close>

fun first_extreme :: "('a \<Rightarrow> 'a \<Rightarrow> bool) \<Rightarrow> 'a \<Rightarrow> 'a list \<Rightarrow> 'a" where
  "first_extreme before best [] = best"
| "first_extreme before best (x # xs) = first_extreme before (if before x best then x else best) xs"

definition best_ask_from_book :: "rest_book option \<Rightarrow> pyfloat option result" where
  "best_ask_from_book b = rbind (book_levels (book_side b ''asks'')) (\<lambda>ls.
     Inr (case ls of [] \<Rightarrow> None | l # rest \<Rightarrow> Some (fst (first_extreme cheaper l rest))))"

definition best_bid_from_book :: "rest_book option \<Rightarrow> pyfloat option result" where
  "best_bid_from_book b = rbind (book_levels (book_side b ''bids'')) (\<lambda>ls.
     Inr (case ls of [] \<Rightarrow> None | l # rest \<Rightarrow> Some (fst (first_extreme dearer l rest))))"

text \<open>The body accepted as a book by \<open>get_book\<close>.\<close>

definition accept_book :: "json \<Rightarrow> rest_book option" where
  "accept_book data = (case data of
     JObj kvs \<Rightarrow> if map_of kvs ''asks'' \<noteq> None \<and> map_of kvs ''bids'' \<noteq> None then Some kvs else None
   | _ \<Rightarrow> None)"

section \<open>Snapshots\<close>

record snapshot =
  sn_bid :: "pyfloat option"
  sn_ask :: "pyfloat option"
  sn_bid_size :: "pyfloat option"
  sn_ask_size :: "pyfloat option"
  sn_source :: string
  sn_ts :: pyfloat

definition is_crossed :: "snapshot \<Rightarrow> bool" where
  "is_crossed s = (case (sn_bid s, sn_ask s) of (Some b, Some a) \<Rightarrow> fge b a | _ \<Rightarrow> False)"

definition size_or_zero :: "pyfloat option \<Rightarrow> pyfloat" where
  "size_or_zero v = (case v of None \<Rightarrow> Fin 0 | Some x \<Rightarrow> x)"

definition snapshot_valid :: "pyfloat \<Rightarrow> snapshot \<Rightarrow> pyfloat \<Rightarrow> pyfloat option \<Rightarrow> bool" where
  "snapshot_valid now s min_notional max_age_s =
    (case (sn_bid s, sn_ask s) of
       (Some b, Some a) \<Rightarrow>
         \<not> (fle b (Fin 0) \<or> fle a (Fin 0)) \<and> \<not> is_crossed s \<and>
         \<not> (fgt min_notional (Fin 0) \<and> flt (fmul (size_or_zero (sn_bid_size s)) b) min_notional) \<and>
         \<not> (fgt min_notional (Fin 0) \<and> flt (fmul (size_or_zero (sn_ask_size s)) a) min_notional) \<and>
         (case max_age_s of None \<Rightarrow> True | Some m \<Rightarrow> \<not> fgt (fsub now (sn_ts s)) m)
     | _ \<Rightarrow> False)"

text \<open>The best level whose notional reaches the threshold.\<close>

definition best_level :: "pyfloat \<Rightarrow> level list \<Rightarrow> pyfloat option \<times> pyfloat option" where
  "best_level min_notional ls =
    (case find (\<lambda>(px, sz). fle min_notional (Fin 0) \<or> fge (fmul px sz) min_notional) ls of
       Some (px, sz) \<Rightarrow> (Some px, Some sz) | None \<Rightarrow> (None, None))"

definition fetch_book_snapshot :: "pyfloat \<Rightarrow> rest_book option \<Rightarrow> pyfloat \<Rightarrow> snapshot option result" where
  "fetch_book_snapshot now b min_notional =
    (if b = None \<or> b = Some [] then Inr None else
     rbind (sorted_bids b) (\<lambda>bids. rbind (sorted_asks b) (\<lambda>asks.
       let (bid, bid_sz) = best_level min_notional bids; (ask, ask_sz) = best_level min_notional asks in
       Inr (Some \<lparr>sn_bid = bid, sn_ask = ask, sn_bid_size = bid_sz, sn_ask_size = ask_sz,
                  sn_source = ''rest_book'', sn_ts = now\<rparr>))))"

section \<open>The websocket cache\<close>

record ws_entry =
  we_bid :: pyfloat
  we_ask :: pyfloat
  we_spread :: "pyfloat option"
  we_bid_size :: "pyfloat option"
  we_ask_size :: "pyfloat option"
  we_ts :: pyfloat

type_synonym ws_cache = "string \<Rightarrow> ws_entry option"

definition STALE_SECS :: pyfloat where "STALE_SECS = Fin 15"

definition fresh :: "pyfloat \<Rightarrow> ws_entry \<Rightarrow> bool" where
  "fresh now en = flt (fsub now (we_ts en)) STALE_SECS"

definition get_ask :: "ws_cache \<Rightarrow> pyfloat \<Rightarrow> string \<Rightarrow> pyfloat option" where
  "get_ask c now token_id = (case c token_id of None \<Rightarrow> None
     | Some en \<Rightarrow> if fresh now en \<and> fgt (we_ask en) (Fin 0) then Some (we_ask en) else None)"

definition get_bid :: "ws_cache \<Rightarrow> pyfloat \<Rightarrow> string \<Rightarrow> pyfloat option" where
  "get_bid c now token_id = (case c token_id of None \<Rightarrow> None
     | Some en \<Rightarrow> if fresh now en \<and> fgt (we_bid en) (Fin 0) then Some (we_bid en) else None)"

definition get_spread :: "ws_cache \<Rightarrow> pyfloat \<Rightarrow> string \<Rightarrow> pyfloat option" where
  "get_spread c now token_id = (case c token_id of None \<Rightarrow> None
     | Some en \<Rightarrow> if fresh now en then we_spread en else None)"

definition truthy_or_none :: "pyfloat \<Rightarrow> pyfloat option" where
  "truthy_or_none x = (if f_truthy x then Some x else None)"

definition get_snapshot :: "ws_cache \<Rightarrow> string \<Rightarrow> snapshot option" where
  "get_snapshot c token_id = map_option (\<lambda>en.
     \<lparr>sn_bid = truthy_or_none (we_bid en), sn_ask = truthy_or_none (we_ask en),
      sn_bid_size = we_bid_size en, sn_ask_size = we_ask_size en, sn_source = ''ws'', sn_ts = we_ts en\<rparr>) (c token_id)"

text \<open>The one quote abstraction: a valid websocket snapshot, else a valid one of the REST book, else nothing.\<close>

definition rest_quote :: "pyfloat \<Rightarrow> rest_book option \<Rightarrow> pyfloat \<Rightarrow> snapshot option result" where
  "rest_quote now b min_notional = rbind (fetch_book_snapshot now b min_notional) (\<lambda>r.
     Inr (case r of None \<Rightarrow> None | Some s \<Rightarrow> if snapshot_valid now s min_notional None then Some s else None))"

definition get_quote ::
  "ws_cache \<Rightarrow> pyfloat \<Rightarrow> rest_book option \<Rightarrow> string \<Rightarrow> pyfloat \<Rightarrow> pyfloat option \<Rightarrow> snapshot option result" where
  "get_quote c now b token_id min_notional max_age_s =
    (case get_snapshot c token_id of
       None \<Rightarrow> rest_quote now b min_notional
     | Some s \<Rightarrow> if snapshot_valid now s min_notional max_age_s then Inr (Some s) else rest_quote now b min_notional)"

definition new_entry :: ws_entry where
  "new_entry = \<lparr>we_bid = Fin 0, we_ask = Fin 0, we_spread = None, we_bid_size = None, we_ask_size = None, we_ts = Fin 0\<rparr>"

definition update_entry ::
  "pyfloat \<Rightarrow> pyfloat option \<Rightarrow> pyfloat option \<Rightarrow> pyfloat option \<Rightarrow> pyfloat option \<Rightarrow> pyfloat option
     \<Rightarrow> ws_entry \<Rightarrow> ws_entry" where
  "update_entry now bid ask spread bid_size ask_size en =
    (let e1 = (case bid of Some b \<Rightarrow> if fgt b (Fin 0) then en\<lparr>we_bid := b, we_bid_size := bid_size\<rparr> else en | None \<Rightarrow> en);
         e2 = (case ask of Some a \<Rightarrow> if fgt a (Fin 0) then e1\<lparr>we_ask := a, we_ask_size := ask_size\<rparr> else e1 | None \<Rightarrow> e1);
         e3 = (case spread of Some s \<Rightarrow> e2\<lparr>we_spread := Some s\<rparr> | None \<Rightarrow> e2)
     in e3\<lparr>we_ts := now\<rparr>)"

text \<open>The id of an event: nothing for a falsy one; a list or an object cannot be a key of the cache; a
  number would be stored under a key that no reader asks for, so it changes nothing a reader can see.\<close>

definition update_cache ::
  "pyfloat \<Rightarrow> json option \<Rightarrow> pyfloat option \<Rightarrow> pyfloat option \<Rightarrow> pyfloat option \<Rightarrow> pyfloat option
     \<Rightarrow> pyfloat option \<Rightarrow> ws_cache \<Rightarrow> unit result \<times> ws_cache" where
  "update_cache now token_id bid ask spread bid_size ask_size c =
    (case token_id of None \<Rightarrow> (Inr (), c)
     | Some j \<Rightarrow>
        if \<not> json_truthy j \<or> bid = None \<and> ask = None \<and> spread = None then (Inr (), c) else
        (case j of
           JVal (PStr t) \<Rightarrow> (Inr (), c(t \<mapsto> update_entry now bid ask spread bid_size ask_size
              (case c t of None \<Rightarrow> new_entry | Some en \<Rightarrow> en)))
         | JVal _ \<Rightarrow> (Inr (), c)
         | _ \<Rightarrow> (Inl TypeError, c)))"

section \<open>Events\<close>

text \<open>\<open>max(levels, key=...)\<close> and \<open>min\<close> over the raw levels of an event, by \<open>float(x["price"])\<close>; the level
  found comes with its price.\<close>

definition priced_level :: "json \<Rightarrow> (pyfloat \<times> json) result" where
  "priced_level x = rbind (json_index x ''price'') (\<lambda>p. rbind (float_of_json p) (\<lambda>k. Inr (k, x)))"

definition book_extreme ::
  "(pyfloat \<times> json \<Rightarrow> pyfloat \<times> json \<Rightarrow> bool) \<Rightarrow> json option \<Rightarrow> (pyfloat \<times> json) option result" where
  "book_extreme before raw = (case raw of None \<Rightarrow> Inr None
     | Some j \<Rightarrow> if \<not> json_truthy j then Inr None else
         rbind (json_iter j) (\<lambda>xs. rbind (mapM_r priced_level xs) (\<lambda>ks.
           case ks of [] \<Rightarrow> Inl ValueError | k # rest \<Rightarrow> Inr (Some (first_extreme before k rest)))))"

definition level_size :: "(pyfloat \<times> json) option \<Rightarrow> pyfloat option result" where
  "level_size l = (case l of None \<Rightarrow> Inr None
     | Some (k, x) \<Rightarrow> rbind (json_get x ''size'') (\<lambda>v. rbind (float_or_zero v) (\<lambda>s. Inr (Some s))))"

type_synonym ws_handler = "pyfloat \<Rightarrow> json \<Rightarrow> ws_cache \<Rightarrow> unit result \<times> ws_cache"

definition run_update ::
  "(ws_cache \<Rightarrow> unit result \<times> ws_cache) result \<Rightarrow> ws_cache \<Rightarrow> unit result \<times> ws_cache" where
  "run_update u c = (case u of Inl e \<Rightarrow> (Inl e, c) | Inr f \<Rightarrow> f c)"

definition handle_book :: ws_handler where
  "handle_book now event = run_update
    (rbind (json_get event ''asset_id'') (\<lambda>token_id. rbind (json_get event ''bids'') (\<lambda>bids.
     rbind (json_get event ''asks'') (\<lambda>asks. rbind (book_extreme dearer bids) (\<lambda>bid_lvl.
     rbind (book_extreme cheaper asks) (\<lambda>ask_lvl. rbind (level_size bid_lvl) (\<lambda>bid_size.
     rbind (level_size ask_lvl) (\<lambda>ask_size.
       Inr (update_cache now token_id (map_option fst bid_lvl) (map_option fst ask_lvl) None bid_size ask_size)))))))))"

definition price_change :: "pyfloat \<Rightarrow> json \<Rightarrow> ws_cache \<Rightarrow> unit result \<times> ws_cache" where
  "price_change now change = run_update
    (rbind (json_get change ''asset_id'') (\<lambda>token_id. rbind (json_get change ''best_bid'') (\<lambda>raw_bid.
     rbind (json_get change ''best_ask'') (\<lambda>raw_ask. rbind (opt_float raw_bid) (\<lambda>bid.
     rbind (opt_float raw_ask) (\<lambda>ask. Inr (update_cache now token_id bid ask None None None)))))))"

text \<open>A change that fails ends the loop; the changes before it stay.\<close>

fun price_changes :: "pyfloat \<Rightarrow> json list \<Rightarrow> ws_cache \<Rightarrow> unit result \<times> ws_cache" where
  "price_changes now [] c = (Inr (), c)"
| "price_changes now (x # xs) c = (case price_change now x c of
     (Inl e, c') \<Rightarrow> (Inl e, c') | (Inr _, c') \<Rightarrow> price_changes now xs c')"

definition handle_price_change :: ws_handler where
  "handle_price_change now event = run_update
    (rbind (json_get event ''price_changes'') (\<lambda>v.
     rbind (case v of None \<Rightarrow> Inr [] | Some j \<Rightarrow> json_iter j) (\<lambda>xs. Inr (price_changes now xs))))"

definition handle_best_bid_ask :: ws_handler where
  "handle_best_bid_ask now event = run_update
    (rbind (json_get event ''asset_id'') (\<lambda>token_id. rbind (json_get event ''best_bid'') (\<lambda>raw_bid.
     rbind (json_get event ''best_ask'') (\<lambda>raw_ask. rbind (json_get event ''spread'') (\<lambda>raw_spr.
     rbind (opt_float raw_bid) (\<lambda>bid. rbind (opt_float raw_ask) (\<lambda>ask. rbind (opt_float raw_spr) (\<lambda>spr.
       Inr (update_cache now token_id bid ask spr None None)))))))))"

text \<open>One decoded message: the errors the reader swallows leave the connection alive, any other one ends
  it. Resolved markets go to the queue the main loop drains.\<close>

definition swallowed :: "exn set" where
  "swallowed = {KeyError, ValueError, AttributeError, TypeError}"

definition on_message :: "pyfloat \<Rightarrow> json \<Rightarrow> ws_cache \<times> json list \<Rightarrow> bool \<times> ws_cache \<times> json list" where
  "on_message now event st = (case st of (c, queue) \<Rightarrow>
    (case json_get event ''event_type'' of Inl e \<Rightarrow> (e \<in> swallowed, c, queue)
     | Inr etype \<Rightarrow>
        if etype = Some (jstr ''market_resolved'') then (True, c, queue @ [event]) else
        (case (if etype = Some (jstr ''book'') then handle_book now event c
               else if etype = Some (jstr ''price_change'') then handle_price_change now event c
               else if etype = Some (jstr ''best_bid_ask'') then handle_best_bid_ask now event c
               else (Inr (), c)) of
           (Inr _, c') \<Rightarrow> (True, c', queue)
         | (Inl e, c') \<Rightarrow> (e \<in> swallowed, c', queue))))"

section \<open>Books: sorting and the best level\<close>

lemma set_place: "set (place before x ys) = insert x (set ys)"
  by (induction ys) auto

lemma set_stable_sort [simp]: "set (stable_sort before xs) = set xs"
  by (induction xs) (simp_all add: stable_sort_def set_place)

lemma length_place [simp]: "length (place before x ys) = Suc (length ys)"
  by (induction ys) auto

lemma stable_sort_Cons: "stable_sort before (x # xs) = place before x (stable_sort before xs)"
  by (simp add: stable_sort_def)

lemma stable_sort_Nil_iff [simp]: "stable_sort before xs = [] \<longleftrightarrow> xs = []"
  by (metis set_empty set_stable_sort)

text \<open>The head of a stable sort is the element that \<open>min\<close> or \<open>max\<close> keeps, for any strict order on the
  keys: with equal keys the first of the original list.\<close>

locale strict_key =
  fixes ok :: "'a \<Rightarrow> bool" and before :: "'a \<Rightarrow> 'a \<Rightarrow> bool"
  assumes irrefl: "\<not> before x x"
    and trans: "before x y \<Longrightarrow> before y z \<Longrightarrow> before x z"
    and weak: "ok x \<Longrightarrow> ok y \<Longrightarrow> ok z \<Longrightarrow> \<not> before y x \<Longrightarrow> \<not> before z y \<Longrightarrow> \<not> before z x"
begin

lemma extreme_append: "first_extreme before b (xs @ [x]) =
    (if before x (first_extreme before b xs) then x else first_extreme before b xs)"
  by (induction xs arbitrary: b) auto

lemma extreme_in: "first_extreme before b xs \<in> insert b (set xs)"
  by (induction xs rule: rev_induct) (auto simp: extreme_append)

lemma extreme_shift:
  assumes "\<forall>y \<in> insert b (insert x (set xs)). ok y"
  shows "first_extreme before b (x # xs) =
     (if before (first_extreme before x xs) b then first_extreme before x xs else b)"
  using assms
proof (induction xs rule: rev_induct)
  case Nil
  then show ?case by simp
next
  case (snoc y ys)
  let ?m = "first_extreme before x ys"
  have ih: "first_extreme before b (x # ys) = (if before ?m b then ?m else b)" using snoc by simp
  have app: "first_extreme before b (x # ys @ [y]) =
      (if before y (first_extreme before b (x # ys)) then y else first_extreme before b (x # ys))"
    using extreme_append [of b "x # ys" y] by simp
  have ok: "ok b" "ok y" "ok ?m" using snoc.prems extreme_in [of x ys] by auto
  show ?case
  proof (cases "before ?m b")
    case True
    moreover from this have "before y ?m \<Longrightarrow> before y b" using trans by blast
    ultimately show ?thesis unfolding append_Cons app ih extreme_append by (cases "before y ?m") simp_all
  next
    case False
    moreover from this have "\<not> before y ?m \<Longrightarrow> \<not> before y b" using weak ok by blast
    ultimately show ?thesis unfolding append_Cons app ih extreme_append by (cases "before y ?m") simp_all
  qed
qed

lemma hd_place: "hd (place before x ys) = (case ys of [] \<Rightarrow> x | y # _ \<Rightarrow> if before y x then y else x)"
  by (cases ys) auto

lemma hd_stable_sort:
  "\<forall>y \<in> insert x (set xs). ok y \<Longrightarrow> hd (stable_sort before (x # xs)) = first_extreme before x xs"
proof (induction xs arbitrary: x)
  case Nil
  then show ?case by (simp add: stable_sort_def)
next
  case (Cons y ys)
  obtain z zs where z: "stable_sort before (y # ys) = z # zs" by (metis stable_sort_Nil_iff list.exhaust list.distinct(1))
  then have "z = first_extreme before y ys" using Cons by (metis insert_iff list.sel(1) list.simps(15))
  then show ?case using z extreme_shift [of x y ys] Cons.prems by (simp add: stable_sort_Cons [of before x] hd_place)
qed

lemma place_sorted:
  assumes "sorted_wrt (\<lambda>x y. \<not> before y x) ys" "ok x" "\<forall>y \<in> set ys. ok y"
  shows "sorted_wrt (\<lambda>x y. \<not> before y x) (place before x ys)"
  using assms
proof (induction ys)
  case (Cons y ys)
  then show ?case
  proof (cases "before y x")
    case True
    then have "\<not> before x y" using trans irrefl by blast
    then show ?thesis using Cons True by (auto simp: set_place)
  next
    case False
    then have "\<not> before z x" if "z \<in> set ys" for z using weak [of x y z] Cons.prems that by auto
    then show ?thesis using Cons.prems False by auto
  qed
qed simp

lemma stable_sort_sorted: "\<forall>x \<in> set xs. ok x \<Longrightarrow> sorted_wrt (\<lambda>x y. \<not> before y x) (stable_sort before xs)"
proof (induction xs)
  case (Cons x xs)
  then show ?case using place_sorted [of "stable_sort before xs" x] by (simp add: stable_sort_Cons)
qed (simp add: stable_sort_def)

lemma extreme_least: "y \<in> insert b (set xs) \<Longrightarrow> \<not> before y (first_extreme before b xs)"
proof (induction xs rule: rev_induct)
  case Nil
  then show ?case by (simp add: irrefl)
next
  case (snoc x ys)
  then show ?case using trans irrefl by (auto simp: extreme_append)
qed

end

lemma flt_weak: "x \<noteq> NaN \<Longrightarrow> y \<noteq> NaN \<Longrightarrow> z \<noteq> NaN \<Longrightarrow> \<not> flt y x \<Longrightarrow> \<not> flt z y \<Longrightarrow> \<not> flt z x"
  by (cases x; cases y; cases z) auto

interpretation asks: strict_key "\<lambda>l. fst l \<noteq> NaN" "cheaper :: level \<Rightarrow> level \<Rightarrow> bool"
proof unfold_locales
  show "\<not> cheaper x x" for x :: level by (simp add: cheaper_def)
  show "cheaper x y \<Longrightarrow> cheaper y z \<Longrightarrow> cheaper x z" for x y z :: level
    unfolding cheaper_def by (rule flt_trans)
  show "fst x \<noteq> NaN \<Longrightarrow> fst y \<noteq> NaN \<Longrightarrow> fst z \<noteq> NaN \<Longrightarrow> \<not> cheaper y x \<Longrightarrow> \<not> cheaper z y \<Longrightarrow> \<not> cheaper z x"
    for x y z :: level unfolding cheaper_def by (rule flt_weak)
qed

interpretation bids: strict_key "\<lambda>l. fst l \<noteq> NaN" "dearer :: level \<Rightarrow> level \<Rightarrow> bool"
proof unfold_locales
  show "\<not> dearer x x" for x :: level by (simp add: dearer_def)
  show "dearer x y \<Longrightarrow> dearer y z \<Longrightarrow> dearer x z" for x y z :: level
    unfolding dearer_def by (rule flt_trans)
  show "fst x \<noteq> NaN \<Longrightarrow> fst y \<noteq> NaN \<Longrightarrow> fst z \<noteq> NaN \<Longrightarrow> \<not> dearer y x \<Longrightarrow> \<not> dearer z y \<Longrightarrow> \<not> dearer z x"
    for x y z :: level unfolding dearer_def using flt_weak by blast
qed

lemma set_some_values: "x \<in> set (some_values xs) \<longleftrightarrow> Some x \<in> set xs"
  by (auto simp: some_values_def split: option.splits)

lemma mapM_r_in: "mapM_r f xs = Inr ys \<Longrightarrow> y \<in> set ys \<Longrightarrow> \<exists>x \<in> set xs. f x = Inr y"
  by (induction xs arbitrary: ys) (auto simp: rbind_eq_Inr)

lemma raw_level_positive: "raw_level x = Inr (Some l) \<Longrightarrow> fgt (fst l) (Fin 0) \<and> fgt (snd l) (Fin 0)"
  by (auto simp: raw_level_def Let_def split: sum.splits if_splits)

lemma book_levels_positive:
  "book_levels raw = Inr ls \<Longrightarrow> l \<in> set ls \<Longrightarrow> fgt (fst l) (Fin 0) \<and> fgt (snd l) (Fin 0)"
  by (auto simp: book_levels_def rbind_eq_Inr set_some_values split: option.splits if_splits
      dest!: mapM_r_in raw_level_positive)

lemma positive_not_NaN: "fgt x (Fin 0) \<Longrightarrow> x \<noteq> NaN" by auto

lemma head_case:
  assumes "\<And>a as. xs = a # as \<Longrightarrow> hd (stable_sort before xs) = f a as"
  shows "(case xs of [] \<Rightarrow> None | a # as \<Rightarrow> Some (fst (f a as))) =
    map_option fst (case stable_sort before xs of [] \<Rightarrow> None | l # _ \<Rightarrow> Some l)"
proof (cases xs)
  case Nil
  then show ?thesis by (simp add: stable_sort_def)
next
  case (Cons a as)
  then obtain z zs where "stable_sort before xs = z # zs" by (metis stable_sort_Nil_iff list.exhaust list.distinct(1))
  then show ?thesis using assms [OF Cons] Cons by simp
qed

text \<open>The best price is the head of the sorted side, and it is the best: on every book whose side can be
  read at all, \<open>best_ask_from_book\<close> is the first of \<open>sorted_asks\<close> and no ask is cheaper,
  \<open>best_bid_from_book\<close> is the first of \<open>sorted_bids\<close> and no bid is dearer; both lists hold exactly the
  levels of the book, all with a positive price and size.\<close>

theorem best_is_head_of_sorted:
  assumes "book_levels (book_side b ''asks'') = Inr asks" "book_levels (book_side b ''bids'') = Inr bids"
  shows "\<exists>sa sb. sorted_asks b = Inr sa \<and> sorted_bids b = Inr sb \<and> set sa = set asks \<and> set sb = set bids \<and>
    best_ask_from_book b = Inr (map_option fst (case sa of [] \<Rightarrow> None | l # _ \<Rightarrow> Some l)) \<and>
    best_bid_from_book b = Inr (map_option fst (case sb of [] \<Rightarrow> None | l # _ \<Rightarrow> Some l)) \<and>
    (\<forall>l \<in> set asks. fgt (fst l) (Fin 0) \<and> fgt (snd l) (Fin 0) \<and> \<not> flt (fst l) (fst (hd sa))) \<and>
    (\<forall>l \<in> set bids. fgt (fst l) (Fin 0) \<and> fgt (snd l) (Fin 0) \<and> \<not> flt (fst (hd sb)) (fst l))"
proof -
  note pa = book_levels_positive [OF assms(1)] and pb = book_levels_positive [OF assms(2)]
  have ha: "asks = a # as \<Longrightarrow> hd (stable_sort cheaper asks) = first_extreme cheaper a as" for a as
    using asks.hd_stable_sort [of a as] pa positive_not_NaN by simp
  have hb: "bids = a # as \<Longrightarrow> hd (stable_sort dearer bids) = first_extreme dearer a as" for a as
    using bids.hd_stable_sort [of a as] pb positive_not_NaN by simp
  have la: "l \<in> set asks \<Longrightarrow> \<not> flt (fst l) (fst (hd (stable_sort cheaper asks)))" for l
    using ha asks.extreme_least [of l] by (cases asks) (auto simp: cheaper_def)
  have lb: "l \<in> set bids \<Longrightarrow> \<not> flt (fst (hd (stable_sort dearer bids))) (fst l)" for l
    using hb bids.extreme_least [of l] by (cases bids) (auto simp: dearer_def)
  have best: "best_ask_from_book b = Inr (map_option fst (case stable_sort cheaper asks of [] \<Rightarrow> None | l # _ \<Rightarrow> Some l))"
      "best_bid_from_book b = Inr (map_option fst (case stable_sort dearer bids of [] \<Rightarrow> None | l # _ \<Rightarrow> Some l))"
    unfolding best_ask_from_book_def best_bid_from_book_def assms rbind_simps
    using head_case [OF ha] head_case [OF hb] by simp_all
  show ?thesis using best la lb pa pb
    by (auto simp: sorted_asks_def sorted_bids_def assms)
qed

section \<open>The cache along the feed\<close>

text \<open>The messages of all connections, in order; a broken connection leaves the cache as it is.\<close>

fun run_feed :: "(pyfloat \<times> json) list \<Rightarrow> ws_cache \<times> json list \<Rightarrow> ws_cache \<times> json list" where
  "run_feed [] st = st"
| "run_feed ((now, event) # ms) st = run_feed ms (snd (on_message now event st))"

definition cache_ok :: "ws_cache \<Rightarrow> bool" where
  "cache_ok c = (\<forall>t en. c t = Some en \<longrightarrow> fle (Fin 0) (we_bid en) \<and> fle (Fin 0) (we_ask en))"

lemma update_entry_fields:
  "we_bid (update_entry now bid ask spr bs as en) =
     (case bid of Some b \<Rightarrow> if fgt b (Fin 0) then b else we_bid en | None \<Rightarrow> we_bid en)"
  "we_ask (update_entry now bid ask spr bs as en) =
     (case ask of Some a \<Rightarrow> if fgt a (Fin 0) then a else we_ask en | None \<Rightarrow> we_ask en)"
  "we_ts (update_entry now bid ask spr bs as en) = now"
  by (auto simp: update_entry_def Let_def split: option.splits)

lemma flt_fle: "flt x y \<Longrightarrow> fle x y" by (simp add: fle_def)

lemma update_entry_ok:
  "fle (Fin 0) (we_bid en) \<Longrightarrow> fle (Fin 0) (we_ask en) \<Longrightarrow>
    fle (Fin 0) (we_bid (update_entry now bid ask spr bs as en)) \<and>
    fle (Fin 0) (we_ask (update_entry now bid ask spr bs as en))"
  by (auto simp: update_entry_fields intro: flt_fle split: option.splits)

lemma update_cache_ok: "cache_ok c \<Longrightarrow> cache_ok (snd (update_cache now t bid ask spr bs as c))"
proof -
  assume c: "cache_ok c"
  have "fle (Fin 0) (we_bid (case c k of None \<Rightarrow> new_entry | Some en \<Rightarrow> en)) \<and>
      fle (Fin 0) (we_ask (case c k of None \<Rightarrow> new_entry | Some en \<Rightarrow> en))" for k
    using c by (cases "c k") (auto simp: cache_ok_def new_entry_def)
  then have "cache_ok (c(k \<mapsto> update_entry now bid ask spr bs as (case c k of None \<Rightarrow> new_entry | Some en \<Rightarrow> en)))" for k
    using c update_entry_ok by (auto simp: cache_ok_def)
  then show ?thesis using c
    by (auto simp: update_cache_def split: option.splits json.splits pyval.splits)
qed

lemma run_update_ok:
  "(\<And>f c. u = Inr f \<Longrightarrow> cache_ok c \<Longrightarrow> cache_ok (snd (f c))) \<Longrightarrow> cache_ok c \<Longrightarrow> cache_ok (snd (run_update u c))"
  by (auto simp: run_update_def split: sum.splits)

lemma price_change_ok: "cache_ok c \<Longrightarrow> cache_ok (snd (price_change now x c))"
  unfolding price_change_def by (erule run_update_ok [rotated]) (auto simp: rbind_eq_Inr update_cache_ok)

lemma price_changes_ok: "cache_ok c \<Longrightarrow> cache_ok (snd (price_changes now xs c))"
proof (induction now xs c rule: price_changes.induct)
  case (2 now x xs c)
  then show ?case using price_change_ok [OF 2(2), of now x] by (auto split: sum.splits prod.splits)
qed simp

lemma handlers_ok:
  assumes "cache_ok c"
  shows "cache_ok (snd (handle_book now e c))" "cache_ok (snd (handle_price_change now e c))"
    "cache_ok (snd (handle_best_bid_ask now e c))"
  using assms unfolding handle_book_def handle_price_change_def handle_best_bid_ask_def
  by (auto intro!: run_update_ok simp: rbind_eq_Inr update_cache_ok price_changes_ok)

lemma on_message_ok: "cache_ok (fst st) \<Longrightarrow> cache_ok (fst (snd (on_message now e st)))"
proof -
  assume c: "cache_ok (fst st)"
  obtain c q where st: "st = (c, q)" by (cases st)
  have h: "handle_book now e c = (r, c') \<Longrightarrow> cache_ok c'" "handle_price_change now e c = (r, c') \<Longrightarrow> cache_ok c'"
      "handle_best_bid_ask now e c = (r, c') \<Longrightarrow> cache_ok c'" for r c'
    using handlers_ok [of c now e] c st by auto
  show ?thesis using c h unfolding on_message_def st
    by (auto split: sum.splits prod.splits if_splits)
qed

lemma run_feed_ok: "cache_ok (fst st) \<Longrightarrow> cache_ok (fst (run_feed ms st))"
  by (induction ms st rule: run_feed.induct) (simp_all add: on_message_ok)

lemma empty_cache_ok [simp]: "cache_ok (\<lambda>_. None)"
  by (simp add: cache_ok_def)

lemma fetched_sides:
  assumes "fetch_book_snapshot now b mn = Inr (Some s)"
  obtains bs as where "book_levels (book_side b ''bids'') = Inr bs" "book_levels (book_side b ''asks'') = Inr as"
    "sn_bid s = fst (best_level mn (stable_sort dearer bs))" "sn_ask s = fst (best_level mn (stable_sort cheaper as))"
proof -
  obtain bs as where "book_levels (book_side b ''bids'') = Inr bs" "book_levels (book_side b ''asks'') = Inr as"
    using assms by (auto simp: fetch_book_snapshot_def sorted_bids_def sorted_asks_def rbind_eq_Inr split: if_splits)
  moreover from this have "sn_bid s = fst (best_level mn (stable_sort dearer bs))"
      "sn_ask s = fst (best_level mn (stable_sort cheaper as))"
    using assms by (auto simp: fetch_book_snapshot_def sorted_bids_def sorted_asks_def Let_def split_beta split: if_splits)
  ultimately show ?thesis by (rule that)
qed

lemma quote_backed:
  assumes ok: "cache_ok c" and "get_quote c now b t min_notional max_age = Inr (Some s)"
  shows "\<exists>bid ask. sn_bid s = Some bid \<and> sn_ask s = Some ask \<and> fgt bid (Fin 0) \<and> flt bid ask \<and>
    ((\<exists>en. c t = Some en \<and> bid = we_bid en \<and> ask = we_ask en) \<or>
     (\<exists>bs as. book_levels (book_side b ''bids'') = Inr bs \<and> book_levels (book_side b ''asks'') = Inr as \<and>
        bid \<in> fst ` set bs \<and> ask \<in> fst ` set as))"
proof -
  have valid: "\<exists>bid ask. sn_bid x = Some bid \<and> sn_ask x = Some ask \<and> \<not> fle bid (Fin 0) \<and> \<not> fge bid ask"
    if "snapshot_valid now x mn ma" for x mn ma
    using that by (auto simp: snapshot_valid_def is_crossed_def split: option.splits)
  consider (ws) en where "c t = Some en" "get_snapshot c t = Some s" "snapshot_valid now s min_notional max_age"
    | (rest) "rest_quote now b min_notional = Inr (Some s)"
    using assms(2) by (auto simp: get_quote_def get_snapshot_def split: option.splits if_splits)
  then show ?thesis
  proof cases
    case ws
    then obtain bid ask where v: "sn_bid s = Some bid" "sn_ask s = Some ask" "\<not> fle bid (Fin 0)" "\<not> fge bid ask"
      using valid by blast
    then have e: "bid = we_bid en" "ask = we_ask en"
      using ws by (auto simp: get_snapshot_def truthy_or_none_def split: if_splits)
    then have "fle (Fin 0) bid" "fle (Fin 0) ask" using ok ws(1) by (auto simp: cache_ok_def)
    then have "bid \<noteq> NaN" "ask \<noteq> NaN" by auto
    then have "fgt bid (Fin 0)" "flt bid ask" using v not_flt by auto
    then show ?thesis using v e ws(1) by blast
  next
    case rest
    then have sv: "snapshot_valid now s min_notional None" and f: "fetch_book_snapshot now b min_notional = Inr (Some s)"
      by (auto simp: rest_quote_def rbind_eq_Inr split: option.splits if_splits)
    obtain bid ask where v: "sn_bid s = Some bid" "sn_ask s = Some ask" "\<not> fle bid (Fin 0)" "\<not> fge bid ask"
      using valid [OF sv] by blast
    obtain bs as where l: "book_levels (book_side b ''bids'') = Inr bs" "book_levels (book_side b ''asks'') = Inr as"
        and lv: "Some bid = fst (best_level min_notional (stable_sort dearer bs))"
        "Some ask = fst (best_level min_notional (stable_sort cheaper as))"
      using fetched_sides [OF f] v by metis
    have "bid \<in> fst ` set bs" "ask \<in> fst ` set as"
      using lv by (auto simp: best_level_def find_Some_iff image_iff split: option.splits prod.splits)
        (metis fst_conv nth_mem set_stable_sort)+
    moreover from this have "bid \<noteq> NaN" "ask \<noteq> NaN"
      using book_levels_positive [OF l(1)] book_levels_positive [OF l(2)] positive_not_NaN by (metis imageE)+
    ultimately show ?thesis using v l not_flt by (metis (no_types, lifting) pyfloat.distinct(5))
  qed
qed

text \<open>C39: No Frankenstein quote: whatever messages the feed has processed and whatever book the exchange
  answers, a quote handed out has both sides positive and uncrossed, and both come from one source: from
  one entry of the cache, or from the levels of the one book that was fetched.\<close>

theorem quote_single_source:
  assumes "get_quote (fst (run_feed ms (\<lambda>_. None, []))) now b t min_notional max_age = Inr (Some s)"
  shows "\<exists>bid ask. sn_bid s = Some bid \<and> sn_ask s = Some ask \<and> fgt bid (Fin 0) \<and> flt bid ask \<and>
    ((\<exists>en. fst (run_feed ms (\<lambda>_. None, [])) t = Some en \<and> bid = we_bid en \<and> ask = we_ask en) \<or>
     (\<exists>bs as. book_levels (book_side b ''bids'') = Inr bs \<and> book_levels (book_side b ''asks'') = Inr as \<and>
        bid \<in> fst ` set bs \<and> ask \<in> fst ` set as))"
  by (rule quote_backed [OF _ assms]) (rule run_feed_ok, simp)

section \<open>What a read returns\<close>

text \<open>One update of a token's entry: the clock, the two prices, the spread and the sizes.\<close>

record tick =
  tk_now :: pyfloat
  tk_bid :: "pyfloat option"
  tk_ask :: "pyfloat option"
  tk_spread :: "pyfloat option"
  tk_bid_size :: "pyfloat option"
  tk_ask_size :: "pyfloat option"

definition apply_tick :: "string \<Rightarrow> ws_cache \<Rightarrow> tick \<Rightarrow> ws_cache" where
  "apply_tick t c k = snd (update_cache (tk_now k) (Some (jstr t)) (tk_bid k) (tk_ask k) (tk_spread k)
     (tk_bid_size k) (tk_ask_size k) c)"

definition says_something :: "tick \<Rightarrow> bool" where
  "says_something k = (tk_bid k \<noteq> None \<or> tk_ask k \<noteq> None \<or> tk_spread k \<noteq> None)"

fun last_positive :: "pyfloat option list \<Rightarrow> pyfloat" where
  "last_positive [] = Fin 0"
| "last_positive (v # vs) = (case last_positive vs of x \<Rightarrow> if x \<noteq> Fin 0 then x else
     (case v of Some b \<Rightarrow> if fgt b (Fin 0) then b else Fin 0 | None \<Rightarrow> Fin 0))"

lemma last_positive_snoc: "last_positive (vs @ [v]) =
    (case v of Some b \<Rightarrow> if fgt b (Fin 0) then b else last_positive vs | None \<Rightarrow> last_positive vs)"
  by (induction vs) (auto split: option.splits)

lemma apply_tick_entry:
  assumes "t \<noteq> []"
  shows "apply_tick t c k t = (if says_something k
     then Some (update_entry (tk_now k) (tk_bid k) (tk_ask k) (tk_spread k) (tk_bid_size k) (tk_ask_size k)
            (case c t of None \<Rightarrow> new_entry | Some en \<Rightarrow> en)) else c t)"
  using assms by (auto simp: apply_tick_def update_cache_def jstr_def json_truthy_def py_truthy_def says_something_def)

text \<open>What a read of the cache means: after any updates of a token, the bid read is the last positive bid
  that any of them carried, and it counts as fresh when the last update of either side (or of the spread)
  is younger than fifteen seconds, however old that bid is; so too for the ask.\<close>

theorem cache_read_is_last_positive:
  assumes "t \<noteq> []" "ks \<noteq> []" "\<forall>k \<in> set ks. says_something k"
  defines "c \<equiv> foldl (apply_tick t) (\<lambda>_. None) ks"
  shows "get_bid c now t = (let b = last_positive (map tk_bid ks) in
      if flt (fsub now (tk_now (last ks))) STALE_SECS \<and> b \<noteq> Fin 0 then Some b else None) \<and>
    get_ask c now t = (let a = last_positive (map tk_ask ks) in
      if flt (fsub now (tk_now (last ks))) STALE_SECS \<and> a \<noteq> Fin 0 then Some a else None)"
proof -
  have pos: "last_positive vs = Fin 0 \<or> fgt (last_positive vs) (Fin 0)" for vs
    by (induction vs) (auto split: option.splits)
  have "\<exists>en. foldl (apply_tick t) (\<lambda>_. None) ks t = Some en \<and> we_bid en = last_positive (map tk_bid ks) \<and>
      we_ask en = last_positive (map tk_ask ks) \<and> we_ts en = tk_now (last ks)"
    using assms(2,3)
  proof (induction ks rule: rev_induct)
    case (snoc k ks)
    show ?case
    proof (cases "ks = []")
      case True
      then show ?thesis using snoc.prems assms(1)
        by (auto simp: apply_tick_entry update_entry_fields new_entry_def split: option.splits)
    next
      case False
      then obtain en where "foldl (apply_tick t) (\<lambda>_. None) ks t = Some en" "we_bid en = last_positive (map tk_bid ks)"
          "we_ask en = last_positive (map tk_ask ks)" using snoc by auto
      then show ?thesis using snoc.prems assms(1)
        by (auto simp: apply_tick_entry update_entry_fields last_positive_snoc split: option.splits)
    qed
  qed simp
  then show ?thesis using pos [of "map tk_bid ks"] pos [of "map tk_ask ks"]
    by (auto simp: c_def get_bid_def get_ask_def fresh_def Let_def)
qed

lemma cache_read_is_last_positive_witness:
  "get_bid (foldl (apply_tick ''Y'') (\<lambda>_. None)
     [\<lparr>tk_now = Fin 0, tk_bid = Some (Fin 1), tk_ask = None, tk_spread = None, tk_bid_size = None, tk_ask_size = None\<rparr>])
     (Fin 16) ''Y'' = None"
proof -
  have "\<not> flt (fsub (Fin 16) (Fin 0)) STALE_SECS" by code_simp
  then show ?thesis
    using cache_read_is_last_positive [of "''Y''" "[\<lparr>tk_now = Fin 0, tk_bid = Some (Fin 1), tk_ask = None,
      tk_spread = None, tk_bid_size = None, tk_ask_size = None\<rparr>]" "Fin 16"]
    by (simp add: says_something_def Let_def)
qed

definition sample_level :: "string \<Rightarrow> string \<Rightarrow> json" where
  "sample_level p s = JObj [(''price'', jstr p), (''size'', jstr s)]"

definition sample_rest_book :: rest_book where
  "sample_rest_book = [(''bids'', JList [sample_level ''0.4'' ''10'', sample_level ''0.5'' ''20'']),
     (''asks'', JList [sample_level ''0.7'' ''5'', sample_level ''0.6'' ''5''])]"

lemma best_is_head_of_sorted_witness:
  "\<exists>sa. sorted_asks (Some sample_rest_book) = Inr sa \<and> best_ask_from_book (Some sample_rest_book) = Inr (map_option fst (case sa of [] \<Rightarrow> None | l # _ \<Rightarrow> Some l))"
proof -
  have "book_levels (book_side (Some sample_rest_book) ''asks'') = Inr [(flit 0.7, Fin 5), (flit 0.6, Fin 5)]"
    "book_levels (book_side (Some sample_rest_book) ''bids'') = Inr [(flit 0.4, Fin 10), (flit 0.5, Fin 20)]" by code_simp+
  from best_is_head_of_sorted [OF this] show ?thesis by blast
qed

lemma quote_single_source_witness:
  "\<exists>s bid. get_quote (fst (run_feed [] (\<lambda>_. None, []))) (Fin 0) (Some sample_rest_book) ''Y'' (Fin 0) None = Inr (Some s) \<and>
     sn_bid s = Some bid \<and> fgt bid (Fin 0)"
proof -
  let ?q = "get_quote (fst (run_feed [] (\<lambda>_. None, []))) (Fin 0) (Some sample_rest_book) ''Y'' (Fin 0) None"
  have q: "?q = Inr (Some \<lparr>sn_bid = Some (flit 0.5), sn_ask = Some (flit 0.6), sn_bid_size = Some (Fin 20),
      sn_ask_size = Some (Fin 5), sn_source = ''rest_book'', sn_ts = Fin 0\<rparr>)" by code_simp
  from quote_single_source [OF q] q show ?thesis by auto
qed

text \<open>A book whose bid side is empty does not clear the cached bid, it renews it.\<close>

definition book_event :: "json list \<Rightarrow> json list \<Rightarrow> json" where
  "book_event bids asks = JObj [(''event_type'', jstr ''book''), (''asset_id'', jstr ''Y''),
     (''bids'', JList bids), (''asks'', JList asks)]"

lemma vanished_bid_survives:
  "get_bid (fst (run_feed [(Fin 0, book_event [sample_level ''0.6'' ''9''] [sample_level ''0.62'' ''9'']),
      (Fin 1000, book_event [] [sample_level ''0.1'' ''9''])] (\<lambda>_. None, []))) (Fin 1001) ''Y'' = Some (flit 0.6)"
  by code_simp

end
