(* ===== verification/EmergencyPause.thy ===== *)
theory EmergencyPause
  imports OrderIntent
begin

text \<open>
  \<open>execution/emergency_pause.py\<close>: the persisted kill switch of the order path. The singleton row
  of \<open>execution_state\<close> is \<open>w_es\<close>, the append-only audit table is \<open>w_events\<close>. Reading fails closed,
  setting is idempotent, a verified resolve needs the offending intent to be terminal. The operator
  callback \<open>on_trip\<close> cannot change the outcome (its exceptions are swallowed); the flag that
  \<open>set_emergency_pause\<close> returns here says whether it was reached.
\<close>

section \<open>Operations\<close>

definition is_emergency_paused :: "db_fault \<Rightarrow> world \<Rightarrow> bool" where
  "is_emergency_paused dbf w =
    (if dbf \<noteq> NoFault then True
     else case w_es w of None \<Rightarrow> False | Some row \<Rightarrow> es_paused row)"

definition get_pause_record :: "db_fault \<Rightarrow> world \<Rightarrow> es_row option" where
  "get_pause_record dbf w = (if dbf \<noteq> NoFault then None else w_es w)"

definition trip_row :: "tstamp \<Rightarrow> string option \<Rightarrow> string option \<Rightarrow> string option \<Rightarrow> es_row" where
  "trip_row now reason source iid = \<lparr>es_paused = True, es_reason = reason, es_source = source,
     es_intent = iid, es_created = Some now, es_updated = now\<rparr>"

definition trip_event ::
  "tstamp \<Rightarrow> bool \<Rightarrow> string option \<Rightarrow> string option \<Rightarrow> string option \<Rightarrow> es_event" where
  "trip_event now old reason source iid = \<lparr>ev_kind = TRIP, ev_ts = now, ev_old = old, ev_new = True,
     ev_reason = reason, ev_source = source, ev_intent = iid, ev_observed = None,
     ev_resolved_by = None, ev_force = False, ev_verified = False\<rparr>"

definition set_emergency_pause ::
  "db_fault \<Rightarrow> tstamp \<Rightarrow> string option \<Rightarrow> string option \<Rightarrow> string option \<Rightarrow> world
     \<Rightarrow> bool result \<times> world" where
  "set_emergency_pause dbf now reason source iid w =
    (if dbf = ReadFault then (Inl DbError, w) else
     let row = w_es w;
         old = (case row of None \<Rightarrow> False | Some r \<Rightarrow> es_paused r)
     in if old then (Inr False, w)
        else if dbf = WriteFault then (Inl DbError, w)
        else (Inr True, add_effect EPause
          (w\<lparr>w_es := Some (trip_row now reason source iid),
             w_events := w_events w @ [trip_event now old reason source iid]\<rparr>)))"

definition opt_text :: "string option \<Rightarrow> string" where
  "opt_text s = (case s of None \<Rightarrow> ''None'' | Some t \<Rightarrow> t)"

definition cleared_text :: "string option \<Rightarrow> string option \<Rightarrow> string" where
  "cleared_text cleared_by note_text = ''cleared_by:'' @ opt_text cleared_by @
     (if str_truthy note_text then '' note:'' @ opt_text note_text else [])"

definition clear_emergency_pause ::
  "db_fault \<Rightarrow> tstamp \<Rightarrow> string option \<Rightarrow> string option \<Rightarrow> world \<Rightarrow> unit result \<times> world" where
  "clear_emergency_pause dbf now cleared_by note_text w =
    (if dbf \<noteq> NoFault then (Inl DbError, w) else
     let txt = Some (cleared_text cleared_by note_text);
         row = (case w_es w of
            None \<Rightarrow> \<lparr>es_paused = False, es_reason = txt, es_source = Some ''manual_admin'',
                     es_intent = None, es_created = None, es_updated = now\<rparr>
          | Some r \<Rightarrow> r\<lparr>es_paused := False, es_reason := txt,
                       es_source := Some ''manual_admin'', es_updated := now\<rparr>)
     in (Inr (), w\<lparr>w_es := Some row\<rparr>))"

datatype resolve_result =
    Blocked string "intent_status option"
  | AlreadyClear string intent_status
  | Resolved string bool intent_status

definition nonempty_str :: "pyval \<Rightarrow> bool" where
  "nonempty_str v = (case v of PStr s \<Rightarrow> py_strip s \<noteq> [] | _ \<Rightarrow> False)"

definition str_of :: "pyval \<Rightarrow> string option" where
  "str_of v = (case v of PStr s \<Rightarrow> Some s | _ \<Rightarrow> None)"

definition resolve_commit ::
  "tstamp \<Rightarrow> string \<Rightarrow> pyval \<Rightarrow> pyval \<Rightarrow> string \<Rightarrow> intent_status \<Rightarrow> world \<Rightarrow> bool \<times> world" where
  "resolve_commit now iid resolved_by reason resolve_mode observed w =
    (case w_es w of
       Some r \<Rightarrow>
        if es_paused r then
          (True, w\<lparr>w_es := Some (r\<lparr>es_paused := False, es_updated := now\<rparr>),
             w_events := w_events w @
              [\<lparr>ev_kind = RESOLVE, ev_ts = now, ev_old = True, ev_new = False,
                ev_reason = str_of reason, ev_source = Some (''resolve_'' @ resolve_mode),
                ev_intent = Some iid, ev_observed = Some observed,
                ev_resolved_by = str_of resolved_by,
                ev_force = (resolve_mode = ''force''), ev_verified = (resolve_mode = ''verified'')\<rparr>]\<rparr>)
        else (False, w)
     | None \<Rightarrow> (False, w))"

definition resolve_emergency_pause ::
  "db_fault \<Rightarrow> tstamp \<Rightarrow> string \<Rightarrow> pyval \<Rightarrow> pyval \<Rightarrow> string \<Rightarrow> world
     \<Rightarrow> resolve_result result \<times> world" where
  "resolve_emergency_pause dbf now iid resolved_by reason resolve_mode w =
    (if resolve_mode \<notin> set [''verified'', ''force''] then (Inl ValueError, w)
     else if \<not> nonempty_str resolved_by \<or> \<not> nonempty_str reason then (Inl ValueError, w)
     else if dbf = ReadFault then (Inl DbError, w)
     else case status_of w iid of
       None \<Rightarrow> (Inr (Blocked resolve_mode None), w)
     | Some observed \<Rightarrow>
        if resolve_mode = ''verified'' \<and> observed \<notin> set TERMINAL_STATES
        then (Inr (Blocked ''verified'' (Some observed)), w)
        else if dbf = WriteFault then (Inl DbError, w)
        else (case resolve_commit now iid resolved_by reason resolve_mode observed w of
           (transitioned, w') \<Rightarrow>
             if \<not> transitioned then (Inr (AlreadyClear resolve_mode observed), w')
             else (Inr (Resolved resolve_mode (resolve_mode = ''verified'') observed), w')))"

section \<open>Lemmas\<close>

definition paused :: "world \<Rightarrow> bool" where
  "paused w = (case w_es w of None \<Rightarrow> False | Some r \<Rightarrow> es_paused r)"

lemma is_emergency_paused_iff: "is_emergency_paused dbf w \<longleftrightarrow> dbf \<noteq> NoFault \<or> paused w"
  by (simp add: is_emergency_paused_def paused_def)

lemma set_emergency_pause_frame [simp]:
  "w_intents (snd (set_emergency_pause dbf now r s i w)) = w_intents w"
  "w_positions (snd (set_emergency_pause dbf now r s i w)) = w_positions w"
  by (simp_all add: set_emergency_pause_def Let_def)

lemma set_emergency_pause_status [simp]:
  "status_of (snd (set_emergency_pause dbf now r s i w)) k = status_of w k"
  "token_of (snd (set_emergency_pause dbf now r s i w)) k = token_of w k"
  by (simp_all add: status_of_def token_of_def intent_of_def)

lemma set_emergency_pause_paused:
  "fst (set_emergency_pause dbf now r s i w) = Inr b \<Longrightarrow> paused (snd (set_emergency_pause dbf now r s i w))"
  by (auto simp: set_emergency_pause_def paused_def trip_row_def Let_def split: if_splits option.splits)

lemma resolve_frame [simp]:
  "w_intents (snd (resolve_emergency_pause dbf now iid rb r m w)) = w_intents w"
  "w_positions (snd (resolve_emergency_pause dbf now iid rb r m w)) = w_positions w"
  "w_trace (snd (resolve_emergency_pause dbf now iid rb r m w)) = w_trace w"
  by (simp_all add: resolve_emergency_pause_def resolve_commit_def split: option.splits)

lemmas pause_defs = set_emergency_pause_def resolve_emergency_pause_def resolve_commit_def
  paused_def trip_row_def trip_event_def

section \<open>The life of the switch and its audit trail\<close>

text \<open>Every call of the two audited operations, with any arguments and any fault.\<close>

inductive pause_step :: "world \<Rightarrow> world \<Rightarrow> bool" where
  ps_set: "w' = snd (set_emergency_pause dbf now r s i w) \<Longrightarrow> pause_step w w'"
| ps_resolve: "w' = snd (resolve_emergency_pause dbf now iid rb r m w) \<Longrightarrow> pause_step w w'"

inductive_cases pause_stepE: "pause_step w w'"

definition event_state :: "es_event list \<Rightarrow> bool" where
  "event_state evs = (if evs = [] then False else ev_new (last evs))"

fun alternating :: "bool \<Rightarrow> es_event list \<Rightarrow> bool" where
  "alternating st [] = True"
| "alternating st (e # evs) = (ev_old e = st \<and> ev_new e = (\<not> st) \<and>
     (ev_kind e = TRIP \<longleftrightarrow> ev_new e) \<and> alternating (ev_new e) evs)"

definition resolve_justified :: "es_event \<Rightarrow> bool" where
  "resolve_justified e = (ev_kind e = RESOLVE \<longrightarrow>
     (\<exists>o'. ev_observed e = Some o' \<and> (ev_force e \<noteq> ev_verified e) \<and> (ev_verified e \<longrightarrow> is_terminal o')))"

definition audit_ok :: "world \<Rightarrow> bool" where
  "audit_ok w = (alternating False (w_events w) \<and> event_state (w_events w) = paused w \<and>
     list_all resolve_justified (w_events w))"

lemma alternating_append: "alternating st (xs @ [e]) \<longleftrightarrow>
    alternating st xs \<and> (let s = (if xs = [] then st else ev_new (last xs)) in
      ev_old e = s \<and> ev_new e = (\<not> s) \<and> (ev_kind e = TRIP \<longleftrightarrow> ev_new e))"
  by (induction xs arbitrary: st) (auto simp: Let_def)

lemma audit_set: "audit_ok w \<Longrightarrow> audit_ok (snd (set_emergency_pause dbf now r s i w))"
  by (auto simp: audit_ok_def alternating_append event_state_def pause_defs resolve_justified_def Let_def
      split: option.splits if_splits)

lemma audit_resolve: "audit_ok w \<Longrightarrow> audit_ok (snd (resolve_emergency_pause dbf now iid rb r m w))"
  by (auto simp: audit_ok_def alternating_append event_state_def pause_defs resolve_justified_def Let_def
      is_terminal_def split: option.splits if_splits)

section \<open>Properties\<close>

text \<open>C24: The audit trail of the switch. Along every run of the two audited operations, from a database
  without history, trips and resolves alternate starting with a trip, the switch stands where the last
  event left it, and every resolve names an observed intent status, is either verified or forced but
  not both, and is verified only for a terminal status.\<close>

theorem pause_audit_trail:
  assumes "reachable (\<lambda>w. w_events w = [] \<and> \<not> paused w) pause_step w"
  shows "alternating False (w_events w) \<and> event_state (w_events w) = paused w \<and>
    (\<forall>e \<in> set (w_events w). resolve_justified e)"
proof -
  have "audit_ok w"
  proof (rule reachable_invariant [OF assms])
    show "w_events s = [] \<and> \<not> paused s \<Longrightarrow> audit_ok s" for s
      by (simp add: audit_ok_def event_state_def)
    show "audit_ok s \<Longrightarrow> pause_step s t \<Longrightarrow> audit_ok t" for s t
      by (erule pause_stepE) (auto intro: audit_set audit_resolve)
  qed
  then show ?thesis by (simp add: audit_ok_def list_all_iff)
qed

definition tripped_world :: world where
  "tripped_world = snd (set_emergency_pause NoFault 1 (Some ''r'') (Some ''s'') (Some ''i1'') (sample_world CANCELLED))"

lemma pause_audit_trail_witness:
  "event_state (w_events tripped_world) = paused tripped_world \<and> w_events tripped_world \<noteq> []"
proof -
  have r: "reachable (\<lambda>w. w_events w = [] \<and> \<not> paused w) pause_step tripped_world"
    by (rule reach_step [of _ _ "sample_world CANCELLED"], rule reach_init)
      (auto simp: sample_world_def empty_world_def paused_def tripped_world_def intro: ps_set)
  show ?thesis
    using pause_audit_trail [OF r]
    by (simp add: tripped_world_def set_emergency_pause_def sample_world_def empty_world_def)
qed

text \<open>Lifting the pause. A resolve that succeeds found the system paused and leaves it running, the
  named intent exists and (in verified mode) is terminal, and exactly one event is appended; every
  other outcome of the call, errors and rejections included, leaves the database as it was.\<close>

theorem resolve_needs_evidence:
  "case resolve_emergency_pause dbf now iid rb r m w of
     (Inr (Resolved m' v o'), w') \<Rightarrow> paused w \<and> \<not> paused w' \<and> status_of w iid = Some o' \<and> m' = m \<and>
        (v \<longleftrightarrow> m = ''verified'') \<and> (v \<longrightarrow> is_terminal o') \<and> nonempty_str rb \<and> nonempty_str r \<and>
        (\<exists>e. w_events w' = w_events w @ [e] \<and> ev_kind e = RESOLVE)
   | (_, w') \<Rightarrow> w' = w"
  by (auto simp: resolve_emergency_pause_def resolve_commit_def paused_def is_terminal_def
      split: option.split prod.splits)

lemma resolve_needs_evidence_witness:
  "case resolve_emergency_pause NoFault 2 ''i1'' (PStr ''op'') (PStr ''ok'') ''verified'' tripped_world of
     (Inr (Resolved _ v o'), w') \<Rightarrow> v \<and> o' = CANCELLED \<and> \<not> paused w' | _ \<Rightarrow> False"
proof -
  have "case resolve_emergency_pause NoFault 2 ''i1'' (PStr ''op'') (PStr ''ok'') ''verified'' tripped_world of
     (Inr (Resolved m' v o'), w') \<Rightarrow> v \<and> o' = CANCELLED | _ \<Rightarrow> False" by code_simp
  then show ?thesis
    using resolve_needs_evidence [where dbf = NoFault and now = 2 and iid = "''i1''" and rb = "PStr ''op''"
        and r = "PStr ''ok''" and m = "''verified''" and w = tripped_world]
    by (auto split: prod.splits sum.splits resolve_result.splits)
qed

text \<open>Setting the pause. It fails only on a database error, and then changes nothing; after a success the
  switch reads paused under every read fault; a second trigger keeps the first cause and adds no event.\<close>

theorem set_pause_sticky:
  "case set_emergency_pause dbf now r s i w of
     (Inl e, w') \<Rightarrow> w' = w
   | (Inr fired, w') \<Rightarrow> (\<forall>dbf'. is_emergency_paused dbf' w') \<and> (fired \<longleftrightarrow> \<not> paused w) \<and>
        (paused w \<longrightarrow> w' = w) \<and>
        (\<forall>dbf' now' r' s' i'. set_emergency_pause dbf' now' r' s' i' w' = (Inr False, w') \<or>
           set_emergency_pause dbf' now' r' s' i' w' = (Inl DbError, w'))"
  by (auto simp: set_emergency_pause_def is_emergency_paused_iff paused_def trip_row_def Let_def
      split: option.splits prod.splits sum.splits if_splits)

lemma set_pause_sticky_witness:
  "paused tripped_world \<and> (\<forall>dbf. is_emergency_paused dbf tripped_world)"
proof -
  have "case set_emergency_pause NoFault 1 (Some ''r'') (Some ''s'') (Some ''i1'') (sample_world CANCELLED) of
      (Inr fired, _) \<Rightarrow> fired | _ \<Rightarrow> False" by code_simp
  then show ?thesis
    using set_pause_sticky [where dbf = NoFault and now = 1 and r = "Some ''r''" and s = "Some ''s''"
        and i = "Some ''i1''" and w = "sample_world CANCELLED"]
    by (auto simp: tripped_world_def is_emergency_paused_iff split: prod.splits sum.splits)
qed

end
