(* ===== verification/OrderPricing.thy ===== *)
theory OrderPricing
  imports PyVal
begin

text \<open>
  \<open>execution/order_pricing.py\<close>: the limit price of a taker order. A price is moved by the slippage
  buffer, rounded to the tick in the direction of the order, and rejected (never clamped) when it
  leaves the slippage cap or the price bounds. The canonical payload hash is not modelled.
\<close>

definition ceil_to_tick :: "dec \<Rightarrow> dec \<Rightarrow> dec result" where
  "ceil_to_tick price tick =
     rbind (ddiv price tick) (\<lambda>q. rbind (dquantize_with ceiling 0 q) (\<lambda>n. dmul n tick))"

definition floor_to_tick :: "dec \<Rightarrow> dec \<Rightarrow> dec result" where
  "floor_to_tick price tick =
     rbind (ddiv price tick) (\<lambda>q. rbind (dquantize_with floor 0 q) (\<lambda>n. dmul n tick))"

type_synonym limit_result = "(dec option \<times> string option) result"

definition check_bounds :: "dec \<Rightarrow> dec \<Rightarrow> dec \<Rightarrow> limit_result" where
  "check_bounds limit pmin pmax =
     rbind (dlt limit pmin) (\<lambda>below. if below then Inr (None, Some ''OUT_OF_BOUNDS'') else
     rbind (dlt pmax limit) (\<lambda>above. if above then Inr (None, Some ''OUT_OF_BOUNDS'') else
       Inr (Some limit, None)))"

definition slippage_exceeds :: "dec \<Rightarrow> dec \<Rightarrow> dec \<Rightarrow> bool result" where
  "slippage_exceeds limit q cap =
     rbind (dsub limit q) (\<lambda>d. rbind (ddiv (dabs d) q) (\<lambda>slip. dlt cap slip))"

definition compute_limit_price ::
  "string \<Rightarrow> dec \<Rightarrow> dec \<Rightarrow> dec \<Rightarrow> dec \<Rightarrow> dec \<Rightarrow> dec option \<Rightarrow> limit_result" where
  "compute_limit_price intent_side q buf tick pmin pmax max_slippage_cap =
     rbind (dle tick (DFin 0)) (\<lambda>bad_tick. if bad_tick then Inr (None, Some ''INVALID_TICK'') else
     let go = (\<lambda>limit.
           case max_slippage_cap of
             None \<Rightarrow> check_bounds limit pmin pmax
           | Some cap \<Rightarrow> rbind (dlt (DFin 0) q) (\<lambda>pos.
               if pos then rbind (slippage_exceeds limit q cap) (\<lambda>over.
                 if over then Inr (None, Some ''MAX_SLIPPAGE_EXCEEDED'') else check_bounds limit pmin pmax)
               else check_bounds limit pmin pmax))
     in if intent_side = ''TAKER_BUY'' then
          rbind (dadd q buf) (\<lambda>p. rbind (ceil_to_tick p tick) go)
        else if intent_side = ''TAKER_SELL'' then
          rbind (dsub q buf) (\<lambda>p. rbind (floor_to_tick p tick) go)
        else Inr (None, Some ''INVALID_SIDE''))"

lemma check_bounds_Some: "check_bounds l pmin pmax = Inr (Some l', r) \<Longrightarrow>
    l' = l \<and> r = None \<and> dle pmin l = Inr True \<and> dle l pmax = Inr True"
  by (auto simp: check_bounds_def rbind_eq_Inr dlt_False_dle split: if_splits)

lemma check_bounds_Fin: "check_bounds (DFin l) (DFin a) (DFin b) =
    (if l < a \<or> b < l then Inr (None, Some ''OUT_OF_BOUNDS'') else Inr (Some (DFin l), None))"
  by (simp add: check_bounds_def)

lemma ceil_to_tick_Fin: "t > 0 \<Longrightarrow> \<bar>\<lceil>d28 (x / t)\<rceil>\<bar> < 10 ^ 28 \<Longrightarrow>
    ceil_to_tick (DFin x) (DFin t) = Inr (DFin (d28 (of_int \<lceil>d28 (x / t)\<rceil> * t)))"
  by (simp add: ceil_to_tick_def ddiv_Fin dquantize_with_def Let_def)

lemma floor_to_tick_Fin: "t > 0 \<Longrightarrow> \<bar>\<lfloor>d28 (x / t)\<rfloor>\<bar> < 10 ^ 28 \<Longrightarrow>
    floor_to_tick (DFin x) (DFin t) = Inr (DFin (d28 (of_int \<lfloor>d28 (x / t)\<rfloor> * t)))"
  by (simp add: floor_to_tick_def ddiv_Fin dquantize_with_def Let_def)

lemma ceil_tick_bounds:
  assumes "(t::rat) > 0"
  shows "x \<le> of_int \<lceil>x / t\<rceil> * t" and "of_int \<lceil>x / t\<rceil> * t < x + t"
proof -
  have "x / t \<le> of_int \<lceil>x / t\<rceil>" by (rule le_of_int_ceiling)
  then show "x \<le> of_int \<lceil>x / t\<rceil> * t" by (simp only: pos_divide_le_eq [OF assms])
  have "of_int \<lceil>x / t\<rceil> - 1 < x / t" by linarith
  then show "of_int \<lceil>x / t\<rceil> * t < x + t" using assms by (simp add: pos_less_divide_eq left_diff_distrib)
qed

lemma floor_tick_bounds:
  assumes "(t::rat) > 0"
  shows "of_int \<lfloor>x / t\<rfloor> * t \<le> x" and "x - t < of_int \<lfloor>x / t\<rfloor> * t"
proof -
  have "of_int \<lfloor>x / t\<rfloor> \<le> x / t" by (rule of_int_floor_le)
  then show "of_int \<lfloor>x / t\<rfloor> * t \<le> x" by (simp only: pos_le_divide_eq [OF assms])
  have "x / t < of_int \<lfloor>x / t\<rfloor> + 1" by linarith
  then show "x - t < of_int \<lfloor>x / t\<rfloor> * t" using assms by (simp add: pos_divide_less_eq distrib_right)
qed

text \<open>An accepted price is within the bounds and the slippage cap, whatever the arguments.\<close>

lemma compute_limit_price_accepts:
  assumes "compute_limit_price side q buf tick pmin pmax cap = Inr (Some l, r)"
  shows "r = None" "dle pmin l = Inr True" "dle l pmax = Inr True"
    "dlt (DFin 0) tick = Inr True" "side = ''TAKER_BUY'' \<or> side = ''TAKER_SELL''"
    "cap = Some c \<Longrightarrow> dlt (DFin 0) q = Inr True \<Longrightarrow> slippage_exceeds l q c = Inr False"
  using assms dle_total [of tick "DFin 0"]
  by (auto simp: compute_limit_price_def rbind_eq_Inr Let_def split: if_splits option.splits
      dest!: check_bounds_Some)

section \<open>Properties\<close>

text \<open>C36: The tick rounding always moves the price in the direction of the order and by less than one tick.
  When the shifted price, its quotient by the tick and the product are exact in 28 digits (they are
  for cent ticks and quotes of a few digits), an accepted buy limit is the least multiple of the tick
  at or above quote plus buffer, an accepted sell limit the greatest at or below quote minus buffer,
  and it lies within the bounds.\<close>

theorem limit_on_tick:
  assumes "compute_limit_price side (DFin q) (DFin b) (DFin t) (DFin lo) (DFin hi) cap = Inr (Some l, r)"
    and "x = (if side = ''TAKER_BUY'' then q + b else q - b)"
    and "n = (if side = ''TAKER_BUY'' then \<lceil>x / t\<rceil> else \<lfloor>x / t\<rfloor>)"
    and "d28 x = x" "d28 (x / t) = x / t" "d28 (of_int n * t) = of_int n * t" "\<bar>n\<bar> < 10 ^ 28"
  shows "l = DFin (of_int n * t) \<and> 0 < t \<and> lo \<le> of_int n * t \<and> of_int n * t \<le> hi \<and>
    (side = ''TAKER_BUY'' \<and> x \<le> of_int n * t \<and> of_int n * t < x + t \<or>
     side = ''TAKER_SELL'' \<and> of_int n * t \<le> x \<and> x - t < of_int n * t)"
proof -
  note acc = compute_limit_price_accepts [OF assms(1)]
  have t: "0 < t" using acc(4) by simp
  have l: "l = DFin (of_int n * t)"
    using assms acc(5) t
    by (auto simp: compute_limit_price_def rbind_eq_Inr Let_def ceil_to_tick_Fin floor_to_tick_Fin
        split: if_splits option.splits dest!: check_bounds_Some)
  have "lo \<le> of_int n * t \<and> of_int n * t \<le> hi" using acc(2,3) l by simp
  then show ?thesis
    using l t acc(5) ceil_tick_bounds [OF t, of x] floor_tick_bounds [OF t, of x] assms(3) by auto
qed

lemma limit_on_tick_witness:
  "\<exists>l. compute_limit_price ''TAKER_BUY'' (DFin (437/1000)) (DFin (1/100)) (DFin (1/100)) (DFin (1/100)) (DFin (99/100))
      (Some (DFin (4/100))) = Inr (Some l, None) \<and> l = DFin (45/100)"
proof -
  have c: "compute_limit_price ''TAKER_BUY'' (DFin (437/1000)) (DFin (1/100)) (DFin (1/100)) (DFin (1/100))
      (DFin (99/100)) (Some (DFin (4/100))) = Inr (Some (DFin (45/100)), None)" by code_simp
  have e: "d28 (447/1000) = 447/1000" "d28 ((447/1000) / (1/100)) = (447/1000) / (1/100)"
    "d28 (of_int 45 * (1/100)) = of_int 45 * (1/100)" "\<lceil>(447/1000 :: rat) / (1/100)\<rceil> = 45" by code_simp+
  show ?thesis using limit_on_tick [OF c, of "447/1000" 45] e c by auto
qed

end
