(* ===== verification/ClobExecutor.thy ===== *)
theory ClobExecutor
  imports EmergencyPause OrderPricing Config
begin

text \<open>
  \<open>execution/clob_executor.py\<close>: placing a real order. \<open>execute\<close> is modelled as its four stages: the
  preflight guards, the write-ahead of the intent, the submission, and the dispatch on the response
  with its recovery ladder. Everything the outside decides in one call (database faults, the quote,
  the response of the exchange or the text of its exception, fresh ids, the clock) is the record
  \<open>exec_env\<close>. Handing the order to the client is the effect \<open>EPost\<close>; the worlds between the
  stages are \<open>execute_points\<close>, one of which a dying process leaves behind. Operator notifications and
  the air-pocket telemetry of a no-match are not modelled.
\<close>

section \<open>Accounting helpers\<close>

definition PRICE_PREMIUM :: dec where "PRICE_PREMIUM = DFin 0.01"
definition TICK_SIZE :: dec where "TICK_SIZE = DFin 0.01"

definition compute_slippage :: "string \<Rightarrow> pyfloat option \<Rightarrow> pyfloat option \<Rightarrow> pyfloat result" where
  "compute_slippage side expected_price fill_price =
    (if side \<notin> set [''BUY'', ''SELL''] then Inl ValueError else
     case (expected_price, fill_price) of
       (Some e, Some p) \<Rightarrow>
         if \<not> (isfinite e \<and> isfinite p) then Inl ValueError
         else if fle e (Fin 0) \<or> fle p (Fin 0) then Inl ValueError
         else if side = ''BUY'' then fdiv (fsub p e) e
         else fdiv (fsub e p) e
     | _ \<Rightarrow> Inl ValueError)"

definition float_of_opt :: "dec option \<Rightarrow> pyfloat result" where
  "float_of_opt d = (case d of None \<Rightarrow> Inl TypeError | Some x \<Rightarrow> Inr (float_of_dec x))"

definition base_position :: position where
  "base_position = \<lparr>p_id = [], p_opened_at = 0, p_slug = [], p_asset = [], p_action = [], p_entry = Fin 0,
     p_fair = Fin 0, p_ref = Fin 0, p_edge = Fin 0, p_usd = Fin 0, p_kelly = Fin 0, p_conf = Fin 0,
     p_shares = None, p_order_id = None, p_yes_tok = None, p_no_tok = None, p_token_keys = True, p_part_keys = False, p_status = ''open'',
     p_dry_run = False, p_entry_hl = None, p_ask_at_decision = None, p_slippage = None, p_intent = None,
     p_seq = None, p_closing = False, p_confirm = 0, p_confirm_ts = None, p_no_clob_bid = None,
     p_cached_hl = None, p_cached_secs = None, p_part_count = 0, p_part_shares = None, p_part_usdc = None,
     p_exit_reason = None, p_closed_at = None, p_exit_price = None, p_exit_hl = None, p_pnl = None,
     p_tel = no_telemetry\<rparr>"

definition map_decision_to_position_row ::
  "fak_decision \<Rightarrow> finding \<Rightarrow> gate_result \<Rightarrow> risk_result \<Rightarrow> string \<Rightarrow> string \<Rightarrow> string \<Rightarrow> tstamp
     \<Rightarrow> pyfloat \<Rightarrow> pyfloat \<Rightarrow> position result" where
  "map_decision_to_position_row d f g rk iid order_id position_id now ask slip =
     rbind (float_of_opt (fk_price d)) (\<lambda>price.
     rbind (key_of (fd_fair f)) (\<lambda>fair. rbind (key_of (fd_ref f)) (\<lambda>ref_price.
     rbind (key_of (fd_edge f)) (\<lambda>edge. rbind (float_of_opt (fk_spent d)) (\<lambda>spent.
     rbind (float_of_opt (fk_shares d)) (\<lambda>shares.
       Inr (base_position\<lparr>p_id := position_id, p_opened_at := now, p_asset := fd_asset f,
         p_action := fd_action f, p_slug := fd_slug f, p_entry := price, p_fair := fair,
         p_ref := ref_price, p_edge := edge, p_usd := spent, p_kelly := rk_kelly rk,
         p_conf := g_score g, p_shares := Some shares, p_order_id := Some order_id,
         p_yes_tok := fd_yes_tok f, p_no_tok := fd_no_tok f, p_entry_hl := Some (fd_cur f),
         p_ask_at_decision := Some ask, p_slippage := Some slip, p_dry_run := False,
         p_status := ''open'', p_intent := Some iid\<rparr>)))))))"

section \<open>The outside of one call\<close>

record exchange_response =
  rp_status :: pyval
  rp_taking :: pyval
  rp_making :: pyval
  rp_order :: "string option"

datatype post_outcome = PostRaised string | PostEmpty | PostResp exchange_response

record exec_env =
  x_pause :: db_fault
  x_unresolved :: db_fault
  x_quote :: "pyfloat option"
  x_quote_raises :: "exn option"
  x_iid :: string
  x_create :: db_fault
  x_submitted :: db_fault
  x_post :: post_outcome
  x_cancel :: db_fault
  x_recovery :: db_fault
  x_kill :: db_fault
  x_confirm :: confirm_fault
  x_readback :: db_fault
  x_pid :: string
  x_dry_run :: bool
  x_now :: tstamp

section \<open>Preflight\<close>

definition entry_token :: "finding \<Rightarrow> string option" where
  "entry_token f = (if fd_action f = ''YES'' then fd_yes_tok f else fd_no_tok f)"

definition live_ask :: "exec_env \<Rightarrow> finding \<Rightarrow> pyfloat" where
  "live_ask x f = (case x_quote x of Some a \<Rightarrow> if f_truthy a then a else fd_ask f | None \<Rightarrow> fd_ask f)"

text \<open>\<open>None\<close> is the early return; otherwise the token and the worst price.\<close>

definition exec_preflight :: "exec_env \<Rightarrow> finding \<Rightarrow> pyfloat \<Rightarrow> world \<Rightarrow> (string \<times> pyfloat) option result" where
  "exec_preflight x f usd w =
    (if is_emergency_paused (x_pause x) w then Inr None else
     case entry_token f of None \<Rightarrow> Inr None
     | Some token \<Rightarrow>
       if token = [] then Inr None else
       (case has_unresolved_intent (x_unresolved x) token w of
          Inl _ \<Rightarrow> Inr None
        | Inr True \<Rightarrow> Inr None
        | Inr False \<Rightarrow>
          if flt usd (Fin 1) then Inr None else
          case x_quote_raises x of Some e \<Rightarrow> Inl e | None \<Rightarrow>
          rbind (compute_limit_price ''TAKER_BUY'' (dec_of_float (live_ask x f)) PRICE_PREMIUM TICK_SIZE
                   PRICE_MIN PRICE_MAX (Some MAX_SLIPPAGE_CAP)) (\<lambda>(limit, reject).
            case limit of None \<Rightarrow> Inr None | Some l \<Rightarrow> Inr (Some (token, float_of_dec l)))))"

section \<open>Write-ahead\<close>

text \<open>The intent row and its move to \<open>SUBMITTED_UNKNOWN\<close>, each committed, before any network call. The
  result says whether the order may be submitted, and the worlds passed on the way.\<close>

definition exec_write_ahead ::
  "exec_env \<Rightarrow> finding \<Rightarrow> pyfloat \<Rightarrow> string \<Rightarrow> pyfloat \<Rightarrow> world \<Rightarrow> bool \<times> world list" where
  "exec_write_ahead x f usd token price w =
    (case create_intent (x_create x) (x_now x) (x_iid x) token ''BUY'' price usd (Some (fd_slug f)) None w of
       (Inl _, w1) \<Rightarrow> (False, [w1])
     | (Inr iid, w1) \<Rightarrow>
        (case transition (x_submitted x) (x_now x) iid ''SUBMITTED_UNKNOWN''
                (no_args\<lparr>ta_submitted := Some (x_now x)\<rparr>) w1 of
           (Inl _, w2) \<Rightarrow> (False, [w1, w2])
         | (Inr _, w2) \<Rightarrow> (True, [w1, w2])))"

section \<open>After the submission\<close>

datatype exec_out =
    NoPosition
  | RecoveryRequired string string
  | DuplicateFill string string tstamp
  | Opened position

definition recovery_ladder ::
  "exec_env \<Rightarrow> string \<Rightarrow> string \<Rightarrow> string option \<Rightarrow> pyfloat option \<Rightarrow> world \<Rightarrow> world" where
  "recovery_ladder x iid reason order_id sz w =
    (case transition (x_recovery x) (x_now x) iid ''RECOVERY_REQUIRED''
            (no_args\<lparr>ta_reason := Some reason, ta_server := order_id, ta_size := sz\<rparr>) w of
       (Inr _, w') \<Rightarrow> w'
     | (Inl _, w') \<Rightarrow>
        snd (set_emergency_pause (x_kill x) (x_now x)
          (Some (''task_h_recovery_write_failed:'' @ reason)) (Some ''task_h'') (Some iid) w'))"

definition order_text :: "exchange_response \<Rightarrow> string" where
  "order_text r = (case rp_order r of None \<Rightarrow> [] | Some s \<Rightarrow> s)"

definition cancel_intent :: "exec_env \<Rightarrow> string \<Rightarrow> string \<Rightarrow> world \<Rightarrow> world" where
  "cancel_intent x iid reason w =
     snd (transition (x_cancel x) (x_now x) iid ''CANCELLED'' (no_args\<lparr>ta_reason := Some reason\<rparr>) w)"

definition build_row ::
  "exec_env \<Rightarrow> finding \<Rightarrow> gate_result \<Rightarrow> risk_result \<Rightarrow> string \<Rightarrow> string \<Rightarrow> fak_decision
     \<Rightarrow> position result" where
  "build_row x f g rk iid order_id d =
    (if \<not> isfinite (fd_ask f) \<or> fle (fd_ask f) (Fin 0) then Inl TelemetryDataMissing else
     rbind (float_of_opt (fk_price d)) (\<lambda>fp.
     rbind (compute_slippage ''BUY'' (Some (fd_ask f)) (Some fp)) (\<lambda>slip.
       if \<not> isfinite slip then Inl TelemetryDataMissing
       else map_decision_to_position_row d f g rk iid order_id (x_pid x) (x_now x) (fd_ask f) slip)))"

definition exec_confirm ::
  "exec_env \<Rightarrow> string \<Rightarrow> string \<Rightarrow> fak_decision \<Rightarrow> position \<Rightarrow> world \<Rightarrow> exec_out result \<times> world" where
  "exec_confirm x iid order_id d row w =
    (case confirm_fill_atomic (x_confirm x) (x_dry_run x) (x_now x) iid row (fk_state d) w of
       (Inl _, w') \<Rightarrow>
         (Inr (RecoveryRequired iid ''CONFIRM_TX_FAILED''),
          recovery_ladder x iid ''CONFIRM_TX_FAILED'' (Some order_id) (p_shares row) w')
     | (Inr DUPLICATE, w') \<Rightarrow>
         if x_readback x \<noteq> NoFault then (Inl DbError, w') else
         (case positions_of w' iid of
            [] \<Rightarrow> (Inr (RecoveryRequired iid ''DB_INCONSISTENCY''),
                   recovery_ladder x iid ''DB_INCONSISTENCY'' (Some order_id) None w')
          | p # _ \<Rightarrow> (Inr (DuplicateFill iid (p_id p) (p_opened_at p)), w'))
     | (Inr OPENED, w') \<Rightarrow> (Inr (Opened row), w'))"

definition exec_open ::
  "exec_env \<Rightarrow> finding \<Rightarrow> gate_result \<Rightarrow> risk_result \<Rightarrow> string \<Rightarrow> string \<Rightarrow> fak_decision \<Rightarrow> world
     \<Rightarrow> exec_out result \<times> world" where
  "exec_open x f g rk iid order_id d w =
    (case build_row x f g rk iid order_id d of
       Inr row \<Rightarrow> exec_confirm x iid order_id d row w
     | Inl e \<Rightarrow>
        if e \<in> {TelemetryDataMissing, ValueError} then
          (Inr (RecoveryRequired iid ''TELEMETRY_DATA_MISSING''),
           recovery_ladder x iid ''TELEMETRY_DATA_MISSING'' (Some order_id) None w)
        else if e \<in> {KeyError, TypeError} then
          (Inr (RecoveryRequired iid ''POSITION_ROW_BUILD_FAILED''),
           recovery_ladder x iid ''POSITION_ROW_BUILD_FAILED'' (Some order_id) None w)
        else (Inl e, w))"

definition opt_reason :: "string option \<Rightarrow> string \<Rightarrow> string" where
  "opt_reason r d = (case r of None \<Rightarrow> d | Some s \<Rightarrow> if s = [] then d else s)"

definition exec_dispatch ::
  "exec_env \<Rightarrow> finding \<Rightarrow> gate_result \<Rightarrow> risk_result \<Rightarrow> string \<Rightarrow> exchange_response \<Rightarrow> world
     \<Rightarrow> exec_out result \<times> world" where
  "exec_dispatch x f g rk iid resp w =
    (case classify_fak_fill (rp_status resp) (rp_taking resp) (rp_making resp) (rk_usd rk)
            (case rp_order resp of None \<Rightarrow> PNone | Some s \<Rightarrow> PStr s) of
       Inl e \<Rightarrow> (Inl e, w)
     | Inr d \<Rightarrow>
        let order_id = order_text resp in
        (case fk_kind d of
           BLOCK_UNKNOWN \<Rightarrow> (Inr NoPosition, w)
         | TERMINAL_ZERO \<Rightarrow> (Inr NoPosition, cancel_intent x iid (opt_reason (fk_reason d) ''FAK_ZERO_FILL'') w)
         | RECOVERY \<Rightarrow>
             let reason = opt_reason (fk_reason d) ''FAK_RECOVERY'' in
             (Inr (RecoveryRequired iid reason),
              recovery_ladder x iid reason (Some order_id) (map_option float_of_dec (fk_shares d)) w)
         | _ \<Rightarrow> exec_open x f g rk iid order_id d w))"

definition NO_MATCH_TEXT :: string where
  "NO_MATCH_TEXT = ''no orders found to match''"

definition exec_after_post ::
  "exec_env \<Rightarrow> finding \<Rightarrow> gate_result \<Rightarrow> risk_result \<Rightarrow> string \<Rightarrow> world \<Rightarrow> exec_out result \<times> world" where
  "exec_after_post x f g rk iid w =
    (case x_post x of
       PostRaised msg \<Rightarrow>
         (Inr NoPosition, if py_contains NO_MATCH_TEXT (py_lower msg) then cancel_intent x iid ''FAK_ZERO_FILL'' w else w)
     | PostEmpty \<Rightarrow> (Inr NoPosition, w)
     | PostResp resp \<Rightarrow> exec_dispatch x f g rk iid resp w)"

section \<open>execute\<close>

definition execute_run ::
  "exec_env \<Rightarrow> finding \<Rightarrow> gate_result \<Rightarrow> risk_result \<Rightarrow> world \<Rightarrow> exec_out result \<times> world list" where
  "execute_run x f g rk w =
    (case exec_preflight x f (rk_usd rk) w of
       Inl e \<Rightarrow> (Inl e, [w])
     | Inr None \<Rightarrow> (Inr NoPosition, [w])
     | Inr (Some (token, price)) \<Rightarrow>
        (case exec_write_ahead x f (rk_usd rk) token price w of
           (False, ws) \<Rightarrow> (Inr NoPosition, w # ws)
         | (True, ws) \<Rightarrow>
            let w3 = add_effect (EPost (x_iid x) token) (last ws)
            in (case exec_after_post x f g rk (x_iid x) w3 of
                  (out, w4) \<Rightarrow> (out, w # ws @ [w3, w4]))))"

definition execute ::
  "exec_env \<Rightarrow> finding \<Rightarrow> gate_result \<Rightarrow> risk_result \<Rightarrow> world \<Rightarrow> exec_out result \<times> world" where
  "execute x f g rk w = (case execute_run x f g rk w of (out, ws) \<Rightarrow> (out, last ws))"

definition execute_points ::
  "exec_env \<Rightarrow> finding \<Rightarrow> gate_result \<Rightarrow> risk_result \<Rightarrow> world \<Rightarrow> world list" where
  "execute_points x f g rk w = snd (execute_run x f g rk w)"

end
