(* ===== verification/PositionStore.thy ===== *)
theory PositionStore
  imports PositionManager MarketData ClobExecutor
begin

text \<open>
  \<open>execution/position_store.py\<close>: selling the tokens of an open position. The quote, the websocket ask,
  what the exchange answers and the clock are the record \<open>sell_env\<close>; the call updates the telemetry keys
  of the position in place, also when it raises. The operator's prints and the key
  \<open>book_depth_at_trigger\<close>, which is always None, are not modelled.
\<close>

section \<open>Selling\<close>

record sell_env =
  se_quote :: "snapshot option result"
  se_ask :: "pyfloat option"
  se_post :: post_outcome
  se_now :: tstamp

definition FLOOR_BUFFER :: pyfloat where "FLOOR_BUFFER = flit 0.01"

definition or_zero :: "pyfloat option \<Rightarrow> pyfloat" where
  "or_zero v = (case v of None \<Rightarrow> Fin 0 | Some x \<Rightarrow> if f_truthy x then x else Fin 0)"

definition exit_token :: "position \<Rightarrow> string option" where
  "exit_token pos = (if p_action pos = ''YES'' then p_yes_tok pos else p_no_tok pos)"

definition best_bid_of :: "snapshot option \<Rightarrow> position \<Rightarrow> pyfloat" where
  "best_bid_of q pos =
    (case Option.bind q sn_bid of
       Some b \<Rightarrow> if f_truthy b then b else or_zero (t_current_bid (p_tel pos))
     | None \<Rightarrow> or_zero (t_current_bid (p_tel pos)))"

text \<open>What the book looked like at the first attempt, kept by every later one, and the attempt counter.\<close>

definition mark_attempt :: "pyfloat \<Rightarrow> pyfloat option \<Rightarrow> position \<Rightarrow> position" where
  "mark_attempt best_bid ws_ask pos =
    (let t = p_tel pos;
         t1 = t\<lparr>t_exit_bid := setdefault (t_exit_bid t) (if fgt best_bid (Fin 0) then Some best_bid else None),
                t_exit_ask := setdefault (t_exit_ask t) ws_ask\<rparr>;
         t2 = (case ws_ask of
                 Some a \<Rightarrow> if f_truthy best_bid \<and> f_truthy a
                   then t1\<lparr>t_spread := setdefault (t_spread t1) (f_round 4 (fsub a best_bid))\<rparr> else t1
               | None \<Rightarrow> t1)
     in pos\<lparr>p_tel := t2\<lparr>t_attempts := t_attempts t2 + 1\<rparr>\<rparr>)"

definition mark_unmatched :: "position \<Rightarrow> position" where
  "mark_unmatched pos = pos\<lparr>p_tel := (p_tel pos)\<lparr>t_unmatched := t_unmatched (p_tel pos) + 1\<rparr>\<rparr>"

definition floor_price :: "pyfloat \<Rightarrow> pyfloat" where
  "floor_price best_bid = f_round 2 (f_max (flit 0.01) (fsub best_bid FLOOR_BUFFER))"

definition fill_telemetry :: "tstamp \<Rightarrow> position \<Rightarrow> pyfloat \<Rightarrow> exit_telemetry result" where
  "fill_telemetry now pos fill_price =
    (let t = (p_tel pos)\<lparr>t_fill_ts := Some now, t_fill_px := Some fill_price\<rparr> in
     rbind (if entry_positive pos
        then rbind (change_pct fill_price pos) (\<lambda>r.
          let pct = f_round 6 r; t1 = t\<lparr>t_fill_pct := Some pct\<rparr> in
          Inr (case t_sl_pct t1 of None \<Rightarrow> t1 | Some sl \<Rightarrow> t1\<lparr>t_gap_pct := Some (f_round 6 (fsub pct sl))\<rparr>))
        else Inr t) (\<lambda>t2.
     Inr (case t_first_trigger t2 of None \<Rightarrow> t2
        | Some ft \<Rightarrow> t2\<lparr>t_fill_secs := Some (f_round 2 (total_seconds now ft))\<rparr>)))"

definition record_fill :: "tstamp \<Rightarrow> position \<Rightarrow> pyfloat \<Rightarrow> position result" where
  "record_fill now pos fill_price = rbind (fill_telemetry now pos fill_price) (\<lambda>t. Inr (pos\<lparr>p_tel := t\<rparr>))"

text \<open>\<open>float(s) if s else 0.0\<close> for both amounts; the text errors are swallowed (\<open>None\<close>), an overflow is not.\<close>

definition fill_amounts :: "exchange_response \<Rightarrow> (pyfloat \<times> pyfloat) option result" where
  "fill_amounts resp =
    (case rbind (float_or_0 (rp_taking resp)) (\<lambda>taking. rbind (float_or_0 (rp_making resp)) (\<lambda>making.
        Inr (taking, making))) of
       Inr p \<Rightarrow> Inr (Some p)
     | Inl e \<Rightarrow> if e \<in> {ValueError, TypeError} then Inr None else Inl e)"

definition status_lower :: "pyval \<Rightarrow> string result" where
  "status_lower v = (if \<not> py_truthy v then Inr [] else case v of PStr s \<Rightarrow> Inr (py_lower s) | _ \<Rightarrow> Inl AttributeError)"

type_synonym fill = "pyfloat \<times> pyfloat"

definition book_fill :: "tstamp \<Rightarrow> position \<Rightarrow> pyfloat \<Rightarrow> pyfloat \<Rightarrow> fill option result \<times> position" where
  "book_fill now pos price making = (case record_fill now pos price of
     Inl e \<Rightarrow> (Inl e, pos) | Inr pos' \<Rightarrow> (Inr (Some (price, making)), pos'))"

definition sell_response ::
  "sell_env \<Rightarrow> pyfloat \<Rightarrow> exchange_response \<Rightarrow> position \<Rightarrow> fill option result \<times> position" where
  "sell_response x limit resp pos =
    (case status_lower (rp_status resp) of Inl e \<Rightarrow> (Inl e, pos)
     | Inr status \<Rightarrow>
        if status \<noteq> ''matched'' then (Inr None, mark_unmatched pos) else
        (case fill_amounts resp of Inl e \<Rightarrow> (Inl e, pos)
         | Inr amounts \<Rightarrow>
            (case amounts of
               Some (taking, making) \<Rightarrow>
                 if fgt making (Fin 0) \<and> fgt taking (Fin 0)
                 then (case fdiv taking making of Inl e \<Rightarrow> (Inl e, pos)
                   | Inr r \<Rightarrow> book_fill (se_now x) pos (f_round 6 r) making)
                 else book_fill (se_now x) pos limit (or_zero (p_shares pos))
             | None \<Rightarrow> book_fill (se_now x) pos limit (or_zero (p_shares pos)))))"

definition sell_at :: "sell_env \<Rightarrow> pyfloat \<Rightarrow> position \<Rightarrow> fill option result \<times> position" where
  "sell_at x best_bid pos =
    (if fle best_bid (Fin 0) then (Inr None, mark_unmatched pos) else
     let limit = floor_price best_bid; pos1 = pos\<lparr>p_tel := (p_tel pos)\<lparr>t_sell_limit := Some limit\<rparr>\<rparr> in
     case se_post x of
       PostRaised msg \<Rightarrow> (Inr None, mark_unmatched pos1)
     | PostEmpty \<Rightarrow> (Inr None, mark_unmatched pos1)
     | PostResp resp \<Rightarrow> sell_response x limit resp pos1)"

definition sell_position :: "sell_env \<Rightarrow> position \<Rightarrow> fill option result \<times> position" where
  "sell_position x pos =
    (if \<not> p_token_keys pos then (Inl KeyError, pos)
     else if nonempty (exit_token pos) = None \<or> fle (or_zero (p_shares pos)) (Fin 0) then (Inr None, pos)
     else case se_quote x of Inl e \<Rightarrow> (Inl e, pos)
     | Inr q \<Rightarrow> let best_bid = best_bid_of q pos in
         sell_at x best_bid (mark_attempt best_bid (se_ask x) pos))"

section \<open>What a sale changes\<close>

lemma fill_telemetry_keeps: "\<exists>te. fill_telemetry now pos px = Inr te \<and>
    t_attempts te = t_attempts (p_tel pos) \<and> t_unmatched te = t_unmatched (p_tel pos) \<and>
    t_exit_bid te = t_exit_bid (p_tel pos) \<and> t_exit_ask te = t_exit_ask (p_tel pos)"
proof (cases "entry_positive pos")
  case True
  then obtain r where "change_pct px pos = Inr r" by (rule change_pct_total)
  then show ?thesis using True by (simp add: fill_telemetry_def Let_def split: option.split)
next
  case False
  then show ?thesis by (simp add: fill_telemetry_def Let_def split: option.split)
qed

lemma record_fill_tel: "\<exists>te. record_fill now pos px = Inr (pos\<lparr>p_tel := te\<rparr>) \<and>
    t_attempts te = t_attempts (p_tel pos) \<and> t_unmatched te = t_unmatched (p_tel pos) \<and>
    t_exit_bid te = t_exit_bid (p_tel pos) \<and> t_exit_ask te = t_exit_ask (p_tel pos)"
  using fill_telemetry_keeps [of now pos px] by (auto simp: record_fill_def)

text \<open>The book-keeping relation between a position and what a sale made of it: only telemetry changes; a
  sale that sold nothing counted as many misses as attempts; a sale that sold counted one attempt.\<close>

definition tries :: "position \<Rightarrow> int" where "tries p = t_attempts (p_tel p)"
definition misses :: "position \<Rightarrow> int" where "misses p = t_unmatched (p_tel p)"

definition same_but_tel :: "position \<Rightarrow> position \<Rightarrow> bool" where
  "same_but_tel p q = (\<exists>te. q = p\<lparr>p_tel := te\<rparr>)"

lemma same_but_tel_refl [simp]: "same_but_tel p p"
  unfolding same_but_tel_def by (metis tel_id)

lemma same_but_tel_upd [simp]: "same_but_tel p (p\<lparr>p_tel := te\<rparr>)"
  unfolding same_but_tel_def by blast

lemma same_but_tel_trans: "same_but_tel p q \<Longrightarrow> same_but_tel q r \<Longrightarrow> same_but_tel p r"
  by (auto simp: same_but_tel_def)

definition first_book :: "position \<Rightarrow> pyfloat option option \<times> pyfloat option option" where
  "first_book p = (t_exit_bid (p_tel p), t_exit_ask (p_tel p))"

lemma book_fill_effect:
  "\<exists>pos'. book_fill now pos px mk = (Inr (Some (px, mk)), pos') \<and> same_but_tel pos pos' \<and>
     tries pos' = tries pos \<and> misses pos' = misses pos \<and> first_book pos' = first_book pos"
  using record_fill_tel [of now pos px]
  by (auto simp: book_fill_def tries_def misses_def first_book_def)

lemma mark_unmatched_effect:
  "same_but_tel pos (mark_unmatched pos)" "tries (mark_unmatched pos) = tries pos"
  "misses (mark_unmatched pos) = misses pos + 1" "first_book (mark_unmatched pos) = first_book pos"
  by (simp_all add: mark_unmatched_def tries_def misses_def first_book_def)

lemma mark_attempt_effect:
  "same_but_tel pos (mark_attempt b a pos)" "tries (mark_attempt b a pos) = tries pos + 1"
  "misses (mark_attempt b a pos) = misses pos"
  "first_book (mark_attempt b a pos) = (setdefault (t_exit_bid (p_tel pos)) (if fgt b (Fin 0) then Some b else None),
     setdefault (t_exit_ask (p_tel pos)) a)"
  by (simp_all add: mark_attempt_def Let_def tries_def misses_def first_book_def split: option.split)

lemma sell_response_cases:
  obtains (miss) "sell_response x l resp pos = (Inr None, mark_unmatched pos)"
  | (raised) e where "sell_response x l resp pos = (Inl e, pos)"
  | (filled) px mk pos' where "sell_response x l resp pos = (Inr (Some (px, mk)), pos')" "status_lower (rp_status resp) = Inr ''matched''"
      "same_but_tel pos pos'" "tries pos' = tries pos" "misses pos' = misses pos" "first_book pos' = first_book pos"
proof (cases "status_lower (rp_status resp)")
  case (Inl e)
  then show ?thesis by (auto simp: sell_response_def intro: raised)
next
  case st: (Inr status)
  show ?thesis
  proof (cases "status = ''matched'' \<and> (\<exists>a. fill_amounts resp = Inr a)")
    case False
    show ?thesis
    proof (cases "status = ''matched''")
      case True
      then obtain e where "fill_amounts resp = Inl e" using False by (cases "fill_amounts resp") auto
      then show ?thesis using st True by (intro raised [of e]) (simp add: sell_response_def)
    next
      case False
      then show ?thesis using st by (intro miss) (simp add: sell_response_def)
    qed
  next
    case True
    have fill: "\<And>px mk. sell_response x l resp pos = book_fill (se_now x) pos px mk \<Longrightarrow> ?thesis"
      using book_fill_effect st True by (metis filled)
    obtain amounts where am: "fill_amounts resp = Inr amounts" using True by blast
    show ?thesis
    proof (cases "\<exists>taking making. amounts = Some (taking, making) \<and> fgt making (Fin 0) \<and> fgt taking (Fin 0)")
      case True
      then obtain taking making r where "amounts = Some (taking, making)" "fgt making (Fin 0)" "fgt taking (Fin 0)"
          "fdiv taking making = Inr r" using fdiv_positive by metis
      then show ?thesis using st \<open>status = ''matched'' \<and> _\<close> am by (intro fill) (simp add: sell_response_def)
    next
      case False
      then show ?thesis using st \<open>status = ''matched'' \<and> _\<close> am
        by (intro fill [of l "or_zero (p_shares pos)"]) (auto simp: sell_response_def split: option.split)
    qed
  qed
qed

lemma floor_price_least: "b \<noteq> NaN \<Longrightarrow> fle (flit 0.01) (floor_price b)"
proof -
  assume "b \<noteq> NaN"
  then have "fsub b FLOOR_BUFFER \<noteq> NaN" by (simp add: FLOOR_BUFFER_def flit_def fsub_not_NaN)
  then have "fle (flit 0.01) (f_max (flit 0.01) (fsub b FLOOR_BUFFER))" using f_max_ge by simp
  then have "fle (f_round 2 (flit 0.01)) (floor_price b)" unfolding floor_price_def by (rule f_round_mono)
  moreover have "f_round 2 (flit 0.01) = flit 0.01" by code_simp
  ultimately show ?thesis by simp
qed

lemma sell_books_lemma:
  "case sell_position x pos of (r, pos') \<Rightarrow>
     same_but_tel pos pos' \<and>
     (case r of
        Inl e \<Rightarrow> misses pos' = misses pos
      | Inr None \<Rightarrow> tries pos' - tries pos = misses pos' - misses pos
      | Inr (Some f) \<Rightarrow> tries pos' = tries pos + 1 \<and> misses pos' = misses pos \<and>
          (\<exists>resp. se_post x = PostResp resp \<and> status_lower (rp_status resp) = Inr ''matched'')) \<and>
     (case t_exit_bid (p_tel pos) of None \<Rightarrow> True | Some b \<Rightarrow> t_exit_bid (p_tel pos') = Some b)"
proof -
  have at: "case sell_at x b p of (r, pos') \<Rightarrow> same_but_tel p pos' \<and> first_book pos' = first_book p \<and>
      (case r of Inl e \<Rightarrow> misses pos' = misses p | Inr None \<Rightarrow> tries pos' = tries p \<and> misses pos' = misses p + 1
       | Inr (Some f) \<Rightarrow> tries pos' = tries p \<and> misses pos' = misses p \<and>
          (\<exists>resp. se_post x = PostResp resp \<and> status_lower (rp_status resp) = Inr ''matched''))" for b p
  proof (cases "fle b (Fin 0)")
    case True
    then show ?thesis by (simp add: sell_at_def mark_unmatched_effect)
  next
    case False
    let ?p = "p\<lparr>p_tel := (p_tel p)\<lparr>t_sell_limit := Some (floor_price b)\<rparr>\<rparr>"
    have p: "same_but_tel p ?p" "tries ?p = tries p" "misses ?p = misses p" "first_book ?p = first_book p"
      by (simp_all add: tries_def misses_def first_book_def)
    have um: "same_but_tel p (mark_unmatched ?p)" using p(1) mark_unmatched_effect(1) same_but_tel_trans by blast
    show ?thesis
    proof (cases "se_post x")
      case (PostResp resp)
      then have e: "sell_at x b p = sell_response x (floor_price b) resp ?p"
        using False by (simp add: sell_at_def Let_def)
      show ?thesis unfolding e
        by (rule sell_response_cases [of x "floor_price b" resp ?p])
          (use p um mark_unmatched_effect [of ?p] PostResp same_but_tel_trans [OF p(1)] in \<open>simp_all\<close>)
    qed (use False p um mark_unmatched_effect [of ?p] in \<open>simp_all add: sell_at_def Let_def\<close>)
  qed
  show ?thesis
  proof (cases "\<exists>q. sell_position x pos = (let b = best_bid_of q pos in sell_at x b (mark_attempt b (se_ask x) pos))")
    case False
    then have "sell_position x pos = (Inr None, pos) \<or> (\<exists>e. sell_position x pos = (Inl e, pos))"
      by (auto simp: sell_position_def split: sum.splits if_splits)
    then show ?thesis by (auto split: option.split)
  next
    case True
    then obtain b where b: "sell_position x pos = sell_at x b (mark_attempt b (se_ask x) pos)" by (auto simp: Let_def)
    obtain r pos' where r: "sell_at x b (mark_attempt b (se_ask x) pos) = (r, pos')" by fastforce
    have fb: "t_exit_bid (p_tel pos) = Some v \<Longrightarrow> first_book pos' = first_book (mark_attempt b (se_ask x) pos) \<Longrightarrow>
        t_exit_bid (p_tel pos') = Some v" for v
      by (simp add: mark_attempt_effect(4)) (simp add: first_book_def setdefault_def)
    show ?thesis unfolding b r prod.case
      using at [where b = b and p = "mark_attempt b (se_ask x) pos", unfolded r prod.case] fb
        same_but_tel_trans [OF mark_attempt_effect(1)] mark_attempt_effect(2,3)
      by (auto split: sum.splits option.splits)
  qed
qed

text \<open>C22: A sale keeps its books: whatever the exchange answers, only the telemetry of the position changes
  and the first book seen is never overwritten; a reported fill needs a matched response of the exchange
  and counts one attempt and no miss; a sale without a fill counts a miss for each attempt it made.\<close>

theorem sell_keeps_books:
  "case sell_position x pos of (r, pos') \<Rightarrow>
     same_but_tel pos pos' \<and>
     (case r of
        Inl e \<Rightarrow> misses pos' = misses pos
      | Inr None \<Rightarrow> tries pos' - tries pos = misses pos' - misses pos
      | Inr (Some f) \<Rightarrow> tries pos' = tries pos + 1 \<and> misses pos' = misses pos \<and>
          (\<exists>resp. se_post x = PostResp resp \<and> status_lower (rp_status resp) = Inr ''matched'')) \<and>
     (case t_exit_bid (p_tel pos) of None \<Rightarrow> True | Some b \<Rightarrow> t_exit_bid (p_tel pos') = Some b)"
  by (rule sell_books_lemma)

end
