(* ===== verification/PositionLog.thy ===== *)
theory PositionLog
  imports PositionStore
begin

text \<open>
  The positions table as the main loop uses it: \<open>db/logger.py\<close> (open, partial fill, close, late
  resolution, the reload of today's closed positions) and the reload of the open positions in
  \<open>main_loop.py\<close>. A row is a position whose unsaved keys have their initial values. The connection is
  there (the calls with \<open>conn=None\<close> do nothing); a database error leaves the table as it was.
\<close>

section \<open>Writing\<close>

text \<open>What the insert stores of an in-memory position.\<close>

definition open_row :: "bool \<Rightarrow> position \<Rightarrow> position" where
  "open_row dry pos = base_position\<lparr>p_id := p_id pos, p_opened_at := p_opened_at pos, p_slug := p_slug pos,
     p_asset := p_asset pos, p_action := p_action pos, p_entry := p_entry pos, p_fair := p_fair pos,
     p_ref := p_ref pos, p_edge := p_edge pos, p_usd := p_usd pos, p_kelly := p_kelly pos, p_conf := p_conf pos,
     p_status := ''open'', p_dry_run := dry, p_shares := p_shares pos, p_order_id := p_order_id pos,
     p_yes_tok := p_yes_tok pos, p_no_tok := p_no_tok pos, p_seq := p_seq pos, p_entry_hl := p_entry_hl pos,
     p_ask_at_decision := p_ask_at_decision pos, p_slippage := p_slippage pos, p_intent := p_intent pos\<rparr>"

text \<open>\<open>INSERT OR IGNORE\<close>: a row with the same id, or a second one for the same intent, is dropped silently.\<close>

definition insert_ignored :: "position \<Rightarrow> world \<Rightarrow> bool" where
  "insert_ignored pos w = (p_id pos \<in> p_id ` set (w_positions w) \<or>
     (case p_intent pos of None \<Rightarrow> False | Some iid \<Rightarrow> intent_has_position iid w))"

definition log_position_open :: "db_fault \<Rightarrow> bool \<Rightarrow> position \<Rightarrow> world \<Rightarrow> position result \<times> world" where
  "log_position_open dbf dry pos w =
    (if dbf \<noteq> NoFault then (Inl DbError, w) else
     let pos' = pos\<lparr>p_seq := Some (next_seq w)\<rparr> in
     (Inr pos', if insert_ignored pos w then w else w\<lparr>w_positions := w_positions w @ [open_row dry pos']\<rparr>))"

definition realized_pnl :: "position \<Rightarrow> pyfloat option result" where
  "realized_pnl pos =
    (let partial_usdc = or_zero (p_part_usdc pos); remaining_shares = or_zero (p_shares pos) in
     case p_exit_price pos of None \<Rightarrow> Inr None
     | Some exit_p \<Rightarrow>
        if \<not> f_truthy (p_entry pos) then Inr None
        else if fgt partial_usdc (Fin 0)
        then Inr (Some (f_round 6 (fsub (fadd partial_usdc (fmul remaining_shares exit_p)) (p_usd pos))))
        else rbind (fdiv (fsub exit_p (p_entry pos)) (p_entry pos)) (\<lambda>r. Inr (Some (fmul r (p_usd pos)))))"

definition close_row :: "position \<Rightarrow> pyfloat option \<Rightarrow> position \<Rightarrow> position" where
  "close_row pos pnl row = row\<lparr>p_status := ''closed'', p_closed_at := p_closed_at pos, p_exit_price := p_exit_price pos,
     p_exit_reason := p_exit_reason pos, p_pnl := pnl, p_exit_hl := p_exit_hl pos, p_tel := p_tel pos,
     p_part_count := p_part_count pos, p_part_shares := p_part_shares pos, p_part_usdc := p_part_usdc pos\<rparr>"

definition log_position_close :: "db_fault \<Rightarrow> position \<Rightarrow> world \<Rightarrow> unit result \<times> world" where
  "log_position_close dbf pos w =
    (case realized_pnl pos of Inl e \<Rightarrow> (Inl e, w)
     | Inr pnl \<Rightarrow> if dbf \<noteq> NoFault then (Inl DbError, w) else
         (Inr (), w\<lparr>w_positions := update_where (\<lambda>r. p_id r = p_id pos) (close_row pos pnl) (w_positions w)\<rparr>))"

definition log_partial_fill_update :: "db_fault \<Rightarrow> position \<Rightarrow> world \<Rightarrow> unit result \<times> world" where
  "log_partial_fill_update dbf pos w =
    (if dbf \<noteq> NoFault then (Inl DbError, w) else
     (Inr (), w\<lparr>w_positions := update_where (\<lambda>r. p_id r = p_id pos \<and> p_status r = ''open'')
        (\<lambda>r. r\<lparr>p_shares := p_shares pos, p_part_count := p_part_count pos,
               p_part_shares := p_part_shares pos, p_part_usdc := p_part_usdc pos\<rparr>) (w_positions w)\<rparr>))"

definition patch_position_resolution ::
  "db_fault \<Rightarrow> string \<Rightarrow> pyfloat \<Rightarrow> pyfloat \<Rightarrow> pyfloat option \<Rightarrow> world \<Rightarrow> unit result \<times> world" where
  "patch_position_resolution dbf position_id pm_exit pnl exit_hl w =
    (if dbf \<noteq> NoFault then (Inl DbError, w) else
     (Inr (), w\<lparr>w_positions := update_where (\<lambda>r. p_id r = position_id)
        (\<lambda>r. r\<lparr>p_exit_price := Some pm_exit, p_pnl := Some pnl, p_exit_reason := Some ''market_resolved_late'',
               p_exit_hl := exit_hl\<rparr>) (w_positions w)\<rparr>))"

section \<open>Reading\<close>

text \<open>What a reload makes of a row: the keys it does not select are gone.\<close>

definition loaded_position :: "position \<Rightarrow> position" where
  "loaded_position r = base_position\<lparr>p_id := p_id r, p_opened_at := p_opened_at r, p_slug := p_slug r,
     p_asset := p_asset r, p_action := p_action r, p_entry := p_entry r, p_fair := p_fair r, p_ref := p_ref r,
     p_edge := p_edge r, p_usd := p_usd r, p_kelly := p_kelly r, p_conf := p_conf r, p_status := ''open'',
     p_dry_run := p_dry_run r, p_shares := p_shares r, p_order_id := p_order_id r, p_yes_tok := p_yes_tok r,
     p_no_tok := p_no_tok r, p_seq := p_seq r, p_entry_hl := p_entry_hl r, p_part_count := p_part_count r,
     p_part_shares := p_part_shares r, p_part_usdc := p_part_usdc r, p_part_keys := True\<rparr>"

definition load_open_positions :: "bool \<Rightarrow> world \<Rightarrow> position list" where
  "load_open_positions dry w =
     map loaded_position (filter (\<lambda>r. p_status r = ''open'' \<and> p_dry_run r = dry) (w_positions w))"

definition utc_day :: "tstamp \<Rightarrow> int" where "utc_day t = t div 86400000000"

definition loaded_closed :: "position \<Rightarrow> position" where
  "loaded_closed r = base_position\<lparr>p_id := p_id r, p_opened_at := p_opened_at r, p_closed_at := p_closed_at r,
     p_slug := p_slug r, p_asset := p_asset r, p_action := p_action r, p_entry := p_entry r,
     p_exit_price := p_exit_price r, p_usd := p_usd r, p_pnl := p_pnl r, p_exit_reason := p_exit_reason r,
     p_dry_run := p_dry_run r, p_seq := p_seq r, p_status := ''closed'', p_token_keys := False\<rparr>"

definition load_closed_today :: "tstamp \<Rightarrow> world \<Rightarrow> position list" where
  "load_closed_today now w = map loaded_closed (filter (\<lambda>r. p_status r = ''closed'' \<and>
     (case p_closed_at r of None \<Rightarrow> False | Some t \<Rightarrow> utc_day t = utc_day now)) (w_positions w))"

section \<open>A restart\<close>

lemma loaded_open_row: "loaded_position (open_row dry p) =
    (loaded_position p)\<lparr>p_dry_run := dry, p_part_count := 0, p_part_shares := None, p_part_usdc := None\<rparr>"
  by (simp add: loaded_position_def open_row_def base_position_def)

lemma loaded_fields [simp]: "p_id (loaded_position r) = p_id r" "p_id (loaded_closed r) = p_id r"
  "p_id (open_row dry r) = p_id r" "p_status (open_row dry r) = ''open''" "p_dry_run (open_row dry r) = dry"
  by (simp_all add: loaded_position_def loaded_closed_def open_row_def)

text \<open>C23: Restart round trip: a position that was logged is reloaded, with its economic data, tokens and
  lineage, by a process in the same mode and by no process in the other mode; after a logged partial fill
  the reload shows the remaining shares and the proceeds so far, and after a logged close the position is
  no longer open but among the closed ones of its day, with the realised profit; all other reloaded
  positions are as before.\<close>

theorem restart_roundtrip:
  assumes "log_position_open NoFault dry pos w = (Inr pos1, w1)" "\<not> insert_ignored pos w"
    and "log_partial_fill_update NoFault pos2 w1 = (Inr (), w2)"
    and "log_position_close NoFault pos3 w2 = (Inr (), w3)" "p_id pos3 = p_id pos" "p_closed_at pos3 = Some t"
  shows "load_open_positions dry w1 = load_open_positions dry w @
      [(loaded_position pos1)\<lparr>p_dry_run := dry, p_part_count := 0, p_part_shares := None, p_part_usdc := None\<rparr>] \<and>
    load_open_positions (\<not> dry) w1 = load_open_positions (\<not> dry) w \<and>
    load_open_positions dry w2 = map (\<lambda>r. if p_id r = p_id pos2 then r\<lparr>p_shares := p_shares pos2,
      p_part_count := p_part_count pos2, p_part_shares := p_part_shares pos2, p_part_usdc := p_part_usdc pos2\<rparr> else r)
      (load_open_positions dry w1) \<and>
    load_open_positions dry w3 = filter (\<lambda>r. p_id r \<noteq> p_id pos) (load_open_positions dry w2) \<and>
    (\<exists>r \<in> set (load_closed_today t w3). p_id r = p_id pos \<and> Inr (p_pnl r) = realized_pnl pos3 \<and>
       p_exit_price r = p_exit_price pos3 \<and> p_exit_reason r = p_exit_reason pos3)"
proof (intro conjI)
  have w1: "pos1 = pos\<lparr>p_seq := Some (next_seq w)\<rparr>" "w_positions w1 = w_positions w @ [open_row dry pos1]"
    using assms(1,2) by (auto simp: log_position_open_def Let_def)
  then show "load_open_positions dry w1 = load_open_positions dry w @
      [(loaded_position pos1)\<lparr>p_dry_run := dry, p_part_count := 0, p_part_shares := None, p_part_usdc := None\<rparr>]"
    "load_open_positions (\<not> dry) w1 = load_open_positions (\<not> dry) w"
    by (simp_all add: load_open_positions_def loaded_open_row)
  let ?u = "\<lambda>r. r\<lparr>p_shares := p_shares pos2, p_part_count := p_part_count pos2, p_part_shares := p_part_shares pos2,
      p_part_usdc := p_part_usdc pos2\<rparr>"
  have w2: "w_positions w2 = update_where (\<lambda>r. p_id r = p_id pos2 \<and> p_status r = ''open'') ?u (w_positions w1)"
    using assms(3) by (auto simp: log_partial_fill_update_def)
  have lp: "map loaded_position (filter (\<lambda>r. p_status r = ''open'' \<and> p_dry_run r = dry)
        (update_where (\<lambda>r. p_id r = p_id pos2 \<and> p_status r = ''open'') ?u rs)) =
      map (\<lambda>r. if p_id r = p_id pos2 then ?u r else r)
        (map loaded_position (filter (\<lambda>r. p_status r = ''open'' \<and> p_dry_run r = dry) rs))" for rs
    by (induction rs) (simp_all add: loaded_position_def base_position_def)
  show "load_open_positions dry w2 = map (\<lambda>r. if p_id r = p_id pos2 then ?u r else r) (load_open_positions dry w1)"
    unfolding load_open_positions_def w2 by (rule lp)
  obtain pnl where pnl: "realized_pnl pos3 = Inr pnl"
    and w3: "w_positions w3 = update_where (\<lambda>r. p_id r = p_id pos) (close_row pos3 pnl) (w_positions w2)"
    using assms(4,5) by (auto simp: log_position_close_def split: sum.splits)
  have lc: "map loaded_position (filter (\<lambda>r. p_status r = ''open'' \<and> p_dry_run r = dry)
        (update_where (\<lambda>r. p_id r = p_id pos) (close_row pos3 pnl) rs)) =
      filter (\<lambda>r. p_id r \<noteq> p_id pos) (map loaded_position (filter (\<lambda>r. p_status r = ''open'' \<and> p_dry_run r = dry) rs))" for rs
    by (induction rs) (simp_all add: close_row_def)
  show "load_open_positions dry w3 = filter (\<lambda>r. p_id r \<noteq> p_id pos) (load_open_positions dry w2)"
    unfolding load_open_positions_def w3 by (rule lc)
  have "map p_id (w_positions w2) = map p_id (w_positions w1)" unfolding w2 by (rule map_key_update_where) simp
  moreover have "p_id pos \<in> set (map p_id (w_positions w1))" using w1 by simp
  ultimately have "p_id pos \<in> p_id ` set (w_positions w2)" by (metis set_map)
  then obtain r where r: "r \<in> set (w_positions w2)" "p_id r = p_id pos" by (metis imageE)
  then have "close_row pos3 pnl r \<in> set (w_positions w3)" unfolding w3 by (auto simp: set_update_where)
  then have "loaded_closed (close_row pos3 pnl r) \<in> set (load_closed_today t w3)"
    using assms(6) by (auto simp: load_closed_today_def close_row_def intro!: imageI)
  moreover have "p_pnl (loaded_closed (close_row pos3 pnl r)) = pnl" "p_exit_price (loaded_closed (close_row pos3 pnl r)) = p_exit_price pos3"
    "p_exit_reason (loaded_closed (close_row pos3 pnl r)) = p_exit_reason pos3" "p_id (loaded_closed (close_row pos3 pnl r)) = p_id pos"
    using r by (simp_all add: loaded_closed_def close_row_def)
  ultimately show "\<exists>r \<in> set (load_closed_today t w3). p_id r = p_id pos \<and> Inr (p_pnl r) = realized_pnl pos3 \<and>
      p_exit_price r = p_exit_price pos3 \<and> p_exit_reason r = p_exit_reason pos3"
    using pnl by (intro bexI) auto
qed

lemma restart_roundtrip_witness:
  "\<exists>w1 w2 w3 r. log_position_open NoFault False sample_position empty_world = (Inr (sample_position\<lparr>p_seq := Some 1\<rparr>), w1) \<and>
     log_partial_fill_update NoFault sample_position w1 = (Inr (), w2) \<and>
     log_position_close NoFault (close_position 0 sample_position ''stop_loss_hit'' None None) w2 = (Inr (), w3) \<and>
     load_open_positions False w3 = [] \<and> r \<in> set (load_closed_today 0 w3) \<and> p_id r = ''p1''"
proof -
  let ?c = "close_position 0 sample_position ''stop_loss_hit'' None None"
  obtain w1 where w1: "log_position_open NoFault False sample_position empty_world = (Inr (sample_position\<lparr>p_seq := Some 1\<rparr>), w1)"
    by (simp add: log_position_open_def Let_def next_seq_def empty_world_def)
  obtain w2 where w2: "log_partial_fill_update NoFault sample_position w1 = (Inr (), w2)"
    by (simp add: log_partial_fill_update_def)
  have "realized_pnl ?c = Inr None" by (simp add: realized_pnl_def close_position_def Let_def)
  then obtain w3 where w3: "log_position_close NoFault ?c w2 = (Inr (), w3)" by (simp add: log_position_close_def)
  have ign: "\<not> insert_ignored sample_position empty_world"
    by (simp add: insert_ignored_def empty_world_def sample_position_def)
  have id: "p_id ?c = p_id sample_position" "p_closed_at ?c = Some 0" "p_id sample_position = ''p1''"
    by (simp_all add: close_position_def sample_position_def)
  have "load_open_positions False empty_world = []" by (simp add: load_open_positions_def empty_world_def)
  then have "load_open_positions False w3 = [] \<and> (\<exists>r \<in> set (load_closed_today 0 w3). p_id r = ''p1'')"
    using restart_roundtrip [OF w1 ign w2 w3 id(1,2)] id(3) by (auto simp: sample_position_def)
  then show ?thesis using w1 w2 w3 by blast
qed

end
