(* ===== verification/Council.thy ===== *)
theory Council
  imports Config
begin

text \<open>
  \<open>council/\<close>: the decision layers a market finding goes through. \<open>verify\<close> (price drift), \<open>redteam\<close>
  (the vetoes), \<open>risk\<close> (position size) and \<open>gate\<close> (confidence and human approval). What the layers
  fetch from the network (the current price, the market, the order book) is an argument. The JSONL
  log of the gate is not modelled.
\<close>

section \<open>verifier.py\<close>

definition PRICE_DRIFT_HALT_PCT :: pyfloat where "PRICE_DRIFT_HALT_PCT = Fin 2"

definition verify_fail :: "string \<Rightarrow> bool \<Rightarrow> pyfloat \<Rightarrow> pyfloat \<Rightarrow> string option \<Rightarrow> verification" where
  "verify_fail reason halt cur drift err = \<lparr>v_pass = False, v_reason = reason, v_halt = halt,
     v_cur = cur, v_ask = Fin 0, v_bid = Fin 0, v_fair = Fin 0, v_edge = f_round 4 (Fin 0),
     v_secs = Fin 0, v_drift = f_round 4 drift, v_error = err\<rparr>"

definition verify :: "(pyfloat, string) sum \<Rightarrow> finding \<Rightarrow> verification result" where
  "verify fetched f =
    (if feq (fd_cur f) (Fin 0) then Inr (verify_fail ''fetch_error'' False (Fin 0) (Fin 0) (Some ''scout_cur=0''))
     else case fetched of
       Inr err \<Rightarrow> Inr (verify_fail ''fetch_error'' False (Fin 0) (Fin 0) (Some err))
     | Inl fresh_cur \<Rightarrow>
        rbind (fdiv (f_abs (fsub fresh_cur (fd_cur f))) (fd_cur f)) (\<lambda>d.
        let hl_drift = fmul d (Fin 100) in
        if fgt hl_drift PRICE_DRIFT_HALT_PCT
        then Inr (verify_fail ''api_mismatch'' HALT_ON_API_MISMATCH fresh_cur hl_drift None)
        else rbind (key_of (fd_fair f)) (\<lambda>fair. rbind (key_of (fd_edge f)) (\<lambda>edge.
          Inr \<lparr>v_pass = True, v_reason = ''ok'', v_halt = False, v_cur = fresh_cur,
            v_ask = fd_ask f, v_bid = fd_bid f, v_fair = fair, v_edge = f_round 4 edge,
            v_secs = fd_secs f, v_drift = f_round 4 hl_drift, v_error = None\<rparr>))))"

section \<open>redteam.py\<close>

definition SPREAD_VETO :: pyfloat where "SPREAD_VETO = flit 0.05"
definition LIQUIDITY_VETO_USD :: pyfloat where "LIQUIDITY_VETO_USD = Fin 500"
definition VOLUME_WARN_USD :: pyfloat where "VOLUME_WARN_USD = Fin 50"
definition MIN_THESIS_SECS :: pyfloat where "MIN_THESIS_SECS = Fin 120"
definition EDGE_SANITY_MAX :: pyfloat where "EDGE_SANITY_MAX = flit 0.35"
definition MIN_BOOK_DEPTH_USD :: pyfloat where "MIN_BOOK_DEPTH_USD = Fin 5"
definition ENTRY_SLIPPAGE :: pyfloat where "ENTRY_SLIPPAGE = flit 0.01"
definition BASIS_VETO_PCT :: pyfloat where "BASIS_VETO_PCT = flit 0.003"
definition FUNDING_RATE_VETO :: pyfloat where "FUNDING_RATE_VETO = flit 0.0001"

definition catch_parse :: "'a result \<Rightarrow> 'a \<Rightarrow> 'a result" where
  "catch_parse r d = (case r of Inl TypeError \<Rightarrow> Inr d | Inl ValueError \<Rightarrow> Inr d | _ \<Rightarrow> r)"

definition parse_taker_fee :: "pyval \<Rightarrow> pyfloat result" where
  "parse_taker_fee raw = catch_parse
     (rbind (float_of_val raw) (\<lambda>x. rbind (fdiv x (Fin 50000)) (\<lambda>fee.
        Inr (if flt (Fin 0) fee \<and> fle fee (flit 0.20) then fee else flit 0.02)))) (flit 0.02)"

definition fee_adjusted_edge ::
  "pyfloat \<Rightarrow> pyfloat \<Rightarrow> pyfloat \<Rightarrow> string \<Rightarrow> pyfloat \<Rightarrow> pyfloat option \<Rightarrow> pyfloat \<Rightarrow> pyfloat" where
  "fee_adjusted_edge fair ask bid action fee no_ask slippage =
    (if action = ''YES'' then fsub (fmul fair (fsub (Fin 1) fee)) (fadd ask slippage)
     else let entry = (case no_ask of Some x \<Rightarrow> x | None \<Rightarrow> fsub (Fin 1) bid)
          in fsub (fmul (fsub (Fin 1) fair) (fsub (Fin 1) fee)) (fadd entry slippage))"

definition rt_result :: "bool \<Rightarrow> string list \<Rightarrow> string list \<Rightarrow> pyfloat \<Rightarrow> pyfloat \<Rightarrow> pyfloat \<Rightarrow> pyfloat
    \<Rightarrow> redteam_result" where
  "rt_result p vetoes warnings fee_adj taker_fee spread liq = \<lparr>rt_pass = p, rt_vetoes = vetoes,
     rt_warnings = warnings, rt_fee_adj = f_round 4 fee_adj, rt_fee = f_round 4 taker_fee,
     rt_spread = spread, rt_liq = liq\<rparr>"

definition early_vetoes :: "finding \<Rightarrow> verification \<Rightarrow> string list" where
  "early_vetoes f v =
     (if fgt (v_edge v) EDGE_SANITY_MAX then [''edge_suspiciously_large''] else []) @
     (if flt (v_secs v) MIN_THESIS_SECS then [''insufficient_time_for_thesis''] else []) @
     (case fd_basis f of None \<Rightarrow> [] | Some b \<Rightarrow>
        if fgt (f_abs b) BASIS_VETO_PCT then [''high_basis_risk''] else []) @
     (case fd_funding f of None \<Rightarrow> [] | Some r \<Rightarrow>
        if fgt (f_abs r) FUNDING_RATE_VETO then [''funding_rate_crowded''] else [])"

definition finding_edge :: "finding \<Rightarrow> verification \<Rightarrow> pyfloat \<Rightarrow> pyfloat" where
  "finding_edge f v fee = fee_adjusted_edge (v_fair v) (v_ask v) (v_bid v) (fd_action f) fee
     (fd_no_ask f) ENTRY_SLIPPAGE"

definition float_or :: "pyval \<Rightarrow> pyfloat \<Rightarrow> pyfloat result" where
  "float_or v d = (if py_truthy v then float_of_val v else Inr d)"

definition market_numbers ::
  "finding \<Rightarrow> gamma_market \<Rightarrow> (pyfloat \<times> pyfloat \<times> pyfloat \<times> pyfloat) option result" where
  "market_numbers f m = catch_parse
     (rbind (float_or (gm_spread m) (Fin 999)) (\<lambda>spread.
      rbind (float_or (gm_liquidity m) (Fin 0)) (\<lambda>liq.
      rbind (float_or (gm_volume m) (Fin 0)) (\<lambda>vol.
      rbind (case fd_fee f of
           Some x \<Rightarrow> if f_truthy x then Inr x else parse_taker_fee (gm_fee m)
         | None \<Rightarrow> parse_taker_fee (gm_fee m)) (\<lambda>fee.
        Inr (Some (spread, liq, vol, fee))))))) None"

record book_level =
  bl_price :: "pyval option"
  bl_size :: "pyval option"

type_synonym book = "book_level list \<times> book_level list"

definition get_num :: "pyval option \<Rightarrow> pyfloat result" where
  "get_num v = float_of_val (case v of None \<Rightarrow> PInt 0 | Some x \<Rightarrow> x)"

definition book_vetoes :: "book option \<Rightarrow> string list result" where
  "book_vetoes bk = (case bk of None \<Rightarrow> Inr [] | Some (asks, bids) \<Rightarrow>
     rbind (if asks = [] then Inr [] else
        rbind (get_num (bl_size (last asks))) (\<lambda>s. rbind (get_num (bl_price (last asks))) (\<lambda>p.
          Inr (if flt (fmul s p) MIN_BOOK_DEPTH_USD then [''book_too_thin''] else [])))) (\<lambda>v1.
     rbind (if asks = [] \<or> bids = [] then Inr [] else
        rbind (key_of (bl_price (last asks))) (\<lambda>a. rbind (float_of_val a) (\<lambda>a'.
        rbind (key_of (bl_price (last bids))) (\<lambda>b. rbind (float_of_val b) (\<lambda>b'.
          Inr (if fgt (fsub a' b') SPREAD_VETO then [''clob_spread_too_wide''] else [])))))) (\<lambda>v2.
     Inr (v1 @ v2))))"

definition action_token :: "finding \<Rightarrow> string option" where
  "action_token f = (if fd_action f = ''NO'' then fd_no_tok f else fd_yes_tok f)"

definition token_truthy :: "string option \<Rightarrow> bool" where
  "token_truthy t = (case t of None \<Rightarrow> False | Some s \<Rightarrow> s \<noteq> [])"

definition edge_veto :: "pyfloat \<Rightarrow> string list" where
  "edge_veto fee_adj = (if flt fee_adj MIN_EDGE_PCT then [''edge_killed_by_fee''] else [])"

definition redteam_no_market :: "finding \<Rightarrow> verification \<Rightarrow> redteam_result" where
  "redteam_no_market f v = (let fee_adj = finding_edge f v (flit 0.02) in
     rt_result False (early_vetoes f v @ edge_veto fee_adj @ [''market_data_unavailable'']) [] fee_adj
       (flit 0.02) (Fin 0) (Fin 0))"

definition market_vetoes :: "pyfloat \<Rightarrow> pyfloat \<Rightarrow> string list" where
  "market_vetoes spread liq =
     (if fgt spread SPREAD_VETO then [''spread_too_wide''] else []) @
     (if flt liq LIQUIDITY_VETO_USD then [''liquidity_insufficient''] else [])"

definition redteam_market ::
  "book option result \<Rightarrow> finding \<Rightarrow> verification \<Rightarrow> gamma_market \<Rightarrow> redteam_result result" where
  "redteam_market fetched_book f v m = rbind (market_numbers f m) (\<lambda>nums. case nums of
       None \<Rightarrow> Inr (rt_result False (early_vetoes f v @ [''parse_error'']) [] (Fin 0) (flit 0.02) (Fin 0) (Fin 0))
     | Some (spread, liq, vol, fee) \<Rightarrow>
       let warnings = (if flt vol VOLUME_WARN_USD then [''low_volume''] else [])
       in rbind (if token_truthy (action_token f) then fetched_book else Inr None) (\<lambda>bk.
          rbind (book_vetoes bk) (\<lambda>bv.
          let fee_adj = finding_edge f v fee;
              vetoes = early_vetoes f v @ market_vetoes spread liq @ bv @ edge_veto fee_adj
          in Inr (rt_result (vetoes = []) vetoes warnings fee_adj fee spread liq))))"

definition redteam ::
  "gamma_market option result \<Rightarrow> book option result \<Rightarrow> finding \<Rightarrow> verification
     \<Rightarrow> redteam_result result" where
  "redteam fetched fetched_book f v =
    (let fresh = (case fetched of Inl _ \<Rightarrow> None | Inr m \<Rightarrow> m)
     in case (case fresh of None \<Rightarrow> fd_market f | Some m \<Rightarrow> Some m) of
       None \<Rightarrow> Inr (redteam_no_market f v)
     | Some m \<Rightarrow> redteam_market fetched_book f v m)"

section \<open>risk.py\<close>

definition KELLY_FRACTION :: pyfloat where "KELLY_FRACTION = flit 0.25"
definition MIN_POSITION_USD :: pyfloat where "MIN_POSITION_USD = flit 1.25"

definition kelly :: "string \<Rightarrow> pyfloat \<Rightarrow> pyfloat \<Rightarrow> pyfloat \<Rightarrow> pyfloat result" where
  "kelly action fee_adj_edge fresh_ask fresh_bid =
    (let denom = (if action = ''YES'' then fsub (Fin 1) fresh_ask else fresh_bid)
     in if fge denom (flit 0.01) then fdiv fee_adj_edge denom else Inr (Fin 0))"

definition risk_out :: "bool \<Rightarrow> pyfloat \<Rightarrow> pyfloat \<Rightarrow> bool \<Rightarrow> string \<Rightarrow> risk_result" where
  "risk_out p usd k approval reason = \<lparr>rk_pass = p, rk_usd = f_round 2 usd, rk_kelly = f_round 4 k,
     rk_approval = approval, rk_halt = False, rk_reason = reason\<rparr>"

definition risk :: "finding \<Rightarrow> verification \<Rightarrow> redteam_result \<Rightarrow> pyfloat \<Rightarrow> int \<Rightarrow> risk_result result" where
  "risk f v rt bankroll open_positions =
    (if open_positions \<ge> MAX_OPEN_POSITIONS then Inr (risk_out False (Fin 0) (Fin 0) False ''max_open_positions_reached'')
     else if flt (rt_fee_adj rt) MIN_EDGE_PCT then Inr (risk_out False (Fin 0) (Fin 0) False ''edge_below_minimum'')
     else rbind (kelly (fd_action f) (rt_fee_adj rt) (v_ask v) (v_bid v)) (\<lambda>kelly_f.
       if fle kelly_f (Fin 0) then Inr (risk_out False (Fin 0) kelly_f False ''kelly_zero_no_edge'')
       else let capped_f = f_min (fmul kelly_f KELLY_FRACTION) MAX_TRADE_PCT;
                position_usd = f_max (fmul capped_f bankroll) MIN_POSITION_USD
            in Inr (risk_out True position_usd kelly_f (fgt position_usd HUMAN_APPROVAL_USD) [])))"

section \<open>gate.py\<close>

definition EDGE_ZERO :: pyfloat where "EDGE_ZERO = flit 0.04"
definition EDGE_MAX :: pyfloat where "EDGE_MAX = flit 0.06"
definition LIQ_ZERO :: pyfloat where "LIQ_ZERO = Fin 200"
definition LIQ_MAX :: pyfloat where "LIQ_MAX = Fin 1000"
definition TIME_ZERO :: pyfloat where "TIME_ZERO = Fin 130"
definition TIME_MAX :: pyfloat where "TIME_MAX = Fin 200"
definition SPREAD_ZERO :: pyfloat where "SPREAD_ZERO = flit 0.04"
definition SPREAD_MAX :: pyfloat where "SPREAD_MAX = flit 0.01"

definition unit_score :: "pyfloat \<Rightarrow> pyfloat \<Rightarrow> pyfloat result" where
  "unit_score num den = rbind (fdiv num den) (\<lambda>q. Inr (f_min (f_max q (Fin 0)) (Fin 1)))"

definition confidence_score :: "redteam_result \<Rightarrow> verification \<Rightarrow> pyfloat result" where
  "confidence_score rt v =
     rbind (unit_score (fsub (rt_fee_adj rt) EDGE_ZERO) (fsub EDGE_MAX EDGE_ZERO)) (\<lambda>edge_s.
     rbind (unit_score (fsub (rt_liq rt) LIQ_ZERO) (fsub LIQ_MAX LIQ_ZERO)) (\<lambda>liq_s.
     rbind (unit_score (fsub (v_secs v) TIME_ZERO) (fsub TIME_MAX TIME_ZERO)) (\<lambda>time_s.
     rbind (unit_score (fsub SPREAD_ZERO (rt_spread rt)) (fsub SPREAD_ZERO SPREAD_MAX)) (\<lambda>spread_s.
       Inr (f_round 1 (fadd (fadd (fadd (fmul edge_s (Fin 40)) (fmul liq_s (Fin 30)))
         (fmul time_s (Fin 15))) (fmul spread_s (Fin 15))))))))"

definition gate_decide :: "verification \<Rightarrow> redteam_result \<Rightarrow> (bool \<times> pyfloat \<times> string \<times> string) result" where
  "gate_decide v rt = rbind (confidence_score rt v) (\<lambda>score.
     if flt score CONFIDENCE_THRESHOLD then Inr (False, score, ''vetoed'', ''confidence_below_threshold'')
     else Inr (True, score, ''pending'', []))"

definition gate :: "bool \<Rightarrow> verification \<Rightarrow> redteam_result \<Rightarrow> risk_result \<Rightarrow> gate_result result" where
  "gate dry_run v rt rk = rbind (gate_decide v rt) (\<lambda>(p, score, act, reason).
     let out = (\<lambda>p act reason. \<lparr>g_pass = p, g_score = score, g_action = act, g_reason = reason,
           g_fee_adj = rt_fee_adj rt, g_liq = rt_liq rt\<rparr>)
     in if \<not> p then Inr (out p act reason)
        else if rk_approval rk \<and> \<not> dry_run then Inr (out False ''approval_timeout'' ''human_approval_timeout'')
        else Inr (out p ''dry_run_logged'' reason))"

section \<open>Lemmas\<close>

lemma unit_score_bounds:
  assumes "x \<noteq> NaN" "d > 0"
  obtains s where "unit_score x (Fin d) = Inr (Fin s)" "0 \<le> s" "s \<le> 1"
proof -
  obtain q where q: "fdiv x (Fin d) = Inr q" "q \<noteq> NaN"
    using assms by (cases x) auto
  then show thesis
    by (cases q; intro that [of "case q of Fin r \<Rightarrow> min (max r 0) 1 | PInf \<Rightarrow> 1 | _ \<Rightarrow> 0"])
      (auto simp: unit_score_def f_min_def f_max_def)
qed

text \<open>A product or a sum of bounded finite floats is finite and bounded, when the bound is a float.\<close>

lemma mkf_bounded:
  assumes "0 \<le> x" "x \<le> c" "f64 c = c" "\<bar>c\<bar> < f_max_finite"
  obtains r where "mkf x = Fin r" "0 \<le> r" "r \<le> c"
proof -
  have "fle (Fin 0) (mkf x)" by (rule mkf_nonneg [OF assms(1)])
  moreover have "fle (mkf x) (Fin c)" by (rule mkf_le [OF assms(2-4)])
  ultimately show thesis using that by (cases "mkf x") (auto simp: fle_def feq_def)
qed

lemma score_constants: "f64 40 = 40" "f64 30 = 30" "f64 15 = 15" "f64 70 = 70" "f64 85 = 85"
    "f64 100 = 100" "f64 1000 = 1000"
  by code_simp+

lemma score_finite: "(100::rat) < f_max_finite"
  by code_simp

lemma score_sum:
  assumes "0 \<le> a" "a \<le> 1" "0 \<le> b" "b \<le> 1" "0 \<le> c" "c \<le> 1" "0 \<le> d" "d \<le> 1"
  obtains s where "fadd (fadd (fadd (fmul (Fin a) (Fin 40)) (fmul (Fin b) (Fin 30)))
      (fmul (Fin c) (Fin 15))) (fmul (Fin d) (Fin 15)) = Fin s" "0 \<le> s" "s \<le> 100"
proof -
  note bnd = mkf_bounded and K = score_constants score_finite
  obtain a' where a: "mkf (a * 40) = Fin a'" "0 \<le> a'" "a' \<le> 40"
    by (rule bnd [of "a * 40" 40]) (use assms K in auto)
  obtain b' where b: "mkf (b * 30) = Fin b'" "0 \<le> b'" "b' \<le> 30"
    by (rule bnd [of "b * 30" 30]) (use assms K in auto)
  obtain c' where c: "mkf (c * 15) = Fin c'" "0 \<le> c'" "c' \<le> 15"
    by (rule bnd [of "c * 15" 15]) (use assms K in auto)
  obtain d' where d: "mkf (d * 15) = Fin d'" "0 \<le> d'" "d' \<le> 15"
    by (rule bnd [of "d * 15" 15]) (use assms K in auto)
  obtain ab where ab: "mkf (a' + b') = Fin ab" "0 \<le> ab" "ab \<le> 70"
    by (rule bnd [of "a' + b'" 70]) (use a b K in auto)
  obtain abc where abc: "mkf (ab + c') = Fin abc" "0 \<le> abc" "abc \<le> 85"
    by (rule bnd [of "ab + c'" 85]) (use ab c K in auto)
  obtain s where s: "mkf (abc + d') = Fin s" "0 \<le> s" "s \<le> 100"
    by (rule bnd [of "abc + d'" 100]) (use abc d K in auto)
  show thesis by (rule that [of s]) (simp_all add: a b c d ab abc s)
qed

lemma f_round_1_bounds:
  assumes "0 \<le> s" "s \<le> 100"
  shows "fle (Fin 0) (f_round 1 (Fin s))" "fle (f_round 1 (Fin s)) (Fin 100)"
proof -
  have e: "f_round 1 (Fin 0) = Fin 0" "f_round 1 (Fin 100) = Fin 100" by code_simp+
  show "fle (Fin 0) (f_round 1 (Fin s))" "fle (f_round 1 (Fin s)) (Fin 100)"
    using f_round_mono [of "Fin 0" "Fin s" 1] f_round_mono [of "Fin s" "Fin 100" 1] assms
    unfolding e by simp_all
qed

lemma confidence_score_bounds:
  assumes "rt_fee_adj rt \<noteq> NaN" "rt_liq rt \<noteq> NaN" "v_secs v \<noteq> NaN" "rt_spread rt \<noteq> NaN"
  obtains sc where "confidence_score rt v = Inr sc" "fle (Fin 0) sc" "fle sc (Fin 100)"
proof -
  have dens: "fsub EDGE_MAX EDGE_ZERO = Fin (2882303761517117 / 144115188075855872)"
    "fsub LIQ_MAX LIQ_ZERO = Fin 800" "fsub TIME_MAX TIME_ZERO = Fin 70"
    "fsub SPREAD_ZERO SPREAD_MAX = Fin (1080863910568919 / 36028797018963968)"
    by code_simp+
  have n: "fsub (rt_fee_adj rt) EDGE_ZERO \<noteq> NaN" "fsub (rt_liq rt) LIQ_ZERO \<noteq> NaN"
    "fsub (v_secs v) TIME_ZERO \<noteq> NaN" "fsub SPREAD_ZERO (rt_spread rt) \<noteq> NaN"
    using assms by (simp_all add: fsub_not_NaN EDGE_ZERO_def LIQ_ZERO_def TIME_ZERO_def SPREAD_ZERO_def flit_def)
  obtain a where a: "unit_score (fsub (rt_fee_adj rt) EDGE_ZERO) (fsub EDGE_MAX EDGE_ZERO) = Inr (Fin a)" "0 \<le> a" "a \<le> 1"
    unfolding dens by (rule unit_score_bounds [OF n(1)]) auto
  obtain b where b: "unit_score (fsub (rt_liq rt) LIQ_ZERO) (fsub LIQ_MAX LIQ_ZERO) = Inr (Fin b)" "0 \<le> b" "b \<le> 1"
    unfolding dens by (rule unit_score_bounds [OF n(2)]) auto
  obtain c where c: "unit_score (fsub (v_secs v) TIME_ZERO) (fsub TIME_MAX TIME_ZERO) = Inr (Fin c)" "0 \<le> c" "c \<le> 1"
    unfolding dens by (rule unit_score_bounds [OF n(3)]) auto
  obtain d where d: "unit_score (fsub SPREAD_ZERO (rt_spread rt)) (fsub SPREAD_ZERO SPREAD_MAX) = Inr (Fin d)" "0 \<le> d" "d \<le> 1"
    unfolding dens by (rule unit_score_bounds [OF n(4)]) auto
  obtain s where s: "fadd (fadd (fadd (fmul (Fin a) (Fin 40)) (fmul (Fin b) (Fin 30)))
      (fmul (Fin c) (Fin 15))) (fmul (Fin d) (Fin 15)) = Fin s" "0 \<le> s" "s \<le> 100"
    using score_sum a b c d by blast
  have "confidence_score rt v = Inr (f_round 1 (Fin s))"
    using s(1) unfolding confidence_score_def a(1) b(1) c(1) d(1) by simp
  then show thesis using f_round_1_bounds [OF s(2,3)] that by blast
qed

lemma risk_cases:
  assumes "risk f v rt bankroll n = Inr r" "rk_pass r"
  obtains k where "n < MAX_OPEN_POSITIONS" "\<not> flt (rt_fee_adj rt) MIN_EDGE_PCT"
    "kelly (fd_action f) (rt_fee_adj rt) (v_ask v) (v_bid v) = Inr k" "\<not> fle k (Fin 0)"
    "r = (let usd = f_max (fmul (f_min (fmul k KELLY_FRACTION) MAX_TRADE_PCT) bankroll) MIN_POSITION_USD
          in risk_out True usd k (fgt usd HUMAN_APPROVAL_USD) [])"
  using assms by (auto simp: risk_def rbind_eq_Inr risk_out_def Let_def not_le split: if_splits)

lemma kelly_finite_edge: "kelly action (Fin e) ask bid = Inr k \<Longrightarrow> k \<noteq> NaN"
  by (cases "if action = ''YES'' then fsub (Fin 1) ask else bid")
    (auto simp: kelly_def Let_def split: if_splits)

lemma capped_fraction:
  assumes "k \<noteq> NaN" "\<not> fle k (Fin 0)"
  obtains c where "f_min (fmul k KELLY_FRACTION) MAX_TRADE_PCT = Fin c" "0 \<le> c" "c \<le> f64 0.05"
proof -
  have K: "KELLY_FRACTION = Fin (f64 0.25)" "MAX_TRADE_PCT = Fin (f64 0.05)"
    by (simp_all add: KELLY_FRACTION_def MAX_TRADE_PCT_def flit_def)
  have pos: "0 < f64 0.25" "0 < f64 0.05" by code_simp+
  have "fle (Fin 0) (fmul k (Fin (f64 0.25)))"
  proof (cases k)
    case (Fin a)
    then have "0 \<le> a * f64 0.25" using assms(2) pos by simp
    then show ?thesis using Fin by (simp add: mkf_nonneg)
  qed (use assms pos in \<open>auto simp: f_sgn_def fle_def feq_def\<close>)
  then show thesis
    using pos that [of "case fmul k (Fin (f64 0.25)) of Fin a \<Rightarrow> min a (f64 0.05) | _ \<Rightarrow> f64 0.05"]
    unfolding K by (cases "fmul k (Fin (f64 0.25))") (auto simp: f_min_def fle_def feq_def)
qed

section \<open>Properties\<close>

text \<open>A position that the risk layer passes is sized within the limits: fewer positions than the
  maximum are open, the edge after fees reaches the minimum, and the size lies between the floor of
  1.25 dollars and the larger of that floor and the trade fraction of the bankroll (each rounded to
  cents as the result is).\<close>

theorem risk_position_cap:
  assumes "risk f v rt (Fin b) n = Inr r" "rk_pass r" "rt_fee_adj rt = Fin e" "0 \<le> b"
  shows "n < MAX_OPEN_POSITIONS \<and> fle MIN_EDGE_PCT (Fin e) \<and>
    fle (f_round 2 MIN_POSITION_USD) (rk_usd r) \<and>
    fle (rk_usd r) (f_round 2 (f_max (fmul MAX_TRADE_PCT (Fin b)) MIN_POSITION_USD))"
proof -
  obtain k where k: "n < MAX_OPEN_POSITIONS" "\<not> flt (Fin e) MIN_EDGE_PCT"
    "kelly (fd_action f) (Fin e) (v_ask v) (v_bid v) = Inr k" "\<not> fle k (Fin 0)"
    "r = (let usd = f_max (fmul (f_min (fmul k KELLY_FRACTION) MAX_TRADE_PCT) (Fin b)) MIN_POSITION_USD
          in risk_out True usd k (fgt usd HUMAN_APPROVAL_USD) [])"
    using risk_cases [OF assms(1,2)] assms(3) by metis
  have usd: "rk_usd r = f_round 2 (f_max (fmul (f_min (fmul k KELLY_FRACTION) MAX_TRADE_PCT) (Fin b)) MIN_POSITION_USD)"
    by (simp add: k(5) Let_def risk_out_def)
  obtain c where c: "f_min (fmul k KELLY_FRACTION) MAX_TRADE_PCT = Fin c" "0 \<le> c" "c \<le> f64 0.05"
    using capped_fraction [OF kelly_finite_edge [OF k(3)] k(4)] by blast
  have le: "fle (fmul (Fin c) (Fin b)) (fmul MAX_TRADE_PCT (Fin b))"
    unfolding MAX_TRADE_PCT_def flit_def by (rule fmul_Fin_mono [OF c(3) assms(4)])
  have nn: "fmul (Fin c) (Fin b) \<noteq> NaN" "MIN_POSITION_USD \<noteq> NaN" by (simp_all add: MIN_POSITION_USD_def)
  have "fle MIN_EDGE_PCT (Fin e)" using k(2) not_flt [of "Fin e" MIN_EDGE_PCT] by (simp add: MIN_EDGE_PCT_def)
  moreover have "fle (f_round 2 MIN_POSITION_USD) (rk_usd r)"
    unfolding usd c(1) using f_max_ge [OF nn] by (simp only: f_round_mono)
  moreover have "fle (rk_usd r) (f_round 2 (f_max (fmul MAX_TRADE_PCT (Fin b)) MIN_POSITION_USD))"
    unfolding usd c(1) by (intro f_round_mono f_max_mono le nn)
  ultimately show ?thesis using k(1) by blast
qed

definition sample_finding :: finding where
  "sample_finding = \<lparr>fd_asset = ''BTC'', fd_action = ''YES'', fd_slug = ''btc-updown'', fd_yes_tok = Some ''t1'',
     fd_no_tok = Some ''t2'', fd_fair = Some (Fin (3/4)), fd_ref = Some (Fin 100), fd_edge = Some (Fin (1/8)),
     fd_cur = Fin 100, fd_ask = Fin (1/2), fd_bid = Fin (15/32), fd_secs = Fin 180, fd_no_ask = None,
     fd_basis = None, fd_funding = None, fd_fee = Some (Fin (1/64)), fd_market = None\<rparr>"

definition sample_verification :: verification where
  "sample_verification = \<lparr>v_pass = True, v_reason = ''ok'', v_halt = False, v_cur = Fin 100,
     v_ask = Fin (1/2), v_bid = Fin (15/32), v_fair = Fin (3/4), v_edge = Fin (1/8), v_secs = Fin 180,
     v_drift = Fin 0, v_error = None\<rparr>"

definition sample_market :: gamma_market where
  "sample_market = \<lparr>gm_spread = PFloat (Fin (1/64)), gm_liquidity = PStr ''900'',
     gm_volume = PInt 1000, gm_fee = PInt 1000\<rparr>"

definition sample_redteam :: redteam_result where
  "sample_redteam = rt_result True [] [] (Fin (3/16)) (Fin (1/64)) (Fin (1/64)) (Fin 900)"

lemma risk_position_cap_witness:
  "\<exists>r e. risk sample_finding sample_verification sample_redteam (Fin 100) 0 = Inr r \<and> rk_pass r \<and>
     0 < MAX_OPEN_POSITIONS \<and> fle MIN_EDGE_PCT (Fin e) \<and>
     fle (rk_usd r) (f_round 2 (f_max (fmul MAX_TRADE_PCT (Fin 100)) MIN_POSITION_USD))"
proof -
  have "case risk sample_finding sample_verification sample_redteam (Fin 100) 0 of
      Inr r \<Rightarrow> rk_pass r | _ \<Rightarrow> False" by code_simp
  then obtain r where r: "risk sample_finding sample_verification sample_redteam (Fin 100) 0 = Inr r" "rk_pass r"
    by (auto split: sum.splits)
  have "isfinite (rt_fee_adj sample_redteam)" by code_simp
  then obtain e where "rt_fee_adj sample_redteam = Fin e" by (auto simp: isfinite_def split: pyfloat.splits)
  then show ?thesis using risk_position_cap [OF r] r by auto
qed

text \<open>The confidence score of the gate is total and lies between 0 and 100 when its four inputs are
  numbers; the gate passes exactly on a score of at least the threshold, and never (outside a dry run)
  when human approval is required.\<close>

theorem gate_pass_iff:
  assumes "rt_fee_adj rt \<noteq> NaN" "rt_liq rt \<noteq> NaN" "v_secs v \<noteq> NaN" "rt_spread rt \<noteq> NaN"
  shows "\<exists>g. gate dry_run v rt rk = Inr g \<and> fle (Fin 0) (g_score g) \<and> fle (g_score g) (Fin 100) \<and>
    (g_pass g \<longleftrightarrow> fle CONFIDENCE_THRESHOLD (g_score g) \<and> (dry_run \<or> \<not> rk_approval rk))"
proof -
  obtain sc where sc: "confidence_score rt v = Inr sc" "fle (Fin 0) sc" "fle sc (Fin 100)"
    using confidence_score_bounds [OF assms] by blast
  have "sc \<noteq> NaN" using sc(2) by auto
  then have "\<not> flt sc CONFIDENCE_THRESHOLD \<longleftrightarrow> fle CONFIDENCE_THRESHOLD sc"
    by (simp add: not_flt CONFIDENCE_THRESHOLD_def)
  then show ?thesis using sc by (auto simp: gate_def gate_decide_def Let_def)
qed

lemma gate_pass_iff_witness:
  "\<exists>g. gate False sample_verification sample_redteam
       (risk_out True (Fin 60) (flit 0.3) True []) = Inr g \<and> \<not> g_pass g"
proof -
  have "rt_fee_adj sample_redteam \<noteq> NaN" "rt_liq sample_redteam \<noteq> NaN"
    "v_secs sample_verification \<noteq> NaN" "rt_spread sample_redteam \<noteq> NaN" by code_simp+
  from gate_pass_iff [OF this, of False "risk_out True (Fin 60) (flit 0.3) True []"] show ?thesis
    by (auto simp: risk_out_def)
qed

text \<open>What the red team lets through has no veto: market data was available, the edge is plausible
  and survives the fee, there is time left, basis and funding are within their limits, and spread and
  liquidity are acceptable.\<close>

theorem redteam_pass_sound:
  assumes "redteam fetched fetched_book f v = Inr r" "rt_pass r"
  shows "\<exists>m spread liq vol fee. market_numbers f m = Inr (Some (spread, liq, vol, fee)) \<and>
      (fetched = Inr (Some m) \<or> fd_market f = Some m) \<and>
      \<not> fgt spread SPREAD_VETO \<and> \<not> flt liq LIQUIDITY_VETO_USD \<and>
      \<not> flt (finding_edge f v fee) MIN_EDGE_PCT \<and> \<not> fgt (v_edge v) EDGE_SANITY_MAX \<and>
      \<not> flt (v_secs v) MIN_THESIS_SECS \<and>
      (\<forall>b. fd_basis f = Some b \<longrightarrow> \<not> fgt (f_abs b) BASIS_VETO_PCT) \<and>
      (\<forall>x. fd_funding f = Some x \<longrightarrow> \<not> fgt (f_abs x) FUNDING_RATE_VETO)"
proof -
  obtain m where m: "redteam_market fetched_book f v m = Inr r" "fetched = Inr (Some m) \<or> fd_market f = Some m"
    using assms by (auto simp: redteam_def redteam_no_market_def Let_def rt_result_def
        split: option.splits sum.splits)
  then obtain spread liq vol fee where n: "market_numbers f m = Inr (Some (spread, liq, vol, fee))"
    and e: "early_vetoes f v = []" "market_vetoes spread liq = []" "edge_veto (finding_edge f v fee) = []"
    using assms(2) by (auto simp: redteam_market_def rbind_eq_Inr rt_result_def Let_def split: option.splits)
  show ?thesis
    by (intro exI [of _ m] exI [of _ spread] exI [of _ liq] exI [of _ vol] exI [of _ fee])
      (use e n m(2) in \<open>auto simp: early_vetoes_def market_vetoes_def edge_veto_def
        split: option.splits if_splits\<close>)
qed

lemma redteam_pass_sound_witness:
  "\<exists>r. redteam (Inr (Some sample_market)) (Inr None) sample_finding sample_verification = Inr r \<and> rt_pass r \<and>
     \<not> flt (v_secs sample_verification) MIN_THESIS_SECS"
proof -
  have "market_numbers sample_finding sample_market = Inr (Some (Fin (1/64), Fin 900, Fin 1000, Fin (1/64)))"
    "early_vetoes sample_finding sample_verification = []" "market_vetoes (Fin (1/64)) (Fin 900) = []"
    "edge_veto (finding_edge sample_finding sample_verification (Fin (1/64))) = []"
    by code_simp+
  then obtain r where r: "redteam (Inr (Some sample_market)) (Inr None) sample_finding sample_verification = Inr r"
    "rt_pass r"
    by (simp add: redteam_def redteam_market_def Let_def rt_result_def book_vetoes_def)
  then show ?thesis using redteam_pass_sound [OF r] by blast
qed

end
