(* ===== verification/RiskState.thy ===== *)
theory RiskState
  imports Json
begin

text \<open>
  \<open>monitor/risk_state.py\<close>: the reducer from active blockers to the risk mode, and the bridge from the
  runtime signals to blockers. The modes are linearly ordered by their priority. Blockers come out of
  a stored JSON document, so their elements are any JSON value.
\<close>

section \<open>Modes\<close>

datatype risk_mode = Operational | Cooldown | ExitOnly | Halted | KillSwitch

fun mode_priority :: "risk_mode \<Rightarrow> nat" where
  "mode_priority Operational = 0"
| "mode_priority Cooldown = 1"
| "mode_priority ExitOnly = 2"
| "mode_priority Halted = 3"
| "mode_priority KillSwitch = 4"

fun mode_text :: "risk_mode \<Rightarrow> string" where
  "mode_text Operational = ''Operational''"
| "mode_text Cooldown = ''Cooldown''"
| "mode_text ExitOnly = ''Exit-Only''"
| "mode_text Halted = ''Halted''"
| "mode_text KillSwitch = ''Kill-Switch''"

lemma mode_priority_inj: "mode_priority a = mode_priority b \<Longrightarrow> a = b"
  by (cases a; cases b) simp_all

lemma mode_text_inj [simp]: "mode_text a = mode_text b \<longleftrightarrow> a = b"
  by (cases a; cases b) simp_all

instantiation risk_mode :: linorder
begin

definition less_eq_risk_mode :: "risk_mode \<Rightarrow> risk_mode \<Rightarrow> bool" where
  "less_eq_risk_mode a b = (mode_priority a \<le> mode_priority b)"

definition less_risk_mode :: "risk_mode \<Rightarrow> risk_mode \<Rightarrow> bool" where
  "less_risk_mode a b = (mode_priority a < mode_priority b)"

instance
  by standard (auto simp: less_eq_risk_mode_def less_risk_mode_def intro: mode_priority_inj)

end

lemma Operational_le [simp]: "Operational \<le> m"
  by (simp add: less_eq_risk_mode_def)

lemma le_KillSwitch [simp]: "m \<le> KillSwitch"
  by (cases m) (simp_all add: less_eq_risk_mode_def)

definition blocker_mode :: "string \<Rightarrow> risk_mode option" where
  "blocker_mode s = map_of [(''kill_switch'', KillSwitch), (''halted'', Halted), (''manual_review'', Halted),
     (''daily_loss'', ExitOnly), (''cooldown'', Cooldown)] s"

text \<open>A list or dict is not hashable: looking it up raises \<open>TypeError\<close>.\<close>

fun reduce_from :: "risk_mode \<Rightarrow> json list \<Rightarrow> risk_mode result" where
  "reduce_from eff [] = Inr eff"
| "reduce_from eff (b # bs) = (case b of
     JVal (PStr s) \<Rightarrow> (case blocker_mode s of
        None \<Rightarrow> Inl ValueError
      | Some m \<Rightarrow> reduce_from (if m > eff then m else eff) bs)
   | JVal _ \<Rightarrow> Inl ValueError
   | _ \<Rightarrow> Inl TypeError)"

definition reduce_risk_mode :: "json list \<Rightarrow> risk_mode result" where
  "reduce_risk_mode bs = reduce_from Operational bs"

definition CANONICAL_ORDER :: "string list" where
  "CANONICAL_ORDER = [''kill_switch'', ''manual_review'', ''halted'', ''daily_loss'', ''cooldown'']"

definition INACTIVE_STATUSES :: "string option list" where
  "INACTIVE_STATUSES = [None, Some [], Some ''ok'', Some ''continue'', Some ''no_stop'']"

definition daily_blockers :: "string option \<Rightarrow> string list result" where
  "daily_blockers s = (if s \<in> set INACTIVE_STATUSES then Inr []
     else if s = Some ''daily_loss_stop'' then Inr [''daily_loss''] else Inl ValueError)"

definition circuit_blockers :: "string option \<Rightarrow> string list result" where
  "circuit_blockers s = (if s \<in> set INACTIVE_STATUSES then Inr []
     else if s = Some ''soft_stop'' then Inr [''cooldown'']
     else if s = Some ''hard_stop'' then Inr [''halted''] else Inl ValueError)"

definition build_active_blockers ::
  "string option \<Rightarrow> string option \<Rightarrow> bool \<Rightarrow> bool \<Rightarrow> string list result" where
  "build_active_blockers daily_loss_status circuit_breaker_status kill_switch_active manual_review_required =
     rbind (daily_blockers daily_loss_status) (\<lambda>d. rbind (circuit_blockers circuit_breaker_status) (\<lambda>c.
       let active = d @ c @ (if kill_switch_active then [''kill_switch''] else []) @
             (if manual_review_required then [''manual_review''] else [])
       in Inr (filter (\<lambda>b. b \<in> set active) CANONICAL_ORDER)))"

section \<open>Lemmas\<close>

lemma blocker_mode_canonical: "blocker_mode s \<noteq> None \<longleftrightarrow> s \<in> set CANONICAL_ORDER"
  by (auto simp: blocker_mode_def CANONICAL_ORDER_def split: if_splits)

definition modes_of :: "string list \<Rightarrow> risk_mode set" where
  "modes_of bs = insert Operational {m. \<exists>b \<in> set bs. blocker_mode b = Some m}"

lemma finite_modes [simp]: "finite (modes_of bs)"
proof -
  have "modes_of bs \<subseteq> insert Operational ((\<lambda>b. the (blocker_mode b)) ` set bs)"
    by (force simp: modes_of_def)
  then show ?thesis by (rule finite_subset) simp
qed

lemma reduce_from_max:
  "reduce_from eff (map jstr bs) =
     (if set bs \<subseteq> set CANONICAL_ORDER then Inr (Max (insert eff (modes_of bs))) else Inl ValueError)"
proof (induction bs arbitrary: eff)
  case Nil
  have "Max {eff, Operational} = eff" by (auto simp: max_def intro: antisym)
  then show ?case by (simp add: modes_of_def)
next
  case (Cons b bs)
  show ?case
  proof (cases "blocker_mode b")
    case None
    then have "b \<notin> set CANONICAL_ORDER" using blocker_mode_canonical [of b] by simp
    then show ?thesis using None by (simp add: jstr_def)
  next
    case (Some m)
    then have b: "b \<in> set CANONICAL_ORDER" using blocker_mode_canonical [of b] by simp
    have mo: "modes_of (b # bs) = insert m (modes_of bs)" using Some by (auto simp: modes_of_def)
    have ne: "modes_of bs \<noteq> {}" by (simp add: modes_of_def)
    have "Max (insert (if m > eff then m else eff) (modes_of bs)) = Max (insert eff (insert m (modes_of bs)))"
    proof -
      have "(if m > eff then m else eff) = max eff m" by (auto simp: max_def)
      then show ?thesis using ne by (simp add: max.assoc)
    qed
    then show ?thesis using Some b mo Cons.IH [of "if m > eff then m else eff"] by (simp add: jstr_def)
  qed
qed

lemma canonical_distinct: "distinct CANONICAL_ORDER"
  by (simp add: CANONICAL_ORDER_def)

lemma build_subset: "build_active_blockers d c k m = Inr bs \<Longrightarrow> set bs \<subseteq> set CANONICAL_ORDER \<and> distinct bs"
  by (auto simp: build_active_blockers_def rbind_eq_Inr Let_def canonical_distinct)

lemma blockers_reduce_lemma:
  assumes "build_active_blockers daily circuit kill review = Inr bs"
  shows "\<exists>m. reduce_risk_mode (map jstr bs) = Inr m \<and> distinct bs \<and>
    (kill \<longleftrightarrow> m = KillSwitch) \<and> (review \<or> circuit = Some ''hard_stop'' \<longrightarrow> Halted \<le> m) \<and>
    (daily = Some ''daily_loss_stop'' \<longrightarrow> ExitOnly \<le> m) \<and> (m = Operational \<longleftrightarrow> bs = [])"
proof -
  obtain d c where dc: "daily_blockers daily = Inr d" "circuit_blockers circuit = Inr c"
    and bs: "bs = filter (\<lambda>b. b \<in> set (d @ c @ (if kill then [''kill_switch''] else []) @
      (if review then [''manual_review''] else []))) CANONICAL_ORDER"
    using assms by (auto simp: build_active_blockers_def rbind_eq_Inr Let_def)
  define D where "D \<longleftrightarrow> daily = Some ''daily_loss_stop''"
  define H where "H \<longleftrightarrow> circuit = Some ''hard_stop''"
  have d: "d = (if D then [''daily_loss''] else [])"
    using dc(1) by (auto simp: D_def daily_blockers_def INACTIVE_STATUSES_def split: if_splits)
  define S where "S \<longleftrightarrow> circuit = Some ''soft_stop''"
  have c: "c = (if H then [''halted''] else if S then [''cooldown''] else [])"
    using dc(2) by (auto simp: H_def S_def circuit_blockers_def INACTIVE_STATUSES_def split: if_splits)
  have "\<exists>m. reduce_risk_mode (map jstr bs) = Inr m \<and> distinct bs \<and> (kill \<longleftrightarrow> m = KillSwitch) \<and>
      (review \<or> H \<longrightarrow> Halted \<le> m) \<and> (D \<longrightarrow> ExitOnly \<le> m) \<and> (m = Operational \<longleftrightarrow> bs = [])"
    unfolding bs d c
    by (cases kill; cases review; cases H; cases S; cases D)
      (simp_all add: CANONICAL_ORDER_def reduce_risk_mode_def blocker_mode_def jstr_def
        less_risk_mode_def less_eq_risk_mode_def)
  then show ?thesis by (simp add: D_def H_def)
qed

lemma reduce_from_ge: "reduce_from eff bs = Inr m \<Longrightarrow> eff \<le> m"
proof (induction bs arbitrary: eff)
  case (Cons b bs)
  then show ?case by (force split: json.splits pyval.splits option.splits if_splits)
qed simp

lemma reduce_operational_iff: "reduce_risk_mode bs = Inr m \<Longrightarrow> m = Operational \<longleftrightarrow> bs = []"
proof (cases bs)
  case (Cons b rest)
  assume "reduce_risk_mode bs = Inr m"
  then obtain k where "k \<noteq> Operational" "k \<le> m"
    using Cons by (auto simp: reduce_risk_mode_def blocker_mode_def less_risk_mode_def dest!: reduce_from_ge
        split: json.splits pyval.splits option.splits if_splits)
  then have "m \<noteq> Operational" by (cases k) (auto simp: less_eq_risk_mode_def)
  then show ?thesis using Cons by simp
qed (simp add: reduce_risk_mode_def)

section \<open>Properties\<close>

text \<open>The reducer computes the highest mode among its blockers (\<open>Operational\<close> for none) and rejects
  exactly the lists with an unknown name; so order and repetition do not matter and adding a blocker
  never lowers the mode.\<close>

theorem reduce_is_max:
  "reduce_risk_mode (map jstr bs) =
     (if set bs \<subseteq> set CANONICAL_ORDER then Inr (Max (modes_of bs)) else Inl ValueError) \<and>
   (\<forall>cs. set cs = set bs \<longrightarrow> reduce_risk_mode (map jstr cs) = reduce_risk_mode (map jstr bs)) \<and>
   (\<forall>cs m m'. set bs \<subseteq> set cs \<and> reduce_risk_mode (map jstr bs) = Inr m \<and>
      reduce_risk_mode (map jstr cs) = Inr m' \<longrightarrow> m \<le> m')"
proof -
  have r: "reduce_risk_mode (map jstr xs) =
      (if set xs \<subseteq> set CANONICAL_ORDER then Inr (Max (modes_of xs)) else Inl ValueError)" for xs
    by (simp add: reduce_risk_mode_def reduce_from_max modes_of_def)
  have eq: "modes_of xs = modes_of ys" if "set xs = set ys" for xs ys using that by (simp add: modes_of_def)
  have mono: "Max (modes_of xs) \<le> Max (modes_of ys)" if "set xs \<subseteq> set ys" for xs ys
    by (rule Max_mono [OF _ _ finite_modes]) (use that in \<open>auto simp: modes_of_def\<close>)
  have "reduce_risk_mode (map jstr cs) = reduce_risk_mode (map jstr bs)" if "set cs = set bs" for cs
    unfolding r using that eq [OF that] by simp
  moreover have "m \<le> m'" if "set bs \<subseteq> set cs" "reduce_risk_mode (map jstr bs) = Inr m"
      "reduce_risk_mode (map jstr cs) = Inr m'" for cs m m'
    using that(2,3) mono [OF that(1)] unfolding r by (simp split: if_splits)
  ultimately show ?thesis using r [of bs] by blast
qed

lemma reduce_is_max_witness:
  "reduce_risk_mode (map jstr [''cooldown'', ''kill_switch'', ''cooldown'']) =
   reduce_risk_mode (map jstr [''kill_switch'', ''cooldown''])"
proof -
  have "set [''cooldown'', ''kill_switch'', ''cooldown''] = set [''kill_switch'', ''cooldown'']" by auto
  then show ?thesis using reduce_is_max [of "[''kill_switch'', ''cooldown'']"] by blast
qed

text \<open>The bridge and the reducer fit: whatever signals the bridge accepts, its blockers are distinct and
  accepted by the reducer; a kill switch yields the top mode, a manual review or a hard stop at least
  \<open>Halted\<close>, a daily loss stop at least \<open>Exit-Only\<close>, and only the silence of all signals \<open>Operational\<close>.\<close>

theorem blockers_reduce:
  assumes "build_active_blockers daily circuit kill review = Inr bs"
  shows "\<exists>m. reduce_risk_mode (map jstr bs) = Inr m \<and> distinct bs \<and>
    (kill \<longleftrightarrow> m = KillSwitch) \<and> (review \<or> circuit = Some ''hard_stop'' \<longrightarrow> Halted \<le> m) \<and>
    (daily = Some ''daily_loss_stop'' \<longrightarrow> ExitOnly \<le> m) \<and> (m = Operational \<longleftrightarrow> bs = [])"
  using assms by (rule blockers_reduce_lemma)

lemma blockers_reduce_witness:
  "\<exists>bs m. build_active_blockers (Some ''daily_loss_stop'') (Some ''soft_stop'') False True = Inr bs \<and>
     reduce_risk_mode (map jstr bs) = Inr m \<and> Halted \<le> m"
proof -
  have "build_active_blockers (Some ''daily_loss_stop'') (Some ''soft_stop'') False True =
      Inr [''manual_review'', ''daily_loss'', ''cooldown'']" by code_simp
  from blockers_reduce [OF this] this show ?thesis by blast
qed

end
