(* ===== verification/RiskStore.thy ===== *)
theory RiskStore
  imports RiskState
begin

text \<open>
  \<open>monitor/risk_state_store.py\<close>: the persisted risk state, one JSON document in a singleton row. A
  snapshot's fields are JSON values, since \<open>load_risk_state\<close> takes them from the document as they are.
  The row holds a text; it is modelled by what \<open>json.loads\<close> makes of it, an error or a document. On JSON
  values \<open>json.dumps\<close> does not fail, and \<open>json.loads\<close> reads back what it wrote: texts are escaped, integers
  exact, floats written by \<open>repr\<close> (\<open>float_repr_roundtrip\<close>), NaN and the infinities as literals the decoder
  knows. So writing a snapshot stores its document, and the text itself is not modelled; that what is saved
  is read back is a fact about the row and the field names, not about the encoding.
  The interface \<open>snapshot_store\<close> states what the users of the store rely on.
\<close>

section \<open>Snapshots\<close>

record risk_snapshot =
  rs_day :: json
  rs_equity :: json
  rs_pnl :: json
  rs_blockers :: "json list"
  rs_mode :: json
  rs_updated :: json
  rs_schema :: json
  rs_by :: json
  rs_reason :: json

definition jnone :: json where "jnone = JVal PNone"

definition SCHEMA_VERSION :: pyval where "SCHEMA_VERSION = PInt 1"

definition snapshot_dict :: "risk_snapshot \<Rightarrow> (string \<times> json) list" where
  "snapshot_dict s = [(''trading_day_utc'', rs_day s), (''start_of_day_equity'', rs_equity s),
     (''realized_pnl_today'', rs_pnl s), (''active_blockers'', JList (rs_blockers s)),
     (''effective_mode'', rs_mode s), (''updated_at_utc'', rs_updated s),
     (''schema_version'', rs_schema s), (''bootstrap_approved_by'', rs_by s),
     (''bootstrap_reason'', rs_reason s)]"

definition REQUIRED_FIELDS :: "string list" where
  "REQUIRED_FIELDS = [''trading_day_utc'', ''start_of_day_equity'', ''realized_pnl_today'',
     ''active_blockers'', ''effective_mode'', ''updated_at_utc'', ''schema_version'']"

definition field :: "(string \<times> json) list \<Rightarrow> string \<Rightarrow> json" where
  "field d k = (case map_of d k of None \<Rightarrow> jnone | Some v \<Rightarrow> v)"

definition validate :: "(string \<times> json) list \<Rightarrow> unit result" where
  "validate d =
    (if \<not> list_all (\<lambda>f. map_of d f \<noteq> None) REQUIRED_FIELDS then Inl RiskStateCorruptError
     else if \<not> (case field d ''schema_version'' of JVal v \<Rightarrow> py_eq v SCHEMA_VERSION | _ \<Rightarrow> False)
       then Inl RiskStateCorruptError
     else case field d ''active_blockers'' of
       JList bs \<Rightarrow>
         (case reduce_risk_mode bs of
            Inl ValueError \<Rightarrow> Inl RiskStateCorruptError
          | Inl e \<Rightarrow> Inl e
          | Inr m \<Rightarrow> if field d ''effective_mode'' = jstr (mode_text m) then Inr () else Inl RiskStateCorruptError)
     | _ \<Rightarrow> Inl RiskStateCorruptError)"

definition list_of :: "json \<Rightarrow> json list" where
  "list_of j = (case j of JList xs \<Rightarrow> xs | _ \<Rightarrow> [])"

definition snapshot_of :: "(string \<times> json) list \<Rightarrow> risk_snapshot" where
  "snapshot_of d = \<lparr>rs_day = field d ''trading_day_utc'', rs_equity = field d ''start_of_day_equity'',
     rs_pnl = field d ''realized_pnl_today'', rs_blockers = list_of (field d ''active_blockers''),
     rs_mode = field d ''effective_mode'', rs_updated = field d ''updated_at_utc'',
     rs_schema = field d ''schema_version'', rs_by = field d ''bootstrap_approved_by'',
     rs_reason = field d ''bootstrap_reason''\<rparr>"

section \<open>The store\<close>

datatype payload = Garbage string | Doc json

datatype risk_db = NoTable | Table "payload option"

datatype store_fault = StoreOk | StoreReadFails | StoreWriteFails

definition init_risk_state_store :: "store_fault \<Rightarrow> risk_db \<Rightarrow> unit result \<times> risk_db" where
  "init_risk_state_store flt' d = (if flt' \<noteq> StoreOk then (Inl DbError, d)
     else (Inr (), case d of NoTable \<Rightarrow> Table None | _ \<Rightarrow> d))"

definition save_risk_state :: "store_fault \<Rightarrow> risk_snapshot \<Rightarrow> risk_db \<Rightarrow> unit result \<times> risk_db" where
  "save_risk_state flt' s d = (case validate (snapshot_dict s) of
       Inl e \<Rightarrow> (Inl e, d)
     | Inr _ \<Rightarrow> if flt' = StoreWriteFails \<or> d = NoTable then (Inl DbError, d)
         else (Inr (), Table (Some (Doc (JObj (snapshot_dict s))))))"

definition load_risk_state :: "store_fault \<Rightarrow> risk_db \<Rightarrow> risk_snapshot result" where
  "load_risk_state flt' d = (if flt' = StoreReadFails then Inl DbError else case d of
       NoTable \<Rightarrow> Inl DbError
     | Table None \<Rightarrow> Inl RiskStateCorruptError
     | Table (Some (Garbage _)) \<Rightarrow> Inl RiskStateCorruptError
     | Table (Some (Doc (JObj doc))) \<Rightarrow> rbind (validate doc) (\<lambda>_. Inr (snapshot_of doc))
     | Table (Some (Doc _)) \<Rightarrow> Inl RiskStateCorruptError)"

definition is_text :: "json \<Rightarrow> bool" where
  "is_text j = (case j of JVal (PStr s) \<Rightarrow> py_strip s \<noteq> [] | _ \<Rightarrow> False)"

text \<open>\<open>isinstance(x, (int, float))\<close> without \<open>bool\<close>, and \<open>x > 0\<close> (a NaN is not \<open><= 0\<close>).\<close>

definition positive_number :: "json \<Rightarrow> bool" where
  "positive_number j = (case j of JVal (PInt i) \<Rightarrow> \<not> i \<le> 0 | JVal (PFloat x) \<Rightarrow> \<not> fle x (Fin 0) | _ \<Rightarrow> False)"

definition initialize_day_zero_state ::
  "store_fault \<Rightarrow> json \<Rightarrow> json \<Rightarrow> json \<Rightarrow> json \<Rightarrow> json \<Rightarrow> risk_db \<Rightarrow> risk_snapshot result \<times> risk_db" where
  "initialize_day_zero_state flt' day equity updated approved_by reason d =
    (if \<not> positive_number equity then (Inl ValueError, d)
     else if \<not> (is_text day \<and> is_text updated \<and> is_text approved_by \<and> is_text reason) then (Inl ValueError, d)
     else if flt' = StoreReadFails \<or> d = NoTable then (Inl DbError, d)
     else if d \<noteq> Table None then
       (case load_risk_state flt' d of Inl e \<Rightarrow> (Inl e, d) | Inr _ \<Rightarrow> (Inl ValueError, d))
     else case float_of_json equity of Inl e \<Rightarrow> (Inl e, d)
       | Inr x \<Rightarrow>
         let snap = \<lparr>rs_day = day, rs_equity = JVal (PFloat x), rs_pnl = JVal (PFloat (Fin 0)),
               rs_blockers = [], rs_mode = jstr (mode_text Operational), rs_updated = updated,
               rs_schema = JVal SCHEMA_VERSION, rs_by = approved_by, rs_reason = reason\<rparr>
         in (case save_risk_state flt' snap d of
              (Inl e, d') \<Rightarrow> (Inl e, d') | (Inr _, d') \<Rightarrow> (Inr snap, d')))"

section \<open>Days\<close>

text \<open>\<open>strptime(value, "%Y-%m-%d")\<close>: four digits of a year, one or two of month and day (a day may be
  padded with a space), and a day that exists.\<close>

definition two_digit :: "nat \<Rightarrow> nat \<Rightarrow> string \<Rightarrow> int option" where
  "two_digit lo hi s = (if s \<noteq> [] \<and> length s \<le> 2 \<and> list_all is_digit s \<and>
      int lo \<le> digits_val s \<and> digits_val s \<le> int hi then Some (digits_val s) else None)"

definition leap_year :: "int \<Rightarrow> bool" where
  "leap_year y = (y mod 4 = 0 \<and> (y mod 100 \<noteq> 0 \<or> y mod 400 = 0))"

definition days_in_month :: "int \<Rightarrow> int \<Rightarrow> int" where
  "days_in_month y m = (if m = 2 then (if leap_year y then 29 else 28)
     else if m \<in> {4, 6, 9, 11} then 30 else 31)"

definition iso_day :: "string \<Rightarrow> (int \<times> int \<times> int) option" where
  "iso_day s =
    (let y = take 4 s; r1 = drop 4 s; m = takeWhile (\<lambda>c. c \<noteq> CHR ''-'') (drop 1 r1);
         r2 = drop (1 + length m) r1; dd = drop 1 r2;
         dd' = (case dd of c # cs \<Rightarrow> if c = CHR '' '' \<and> length cs = 1 then cs else dd | [] \<Rightarrow> dd)
     in if length y = 4 \<and> list_all is_digit y \<and> take 1 r1 = ''-'' \<and> take 1 r2 = ''-'' then
          (case (two_digit 1 12 m, two_digit 1 31 dd') of
             (Some mm, Some d) \<Rightarrow> if 1 \<le> digits_val y \<and> d \<le> days_in_month (digits_val y) mm
                then Some (digits_val y, mm, d) else None
           | _ \<Rightarrow> None)
        else None)"

definition require_iso_date :: "json \<Rightarrow> string result" where
  "require_iso_date j = (case j of
     JVal (PStr s) \<Rightarrow> if py_strip s = [] then Inl ValueError
       else if iso_day s = None then Inl ValueError else Inr s
   | _ \<Rightarrow> Inl ValueError)"

text \<open>String comparison is lexicographic by code point.\<close>

fun str_less :: "string \<Rightarrow> string \<Rightarrow> bool" where
  "str_less s [] = False"
| "str_less [] (d # ds) = True"
| "str_less (c # cs) (d # ds) =
     ((of_char c :: nat) < of_char d \<or> c = d \<and> str_less cs ds)"

definition rollover_risk_state_if_new_day ::
  "risk_snapshot \<Rightarrow> json \<Rightarrow> json \<Rightarrow> json \<Rightarrow> risk_snapshot result" where
  "rollover_risk_state_if_new_day s day new_equity updated =
    (if \<not> positive_number new_equity then Inl ValueError
     else if \<not> is_text updated then Inl ValueError
     else rbind (require_iso_date day) (\<lambda>cur. rbind (require_iso_date (rs_day s)) (\<lambda>old.
       if str_less cur old then Inl ValueError
       else if cur = old then Inr s
       else let new_blockers = filter (\<lambda>b. b \<noteq> jstr ''daily_loss'') (rs_blockers s)
         in rbind (float_of_json new_equity) (\<lambda>x. rbind (reduce_risk_mode new_blockers) (\<lambda>m.
           Inr (s\<lparr>rs_day := day, rs_equity := JVal (PFloat x), rs_pnl := JVal (PFloat (Fin 0)),
             rs_blockers := new_blockers, rs_mode := jstr (mode_text m), rs_updated := updated\<rparr>))))))"

section \<open>The interface of the store\<close>

locale snapshot_store =
  fixes save :: "'s \<Rightarrow> 'd \<Rightarrow> 'd option"
    and load :: "'d \<Rightarrow> 's option"
    and valid :: "'s \<Rightarrow> bool"
  assumes load_save: "save s d = Some d' \<Longrightarrow> load d' = Some s"
    and save_valid: "save s d = Some d' \<Longrightarrow> valid s"
    and load_valid: "load d = Some s \<Longrightarrow> valid s"
begin

text \<open>A user that loads, computes and saves back; one that saves only a change.\<close>

definition modify :: "('s \<Rightarrow> 's) \<Rightarrow> 'd \<Rightarrow> 'd option" where
  "modify f d = (case load d of None \<Rightarrow> None | Some s \<Rightarrow> save (f s) d)"

definition save_if_changed :: "('s \<Rightarrow> 's \<Rightarrow> bool) \<Rightarrow> 's \<Rightarrow> 'd \<Rightarrow> ('s \<times> 'd) option" where
  "save_if_changed same s d = (case load d of None \<Rightarrow> None
     | Some old \<Rightarrow> if same s old then Some (old, d) else map_option (Pair s) (save s d))"

lemma load_modify: "modify f d = Some d' \<Longrightarrow> \<exists>s. load d = Some s \<and> load d' = Some (f s)"
  by (auto simp: modify_def dest: load_save split: option.splits)

lemma save_if_changed_load: "save_if_changed same s d = Some (r, d') \<Longrightarrow> load d' = Some r \<and> valid r"
  by (auto simp: save_if_changed_def dest: load_save load_valid split: option.splits if_splits)

lemma save_if_changed_missing: "load d = None \<Longrightarrow> save_if_changed same s d = None"
  by (simp add: save_if_changed_def)

end

definition valid_snapshot :: "risk_snapshot \<Rightarrow> bool" where
  "valid_snapshot s = (validate (snapshot_dict s) = Inr ())"

lemma snapshot_of_dict [simp]: "snapshot_of (snapshot_dict s) = s"
  by (simp add: snapshot_of_def snapshot_dict_def field_def list_of_def)

lemma validate_dict_iff:
  "validate (snapshot_dict s) = Inr () \<longleftrightarrow>
     (\<exists>v m. rs_schema s = JVal v \<and> py_eq v SCHEMA_VERSION \<and> reduce_risk_mode (rs_blockers s) = Inr m \<and>
        rs_mode s = jstr (mode_text m))"
  by (auto simp: validate_def snapshot_dict_def REQUIRED_FIELDS_def field_def
      split: json.splits sum.splits exn.splits if_splits)

lemma validate_doc:
  assumes "validate doc = Inr ()"
  shows "valid_snapshot (snapshot_of doc)"
proof -
  obtain v bs m where "field doc ''schema_version'' = JVal v" "py_eq v SCHEMA_VERSION"
    "field doc ''active_blockers'' = JList bs" "reduce_risk_mode bs = Inr m"
    "field doc ''effective_mode'' = jstr (mode_text m)"
    using assms by (auto simp: validate_def split: json.splits sum.splits exn.splits if_splits)
  then show ?thesis
    by (simp add: valid_snapshot_def validate_dict_iff snapshot_of_def list_of_def)
qed

definition ok_db :: "'a result \<times> 'd \<Rightarrow> 'd option" where
  "ok_db r = (case r of (Inr _, d) \<Rightarrow> Some d | (Inl _, d) \<Rightarrow> None)"

definition ok_val :: "'a result \<Rightarrow> 'a option" where
  "ok_val r = (case r of Inr x \<Rightarrow> Some x | Inl _ \<Rightarrow> None)"

interpretation store: snapshot_store "\<lambda>s d. ok_db (save_risk_state StoreOk s d)"
    "\<lambda>d. ok_val (load_risk_state StoreOk d)" valid_snapshot
proof (unfold_locales, goal_cases)
  case (1 s d d')
  then show ?case
    by (auto simp: ok_db_def ok_val_def save_risk_state_def load_risk_state_def split: sum.splits if_splits)
next
  case (2 s d d')
  then show ?case by (auto simp: ok_db_def save_risk_state_def valid_snapshot_def split: sum.splits if_splits)
next
  case (3 d s)
  then show ?case
    by (auto simp: ok_val_def load_risk_state_def rbind_eq_Inr dest: validate_doc
        split: risk_db.splits option.splits payload.splits json.splits sum.splits)
qed

lemma save_cases:
  "save_risk_state f s d = (Inr u, d') \<Longrightarrow> load_risk_state StoreOk d' = Inr s \<and> valid_snapshot s"
  "save_risk_state f s d = (Inl e, d') \<Longrightarrow> d' = d"
  by (auto simp: save_risk_state_def load_risk_state_def valid_snapshot_def split: sum.splits if_splits)

section \<open>Properties\<close>

text \<open>The day-zero bootstrap never overwrites: it succeeds only on an initialised database without a
  row, on a positive equity and four non-empty texts, and then the loaded state is the operational
  snapshot it returns; on every failure the database is as before.\<close>

theorem day_zero_never_overwrites:
  "case initialize_day_zero_state f day equity updated who why d of
     (Inl _, d') \<Rightarrow> d' = d
   | (Inr s, d') \<Rightarrow> d = Table None \<and> positive_number equity \<and> is_text who \<and> is_text why \<and>
       load_risk_state StoreOk d' = Inr s \<and> rs_blockers s = [] \<and> rs_mode s = jstr ''Operational'' \<and>
       rs_day s = day \<and> rs_by s = who \<and> rs_reason s = why"
proof -
  have save: "save_risk_state f s d' = (Inr u, d'') \<Longrightarrow> load_risk_state StoreOk d'' = Inr s"
      "save_risk_state f s d' = (Inl e, d'') \<Longrightarrow> d'' = d'" for s d' d'' u e
    using save_cases by blast+
  show ?thesis
    by (auto simp: initialize_day_zero_state_def Let_def dest: save split: prod.split sum.split)
qed

lemma reduce_from_mono:
  "reduce_from e' bs = Inr n \<Longrightarrow> e \<le> e' \<Longrightarrow> \<exists>m. reduce_from e bs = Inr m \<and> m \<le> n"
proof (induction bs arbitrary: e e')
  case (Cons b bs)
  obtain s k where b: "b = JVal (PStr s)" "blocker_mode s = Some k"
    using Cons.prems(1) by (auto split: json.splits pyval.splits option.splits)
  have "(if k > e then k else e) \<le> (if k > e' then k else e')" using Cons.prems(2) by auto
  then show ?case using Cons.IH Cons.prems(1) b by simp
qed simp

lemma reduce_filter:
  "reduce_from eff bs = Inr m \<Longrightarrow> \<exists>m'. reduce_from eff (filter P bs) = Inr m' \<and> m' \<le> m"
proof (induction bs arbitrary: eff)
  case (Cons b bs)
  obtain s k where b: "b = JVal (PStr s)" "blocker_mode s = Some k"
    using Cons.prems by (auto split: json.splits pyval.splits option.splits)
  let ?e = "if k > eff then k else eff"
  obtain m1 where m1: "reduce_from ?e (filter P bs) = Inr m1" "m1 \<le> m"
    using Cons.IH [of ?e] Cons.prems b by auto
  show ?case
  proof (cases "P b")
    case True
    then show ?thesis using m1 b by simp
  next
    case False
    have "eff \<le> ?e" by auto
    then obtain m2 where "reduce_from eff (filter P bs) = Inr m2" "m2 \<le> m1"
      using reduce_from_mono [OF m1(1)] by blast
    then show ?thesis using False m1(2) by auto
  qed
qed simp

text \<open>The day rollover forgets only the day: on the same day the snapshot is unchanged; on a later day the
  profit is zero, exactly the daily-loss blockers are gone, the audit fields stay, the new mode is not
  above the old one and the snapshot is consistent again.\<close>

theorem rollover_keeps_structure:
  assumes "valid_snapshot s" "rollover_risk_state_if_new_day s day equity updated = Inr s'"
  shows "valid_snapshot s' \<and> rs_by s' = rs_by s \<and> rs_reason s' = rs_reason s \<and>
    (s' = s \<or> rs_day s' = day \<and> rs_pnl s' = JVal (PFloat (Fin 0)) \<and>
      rs_blockers s' = filter (\<lambda>b. b \<noteq> jstr ''daily_loss'') (rs_blockers s) \<and>
      (\<exists>m m'. rs_mode s = jstr (mode_text m) \<and> rs_mode s' = jstr (mode_text m') \<and> m' \<le> m))"
proof -
  obtain v m where v: "rs_schema s = JVal v" "py_eq v SCHEMA_VERSION"
    "reduce_risk_mode (rs_blockers s) = Inr m" "rs_mode s = jstr (mode_text m)"
    using assms(1) by (auto simp: valid_snapshot_def validate_dict_iff)
  show ?thesis
  proof (cases "s' = s")
    case False
    then obtain x m' where r: "reduce_risk_mode (filter (\<lambda>b. b \<noteq> jstr ''daily_loss'') (rs_blockers s)) = Inr m'"
      "s' = s\<lparr>rs_day := day, rs_equity := JVal (PFloat x), rs_pnl := JVal (PFloat (Fin 0)),
         rs_blockers := filter (\<lambda>b. b \<noteq> jstr ''daily_loss'') (rs_blockers s),
         rs_mode := jstr (mode_text m'), rs_updated := updated\<rparr>"
      using assms(2) by (auto simp: rollover_risk_state_if_new_day_def rbind_eq_Inr Let_def split: if_splits)
    have "m' \<le> m"
      using reduce_filter [of Operational "rs_blockers s" m "\<lambda>b. b \<noteq> jstr ''daily_loss''"] v(3) r(1)
      by (simp add: reduce_risk_mode_def)
    then show ?thesis using v r by (auto simp: valid_snapshot_def validate_dict_iff)
  qed (use assms(1) in simp)
qed

definition sample_snapshot :: "string \<Rightarrow> string list \<Rightarrow> string \<Rightarrow> risk_snapshot" where
  "sample_snapshot day bs mode_name = \<lparr>rs_day = jstr day, rs_equity = JVal (PFloat (Fin 100)),
     rs_pnl = JVal (PFloat (Fin (-40))), rs_blockers = map jstr bs, rs_mode = jstr mode_name,
     rs_updated = jstr ''t'', rs_schema = JVal (PInt 1), rs_by = jstr ''op'', rs_reason = jstr ''r''\<rparr>"

lemma rollover_keeps_structure_witness:
  "\<exists>s'. rollover_risk_state_if_new_day (sample_snapshot ''2026-06-08'' [''cooldown'', ''daily_loss''] ''Exit-Only'')
      (jstr ''2026-06-09'') (JVal (PInt 90)) (jstr ''t'') = Inr s' \<and> rs_blockers s' = [jstr ''cooldown''] \<and>
     valid_snapshot s'"
proof -
  let ?s = "sample_snapshot ''2026-06-08'' [''cooldown'', ''daily_loss''] ''Exit-Only''"
  have v: "valid_snapshot ?s" by code_simp
  have "case rollover_risk_state_if_new_day ?s (jstr ''2026-06-09'') (JVal (PInt 90)) (jstr ''t'') of
      Inr s' \<Rightarrow> rs_blockers s' = [jstr ''cooldown''] | _ \<Rightarrow> False" by code_simp
  then obtain s' where s': "rollover_risk_state_if_new_day ?s (jstr ''2026-06-09'') (JVal (PInt 90)) (jstr ''t'') = Inr s'"
    "rs_blockers s' = [jstr ''cooldown'']" by (auto split: sum.splits)
  show ?thesis using rollover_keeps_structure [OF v s'(1)] s' by blast
qed

text \<open>The date check accepts months and days without padding, and then the text order is not the order of
  the days: a rollover from the 30th of September to the 1st of October is refused as a step back.\<close>

lemma unpadded_dates_misorder:
  "iso_day ''2026-9-30'' = Some (2026, 9, 30)"
  "rollover_risk_state_if_new_day (sample_snapshot ''2026-9-30'' [] ''Operational'') (jstr ''2026-10-01'')
     (JVal (PInt 90)) (jstr ''t'') = Inl ValueError"
  by code_simp+

end
