(* ===== verification/Monitor.thy ===== *)
theory Monitor
  imports Config
begin

text \<open>
  \<open>monitor/\<close>: the process-wide flags (\<open>state.py\<close>, \<open>kill_switch.py\<close>, \<open>shutdown.py\<close>), the
  session counters (\<open>execution_stats.py\<close>), the breakers (\<open>circuit_breaker.py\<close>) and the restart guard
  (\<open>restart_guard.py\<close>). The module globals are one record that the operations return updated. The two
  counting breakers share the interface \<open>counting_halt\<close>.
\<close>

section \<open>Flags\<close>

record bot_state =
  b_soft :: bool
  b_hard :: bool
  b_flatten :: bool
  b_shutdown :: bool
  b_losses :: int
  b_kill_file :: bool

definition fresh_bot :: bot_state where
  "fresh_bot = \<lparr>b_soft = False, b_hard = False, b_flatten = False, b_shutdown = False, b_losses = 0,
     b_kill_file = False\<rparr>"

definition soft_pause :: "bot_state \<Rightarrow> bot_state" where "soft_pause b = b\<lparr>b_soft := True\<rparr>"
definition soft_resume :: "bot_state \<Rightarrow> bot_state" where "soft_resume b = b\<lparr>b_soft := False\<rparr>"
definition hard_pause :: "bot_state \<Rightarrow> bot_state" where "hard_pause b = b\<lparr>b_hard := True\<rparr>"
definition hard_resume :: "bot_state \<Rightarrow> bot_state" where "hard_resume b = b\<lparr>b_hard := False\<rparr>"
definition is_paused :: "bot_state \<Rightarrow> bool" where "is_paused b = (b_soft b \<or> b_hard b)"
definition request_flatten :: "bot_state \<Rightarrow> bot_state" where
  "request_flatten b = b\<lparr>b_flatten := True, b_soft := True\<rparr>"
definition clear_flatten :: "bot_state \<Rightarrow> bot_state" where "clear_flatten b = b\<lparr>b_flatten := False\<rparr>"
definition request_shutdown :: "bot_state \<Rightarrow> bot_state" where "request_shutdown b = b\<lparr>b_shutdown := True\<rparr>"
definition is_shutdown_requested :: "bot_state \<Rightarrow> bool" where "is_shutdown_requested b = b_shutdown b"
definition clear_shutdown :: "bot_state \<Rightarrow> bot_state" where "clear_shutdown b = b\<lparr>b_shutdown := False\<rparr>"
definition on_shutdown_signal :: "bot_state \<Rightarrow> bot_state" where "on_shutdown_signal b = request_shutdown b"

definition kill_check :: "bot_state \<Rightarrow> bool" where "kill_check b = b_kill_file b"
definition kill_arm :: "bot_state \<Rightarrow> bot_state" where "kill_arm b = b\<lparr>b_kill_file := True\<rparr>"
definition kill_disarm :: "bot_state \<Rightarrow> bot_state" where "kill_disarm b = b\<lparr>b_kill_file := False\<rparr>"

section \<open>Session counters\<close>

record exec_stats =
  st_trades :: int
  st_no_fill :: int
  st_submits :: int

definition new_stats :: "int \<Rightarrow> int \<Rightarrow> int \<Rightarrow> exec_stats result" where
  "new_stats trades no_fill submits =
    (if trades < 0 then Inl ValueError else if no_fill < 0 then Inl ValueError
     else if submits < 0 then Inl ValueError
     else Inr \<lparr>st_trades = trades, st_no_fill = no_fill, st_submits = submits\<rparr>)"

definition increment_trade_count :: "exec_stats \<Rightarrow> exec_stats" where
  "increment_trade_count s = s\<lparr>st_trades := st_trades s + 1\<rparr>"
definition increment_no_fill_streak :: "exec_stats \<Rightarrow> exec_stats" where
  "increment_no_fill_streak s = s\<lparr>st_no_fill := st_no_fill s + 1\<rparr>"
definition increment_submit_count :: "exec_stats \<Rightarrow> exec_stats" where
  "increment_submit_count s = s\<lparr>st_submits := st_submits s + 1\<rparr>"
definition reset_trade_count :: "exec_stats \<Rightarrow> exec_stats" where "reset_trade_count s = s\<lparr>st_trades := 0\<rparr>"
definition reset_no_fill_streak :: "exec_stats \<Rightarrow> exec_stats" where "reset_no_fill_streak s = s\<lparr>st_no_fill := 0\<rparr>"
definition reset_submit_count :: "exec_stats \<Rightarrow> exec_stats" where "reset_submit_count s = s\<lparr>st_submits := 0\<rparr>"
definition reset_all :: "exec_stats \<Rightarrow> exec_stats" where
  "reset_all s = s\<lparr>st_trades := 0, st_no_fill := 0, st_submits := 0\<rparr>"

section \<open>Breakers\<close>

definition reset_streak :: "bot_state \<Rightarrow> bot_state" where "reset_streak b = b\<lparr>b_losses := 0\<rparr>"

definition daily_loss_halt :: "pyfloat \<Rightarrow> pyfloat \<Rightarrow> string option result" where
  "daily_loss_halt start_equity realized =
    (if fle start_equity (Fin 0) then Inl ValueError else
     rbind (fdiv (fneg realized) start_equity) (\<lambda>q.
       let daily_loss_pct = f_max (Fin 0) q in
       Inr (if fge daily_loss_pct DAILY_LOSS_LIMIT then Some ''daily_loss_stop'' else None)))"

definition max_trades_first_session_halt :: "int \<Rightarrow> int option \<Rightarrow> string option result" where
  "max_trades_first_session_halt trades_today limit0 =
    (let limit = (case limit0 of None \<Rightarrow> MAX_TRADES_FIRST_SESSION | Some l \<Rightarrow> l) in
     if limit \<le> 0 then Inl ValueError else if trades_today < 0 then Inl ValueError
     else Inr (if trades_today \<ge> limit then Some ''max_trades_stop'' else None))"

text \<open>\<open>config\<close> has no \<open>NO_FILL_BURST_LIMIT\<close>, \<open>FILL_TO_SUBMIT_MIN_SUBMISSIONS\<close> or
  \<open>FILL_TO_SUBMIT_FLOOR_RATIO\<close>: the fallbacks of \<open>getattr\<close> apply.\<close>

definition no_fill_burst_halt :: "int \<Rightarrow> int option \<Rightarrow> string option result" where
  "no_fill_burst_halt no_fill_streak limit0 =
    (let limit = (case limit0 of None \<Rightarrow> 3 | Some l \<Rightarrow> l) in
     if limit \<le> 0 then Inl ValueError else if no_fill_streak < 0 then Inl ValueError
     else Inr (if no_fill_streak \<ge> limit then Some ''no_fill_burst_stop'' else None))"

definition fill_to_submit_halt :: "int \<Rightarrow> int \<Rightarrow> int option \<Rightarrow> pyfloat option \<Rightarrow> string option result" where
  "fill_to_submit_halt opened submitted min0 floor0 =
    (let min_submissions = (case min0 of None \<Rightarrow> 6 | Some m \<Rightarrow> m);
         floor_ratio = (case floor0 of None \<Rightarrow> flit 0.25 | Some r \<Rightarrow> r) in
     if min_submissions \<le> 0 then Inl ValueError
     else if fle floor_ratio (Fin 0) \<or> fgt floor_ratio (Fin 1) then Inl ValueError
     else if opened < 0 then Inl ValueError
     else if submitted < 0 then Inl ValueError
     else if opened > submitted then Inl ValueError
     else if submitted < min_submissions then Inr None
     else rbind (fdiv (Fin (of_int opened)) (Fin (of_int submitted))) (\<lambda>ratio.
       Inr (if flt ratio floor_ratio then Some ''fill_to_submit_stop'' else None)))"

definition on_trade_closed :: "pyfloat \<Rightarrow> pyfloat \<Rightarrow> pyfloat \<Rightarrow> bot_state \<Rightarrow> string option \<times> bot_state" where
  "on_trade_closed pnl current starting b =
    (if fge pnl (Fin 0) then (None, b\<lparr>b_losses := 0\<rparr>)
     else if flt current (fmul starting BUST_PROTECTION_PCT) then (Some ''hard_stop'', hard_pause b)
     else let b' = b\<lparr>b_losses := b_losses b + 1\<rparr> in
       if b_losses b' \<ge> STREAK_WARN_COUNT then (Some ''soft_stop'', soft_pause b')
       else (None, b'))"

section \<open>Restart guard\<close>

definition check_restart_safe :: "string \<Rightarrow> string option \<Rightarrow> unit result" where
  "check_restart_safe target current =
    (case current of Some c \<Rightarrow> if c \<noteq> [] \<and> target = c then Inl RestartFootgunError else Inr ()
     | None \<Rightarrow> Inr ())"

definition detect_current_tmux_session :: "string option \<Rightarrow> string option \<Rightarrow> string" where
  "detect_current_tmux_session tmux_var runner_out =
    (case tmux_var of None \<Rightarrow> [] | Some v \<Rightarrow> if v = [] then [] else
       py_strip (case runner_out of None \<Rightarrow> [] | Some s \<Rightarrow> s))"

definition restart_main :: "string \<Rightarrow> string option \<Rightarrow> int" where
  "restart_main target current = (case check_restart_safe target current of Inl _ \<Rightarrow> 1 | Inr _ \<Rightarrow> 0)"

section \<open>Counting breakers\<close>

text \<open>A breaker on a session counter: it rejects negative counts and stops exactly from its limit on.\<close>

locale counting_halt =
  fixes halt :: "int \<Rightarrow> string option result"
    and limit :: int
    and stop :: string
  assumes limit_pos: "0 < limit"
    and halt_neg: "n < 0 \<Longrightarrow> halt n = Inl ValueError"
    and halt_nonneg: "0 \<le> n \<Longrightarrow> halt n = Inr (if limit \<le> n then Some stop else None)"
begin

lemma halt_monotone: "halt n = Inr (Some s) \<Longrightarrow> n \<le> m \<Longrightarrow> halt m = Inr (Some stop)"
  using halt_neg [of n] halt_nonneg [of n] halt_nonneg [of m] by (cases "n < 0") (auto split: if_splits)

lemma halt_first: "halt limit = Inr (Some stop)" "halt (limit - 1) = Inr None"
  using limit_pos by (simp_all add: halt_nonneg)

lemma halt_zero: "halt 0 = Inr None"
  using limit_pos by (simp add: halt_nonneg)

lemma open_below: "halt n = Inr None \<longleftrightarrow> 0 \<le> n \<and> n < limit"
  using halt_neg [of n] halt_nonneg [of n] by (cases "n < 0") auto

end

interpretation mt: counting_halt "\<lambda>n. max_trades_first_session_halt n None" MAX_TRADES_FIRST_SESSION "''max_trades_stop''"
  by unfold_locales (auto simp: max_trades_first_session_halt_def MAX_TRADES_FIRST_SESSION_def)

interpretation nf: counting_halt "\<lambda>n. no_fill_burst_halt n None" 3 "''no_fill_burst_stop''"
  by unfold_locales (auto simp: no_fill_burst_halt_def)

section \<open>Sequences of closed trades\<close>

fun close_trades :: "(pyfloat \<times> pyfloat) list \<Rightarrow> pyfloat \<Rightarrow> bot_state \<Rightarrow> bot_state" where
  "close_trades [] starting b = b"
| "close_trades ((pnl, bank) # ts) starting b = close_trades ts starting (snd (on_trade_closed pnl bank starting b))"

lemma on_trade_closed_flags:
  "b_soft b \<Longrightarrow> b_soft (snd (on_trade_closed pnl c s b))" "b_hard b \<Longrightarrow> b_hard (snd (on_trade_closed pnl c s b))"
  by (auto simp: on_trade_closed_def hard_pause_def soft_pause_def Let_def)

lemma close_trades_flags: "is_paused b \<Longrightarrow> is_paused (close_trades ts s b)"
  by (induction ts s b rule: close_trades.induct) (auto simp: is_paused_def on_trade_closed_flags)

lemma close_trades_losses:
  assumes "\<forall>(pnl, bank) \<in> set ts. \<not> fge pnl (Fin 0)" "0 \<le> b_losses b"
  shows "is_paused (close_trades ts s b) \<or> b_losses (close_trades ts s b) = b_losses b + int (length ts) \<and>
    (ts = [] \<or> b_losses b + int (length ts) < STREAK_WARN_COUNT)"
  using assms
proof (induction ts s b rule: close_trades.induct)
  case (2 pnl bank ts s b)
  let ?b' = "snd (on_trade_closed pnl bank s b)"
  have step: "is_paused ?b' \<or> b_losses ?b' = b_losses b + 1 \<and> b_losses b + 1 < STREAK_WARN_COUNT"
    using 2(2) by (auto simp: on_trade_closed_def is_paused_def hard_pause_def soft_pause_def Let_def)
  show ?case
  proof (cases "is_paused ?b'")
    case True
    then show ?thesis by (simp add: close_trades_flags)
  next
    case False
    then have "b_losses ?b' = b_losses b + 1" "b_losses b + 1 < STREAK_WARN_COUNT" using step by auto
    then show ?thesis using 2(1) 2(2,3) by auto
  qed
qed simp

section \<open>Properties\<close>

text \<open>The loss streak: from any state with a non-negative streak, six losing trades in a row (with any
  bankroll) leave the bot paused, softly or hard, and the pause survives every further trade.\<close>

theorem losing_streak_pauses:
  assumes "\<forall>(pnl, bank) \<in> set ts. \<not> fge pnl (Fin 0)" "STREAK_WARN_COUNT \<le> int (length ts)" "0 \<le> b_losses b"
  shows "is_paused (close_trades (ts @ later) starting b)"
proof -
  have app: "close_trades (ts @ later) starting b = close_trades later starting (close_trades ts starting b)"
    by (induction ts starting b rule: close_trades.induct) auto
  have "ts \<noteq> []" using assms(2) by (auto simp: STREAK_WARN_COUNT_def)
  then show ?thesis
    using close_trades_losses [OF assms(1,3), of starting] assms(2,3) app close_trades_flags by auto
qed

lemma losing_streak_pauses_witness:
  "is_paused (close_trades (replicate 6 (Fin (-1), Fin 90) @ [(Fin 5, Fin 95)]) (Fin 100) fresh_bot)"
  by (rule losing_streak_pauses) (auto simp: STREAK_WARN_COUNT_def fresh_bot_def)

text \<open>C37: Losing more than half of the bankroll: a losing trade that leaves less than the protected part of
  the starting bankroll stops the bot hard, whatever the streak, and no later trade lifts it.\<close>

theorem bust_protection:
  assumes "\<not> fge pnl (Fin 0)" "flt current (fmul starting BUST_PROTECTION_PCT)"
  shows "fst (on_trade_closed pnl current starting b) = Some ''hard_stop'' \<and>
    b_hard (close_trades later starting (snd (on_trade_closed pnl current starting b)))"
proof -
  have "b_hard b' \<Longrightarrow> b_hard (close_trades later starting b')" for b'
    by (induction later starting b' rule: close_trades.induct) (auto simp: on_trade_closed_flags)
  then show ?thesis using assms by (simp add: on_trade_closed_def hard_pause_def)
qed

lemma bust_protection_witness:
  "b_hard (close_trades [(Fin 10, Fin 59)] (Fin 100) (snd (on_trade_closed (Fin (-51)) (Fin 49) (Fin 100) fresh_bot)))"
proof -
  have "\<not> fge (Fin (-51)) (Fin 0)" "flt (Fin 49) (fmul (Fin 100) BUST_PROTECTION_PCT)" by code_simp+
  from bust_protection [OF this] show ?thesis by blast
qed

text \<open>The counting breakers stop exactly from their limit on and stay stopped as the counter grows: the
  first-session cap from six trades, the no-fill breaker from three misses in a row.\<close>

theorem counting_breakers:
  assumes "0 \<le> n" "n \<le> m"
  shows "(max_trades_first_session_halt n None = Inr None \<longleftrightarrow> n < 6) \<and>
    (max_trades_first_session_halt n None \<noteq> Inr None \<longrightarrow> max_trades_first_session_halt m None = Inr (Some ''max_trades_stop'')) \<and>
    (no_fill_burst_halt n None = Inr None \<longleftrightarrow> n < 3) \<and>
    (no_fill_burst_halt n None \<noteq> Inr None \<longrightarrow> no_fill_burst_halt m None = Inr (Some ''no_fill_burst_stop''))"
  using assms mt.halt_nonneg [of n] mt.halt_nonneg [of m] nf.halt_nonneg [of n] nf.halt_nonneg [of m]
  by (simp add: MAX_TRADES_FIRST_SESSION_def)

lemma counting_breakers_witness:
  "no_fill_burst_halt 4 None = Inr (Some ''no_fill_burst_stop'') \<and> max_trades_first_session_halt 3 None = Inr None"
  using counting_breakers [of 3 4] by simp

text \<open>The daily loss stop: for a positive equity it is raised exactly when the loss of the day, as a
  rounded fraction of the equity at the start of the day, reaches the limit; gains never raise it.\<close>

theorem daily_loss_exact:
  assumes "0 < equity"
  shows "daily_loss_halt (Fin equity) (Fin pnl) =
      Inr (if fge (mkf (- pnl / equity)) DAILY_LOSS_LIMIT then Some ''daily_loss_stop'' else None) \<and>
    (0 \<le> pnl \<longrightarrow> daily_loss_halt (Fin equity) (Fin pnl) = Inr None)"
proof -
  have "0 < f64 0.35" by code_simp
  then obtain L where lim: "DAILY_LOSS_LIMIT = Fin L" "0 < L" by (simp add: DAILY_LOSS_LIMIT_def flit_def)
  have m: "fge (f_max (Fin 0) (mkf (- pnl / equity))) DAILY_LOSS_LIMIT \<longleftrightarrow> fge (mkf (- pnl / equity)) DAILY_LOSS_LIMIT"
    unfolding lim(1) using lim(2) by (cases "mkf (- pnl / equity)") (auto simp: f_max_def fle_def feq_def)
  have "fle (mkf (- pnl / equity)) (Fin 0)" if "0 \<le> pnl"
    using mkf_mono [of "- pnl / equity" 0] that assms by simp
  then have "\<not> fge (mkf (- pnl / equity)) DAILY_LOSS_LIMIT" if "0 \<le> pnl"
    using that unfolding lim(1) using lim(2) by (cases "mkf (- pnl / equity)") (auto simp: fle_def feq_def)
  then show ?thesis using assms m by (auto simp: daily_loss_halt_def fneg_def Let_def)
qed

lemma daily_loss_exact_witness:
  "daily_loss_halt (Fin 100) (Fin (-36)) = Inr (Some ''daily_loss_stop'') \<and> daily_loss_halt (Fin 100) (Fin 20) = Inr None"
proof -
  have "fge (mkf (36 / 100)) DAILY_LOSS_LIMIT" by code_simp
  then have "daily_loss_halt (Fin 100) (Fin (-36)) = Inr (Some ''daily_loss_stop'')"
    using daily_loss_exact [of 100 "-36"] by simp
  then show ?thesis using conjunct2 [OF daily_loss_exact [of 100 20]] by simp
qed

end
