(* ===== verification/RiskSync.thy ===== *)
theory RiskSync
  imports RiskStore Monitor
begin

text \<open>
  \<open>monitor/risk_sync.py\<close>: one synchronisation of the persisted risk state with the runtime signals.
  Load, roll over on a new day, test the daily loss against the equity of the day's start, rebuild the
  blockers from the signals, reduce, and save only a change.
\<close>

definition number_of_json :: "json \<Rightarrow> pyfloat result" where
  "number_of_json j = (case j of
     JVal (PInt i) \<Rightarrow> Inr (Fin (of_int i)) | JVal (PBool b) \<Rightarrow> Inr (Fin (if b then 1 else 0))
   | JVal (PFloat x) \<Rightarrow> Inr x | _ \<Rightarrow> Inl TypeError)"

text \<open>Equality of the trigger fields: numbers by value, and a NaN from outside equals nothing.\<close>

definition json_same :: "json \<Rightarrow> json \<Rightarrow> bool" where
  "json_same a b = (case (a, b) of
     (JVal v, JVal w) \<Rightarrow> py_eq v w \<and> v \<noteq> PFloat NaN | _ \<Rightarrow> a = b)"

definition same_trigger :: "risk_snapshot \<Rightarrow> risk_snapshot \<Rightarrow> bool" where
  "same_trigger a b = (rs_blockers a = rs_blockers b \<and> rs_mode a = rs_mode b \<and>
     json_same (rs_pnl a) (rs_pnl b) \<and> rs_equity a = rs_equity b \<and> rs_day a = rs_day b)"

definition str_less_json :: "json \<Rightarrow> string \<Rightarrow> bool result" where
  "str_less_json j s = (case j of JVal (PStr t) \<Rightarrow> Inr (str_less t s) | _ \<Rightarrow> Inl TypeError)"

record risk_signals =
  sg_day :: string
  sg_updated :: json
  sg_equity :: json
  sg_pnl :: pyfloat
  sg_circuit :: "string option"
  sg_kill :: bool
  sg_review :: bool

definition new_snapshot :: "risk_signals \<Rightarrow> risk_snapshot \<Rightarrow> risk_snapshot result" where
  "new_snapshot g base =
     rbind (number_of_json (rs_equity base)) (\<lambda>start.
     rbind (daily_loss_halt start (sg_pnl g)) (\<lambda>daily.
     rbind (build_active_blockers daily (sg_circuit g) (sg_kill g) (sg_review g)) (\<lambda>bs.
     rbind (reduce_risk_mode (map jstr bs)) (\<lambda>m.
       Inr (base\<lparr>rs_day := jstr (sg_day g), rs_pnl := JVal (PFloat (sg_pnl g)),
         rs_blockers := map jstr bs, rs_mode := jstr (mode_text m), rs_updated := sg_updated g\<rparr>)))))"

definition sync_base :: "risk_signals \<Rightarrow> risk_snapshot \<Rightarrow> risk_snapshot result" where
  "sync_base g loaded = rbind (str_less_json (rs_day loaded) (sg_day g)) (\<lambda>later.
     if later then rollover_risk_state_if_new_day loaded (jstr (sg_day g)) (sg_equity g) (sg_updated g)
     else Inr loaded)"

definition sync_risk_state_from_runtime_signals ::
  "store_fault \<Rightarrow> risk_signals \<Rightarrow> risk_db \<Rightarrow> risk_snapshot result \<times> risk_db" where
  "sync_risk_state_from_runtime_signals f g d =
    (case load_risk_state f d of Inl e \<Rightarrow> (Inl e, d)
     | Inr loaded \<Rightarrow>
       (case rbind (sync_base g loaded) (new_snapshot g) of Inl e \<Rightarrow> (Inl e, d)
        | Inr snap \<Rightarrow>
          if same_trigger snap loaded then (Inr loaded, d)
          else (case save_risk_state f snap d of
             (Inl e, d') \<Rightarrow> (Inl e, d') | (Inr _, d') \<Rightarrow> (Inr snap, d'))))"

section \<open>Lemmas\<close>

lemma sync_base_audit:
  "sync_base g loaded = Inr base \<Longrightarrow> rs_by base = rs_by loaded \<and> rs_reason base = rs_reason loaded \<and>
     rs_schema base = rs_schema loaded"
  by (auto simp: sync_base_def rollover_risk_state_if_new_day_def rbind_eq_Inr Let_def split: if_splits)

lemma new_snapshot_blockers:
  assumes "new_snapshot g base = Inr snap"
  obtains start daily bs m where "number_of_json (rs_equity base) = Inr start"
    "daily_loss_halt start (sg_pnl g) = Inr daily"
    "build_active_blockers daily (sg_circuit g) (sg_kill g) (sg_review g) = Inr bs"
    "reduce_risk_mode (map jstr bs) = Inr m" "rs_blockers snap = map jstr bs"
    "rs_mode snap = jstr (mode_text m)" "rs_equity snap = rs_equity base"
  using assms by (auto simp: new_snapshot_def rbind_eq_Inr)

lemma sync_error_db: "sync_risk_state_from_runtime_signals f g d = (Inl e, d') \<Longrightarrow> d' = d"
  by (auto simp: sync_risk_state_from_runtime_signals_def dest: save_cases(2) split: sum.splits prod.splits if_splits)

lemma load_any_fault: "load_risk_state f d = Inr s \<Longrightarrow> load_risk_state StoreOk d = Inr s \<and> valid_snapshot s"
  using store.load_valid [of d s] by (auto simp: load_risk_state_def ok_val_def split: if_splits)

lemma sync_cases:
  assumes "sync_risk_state_from_runtime_signals f g d = (Inr snap, d')"
  obtains loaded base new where "load_risk_state f d = Inr loaded" "sync_base g loaded = Inr base"
    "new_snapshot g base = Inr new" "load_risk_state StoreOk d' = Inr snap"
    "same_trigger new loaded \<and> snap = loaded \<and> d' = d \<or> \<not> same_trigger new loaded \<and> snap = new"
  using assms load_any_fault
  by (auto simp: sync_risk_state_from_runtime_signals_def rbind_eq_Inr dest: save_cases
      split: sum.splits prod.splits if_splits)

lemma str_less_irrefl [simp]: "\<not> str_less s s"
  by (induction s) simp_all

lemma new_snapshot_again:
  assumes "new_snapshot g base = Inr snap" "rs_equity s = rs_equity base"
  shows "new_snapshot g s = Inr (s\<lparr>rs_day := rs_day snap, rs_pnl := rs_pnl snap, rs_blockers := rs_blockers snap,
     rs_mode := rs_mode snap, rs_updated := sg_updated g\<rparr>)"
  using assms by (auto simp: new_snapshot_def rbind_eq_Inr)

lemma new_snapshot_fields: "new_snapshot g base = Inr snap \<Longrightarrow>
    rs_day snap = jstr (sg_day g) \<and> rs_pnl snap = JVal (PFloat (sg_pnl g)) \<and> rs_equity snap = rs_equity base"
  by (auto simp: new_snapshot_def rbind_eq_Inr)

section \<open>Properties\<close>

text \<open>What a synchronisation returns is what a restart will read: after a success the loaded state is the
  returned snapshot, it is consistent, and it keeps the audit fields; after an error the database is as
  before.\<close>

theorem sync_persists_result:
  "case sync_risk_state_from_runtime_signals f g d of
     (Inr snap, d') \<Rightarrow> load_risk_state StoreOk d' = Inr snap \<and> valid_snapshot snap \<and>
       (\<exists>old. load_risk_state StoreOk d = Inr old \<and> rs_by snap = rs_by old \<and> rs_reason snap = rs_reason old)
   | (Inl _, d') \<Rightarrow> d' = d"
proof (cases "sync_risk_state_from_runtime_signals f g d")
  case (Pair r d')
  show ?thesis
  proof (cases r)
    case (Inl e)
    then show ?thesis using Pair sync_error_db by auto
  next
    case (Inr snap)
    obtain loaded base new where c: "load_risk_state f d = Inr loaded" "sync_base g loaded = Inr base"
      "new_snapshot g base = Inr new" "load_risk_state StoreOk d' = Inr snap"
      "same_trigger new loaded \<and> snap = loaded \<and> d' = d \<or> \<not> same_trigger new loaded \<and> snap = new"
      using sync_cases Pair Inr by metis
    have "rs_by new = rs_by base \<and> rs_reason new = rs_reason base"
      using c(3) by (auto simp: new_snapshot_def rbind_eq_Inr)
    then show ?thesis
      using Pair Inr c(4,5) load_any_fault [OF c(1)] load_any_fault [OF c(4)] sync_base_audit [OF c(2)] by auto
  qed
qed

text \<open>A synchronisation is idempotent: repeating it with the same signals returns the same snapshot and
  writes nothing, even when the time stamp is the only thing that would change.\<close>

theorem sync_idempotent:
  assumes "sync_risk_state_from_runtime_signals f g d = (Inr snap, d')" "sg_pnl g \<noteq> NaN" "f' \<noteq> StoreReadFails"
  shows "sync_risk_state_from_runtime_signals f' (g\<lparr>sg_updated := u\<rparr>) d' = (Inr snap, d')"
proof -
  obtain loaded base new where c: "load_risk_state f d = Inr loaded" "sync_base g loaded = Inr base"
      "new_snapshot g base = Inr new" "load_risk_state StoreOk d' = Inr snap"
      "same_trigger new loaded \<and> snap = loaded \<and> d' = d \<or> \<not> same_trigger new loaded \<and> snap = new"
    using sync_cases [OF assms(1)] .
  note nf = new_snapshot_fields [OF c(3)]
  have ld: "load_risk_state f' d' = Inr snap" using c(4) assms(3) by (simp add: load_risk_state_def)
  have day: "rs_day snap = jstr (sg_day g)" and eq: "rs_equity snap = rs_equity base"
    and same: "same_trigger new snap"
    using c(5) nf assms(2) by (auto simp: same_trigger_def json_same_def py_eq_def)
  have base': "sync_base (g\<lparr>sg_updated := u\<rparr>) snap = Inr snap"
    by (simp add: sync_base_def str_less_json_def day jstr_def)
  have "new_snapshot (g\<lparr>sg_updated := u\<rparr>) base = Inr (new\<lparr>rs_updated := u\<rparr>)"
    using c(3) by (auto simp: new_snapshot_def rbind_eq_Inr)
  from new_snapshot_again [OF this eq] have new': "new_snapshot (g\<lparr>sg_updated := u\<rparr>) snap =
      Inr (snap\<lparr>rs_day := rs_day new, rs_pnl := rs_pnl new, rs_blockers := rs_blockers new,
        rs_mode := rs_mode new, rs_updated := u\<rparr>)" by simp
  show ?thesis
    using ld base' new' same by (simp add: sync_risk_state_from_runtime_signals_def same_trigger_def)
qed

lemma sync_mode_lemma:
  assumes "sync_risk_state_from_runtime_signals f g d = (Inr snap, d')"
  shows "\<exists>m start. rs_mode snap = jstr (mode_text m) \<and> number_of_json (rs_equity snap) = Inr start \<and>
    (sg_kill g \<longleftrightarrow> m = KillSwitch) \<and> (sg_review g \<or> sg_circuit g = Some ''hard_stop'' \<longrightarrow> Halted \<le> m) \<and>
    (daily_loss_halt start (sg_pnl g) = Inr (Some ''daily_loss_stop'') \<longrightarrow> ExitOnly \<le> m)"
proof -
  obtain loaded base new where c: "load_risk_state f d = Inr loaded" "sync_base g loaded = Inr base"
      "new_snapshot g base = Inr new" "load_risk_state StoreOk d' = Inr snap"
      "same_trigger new loaded \<and> snap = loaded \<and> d' = d \<or> \<not> same_trigger new loaded \<and> snap = new"
    using sync_cases [OF assms] .
  obtain start daily bs m where n: "number_of_json (rs_equity base) = Inr start"
    "daily_loss_halt start (sg_pnl g) = Inr daily"
    "build_active_blockers daily (sg_circuit g) (sg_kill g) (sg_review g) = Inr bs"
    "reduce_risk_mode (map jstr bs) = Inr m" "rs_mode new = jstr (mode_text m)" "rs_equity new = rs_equity base"
    using new_snapshot_blockers [OF c(3)] by metis
  have "rs_mode snap = rs_mode new" "rs_equity snap = rs_equity new"
    using c(5) by (auto simp: same_trigger_def)
  then show ?thesis using blockers_reduce_lemma [OF n(3)] n by auto
qed

text \<open>The persisted mode follows the live signals: an active kill switch gives the top mode, a manual
  review or a hard stop at least \<open>Halted\<close>, and a daily loss beyond the limit (measured against the
  equity the day started with) at least \<open>Exit-Only\<close>.\<close>

theorem sync_mode_follows_signals:
  assumes "sync_risk_state_from_runtime_signals f g d = (Inr snap, d')"
  shows "\<exists>m start. rs_mode snap = jstr (mode_text m) \<and> number_of_json (rs_equity snap) = Inr start \<and>
    (sg_kill g \<longleftrightarrow> m = KillSwitch) \<and> (sg_review g \<or> sg_circuit g = Some ''hard_stop'' \<longrightarrow> Halted \<le> m) \<and>
    (daily_loss_halt start (sg_pnl g) = Inr (Some ''daily_loss_stop'') \<longrightarrow> ExitOnly \<le> m)"
  using assms by (rule sync_mode_lemma)

definition sample_db :: "risk_snapshot \<Rightarrow> risk_db" where
  "sample_db s = Table (Some (Doc (JObj (snapshot_dict s))))"

definition sample_signals :: risk_signals where
  "sample_signals = \<lparr>sg_day = ''2026-06-08'', sg_updated = jstr ''t1'', sg_equity = JVal (PInt 95),
     sg_pnl = Fin (-10), sg_circuit = Some ''soft_stop'', sg_kill = True, sg_review = False\<rparr>"

lemma sample_sync:
  obtains snap d' where "sync_risk_state_from_runtime_signals StoreOk sample_signals
     (sample_db (sample_snapshot ''2026-06-08'' [] ''Operational'')) = (Inr snap, d')"
proof -
  have "case sync_risk_state_from_runtime_signals StoreOk sample_signals
     (sample_db (sample_snapshot ''2026-06-08'' [] ''Operational'')) of (Inr _, _) \<Rightarrow> True | _ \<Rightarrow> False"
    by code_simp
  then show thesis using that by (auto split: prod.splits sum.splits)
qed

lemma sync_idempotent_witness:
  "\<exists>snap d'. sync_risk_state_from_runtime_signals StoreOk sample_signals
      (sample_db (sample_snapshot ''2026-06-08'' [] ''Operational'')) = (Inr snap, d') \<and>
     sync_risk_state_from_runtime_signals StoreOk (sample_signals\<lparr>sg_updated := jstr ''t2''\<rparr>) d' = (Inr snap, d')"
proof -
  obtain snap d' where s: "sync_risk_state_from_runtime_signals StoreOk sample_signals
     (sample_db (sample_snapshot ''2026-06-08'' [] ''Operational'')) = (Inr snap, d')" by (rule sample_sync)
  show ?thesis using sync_idempotent [OF s, of StoreOk "jstr ''t2''"] s by (auto simp: sample_signals_def)
qed

lemma sync_mode_follows_signals_witness:
  "\<exists>snap d'. sync_risk_state_from_runtime_signals StoreOk sample_signals
      (sample_db (sample_snapshot ''2026-06-08'' [] ''Operational'')) = (Inr snap, d') \<and>
     rs_mode snap = jstr ''Kill-Switch''"
proof -
  obtain snap d' where s: "sync_risk_state_from_runtime_signals StoreOk sample_signals
     (sample_db (sample_snapshot ''2026-06-08'' [] ''Operational'')) = (Inr snap, d')" by (rule sample_sync)
  show ?thesis using sync_mode_follows_signals [OF s] s by (auto simp: sample_signals_def)
qed

text \<open>The structural blockers that a rollover keeps do not survive a synchronisation: a stored \<open>halted\<close> or
  \<open>manual_review\<close> is dropped when the signals of the (restarted) process do not repeat it. A day that
  lies before the stored one is written back without an error.\<close>

lemma sync_forgets_blockers:
  "case sync_risk_state_from_runtime_signals StoreOk
      (sample_signals\<lparr>sg_circuit := None, sg_kill := False, sg_day := ''2026-06-09''\<rparr>)
      (sample_db (sample_snapshot ''2026-06-08'' [''manual_review'', ''halted''] ''Halted'')) of
     (Inr snap, _) \<Rightarrow> rs_blockers snap = [] \<and> rs_mode snap = jstr ''Operational'' | _ \<Rightarrow> False"
  by code_simp

lemma sync_accepts_past_day:
  "case sync_risk_state_from_runtime_signals StoreOk (sample_signals\<lparr>sg_day := ''2026-06-01''\<rparr>)
      (sample_db (sample_snapshot ''2026-06-08'' [] ''Operational'')) of
     (Inr snap, _) \<Rightarrow> rs_day snap = jstr ''2026-06-01'' | _ \<Rightarrow> False"
  by code_simp

end
