(* ===== verification/EntryLoop.thy ===== *)
theory EntryLoop
  imports PositionLog Council RiskSync
begin

text \<open>
  How a new position comes about in \<open>main_loop.py\<close>: the council chain (\<open>_run_council\<close>), the entry gates
  and the execution of what passed them (\<open>_scan_and_execute\<close>), with the dry executor
  (\<open>execution/executor.py\<close>) behind the same dispatch as the real one. The switches of \<open>config.py\<close> that the
  loop reads at run time are the record \<open>loop_config\<close>. What the outside does while one finding is handled
  is an \<open>entry_env\<close> per finding. Prints, websocket subscriptions, shadow logging and the depth
  enrichment task are not modelled.
\<close>

section \<open>State and switches\<close>

record loop_config =
  lc_dry :: bool
  lc_authority :: bool
  lc_entries :: bool

definition repo_config :: loop_config where
  "repo_config = \<lparr>lc_dry = DRY_RUN, lc_authority = COUNCIL_DECISION_AUTHORITY_ENABLED, lc_entries = NEW_ENTRIES_ENABLED\<rparr>"

record bot =
  bt_open :: "position list"
  bt_closed :: "position list"
  bt_failed :: "string list"
  bt_stats :: exec_stats
  bt_db :: world

definition n_open :: "bot \<Rightarrow> int" where "n_open b = int (length (bt_open b))"

section \<open>execution/executor.py\<close>

definition dry_execute ::
  "bool \<Rightarrow> string \<Rightarrow> tstamp \<Rightarrow> finding \<Rightarrow> gate_result \<Rightarrow> risk_result \<Rightarrow> int \<Rightarrow> position option result" where
  "dry_execute dry position_id now f g rk open_positions =
    (if \<not> g_pass g then Inr None
     else if open_positions \<ge> MAX_OPEN_POSITIONS then Inr None
     else
       let pm_entry_price = (if fd_action f = ''YES'' then fd_ask f else f_round 4 (fsub (Fin 1) (fd_bid f))) in
       rbind (key_of (fd_fair f)) (\<lambda>fair. rbind (key_of (fd_ref f)) (\<lambda>ref_price.
       rbind (key_of (fd_edge f)) (\<lambda>edge.
         Inr (Some (base_position\<lparr>p_id := position_id, p_asset := fd_asset f, p_action := fd_action f,
           p_slug := fd_slug f, p_entry := pm_entry_price, p_fair := fair, p_ref := ref_price, p_edge := edge,
           p_usd := rk_usd rk, p_kelly := rk_kelly rk, p_conf := g_score g, p_opened_at := now,
           p_status := ''open'', p_dry_run := dry, p_entry_hl := Some (fd_cur f), p_token_keys := False\<rparr>))))))"

section \<open>The council chain\<close>

record council_env =
  ce_price :: "(pyfloat, string) sum"
  ce_market :: "gamma_market option result"
  ce_book :: "book option result"
  ce_log :: db_fault

definition logged :: "council_env \<Rightarrow> 'a \<Rightarrow> 'a result" where
  "logged x r = (if ce_log x = NoFault then Inr r else Inl DbError)"

definition freshen :: "verification \<Rightarrow> finding \<Rightarrow> finding" where
  "freshen v f = f\<lparr>fd_ask := (if fgt (v_ask v) (Fin 0) then v_ask v else fd_ask f),
                   fd_bid := (if fgt (v_bid v) (Fin 0) then v_bid v else fd_bid f)\<rparr>"

definition run_council ::
  "bool \<Rightarrow> council_env \<Rightarrow> finding \<Rightarrow> pyfloat \<Rightarrow> int \<Rightarrow> (finding \<times> gate_result \<times> risk_result) option result" where
  "run_council dry x f bankroll open_positions =
    rbind (verify (ce_price x) f) (\<lambda>v.
     if \<not> v_pass v then logged x None else
     let f1 = freshen v f in
     rbind (redteam (ce_market x) (ce_book x) f1 v) (\<lambda>rt.
      if \<not> rt_pass rt then logged x None else
      rbind (risk f1 v rt bankroll open_positions) (\<lambda>rk.
       if \<not> rk_pass rk then logged x None else
       rbind (gate dry v rt rk) (\<lambda>g.
        if \<not> g_pass g then logged x None else logged x (Some (f1, g, rk))))))"

section \<open>The entry gates\<close>

record entry_env =
  ee_council :: council_env
  ee_risk_fault :: store_fault
  ee_risk_db :: risk_db
  ee_exec :: exec_env
  ee_id :: string
  ee_now :: tstamp
  ee_log :: db_fault

definition VALID_RISK_MODES :: "string list" where
  "VALID_RISK_MODES = [''Operational'', ''Cooldown'', ''Exit-Only'', ''Halted'', ''Kill-Switch'']"

definition effective_risk_mode :: "store_fault \<Rightarrow> risk_db \<Rightarrow> string" where
  "effective_risk_mode f d = (case load_risk_state f d of
      Inl _ \<Rightarrow> ''Halted''
    | Inr snap \<Rightarrow> (case rs_mode snap of
        JVal (PStr m) \<Rightarrow> if m \<in> set VALID_RISK_MODES then m else ''Halted''
      | _ \<Rightarrow> ''Halted''))"

text \<open>The gates in their order; each says whether a position may still be opened.\<close>

definition entry_allowed :: "loop_config \<Rightarrow> entry_env \<Rightarrow> exec_stats \<Rightarrow> bool result" where
  "entry_allowed cfg x st =
    (if \<not> lc_authority cfg then Inr False
     else if \<not> lc_entries cfg then Inr False
     else if effective_risk_mode (ee_risk_fault x) (ee_risk_db x) \<noteq> ''Operational'' then Inr False
     else rbind (max_trades_first_session_halt (st_trades st) None) (\<lambda>r1.
       if r1 = Some ''max_trades_stop'' then Inr False else
       rbind (no_fill_burst_halt (st_no_fill st) None) (\<lambda>r2.
       if r2 = Some ''no_fill_burst_stop'' then Inr False else
       rbind (fill_to_submit_halt (st_trades st) (st_submits st) None None) (\<lambda>r3.
         Inr (r3 \<noteq> Some ''fill_to_submit_stop'')))))"

section \<open>Execution and its book-keeping\<close>

definition count_submit :: "bot \<Rightarrow> bot" where
  "count_submit b = b\<lparr>bt_stats := increment_submit_count (bt_stats b)\<rparr>"

definition count_miss :: "bot \<Rightarrow> bot" where
  "count_miss b = b\<lparr>bt_stats := increment_no_fill_streak (bt_stats b)\<rparr>"

definition add_open :: "position \<Rightarrow> bot \<Rightarrow> bot" where
  "add_open p b = b\<lparr>bt_open := bt_open b @ [p],
     bt_stats := reset_no_fill_streak (increment_trade_count (bt_stats b))\<rparr>"

definition with_slippage :: "pyfloat \<Rightarrow> position \<Rightarrow> position result" where
  "with_slippage ask p =
    (if f_truthy (p_entry p) \<and> f_truthy ask \<and> fgt ask (Fin 0)
     then rbind (fdiv (fsub (p_entry p) ask) ask) (\<lambda>s. Inr (p\<lparr>p_ask_at_decision := Some ask, p_slippage := Some s\<rparr>))
     else Inr (p\<lparr>p_ask_at_decision := Some ask\<rparr>))"

text \<open>Each returns whether a position was opened.\<close>

definition enter_dry ::
  "loop_config \<Rightarrow> entry_env \<Rightarrow> finding \<Rightarrow> gate_result \<Rightarrow> risk_result \<Rightarrow> bot \<Rightarrow> bool result \<times> bot" where
  "enter_dry cfg x f g rk b =
    (case dry_execute (lc_dry cfg) (ee_id x) (ee_now x) f g rk (n_open b) of
       Inl e \<Rightarrow> (Inl e, b)
     | Inr None \<Rightarrow> (Inr False, count_miss (count_submit b))
     | Inr (Some p) \<Rightarrow>
        (case with_slippage (fd_ask f) p of Inl e \<Rightarrow> (Inl e, count_submit b)
         | Inr p1 \<Rightarrow>
            (case log_position_open (ee_log x) (lc_dry cfg) p1 (bt_db b) of
               (Inl e, w) \<Rightarrow> (Inl e, (count_submit b)\<lparr>bt_db := w\<rparr>)
             | (Inr p2, w) \<Rightarrow> (Inr True, add_open p2 ((count_submit b)\<lparr>bt_db := w\<rparr>)))))"

definition enter_live ::
  "loop_config \<Rightarrow> entry_env \<Rightarrow> finding \<Rightarrow> gate_result \<Rightarrow> risk_result \<Rightarrow> bot \<Rightarrow> bool result \<times> bot" where
  "enter_live cfg x f g rk b =
    (case execute ((ee_exec x)\<lparr>x_dry_run := lc_dry cfg\<rparr>) f g rk (bt_db b) of
       (Inl e, w) \<Rightarrow> (Inl e, b\<lparr>bt_db := w\<rparr>)
     | (Inr out, w) \<Rightarrow>
        let b1 = count_submit (b\<lparr>bt_db := w\<rparr>) in
        (case out of
           Opened p \<Rightarrow> (Inr True, add_open p b1)
         | DuplicateFill _ _ _ \<Rightarrow> (Inr False, b1)
         | RecoveryRequired _ _ \<Rightarrow> (Inr False, count_miss b1)
         | NoPosition \<Rightarrow> (Inr False, count_miss b1)))"

definition enter ::
  "loop_config \<Rightarrow> entry_env \<Rightarrow> finding \<Rightarrow> gate_result \<Rightarrow> risk_result \<Rightarrow> bot \<Rightarrow> bool result \<times> bot" where
  "enter cfg x f g rk b = (if lc_dry cfg then enter_dry cfg x f g rk b else enter_live cfg x f g rk b)"

section \<open>The scan\<close>

fun scan_findings ::
  "loop_config \<Rightarrow> pyfloat \<Rightarrow> (finding \<times> entry_env) list \<Rightarrow> string list \<Rightarrow> bot \<Rightarrow> unit result \<times> bot" where
  "scan_findings cfg bankroll [] open_slugs b = (Inr (), b)"
| "scan_findings cfg bankroll ((f, x) # rest) open_slugs b =
    (if n_open b \<ge> MAX_OPEN_POSITIONS then (Inr (), b)
     else if fd_slug f \<in> set open_slugs \<or> fd_slug f \<in> set (bt_failed b)
     then scan_findings cfg bankroll rest open_slugs b
     else case run_council (lc_dry cfg) (ee_council x) f bankroll (n_open b) of
       Inl e \<Rightarrow> (Inl e, b)
     | Inr None \<Rightarrow> scan_findings cfg bankroll rest open_slugs b
     | Inr (Some (f1, g, rk)) \<Rightarrow>
        (case entry_allowed cfg x (bt_stats b) of
           Inl e \<Rightarrow> (Inl e, b)
         | Inr False \<Rightarrow> scan_findings cfg bankroll rest open_slugs b
         | Inr True \<Rightarrow>
            (case enter cfg x f1 g rk b of
               (Inl e, b1) \<Rightarrow> (Inl e, b1)
             | (Inr opened, b1) \<Rightarrow>
                scan_findings cfg bankroll rest (if opened then fd_slug f # open_slugs else open_slugs) b1)))"

text \<open>The scan line prints the fair value and the edge of every finding, which must be there.\<close>

definition printable :: "finding \<times> entry_env \<Rightarrow> unit result" where
  "printable fx = rbind (key_of (fd_fair (fst fx))) (\<lambda>_. rbind (key_of (fd_edge (fst fx))) (\<lambda>_. Inr ()))"

definition scan_and_execute ::
  "loop_config \<Rightarrow> pyfloat \<Rightarrow> (finding \<times> entry_env) list result \<Rightarrow> bot \<Rightarrow> unit result \<times> bot" where
  "scan_and_execute cfg bankroll findings b =
    (if n_open b \<ge> MAX_OPEN_POSITIONS then (Inr (), b) else
     case rbind findings (\<lambda>fs. rbind (mapM_r printable fs) (\<lambda>_. Inr fs)) of
       Inl e \<Rightarrow> (Inl e, b)
     | Inr fs \<Rightarrow> scan_findings cfg bankroll fs (map p_slug (bt_open b)) b)"

end
