(* ===== verification/MonitorLoop.thy ===== *)
theory MonitorLoop
  imports EntryLoop
begin

text \<open>
  How an open position is watched and closed in \<open>main_loop.py\<close>: one monitor cycle over all open positions
  (\<open>_monitor_positions\<close>: the websocket path and the REST heartbeat), the panic flatten, the closing by a
  websocket resolution event and the healing of closes without a price. What the outside does during the
  handling of one position is a \<open>watch_env\<close>: the websocket cache and the clocks at each point where the
  code reads them, the REST answers and the outcome of a sale. Telegram messages, prints, websocket
  unsubscriptions and the air-pocket shadow task are not modelled.
\<close>

section \<open>The outside of one position's turn\<close>

record window =
  wd_secs :: pyfloat
  wd_bid :: pyfloat
  wd_ask :: pyfloat

text \<open>Reads of the websocket cache: 0 the first price, 1 the YES ask after the NO quote, 2 inside
  \<open>check_exit\<close>, 3 the exit price, 4 the ask of the sale. Clocks: 0 \<open>check_exit\<close>, 1 the first exit decision,
  2 the sale, 3 the close.\<close>

record watch_env =
  me_cache :: "nat \<Rightarrow> ws_cache"
  me_time :: "nat \<Rightarrow> pyfloat"
  me_clock :: "nat \<Rightarrow> tstamp"
  me_hl :: "pyfloat result"
  me_window :: "window option result"
  me_resolved :: "(pyfloat \<times> pyfloat) option result"
  me_quote :: "nat \<Rightarrow> snapshot option result"
  me_sell_quote :: "snapshot option result"
  me_post :: post_outcome
  me_log :: db_fault

definition ws_bid :: "watch_env \<Rightarrow> nat \<Rightarrow> string option \<Rightarrow> pyfloat option" where
  "ws_bid x k tok = (case tok of None \<Rightarrow> None | Some t \<Rightarrow> get_bid (me_cache x k) (me_time x k) t)"

definition ws_ask :: "watch_env \<Rightarrow> nat \<Rightarrow> string option \<Rightarrow> pyfloat option" where
  "ws_ask x k tok = (case tok of None \<Rightarrow> None | Some t \<Rightarrow> get_ask (me_cache x k) (me_time x k) t)"

definition sell_env_of :: "watch_env \<Rightarrow> position \<Rightarrow> sell_env" where
  "sell_env_of x pos = \<lparr>se_quote = me_sell_quote x, se_ask = ws_ask x 4 (exit_token pos), se_post = me_post x,
     se_now = me_clock x 2\<rparr>"

section \<open>Pricing\<close>

record priced =
  pr_yes :: pyfloat
  pr_secs :: pyfloat
  pr_source :: string
  pr_quality :: string
  pr_hl :: pyfloat

definition complement :: "pyfloat \<Rightarrow> pyfloat" where
  "complement v = f_round 4 (fsub (Fin 1) v)"

text \<open>The websocket path: cached context, no request. \<open>None\<close> skips the position in this cycle.\<close>

definition price_ws :: "watch_env \<Rightarrow> position \<Rightarrow> priced option" where
  "price_ws x pos = (case p_cached_hl pos of None \<Rightarrow> None | Some hl \<Rightarrow>
     let secs = (case p_cached_secs pos of None \<Rightarrow> Fin 900 | Some s \<Rightarrow> s) in
     if p_action pos = ''YES''
     then map_option (\<lambda>v. \<lparr>pr_yes = v, pr_secs = secs, pr_source = ''ws_bid'', pr_quality = ''exact'', pr_hl = hl\<rparr>)
            (ws_bid x 0 (p_yes_tok pos))
     else
       let no_bid = ws_bid x 0 (nonempty (p_no_tok pos)) in
       map_option (\<lambda>v. \<lparr>pr_yes = v, pr_secs = secs,
           pr_source = (if no_bid \<noteq> None then ''ws_bid'' else ''ws_ask_complement''),
           pr_quality = (if no_bid \<noteq> None then ''exact'' else ''estimated''), pr_hl = hl\<rparr>)
         (case ws_ask x 0 (p_yes_tok pos) of Some a \<Rightarrow> Some a | None \<Rightarrow> map_option complement no_bid))"

text \<open>The YES side of the heartbeat: the websocket bid, else the bid of a quote.\<close>

definition quote_bid :: "snapshot option \<Rightarrow> pyfloat option" where "quote_bid q = Option.bind q sn_bid"
definition quote_ask :: "snapshot option \<Rightarrow> pyfloat option" where "quote_ask q = Option.bind q sn_ask"

definition rest_yes :: "watch_env \<Rightarrow> position \<Rightarrow> (pyfloat option \<times> string \<times> string) result" where
  "rest_yes x pos = (case ws_bid x 0 (p_yes_tok pos) of
     Some b \<Rightarrow> Inr (Some b, ''ws_bid'', ''exact'')
   | None \<Rightarrow> rbind (me_quote x 0) (\<lambda>q. Inr (quote_bid q, ''book_bid'', ''exact'')))"

text \<open>The NO side: the websocket bid of the NO token, else the bid of its quote, which is kept in the dict
  for \<open>check_exit\<close>, else the complement; and the YES ask, from the cache, a quote or either bid.\<close>

definition rest_no_bid ::
  "watch_env \<Rightarrow> position \<Rightarrow> (pyfloat option \<times> pyfloat option \<times> string \<times> string) result" where
  "rest_no_bid x pos = (case ws_bid x 0 (nonempty (p_no_tok pos)) of
     Some b \<Rightarrow> Inr (Some b, None, ''ws_bid'', ''exact'')
   | None \<Rightarrow> rbind (if nonempty (p_no_tok pos) = None then Inr None else me_quote x 0) (\<lambda>q.
       Inr (case quote_bid q of Some c \<Rightarrow> (None, Some c, ''book_bid'', ''clob_fallback'')
         | None \<Rightarrow> (None, None, ''complement'', ''estimated''))))"

definition rest_yes_ask :: "watch_env \<Rightarrow> position \<Rightarrow> pyfloat option \<Rightarrow> pyfloat option result" where
  "rest_yes_ask x pos eff_no = (case ws_ask x 1 (p_yes_tok pos) of
     Some a \<Rightarrow> Inr (Some a)
   | None \<Rightarrow> rbind (me_quote x 1) (\<lambda>q. Inr (case quote_ask q of Some a \<Rightarrow> Some a | None \<Rightarrow> map_option complement eff_no)))"

datatype heartbeat = Unpriced | ResolvedAt pyfloat pyfloat | PricedAt priced window

definition resolved_price :: "position \<Rightarrow> pyfloat \<times> pyfloat \<Rightarrow> pyfloat" where
  "resolved_price pos r = (if p_action pos = ''YES'' then fst r else snd r)"

definition to_priced :: "pyfloat \<Rightarrow> window \<Rightarrow> pyfloat option \<Rightarrow> string \<Rightarrow> string \<Rightarrow> heartbeat" where
  "to_priced hl wd v source quality = (case v of None \<Rightarrow> Unpriced
     | Some y \<Rightarrow> PricedAt \<lparr>pr_yes = y, pr_secs = wd_secs wd, pr_source = source, pr_quality = quality, pr_hl = hl\<rparr> wd)"

definition heartbeat_price :: "watch_env \<Rightarrow> pyfloat \<Rightarrow> window \<Rightarrow> position \<Rightarrow> heartbeat result \<times> position" where
  "heartbeat_price x hl wd pos =
    (if p_action pos = ''YES'' then
       (case rest_yes x pos of Inl e \<Rightarrow> (Inl e, pos)
        | Inr (v, source, quality) \<Rightarrow> (Inr (to_priced hl wd v source quality), pos))
     else (case rest_no_bid x pos of Inl e \<Rightarrow> (Inl e, pos)
        | Inr (no_bid, no_clob, source, quality) \<Rightarrow>
           let pos1 = (if no_clob = None then pos else pos\<lparr>p_no_clob_bid := no_clob\<rparr>) in
           (case rest_yes_ask x pos1 (case no_bid of Some b \<Rightarrow> Some b | None \<Rightarrow> p_no_clob_bid pos1) of
              Inl e \<Rightarrow> (Inl e, pos1)
            | Inr v \<Rightarrow> (Inr (to_priced hl wd v source quality), pos1))))"

definition price_rest :: "watch_env \<Rightarrow> position \<Rightarrow> heartbeat result \<times> position" where
  "price_rest x pos = (case me_hl x of Inl e \<Rightarrow> (Inl e, pos)
   | Inr hl \<Rightarrow> let pos1 = pos\<lparr>p_cached_hl := Some hl\<rparr> in
     (case me_window x of Inl e \<Rightarrow> (Inl e, pos1)
      | Inr None \<Rightarrow> (case me_resolved x of Inl e \<Rightarrow> (Inl e, pos1)
          | Inr None \<Rightarrow> (Inr Unpriced, pos1)
          | Inr (Some r) \<Rightarrow> (Inr (ResolvedAt (resolved_price pos r) hl), pos1))
      | Inr (Some wd) \<Rightarrow> heartbeat_price x hl wd (pos1\<lparr>p_cached_secs := Some (wd_secs wd)\<rparr>)))"

section \<open>Closing a position\<close>

text \<open>\<open>_apply_partial_fill\<close>: true for a partial fill, which is booked in the dict. A reloaded dict without
  proceeds so far has None under the key, and adding to it raises after the shares were reduced.\<close>

definition FULL_FILL :: pyfloat where "FULL_FILL = flit 0.98"

definition part_sum :: "position \<Rightarrow> pyfloat option \<Rightarrow> pyfloat \<Rightarrow> pyfloat result" where
  "part_sum pos old v = (case old of Some o' \<Rightarrow> Inr (f_round 6 (fadd o' v))
     | None \<Rightarrow> if p_part_keys pos then Inl TypeError else Inr (f_round 6 (fadd (Fin 0) v)))"

definition apply_partial_fill :: "position \<Rightarrow> pyfloat \<Rightarrow> pyfloat \<Rightarrow> bool result \<times> position" where
  "apply_partial_fill pos pm_exit making_shares =
    (let old_shares = or_zero (p_shares pos) in
     if fle old_shares (Fin 0) \<or> fge making_shares (fmul old_shares FULL_FILL) then (Inr False, pos) else
     let pos1 = pos\<lparr>p_shares := Some (f_round 6 (fsub old_shares making_shares)), p_closing := False,
                    p_part_count := p_part_count pos + 1\<rparr> in
     (case part_sum pos1 (p_part_shares pos1) making_shares of Inl e \<Rightarrow> (Inl e, pos1)
      | Inr s \<Rightarrow> let pos2 = pos1\<lparr>p_part_shares := Some s\<rparr> in
        (case part_sum pos2 (p_part_usdc pos2) (fmul pm_exit making_shares) of Inl e \<Rightarrow> (Inl e, pos2)
         | Inr u \<Rightarrow> (Inr True, pos2\<lparr>p_part_usdc := Some u\<rparr>))))"

text \<open>What becomes of a position in one turn: it stays (changed), or it goes with its closed record; a stop
  loss also bars its slug.\<close>

datatype fate = Stay position | Gone position "string option"

definition exit_price :: "watch_env \<Rightarrow> bool \<Rightarrow> priced \<Rightarrow> window option \<Rightarrow> position \<Rightarrow> pyfloat" where
  "exit_price x ws_triggered pr wd pos =
    (if p_action pos = ''NO'' then
       (case ws_bid x 3 (p_no_tok pos) of Some b \<Rightarrow> b
        | None \<Rightarrow> complement (case wd of None \<Rightarrow> pr_yes pr | Some w \<Rightarrow> if ws_triggered then pr_yes pr else wd_ask w))
     else (case ws_bid x 3 (p_yes_tok pos) of Some b \<Rightarrow> b
        | None \<Rightarrow> (case wd of None \<Rightarrow> pr_yes pr | Some w \<Rightarrow> if ws_triggered then pr_yes pr else wd_bid w)))"

definition finish_close ::
  "watch_env \<Rightarrow> position \<Rightarrow> string \<Rightarrow> pyfloat \<Rightarrow> pyfloat \<Rightarrow> world \<Rightarrow> fate \<times> world" where
  "finish_close x pos reason pm_exit hl w =
    (let closed = close_position (me_clock x 3) pos reason (Some pm_exit) (Some hl) in
     (Gone closed (if reason = ''stop_loss_hit'' then Some (p_slug pos) else None),
      snd (log_position_close (me_log x) closed w)))"

definition live_exit ::
  "watch_env \<Rightarrow> priced \<Rightarrow> pyfloat \<Rightarrow> string \<Rightarrow> position \<Rightarrow> world \<Rightarrow> fate \<times> world" where
  "live_exit x pr bid reason pos w =
    (let pos1 = pos\<lparr>p_closing := True, p_tel := (p_tel pos)\<lparr>t_current_bid := Some bid\<rparr>\<rparr> in
     case sell_position (sell_env_of x pos1) pos1 of
       (Inl e, pos2) \<Rightarrow> (Stay pos2, w)
     | (Inr None, pos2) \<Rightarrow> (Stay (pos2\<lparr>p_closing := False\<rparr>), w)
     | (Inr (Some (pm_exit, making)), pos2) \<Rightarrow>
        (case apply_partial_fill pos2 pm_exit making of
           (Inl e, pos3) \<Rightarrow> (Stay pos3, w)
         | (Inr True, pos3) \<Rightarrow> (Stay pos3, snd (log_partial_fill_update (me_log x) pos3 w))
         | (Inr False, pos3) \<Rightarrow> finish_close x pos3 reason pm_exit (pr_hl pr) w))"

text \<open>From the price to the exit decision and its execution.\<close>

definition decide_exit ::
  "loop_config \<Rightarrow> watch_env \<Rightarrow> bool \<Rightarrow> priced \<Rightarrow> window option \<Rightarrow> position \<Rightarrow> world \<Rightarrow> fate \<times> world" where
  "decide_exit cfg x ws_triggered pr wd pos w =
    (case check_exit (\<lambda>t. ws_bid x 2 (Some t)) (me_clock x 0) pos (pr_yes pr) (pr_secs pr) of
       (Inl e, pos1) \<Rightarrow> (Stay pos1, w)
     | (Inr verdict, pos1) \<Rightarrow>
        let pos2 = pos1\<lparr>p_tel := (p_tel pos1)\<lparr>t_price_source := Some (pr_source pr), t_mae_quality := Some (pr_quality pr)\<rparr>\<rparr> in
        (case verdict of None \<Rightarrow> (Stay pos2, w)
         | Some reason \<Rightarrow>
            let pos3 = pos2\<lparr>p_tel := (p_tel pos2)\<lparr>t_first_exit_decision :=
                    setdefault (t_first_exit_decision (p_tel pos2)) (me_clock x 1)\<rparr>\<rparr>;
                px = exit_price x ws_triggered pr wd pos3 in
            if lc_dry cfg then finish_close x pos3 reason px (pr_hl pr) w
            else live_exit x pr px reason pos3 w))"

text \<open>One position's turn. The record of a resolution is written before the position is removed, so a
  failed write leaves it open.\<close>

definition watch_position :: "loop_config \<Rightarrow> bool \<Rightarrow> watch_env \<Rightarrow> position \<Rightarrow> world \<Rightarrow> fate \<times> world" where
  "watch_position cfg ws_triggered x pos w =
    (if p_closing pos then (Stay pos, w) else
     let pos0 = pos\<lparr>p_no_clob_bid := None\<rparr> in
     if ws_triggered then
       (case price_ws x pos0 of None \<Rightarrow> (Stay pos0, w) | Some pr \<Rightarrow> decide_exit cfg x True pr None pos0 w)
     else (case price_rest x pos0 of
         (Inl e, pos1) \<Rightarrow> (Stay pos1, w)
       | (Inr Unpriced, pos1) \<Rightarrow> (Stay pos1, w)
       | (Inr (ResolvedAt pm_exit hl), pos1) \<Rightarrow>
          let closed = close_position (me_clock x 3) pos1 ''market_resolved'' (Some pm_exit) (Some hl) in
          (case log_position_close (me_log x) closed w of
             (Inl e, w') \<Rightarrow> (Stay pos1, w') | (Inr _, w') \<Rightarrow> (Gone closed None, w'))
       | (Inr (PricedAt pr wd), pos1) \<Rightarrow> decide_exit cfg x False pr (Some wd) pos1 w))"

section \<open>Turns over all open positions\<close>

text \<open>The three loops \<open>for pos in list(open_positions)\<close>: every position gets its turn, stays or goes, and an
  error ends the loop with the rest untouched. A dict that is removed is found by its value; equal dicts
  are interchangeable.\<close>

type_synonym turn = "(unit result \<times> fate) \<times> world"

definition settle :: "fate \<Rightarrow> bot \<Rightarrow> bot" where
  "settle f b = (case f of Stay p \<Rightarrow> b
     | Gone q slug \<Rightarrow> b\<lparr>bt_closed := bt_closed b @ [q],
         bt_failed := (case slug of None \<Rightarrow> bt_failed b | Some s \<Rightarrow> s # bt_failed b)\<rparr>)"

definition keep :: "fate \<Rightarrow> position list \<Rightarrow> position list" where
  "keep f ps = (case f of Stay p \<Rightarrow> p # ps | Gone _ _ \<Rightarrow> ps)"

fun take_turns :: "(position \<Rightarrow> world \<Rightarrow> turn) \<Rightarrow> position list \<Rightarrow> bot \<Rightarrow> unit result \<times> bot" where
  "take_turns turn [] b = (Inr (), b\<lparr>bt_open := []\<rparr>)"
| "take_turns turn (p # ps) b =
    (case turn p (bt_db b) of ((r, f), w) \<Rightarrow>
       let b1 = settle f (b\<lparr>bt_db := w\<rparr>) in
       (case (case r of Inl e \<Rightarrow> (Inl e, b1\<lparr>bt_open := ps\<rparr>) | Inr _ \<Rightarrow> take_turns turn ps b1) of
          (r', b2) \<Rightarrow> (r', b2\<lparr>bt_open := keep f (bt_open b2)\<rparr>)))"

section \<open>One monitor cycle\<close>

text \<open>Each turn swallows its errors, so the cycle returns. \<open>mc_event\<close>: a price event came within the interval.\<close>

record monitor_env =
  mc_event :: bool
  mc_now :: pyfloat
  mc_after :: pyfloat
  mc_watch :: "string \<Rightarrow> watch_env"

definition SCAN_INTERVAL_SECS :: pyfloat where "SCAN_INTERVAL_SECS = Fin 7"

definition ws_triggered :: "monitor_env \<Rightarrow> pyfloat \<Rightarrow> bool" where
  "ws_triggered x last_rest_ts = (mc_event x \<and> \<not> fge (fsub (mc_now x) last_rest_ts) SCAN_INTERVAL_SECS)"

definition watch_turn :: "loop_config \<Rightarrow> bool \<Rightarrow> (string \<Rightarrow> watch_env) \<Rightarrow> position \<Rightarrow> world \<Rightarrow> turn" where
  "watch_turn cfg ws env p w = (case watch_position cfg ws (env (p_id p)) p w of (f, w') \<Rightarrow> ((Inr (), f), w'))"

definition monitor_positions :: "loop_config \<Rightarrow> monitor_env \<Rightarrow> pyfloat \<Rightarrow> bot \<Rightarrow> bool \<times> pyfloat \<times> bot" where
  "monitor_positions cfg x last_rest_ts b =
    (let ws = ws_triggered x last_rest_ts in
     (ws, if ws then last_rest_ts else mc_after x, snd (take_turns (watch_turn cfg ws (mc_watch x)) (bt_open b) b)))"

section \<open>Panic flatten\<close>

record flat_env =
  fe_sell :: sell_env
  fe_clock :: tstamp
  fe_log :: db_fault

text \<open>Errors of the sale are not caught; a partial fill is booked in the dict only.\<close>

definition flatten_turn :: "(string \<Rightarrow> flat_env) \<Rightarrow> position \<Rightarrow> world \<Rightarrow> turn" where
  "flatten_turn env pos w =
    (if p_closing pos then ((Inr (), Stay pos), w) else
     case sell_position (fe_sell (env (p_id pos))) (pos\<lparr>p_closing := True\<rparr>) of
       (Inl e, pos1) \<Rightarrow> ((Inl e, Stay pos1), w)
     | (Inr None, pos1) \<Rightarrow> ((Inr (), Stay (pos1\<lparr>p_closing := False\<rparr>)), w)
     | (Inr (Some (pm_exit, making)), pos1) \<Rightarrow>
        (case apply_partial_fill pos1 pm_exit making of
           (Inl e, pos2) \<Rightarrow> ((Inl e, Stay pos2), w)
         | (Inr True, pos2) \<Rightarrow> ((Inr (), Stay pos2), w)
         | (Inr False, pos2) \<Rightarrow>
            (let closed = close_position (fe_clock (env (p_id pos))) pos2 ''panic_flatten'' (Some pm_exit) (p_cached_hl pos2) in
             ((Inr (), Gone closed None), snd (log_position_close (fe_log (env (p_id pos))) closed w)))))"

definition do_flatten :: "(string \<Rightarrow> flat_env) \<Rightarrow> bot \<Rightarrow> unit result \<times> bot" where
  "do_flatten env b = take_turns (flatten_turn env) (bt_open b) b"

section \<open>A resolution event of the websocket\<close>

record resolve_env =
  rv_hl :: "pyfloat result"
  rv_clock :: tstamp
  rv_log :: db_fault

definition hashable :: "json \<Rightarrow> bool" where
  "hashable j = (case j of JVal _ \<Rightarrow> True | _ \<Rightarrow> False)"

definition assets_of :: "json \<Rightarrow> json list result" where
  "assets_of event = rbind (json_get event ''assets_ids'') (\<lambda>v.
     rbind (case v of None \<Rightarrow> Inr [] | Some j \<Rightarrow> json_iter j) (\<lambda>js.
     if list_all hashable js then Inr js else Inl TypeError))"

definition token_in :: "string option \<Rightarrow> json list \<Rightarrow> bool" where
  "token_in tok js = (case tok of None \<Rightarrow> JVal PNone \<in> set js | Some t \<Rightarrow> jstr t \<in> set js)"

definition outcome_exit :: "position \<Rightarrow> json option \<Rightarrow> pyfloat" where
  "outcome_exit pos winner = (if p_action pos = ''YES''
     then (if winner = Some (jstr ''Yes'') then Fin 1 else Fin 0)
     else (if winner = Some (jstr ''No'') then Fin 1 else Fin 0))"

definition resolve_turn ::
  "(string \<Rightarrow> resolve_env) \<Rightarrow> json option \<Rightarrow> json list \<Rightarrow> position \<Rightarrow> world \<Rightarrow> turn" where
  "resolve_turn env winner assets pos w =
    (if \<not> token_in (p_yes_tok pos) assets \<and> \<not> token_in (p_no_tok pos) assets then ((Inr (), Stay pos), w) else
     let x = env (p_id pos);
         hl = (case rv_hl x of Inl _ \<Rightarrow> None | Inr v \<Rightarrow> Some v);
         closed = close_position (rv_clock x) pos ''market_resolved'' (Some (outcome_exit pos winner)) hl in
     case log_position_close (rv_log x) closed w of
       (Inl e, w') \<Rightarrow> ((Inl e, Stay pos), w')
     | (Inr _, w') \<Rightarrow> ((Inr (), Gone closed (Some (p_slug pos))), w'))"

definition handle_ws_resolved :: "(string \<Rightarrow> resolve_env) \<Rightarrow> json \<Rightarrow> bot \<Rightarrow> unit result \<times> bot" where
  "handle_ws_resolved env event b =
    (case rbind (json_get event ''winning_outcome'') (\<lambda>won. rbind (assets_of event) (\<lambda>assets. Inr (won, assets))) of
       Inl e \<Rightarrow> (Inl e, b)
     | Inr (won, assets) \<Rightarrow>
         if assets = [] then (Inr (), b) else take_turns (resolve_turn env won assets) (bt_open b) b)"

section \<open>Late resolutions\<close>

record heal_env =
  he_resolved :: "(pyfloat \<times> pyfloat) option result"
  he_hl :: "pyfloat result"
  he_log :: db_fault

definition unresolved_rows :: "world \<Rightarrow> position list" where
  "unresolved_rows w = take 3 (filter (\<lambda>r. p_status r = ''closed'' \<and> p_exit_price r = None) (w_positions w))"

definition late_pnl :: "position \<Rightarrow> pyfloat \<Rightarrow> pyfloat result" where
  "late_pnl r pm_exit = rbind (fdiv (fsub pm_exit (p_entry r)) (p_entry r)) (\<lambda>q. Inr (fmul q (p_usd r)))"

fun heal_first :: "string \<Rightarrow> pyfloat \<Rightarrow> pyfloat \<Rightarrow> position list \<Rightarrow> position list" where
  "heal_first position_id pm_exit pnl [] = []"
| "heal_first position_id pm_exit pnl (p # ps) =
    (if p_id p = position_id
     then p\<lparr>p_exit_price := Some pm_exit, p_pnl := Some pnl, p_exit_reason := Some ''market_resolved_late''\<rparr> # ps
     else p # heal_first position_id pm_exit pnl ps)"

definition heal_row :: "(string \<Rightarrow> heal_env) \<Rightarrow> position \<Rightarrow> bot \<Rightarrow> bot" where
  "heal_row env r b =
    (let x = env (p_id r) in
     case he_resolved x of Inl _ \<Rightarrow> b | Inr None \<Rightarrow> b
     | Inr (Some prices) \<Rightarrow>
        let pm_exit = resolved_price r prices in
        if \<not> f_truthy (p_entry r) then b else
        (case late_pnl r pm_exit of Inl _ \<Rightarrow> b
         | Inr pnl \<Rightarrow>
            (case patch_position_resolution (he_log x) (p_id r) pm_exit pnl
                 (case he_hl x of Inl _ \<Rightarrow> None | Inr v \<Rightarrow> Some v) (bt_db b) of
               (Inl _, w) \<Rightarrow> b\<lparr>bt_db := w\<rparr>
             | (Inr _, w) \<Rightarrow> b\<lparr>bt_db := w, bt_closed := heal_first (p_id r) pm_exit pnl (bt_closed b)\<rparr>)))"

definition heal_pending_resolutions :: "db_fault \<Rightarrow> (string \<Rightarrow> heal_env) \<Rightarrow> bot \<Rightarrow> unit result \<times> bot" where
  "heal_pending_resolutions query env b =
    (if query \<noteq> NoFault then (Inl DbError, b) else (Inr (), fold (heal_row env) (unresolved_rows (bt_db b)) b))"

end
