(* ===== verification/Telegram.thy ===== *)
theory Telegram
  imports Monitor
begin

text \<open>
  \<open>monitor/telegram_commands.py\<close>: who may give commands and what each does to the process flags. The
  replies, which only report, and the statistics queries behind them are not modelled; a command that
  raises is swallowed by the polling loop.
\<close>

definition is_authorized :: "string \<Rightarrow> string \<Rightarrow> bool" where
  "is_authorized own_chat chat = (chat = own_chat)"

text \<open>\<open>str.isdigit\<close> also accepts the superscripts one to three of Latin-1, which \<open>int\<close> rejects.\<close>

definition ascii_digit :: "char \<Rightarrow> bool" where
  "ascii_digit c = (48 \<le> (of_char c :: nat) \<and> (of_char c :: nat) \<le> 57)"

definition digit_like :: "char \<Rightarrow> bool" where
  "digit_like c = (ascii_digit c \<or> (of_char c :: nat) \<in> {178, 179, 185})"

definition digits_value :: "string \<Rightarrow> int" where
  "digits_value s = foldl (\<lambda>n c. 10 * n + (of_char c - 48)) 0 s"

definition STATS :: string where "STATS = ''/istatistik''"

definition removeprefix :: "string \<Rightarrow> string \<Rightarrow> string" where
  "removeprefix p s = (if take (length p) s = p then drop (length p) s else s)"

definition parse_hours :: "string \<Rightarrow> int option result" where
  "parse_hours text =
    (let suffix = removeprefix STATS text in
     if suffix = [] then Inr None
     else if list_all digit_like suffix
     then (if list_all ascii_digit suffix then Inr (Some (digits_value suffix)) else Inl ValueError)
     else Inr None)"

definition handle_command :: "string \<Rightarrow> bot_state \<Rightarrow> bot_state" where
  "handle_command raw b =
    (let text = py_strip raw in
     if text = ''/pause'' then soft_pause b
     else if text = ''/devam'' then kill_disarm (reset_streak (soft_resume b))
     else if text = ''/flatten'' then request_flatten b
     else if text = ''/hardkill'' then kill_arm b
     else if text = ''/durdur'' then kill_arm b
     else if text = ''/baslat'' then kill_disarm (reset_streak (soft_resume b))
     else if text = ''/hardbaslat'' then hard_resume b
     else b)"

definition poll_message :: "string \<Rightarrow> string \<Rightarrow> string \<Rightarrow> bot_state \<Rightarrow> bot_state" where
  "poll_message own_chat chat raw b =
    (let text = py_strip raw in
     if \<not> is_authorized own_chat chat \<or> take 1 text \<noteq> ''/'' then b else handle_command text b)"

text \<open>A hard pause and a shutdown request outlive every command but the one for them.\<close>

lemma hard_pause_sticky: "py_strip raw \<noteq> ''/hardbaslat'' \<Longrightarrow> b_hard (handle_command raw b) = b_hard b"
  by (auto simp: handle_command_def soft_pause_def soft_resume_def request_flatten_def kill_arm_def kill_disarm_def
      reset_streak_def Let_def)

lemma hard_resume_keeps_soft: "b_hard b \<Longrightarrow> b_soft b \<Longrightarrow> is_paused (handle_command raw b)"
  by (auto simp: handle_command_def soft_pause_def soft_resume_def hard_resume_def request_flatten_def kill_arm_def
      kill_disarm_def reset_streak_def is_paused_def Let_def)

lemma unauthorized_ignored: "chat \<noteq> own \<Longrightarrow> poll_message own chat raw b = b"
  by (simp add: poll_message_def is_authorized_def)

lemma superscript_hours_raise: "parse_hours (STATS @ [CHR 0xB2]) = Inl ValueError"
  by code_simp

lemma some_hours: "parse_hours (STATS @ ''12'') = Inr (Some 12)"
  by code_simp

end
