(* ===== verification/MainLoop.thy ===== *)
theory MainLoop
  imports MonitorLoop Telegram
begin

text \<open>
  \<open>main_loop.py\<close> as a whole: the start (reload, \<open>execution/reconcile.py\<close>), and one iteration of the main
  loop with its kill switch, shutdown, flatten, monitor, resolution queue, breakers, pause, risk
  synchronisation, scan and healing, in this order. Between iterations Telegram commands and signals
  change the flags and the websocket task queues resolution events. An iteration is one step: a command
  that arrives while it awaits takes effect at the next one. The 4h and paper shadow tasks, the prints
  and the notifications, which swallow their errors, are not modelled.
\<close>

section \<open>execution/balance.py\<close>

definition balance_usdc :: "json \<Rightarrow> pyfloat result" where
  "balance_usdc bal = rbind (json_get bal ''balance'') (\<lambda>v.
     rbind (case v of None \<Rightarrow> Inr (Fin 0) | Some j \<Rightarrow> float_of_json j) (\<lambda>x. fdiv x (Fin 1000000)))"

definition get_effective_bankroll :: "bool \<Rightarrow> pyfloat \<Rightarrow> json result \<Rightarrow> pyfloat" where
  "get_effective_bankroll dry bankroll_config bal =
    (if dry then bankroll_config
     else case rbind bal balance_usdc of Inl _ \<Rightarrow> bankroll_config | Inr usdc \<Rightarrow> f_min usdc bankroll_config)"

section \<open>execution/ghost.py\<close>

definition known_token_ids :: "position list \<Rightarrow> string list" where
  "known_token_ids ps = List.map_filter id (concat (map (\<lambda>p. [nonempty (p_yes_tok p), nonempty (p_no_tok p)]) ps))"

text \<open>Each holding with the text of its asset.\<close>

definition detect_ghosts :: "(string \<times> 'a) list \<Rightarrow> position list \<Rightarrow> (string \<times> 'a) list" where
  "detect_ghosts portfolio ps = filter (\<lambda>h. fst h \<notin> set (known_token_ids ps)) portfolio"

section \<open>State\<close>

record main_state =
  ms_bot :: bot
  ms_flags :: bot_state
  ms_risk :: risk_db
  ms_last_rest :: pyfloat
  ms_start :: pyfloat
  ms_queue :: "json list"
  ms_shown :: "position list"

section \<open>Start\<close>

record recon_env =
  rc_window :: "window option result"
  rc_resolved :: "(pyfloat \<times> pyfloat) option result"
  rc_clock :: tstamp
  rc_log :: db_fault

definition reconcile_turn :: "(string \<Rightarrow> recon_env) \<Rightarrow> position \<Rightarrow> world \<Rightarrow> turn" where
  "reconcile_turn env pos w =
    (let x = env (p_id pos) in
     case rc_window x of Inl _ \<Rightarrow> ((Inr (), Stay pos), w) | Inr (Some _) \<Rightarrow> ((Inr (), Stay pos), w)
     | Inr None \<Rightarrow>
        (case rc_resolved x of Inl _ \<Rightarrow> ((Inr (), Stay pos), w)
         | Inr resolution \<Rightarrow>
            let q = close_position (rc_clock x) pos
                 (if resolution = None then ''startup_reconcile_expired'' else ''startup_reconcile_resolved'')
                 (map_option (resolved_price pos) resolution) None in
            (case log_position_close (rc_log x) q w of
               (Inl _, w') \<Rightarrow> ((Inr (), Stay pos), w') | (Inr _, w') \<Rightarrow> ((Inr (), Gone q None), w'))))"

text \<open>What is closed here is not among today's closed positions, which were loaded before.\<close>

definition startup_reconcile :: "bool \<Rightarrow> (string \<Rightarrow> recon_env) \<Rightarrow> bot \<Rightarrow> bot" where
  "startup_reconcile dry env b =
    (if dry then b else (snd (take_turns (reconcile_turn env) (bt_open b) b))\<lparr>bt_closed := bt_closed b\<rparr>)"

definition start_main ::
  "loop_config \<Rightarrow> pyfloat \<Rightarrow> json result \<Rightarrow> tstamp \<Rightarrow> (string \<Rightarrow> recon_env) \<Rightarrow> bot_state \<Rightarrow> risk_db \<Rightarrow> world \<Rightarrow> main_state" where
  "start_main cfg bank bal now env flags d w =
    \<lparr>ms_bot = startup_reconcile (lc_dry cfg) env
       \<lparr>bt_open = load_open_positions (lc_dry cfg) w, bt_closed = load_closed_today now w, bt_failed = [],
        bt_stats = \<lparr>st_trades = 0, st_no_fill = 0, st_submits = 0\<rparr>, bt_db = w\<rparr>,
     ms_flags = flags, ms_risk = d, ms_last_rest = Fin 0,
     ms_start = get_effective_bankroll (lc_dry cfg) bank bal, ms_queue = [], ms_shown = []\<rparr>"

section \<open>The parts of an iteration\<close>

record loop_env =
  le_monitor :: monitor_env
  le_flat :: "string \<Rightarrow> flat_env"
  le_events :: "json list"
  le_resolve :: "string \<Rightarrow> resolve_env"
  le_balance :: "nat \<Rightarrow> json result"
  le_day :: string
  le_updated :: json
  le_risk_fault :: store_fault
  le_findings :: "(finding \<times> entry_env) list result"
  le_heal_query :: db_fault
  le_heal :: "string \<Rightarrow> heal_env"

text \<open>An event leaves the queue before it is handled; an error keeps the later ones queued.\<close>

fun drain_resolved :: "(string \<Rightarrow> resolve_env) \<Rightarrow> json list \<Rightarrow> bot \<Rightarrow> unit result \<times> json list \<times> bot" where
  "drain_resolved env [] b = (Inr (), [], b)"
| "drain_resolved env (ev # evs) b = (case handle_ws_resolved env ev b of
     (Inl e, b') \<Rightarrow> (Inl e, evs, b') | (Inr _, b') \<Rightarrow> drain_resolved env evs b')"

fun note_closes :: "(nat \<Rightarrow> pyfloat) \<Rightarrow> pyfloat \<Rightarrow> position list \<Rightarrow> bot_state \<Rightarrow> bot_state" where
  "note_closes bankroll start [] fl = fl"
| "note_closes bankroll start (p # ps) fl = note_closes (\<lambda>n. bankroll (Suc n)) start ps
     (snd (on_trade_closed (or_zero (p_pnl p)) (bankroll 0) start fl))"

definition runtime_signals :: "loop_env \<Rightarrow> position list \<Rightarrow> pyfloat \<Rightarrow> string option \<Rightarrow> bool \<Rightarrow> risk_signals" where
  "runtime_signals x closed_today current_equity circuit kill =
    \<lparr>sg_day = le_day x, sg_updated = le_updated x, sg_equity = JVal (PFloat current_equity),
     sg_pnl = py_sum (map (or_zero \<circ> p_pnl) closed_today), sg_circuit = circuit, sg_kill = kill, sg_review = False\<rparr>"

definition sync_runtime_risk_state ::
  "loop_env \<Rightarrow> position list \<Rightarrow> pyfloat \<Rightarrow> string option \<Rightarrow> bool \<Rightarrow> risk_db \<Rightarrow> risk_snapshot result \<times> risk_db" where
  "sync_runtime_risk_state x closed_today current_equity circuit kill d =
     sync_risk_state_from_runtime_signals (le_risk_fault x) (runtime_signals x closed_today current_equity circuit kill) d"

text \<open>The entry gate reads the same risk database.\<close>

definition gated :: "risk_db \<Rightarrow> (finding \<times> entry_env) list \<Rightarrow> (finding \<times> entry_env) list" where
  "gated d fs = map (\<lambda>(f, e). (f, e\<lparr>ee_risk_db := d\<rparr>)) fs"

definition circuit_status :: "bot_state \<Rightarrow> string option" where
  "circuit_status fl = (if b_hard fl then Some ''hard_stop'' else if b_soft fl then Some ''soft_stop'' else None)"

definition scan_phase :: "loop_config \<Rightarrow> pyfloat \<Rightarrow> loop_env \<Rightarrow> main_state \<Rightarrow> unit result \<times> main_state" where
  "scan_phase cfg bankroll x ms =
    (case sync_runtime_risk_state x (bt_closed (ms_bot ms)) bankroll (circuit_status (ms_flags ms))
        (kill_check (ms_flags ms)) (ms_risk ms) of
       (Inl e, d) \<Rightarrow> (if e = RiskStateCorruptError then Inr () else Inl e, ms\<lparr>ms_risk := d\<rparr>)
     | (Inr _, d) \<Rightarrow> (case scan_and_execute cfg bankroll (map_sum id (gated d) (le_findings x)) (ms_bot ms) of
         (r, b) \<Rightarrow> (r, ms\<lparr>ms_risk := d, ms_bot := b\<rparr>)))"

definition heal_phase :: "loop_env \<Rightarrow> main_state \<Rightarrow> unit result \<times> main_state" where
  "heal_phase x ms = (case heal_pending_resolutions (le_heal_query x) (le_heal x) (ms_bot ms) of
     (Inl e, b) \<Rightarrow> (Inl e, ms\<lparr>ms_bot := b\<rparr>)
   | (Inr _, b) \<Rightarrow> (Inr (), ms\<lparr>ms_bot := b, ms_shown := bt_open b\<rparr>))"

section \<open>One iteration\<close>

text \<open>Monitoring: always done. The positions that closed go through the breakers, unless an event raised.\<close>

definition monitor_phase ::
  "loop_config \<Rightarrow> pyfloat \<Rightarrow> loop_env \<Rightarrow> main_state \<Rightarrow> bool \<times> unit result \<times> main_state" where
  "monitor_phase cfg bank x ms =
    (case monitor_positions cfg (le_monitor x) (ms_last_rest ms) (ms_bot ms) of (ws, ts, b1) \<Rightarrow>
     case drain_resolved (le_resolve x) (ms_queue ms @ le_events x) b1 of (r, q, b2) \<Rightarrow>
       let ms1 = ms\<lparr>ms_bot := b2, ms_last_rest := ts, ms_queue := q\<rparr> in
       (ws, r, if r \<noteq> Inr () then ms1 else
          ms1\<lparr>ms_flags := note_closes (\<lambda>n. get_effective_bankroll (lc_dry cfg) bank (le_balance x n)) (ms_start ms)
             (drop (length (bt_closed (ms_bot ms))) (bt_closed b2)) (ms_flags ms)\<rparr>))"

definition iteration_body :: "loop_config \<Rightarrow> pyfloat \<Rightarrow> loop_env \<Rightarrow> main_state \<Rightarrow> unit result \<times> main_state" where
  "iteration_body cfg bank x ms =
    (case monitor_phase cfg bank x ms of (ws, r, ms1) \<Rightarrow>
       if r \<noteq> Inr () then (r, ms1)
       else if is_paused (ms_flags ms1) then (Inr (), ms1)
       else if ws then (Inr (), ms1)
       else let n = length (bt_closed (ms_bot ms1)) - length (bt_closed (ms_bot ms)) in
         (case scan_phase cfg (get_effective_bankroll (lc_dry cfg) bank (le_balance x n)) x ms1 of
            (Inl e, ms2) \<Rightarrow> (Inl e, ms2) | (Inr _, ms2) \<Rightarrow> heal_phase x ms2))"

datatype loop_end = Goes_on | Stopped string | Crashed exn

definition flatten_phase :: "loop_env \<Rightarrow> main_state \<Rightarrow> unit result \<times> main_state" where
  "flatten_phase x ms =
    (if \<not> b_flatten (ms_flags ms) then (Inr (), ms)
     else case do_flatten (le_flat x) (ms_bot ms) of
       (r, b) \<Rightarrow> (r, ms\<lparr>ms_flags := clear_flatten (ms_flags ms), ms_bot := b\<rparr>))"

definition main_iteration :: "loop_config \<Rightarrow> pyfloat \<Rightarrow> loop_env \<Rightarrow> main_state \<Rightarrow> loop_end \<times> main_state" where
  "main_iteration cfg bank x ms =
    (if kill_check (ms_flags ms) then (Stopped ''kill_switch'', ms)
     else if is_shutdown_requested (ms_flags ms) then (Stopped ''shutdown'', ms)
     else case flatten_phase x ms of
       (Inl e, ms1) \<Rightarrow> (Crashed e, ms1)
     | (Inr _, ms1) \<Rightarrow> (Goes_on, snd (iteration_body cfg bank x ms1)))"

section \<open>The process\<close>

text \<open>The last iteration of a process, which stops or crashes, is a step like the others.\<close>

inductive main_step :: "loop_config \<Rightarrow> pyfloat \<Rightarrow> string \<Rightarrow> main_state \<Rightarrow> main_state \<Rightarrow> bool"
  for cfg bank own_chat where
  step_iteration: "main_iteration cfg bank x ms = (r, ms') \<Longrightarrow> main_step cfg bank own_chat ms ms'"
| step_command: "main_step cfg bank own_chat ms (ms\<lparr>ms_flags := poll_message own_chat chat raw (ms_flags ms)\<rparr>)"
| step_signal: "main_step cfg bank own_chat ms (ms\<lparr>ms_flags := on_shutdown_signal (ms_flags ms)\<rparr>)"
| step_kill_file: "main_step cfg bank own_chat ms (ms\<lparr>ms_flags := kill_arm (ms_flags ms)\<rparr>)"

inductive_cases main_stepE: "main_step cfg bank own_chat ms ms'"

end
