(* ===== verification/OrderSafety.thy ===== *)
theory OrderSafety
  imports ClobExecutor
begin

text \<open>
  Safety of the order path as a whole: the steps that change the ledger (a call of \<open>execute\<close> up to any
  point at which the process may die, a transition by a reconciler, the pause operations), the
  invariant they keep, and what one call of \<open>execute\<close> does to the trace of effects.
\<close>

section \<open>Traces\<close>

definition posted :: "effect list \<Rightarrow> string list" where
  "posted tr = concat (map (\<lambda>e. case e of EPost iid _ \<Rightarrow> [iid] | _ \<Rightarrow> []) tr)"

text \<open>Every submission comes after the committed intent and its committed move to
  \<open>SUBMITTED_UNKNOWN\<close>, and no intent is submitted twice.\<close>

fun write_ahead :: "effect list \<Rightarrow> effect list \<Rightarrow> bool" where
  "write_ahead seen [] = True"
| "write_ahead seen (e # es) = ((case e of
      EPost iid tok \<Rightarrow> EIntent iid tok \<in> set seen \<and> EStatus iid SUBMITTED_UNKNOWN \<in> set seen \<and>
        iid \<notin> set (posted seen)
    | _ \<Rightarrow> True) \<and> write_ahead (seen @ [e]) es)"

lemma write_ahead_append:
  "write_ahead seen (xs @ ys) \<longleftrightarrow> write_ahead seen xs \<and> write_ahead (seen @ xs) ys"
  by (induction xs arbitrary: seen) auto

lemma posted_simps [simp]:
  "posted [] = []" "posted (xs @ ys) = posted xs @ posted ys"
  "posted (EPost i t # es) = i # posted es" "posted (EIntent i t # es) = posted es"
  "posted (EStatus i s # es) = posted es" "posted (EPosition i s # es) = posted es"
  "posted (EPause # es) = posted es"
  by (simp_all add: posted_def)

lemma posted_iff: "iid \<in> set (posted tr) \<longleftrightarrow> (\<exists>tok. EPost iid tok \<in> set tr)"
  by (fastforce simp: posted_def split: effect.splits)

lemma write_ahead_prefix: "write_ahead [] (xs @ EPost iid tok # ys) \<Longrightarrow>
    EIntent iid tok \<in> set xs \<and> EStatus iid SUBMITTED_UNKNOWN \<in> set xs \<and> iid \<notin> set (posted xs)"
  by (simp add: write_ahead_append)

section \<open>The invariant\<close>

definition positions_backed :: "world \<Rightarrow> bool" where
  "positions_backed w = (\<forall>iid. positions_of w iid \<noteq> [] \<longrightarrow>
     (\<exists>s. status_of w iid = Some s \<and> is_position_open s))"

definition one_position :: "world \<Rightarrow> bool" where
  "one_position w = (\<forall>iid. length (positions_of w iid) \<le> 1)"

definition trace_ok :: "world \<Rightarrow> bool" where
  "trace_ok w = (write_ahead [] (w_trace w) \<and> (\<forall>iid \<in> set (posted (w_trace w)). status_of w iid \<noteq> None))"

definition ledger_ok :: "world \<Rightarrow> bool" where
  "ledger_ok w = (intents_distinct w \<and> positions_backed w \<and> one_position w \<and> trace_ok w)"

lemmas ledger_defs = ledger_ok_def positions_backed_def one_position_def trace_ok_def

lemma ledger_ok_empty: "ledger_ok empty_world"
  by (simp add: ledger_defs intents_distinct_def empty_world_def positions_of_def)

text \<open>Operations that only add harmless effects and keep intents and positions.\<close>

lemma ok_create:
  assumes "ledger_ok w" "create_intent dbf now iid tok side price sz slug wal w = (r, w')"
  shows "ledger_ok w'"
proof (cases r)
  case (Inl e)
  then show ?thesis using assms by (auto simp: create_intent_def split: if_splits)
next
  case (Inr x)
  note c = create_intent_world [OF assms(2) [unfolded Inr]]
  have pos: "positions_of w' k = positions_of w k" for k using c by (simp add: positions_of_def)
  have "status_of w' k \<noteq> None" if "status_of w k \<noteq> None" for k using c [of k] that by simp
  moreover have "positions_of w iid = []" using assms(1) c by (auto simp: ledger_defs)
  ultimately show ?thesis
    using assms(1) c unfolding ledger_ok_def intents_distinct_def positions_backed_def one_position_def trace_ok_def pos
    by (auto simp: write_ahead_append)
qed

lemma transition_trace: "w_trace (snd (transition dbf now iid s a w)) = w_trace w \<or>
    (\<exists>st. w_trace (snd (transition dbf now iid s a w)) = w_trace w @ [EStatus iid st])"
  by (auto simp: transition_def split: option.split)

lemma transition_positions [simp]: "positions_of (snd (transition dbf now iid s a w)) k = positions_of w k"
  by (simp add: positions_of_def)

lemma transition_known:
  "status_of (snd (transition dbf now iid s a w)) k = None \<longleftrightarrow> status_of w k = None"
  by (auto simp: transition_def status_of_def intent_of_def table_simps split: option.split)

lemma ok_transition:
  assumes "ledger_ok w"
  shows "ledger_ok (snd (transition dbf now iid s a w))"
proof -
  let ?w' = "snd (transition dbf now iid s a w)"
  have "positions_backed ?w'"
    using assms unfolding ledger_ok_def positions_backed_def transition_positions
    by (meson open_is_terminal transition_terminal)
  moreover have "trace_ok ?w'"
    using assms transition_trace [of dbf now iid s a w]
    by (auto simp: ledger_ok_def trace_ok_def transition_known write_ahead_append)
  ultimately show ?thesis using assms by (simp add: ledger_ok_def one_position_def)
qed

lemma ok_frame:
  assumes "ledger_ok w" "w_intents w' = w_intents w" "w_positions w' = w_positions w"
    and "w_trace w' = w_trace w \<or> w_trace w' = w_trace w @ [EPause]"
  shows "ledger_ok w'"
  using assms
  by (auto simp: ledger_defs intents_distinct_def positions_of_def status_of_def intent_of_def write_ahead_append)

lemma ok_set_pause: "ledger_ok w \<Longrightarrow> ledger_ok (snd (set_emergency_pause dbf now r s i w))"
  by (erule ok_frame) (auto simp: set_emergency_pause_def Let_def)

lemma ok_resolve_pause: "ledger_ok w \<Longrightarrow> ledger_ok (snd (resolve_emergency_pause dbf now iid rb r m w))"
  by (erule ok_frame) auto

lemma ok_clear_pause: "ledger_ok w \<Longrightarrow> ledger_ok (snd (clear_emergency_pause dbf now by' note' w))"
  by (erule ok_frame) (auto simp: clear_emergency_pause_def Let_def)

lemma ok_confirm:
  assumes "ledger_ok w" "status_of w iid \<noteq> None"
  shows "ledger_ok (snd (confirm_fill_atomic dbf dry_run now iid row st w))"
proof (cases rule: confirm_fill_cases [of dbf dry_run now iid row st w])
  case opened
  then have none: "positions_of w iid = []" and st: "is_position_open st"
    by (auto simp: intent_has_position_positions)
  let ?w' = "confirm_commit dry_run now iid row st w"
  have "positions_backed ?w'"
    using assms st by (auto simp: ledger_ok_def positions_backed_def)
  moreover have "one_position ?w'" using assms(1) none by (simp add: ledger_ok_def one_position_def)
  moreover have "trace_ok ?w'" using assms(1) by (auto simp: ledger_ok_def trace_ok_def write_ahead_append)
  moreover have "intents_distinct ?w'" using assms(1) by (simp add: ledger_ok_def intents_distinct_def)
  ultimately show ?thesis using opened(1) by (simp add: ledger_ok_def)
qed (use assms in simp)

lemma ok_recovery_ladder: "ledger_ok w \<Longrightarrow> ledger_ok (recovery_ladder x iid reason oid sz w)"
  using ok_transition [of w] ok_set_pause
  by (auto simp: recovery_ladder_def split: prod.splits sum.splits) (metis snd_conv)+

lemma recovery_ladder_frame [simp]:
  "w_positions (recovery_ladder x iid reason oid sz w) = w_positions w"
  "posted (w_trace (recovery_ladder x iid reason oid sz w)) = posted (w_trace w)"
proof -
  have "w_positions (snd (set_emergency_pause dbf now r s i v)) = w_positions v \<and>
      posted (w_trace (snd (set_emergency_pause dbf now r s i v))) = posted (w_trace v)" for dbf now r s i v
    by (auto simp: set_emergency_pause_def Let_def)
  moreover have "posted (w_trace (snd (transition dbf now iid s a v))) = posted (w_trace v)" for dbf now iid s a v
    using transition_trace [of dbf now iid s a v] by auto
  ultimately show "w_positions (recovery_ladder x iid reason oid sz w) = w_positions w"
    "posted (w_trace (recovery_ladder x iid reason oid sz w)) = posted (w_trace w)"
    by (auto simp: recovery_ladder_def split: prod.splits sum.splits) (metis snd_conv transition_frame(1))+
qed

text \<open>Whatever happens in the ladder, an unresolved intent stays unresolved.\<close>

lemma recovery_ladder_status:
  assumes "status_of w iid = Some SUBMITTED_UNKNOWN"
  shows "\<exists>st. status_of (recovery_ladder x iid reason oid sz w) iid = Some st \<and> is_unresolved st"
proof -
  define a where "a = no_args\<lparr>ta_reason := Some reason, ta_server := oid, ta_size := sz\<rparr>"
  obtain r v where t: "transition (x_recovery x) (x_now x) iid (status_text RECOVERY_REQUIRED) a w = (r, v)"
    by (cases "transition (x_recovery x) (x_now x) iid (status_text RECOVERY_REQUIRED) a w")
  show ?thesis
  proof (cases r)
    case (Inl e)
    then have "v = w" using transition_error_unchanged t by (metis fst_conv snd_conv)
    then show ?thesis using t Inl assms by (simp add: recovery_ladder_def a_def)
  next
    case (Inr u)
    then have "status_of v iid = Some RECOVERY_REQUIRED"
      using transition_status_same [of "x_recovery x" "x_now x" iid RECOVERY_REQUIRED a w SUBMITTED_UNKNOWN] t assms
      by simp
    then show ?thesis using t Inr by (simp add: recovery_ladder_def a_def)
  qed
qed

section \<open>The stages of execute\<close>

lemma cancel_positions [simp]: "w_positions (cancel_intent x iid reason w) = w_positions w"
  by (simp add: cancel_intent_def)

lemma ok_cancel: "ledger_ok w \<Longrightarrow> ledger_ok (cancel_intent x iid reason w)"
  by (simp add: cancel_intent_def ok_transition)

lemma ok_exec_confirm:
  assumes "ledger_ok w" "status_of w iid \<noteq> None"
  shows "ledger_ok (snd (exec_confirm x iid oid d row w))"
  using ok_confirm [OF assms, of "x_confirm x" "x_dry_run x" "x_now x" row "fk_state d"]
  by (auto simp: exec_confirm_def ok_recovery_ladder split: prod.split sum.split confirm_result.split list.split)

lemma ok_after_post:
  assumes "ledger_ok w" "status_of w iid \<noteq> None"
  shows "ledger_ok (snd (exec_after_post x f g rk iid w))"
  using assms ok_exec_confirm [OF assms]
  by (auto simp: exec_after_post_def exec_dispatch_def exec_open_def Let_def ok_cancel ok_recovery_ladder
      split: post_outcome.split sum.split fak_kind.split)

text \<open>The write-ahead: on success the last world holds the fresh intent in \<open>SUBMITTED_UNKNOWN\<close>, and the
  trace has grown by exactly the two committed writes.\<close>

lemma write_ahead_cases:
  assumes "exec_write_ahead x f usd tok price w = (b, ws)" "ledger_ok w"
  shows "ws \<noteq> []" and "\<forall>w' \<in> set ws. ledger_ok w' \<and> posted (w_trace w') = posted (w_trace w) \<and> w_positions w' = w_positions w"
    and "b \<Longrightarrow> status_of w (x_iid x) = None \<and> status_of (last ws) (x_iid x) = Some SUBMITTED_UNKNOWN \<and>
      token_of (last ws) (x_iid x) = Some tok \<and>
      w_trace (last ws) = w_trace w @ [EIntent (x_iid x) tok, EStatus (x_iid x) SUBMITTED_UNKNOWN]"
proof -
  obtain r w1 where c: "create_intent (x_create x) (x_now x) (x_iid x) tok ''BUY'' price usd (Some (fd_slug f)) None w = (r, w1)"
    by (cases "create_intent (x_create x) (x_now x) (x_iid x) tok ''BUY'' price usd (Some (fd_slug f)) None w")
  define a where "a = no_args\<lparr>ta_submitted := Some (x_now x)\<rparr>"
  obtain r2 w2 where t: "transition (x_submitted x) (x_now x) (x_iid x) (status_text SUBMITTED_UNKNOWN) a w1 = (r2, w2)"
    by (cases "transition (x_submitted x) (x_now x) (x_iid x) (status_text SUBMITTED_UNKNOWN) a w1")
  have ok1: "ledger_ok w1" by (rule ok_create [OF assms(2) c])
  have ok2: "ledger_ok w2" using ok_transition [OF ok1] t by (metis snd_conv)
  have p1: "posted (w_trace w1) = posted (w_trace w)" "w_positions w1 = w_positions w"
    using c by (auto simp: create_intent_def split: if_splits)
  have p2: "posted (w_trace w2) = posted (w_trace w1)" "w_positions w2 = w_positions w1"
    using transition_trace [of "x_submitted x" "x_now x" "x_iid x" "status_text SUBMITTED_UNKNOWN" a w1] t
      transition_frame(1) [of "x_submitted x" "x_now x" "x_iid x" "status_text SUBMITTED_UNKNOWN" a w1] by auto
  have eq: "exec_write_ahead x f usd tok price w =
      (case r of Inl _ \<Rightarrow> (False, [w1]) | Inr _ \<Rightarrow> (case r2 of Inl _ \<Rightarrow> (False, [w1, w2]) | Inr _ \<Rightarrow> (True, [w1, w2])))"
    using c t create_intent_world [of "x_create x" "x_now x" "x_iid x" tok "''BUY''" price usd "Some (fd_slug f)" None w]
    by (auto simp: exec_write_ahead_def a_def split: sum.split)
  show "ws \<noteq> []" using assms(1) by (auto simp: eq split: sum.splits)
  show "\<forall>w' \<in> set ws. ledger_ok w' \<and> posted (w_trace w') = posted (w_trace w) \<and> w_positions w' = w_positions w"
    using assms(1) ok1 ok2 p1 p2 by (auto simp: eq split: sum.splits)
  assume b
  then obtain y u where r: "r = Inr y" "r2 = Inr u" "ws = [w1, w2]"
    using assms(1) by (auto simp: eq split: sum.splits)
  note cw = create_intent_world [OF c [unfolded r(1)], of "x_iid x"]
  then have s1: "status_of w1 (x_iid x) = Some INTENT_CREATED" "token_of w1 (x_iid x) = Some tok" by simp_all
  have s2: "status_of w2 (x_iid x) = Some SUBMITTED_UNKNOWN"
    using transition_status_same [of "x_submitted x" "x_now x" "x_iid x" SUBMITTED_UNKNOWN a w1 INTENT_CREATED] t r s1 by simp
  have t2: "token_of w2 (x_iid x) = Some tok" using transition_token [of "x_submitted x" "x_now x" "x_iid x" _ a w1] t s1
    by (metis snd_conv)
  have tr: "w_trace w2 = w_trace w1 @ [EStatus (x_iid x) SUBMITTED_UNKNOWN]"
    using transition_ok_trace [of "x_submitted x" "x_now x" "x_iid x" SUBMITTED_UNKNOWN a w1 INTENT_CREATED] t r s1 by simp
  show "status_of w (x_iid x) = None \<and> status_of (last ws) (x_iid x) = Some SUBMITTED_UNKNOWN \<and>
      token_of (last ws) (x_iid x) = Some tok \<and>
      w_trace (last ws) = w_trace w @ [EIntent (x_iid x) tok, EStatus (x_iid x) SUBMITTED_UNKNOWN]"
    using cw s2 t2 tr r(3) by simp
qed

lemma ok_post:
  assumes "ledger_ok w" "ledger_ok w2" "status_of w iid = None"
    and "w_trace w2 = w_trace w @ [EIntent iid tok, EStatus iid SUBMITTED_UNKNOWN]"
    and "status_of w2 iid \<noteq> None"
  shows "ledger_ok (add_effect (EPost iid tok) w2)"
proof -
  have "iid \<notin> set (posted (w_trace w))" using assms(1,3) by (auto simp: ledger_ok_def trace_ok_def)
  then show ?thesis using assms(2,4,5)
    by (auto simp: ledger_ok_def trace_ok_def positions_backed_def one_position_def intents_distinct_def write_ahead_append)
qed

lemma execute_points_ok:
  assumes "ledger_ok w" "w' \<in> set (execute_points x f g rk w)"
  shows "ledger_ok w'"
proof (cases "exec_preflight x f (rk_usd rk) w")
  case (Inr m)
  show ?thesis
  proof (cases m)
    case (Some tp)
    obtain tok price where tp: "tp = (tok, price)" by (cases tp)
    obtain b ws where wa: "exec_write_ahead x f (rk_usd rk) tok price w = (b, ws)"
      by (cases "exec_write_ahead x f (rk_usd rk) tok price w")
    note c = write_ahead_cases [OF wa assms(1)]
    have ok3: "ledger_ok (add_effect (EPost (x_iid x) tok) (last ws))" if b
      using c(1,2) c(3) [OF that] by (intro ok_post [OF assms(1)]) auto
    show ?thesis
      using assms Inr Some tp wa c(1,2) c(3) ok3
        ok_after_post [OF ok3, of "x_iid x" x f g rk]
      by (auto simp: execute_points_def execute_run_def Let_def split: bool.splits prod.splits)
  qed (use assms Inr in \<open>simp add: execute_points_def execute_run_def\<close>)
qed (use assms in \<open>simp add: execute_points_def execute_run_def\<close>)

section \<open>Ledger steps\<close>

text \<open>Changes of the position rows that keep their identity, and a new row that belongs to no intent.\<close>

definition row_key :: "position \<Rightarrow> string \<times> string \<times> string option" where
  "row_key p = (p_id p, p_slug p, p_intent p)"

text \<open>The order ledger: everything but the contents of the position rows.\<close>

definition same_ledger :: "world \<Rightarrow> world \<Rightarrow> bool" where
  "same_ledger w w' = (w_intents w' = w_intents w \<and> w_es w' = w_es w \<and> w_events w' = w_events w \<and>
     w_trace w' = w_trace w \<and> map row_key (w_positions w') = map row_key (w_positions w))"

lemma same_ledger_refl [simp]: "same_ledger w w"
  by (simp add: same_ledger_def)

lemma same_ledger_trans: "same_ledger u v \<Longrightarrow> same_ledger v w \<Longrightarrow> same_ledger u w"
  by (simp add: same_ledger_def)

lemma positions_of_keys: "length (positions_of w iid) = length (filter (\<lambda>k. snd (snd k) = Some iid) (map row_key (w_positions w)))"
  by (simp add: positions_of_def filter_map comp_def row_key_def)

lemma ok_same_ledger:
  assumes "ledger_ok w" "same_ledger w w'"
  shows "ledger_ok w'"
proof -
  have st: "status_of w' = status_of w" using assms(2) by (auto simp: same_ledger_def status_of_def intent_of_def fun_eq_iff)
  have len: "length (positions_of w' iid) = length (positions_of w iid)" for iid
    unfolding positions_of_keys using assms(2) by (simp add: same_ledger_def)
  then have "positions_of w' iid = [] \<longleftrightarrow> positions_of w iid = []" for iid by (metis length_0_conv)
  then show ?thesis using assms len by (simp add: ledger_defs st intents_distinct_def same_ledger_def)
qed

lemma ok_new_row: "ledger_ok w \<Longrightarrow> p_intent r = None \<Longrightarrow> ledger_ok (w\<lparr>w_positions := w_positions w @ [r]\<rparr>)"
  by (simp add: ledger_defs intents_distinct_def positions_of_def status_of_def intent_of_def)

inductive ledger_step :: "world \<Rightarrow> world \<Rightarrow> bool" where
  ls_execute: "w' \<in> set (execute_points x f g rk w) \<Longrightarrow> ledger_step w w'"
| ls_transition: "w' = snd (transition dbf now iid s a w) \<Longrightarrow> ledger_step w w'"
| ls_set_pause: "w' = snd (set_emergency_pause dbf now r s i w) \<Longrightarrow> ledger_step w w'"
| ls_resolve: "w' = snd (resolve_emergency_pause dbf now iid rb r m w) \<Longrightarrow> ledger_step w w'"
| ls_clear: "w' = snd (clear_emergency_pause dbf now cb nt w) \<Longrightarrow> ledger_step w w'"
| ls_manage: "same_ledger w w' \<Longrightarrow> ledger_step w w'"
| ls_new_row: "p_intent r = None \<Longrightarrow> w' = w\<lparr>w_positions := w_positions w @ [r]\<rparr> \<Longrightarrow> ledger_step w w'"

inductive_cases ledger_stepE: "ledger_step w w'"

lemma ledger_step_ok: "ledger_ok w \<Longrightarrow> ledger_step w w' \<Longrightarrow> ledger_ok w'"
  by (erule ledger_stepE)
    (auto intro: execute_points_ok ok_transition ok_set_pause ok_resolve_pause ok_clear_pause ok_same_ledger ok_new_row)

lemma ledger_reachable_ok: "reachable (\<lambda>w. w = empty_world) ledger_step w \<Longrightarrow> ledger_ok w"
  by (erule reachable_invariant) (auto simp: ledger_ok_empty ledger_step_ok)

section \<open>What one call leaves behind\<close>

text \<open>The three ways an intent can stand after its submission.\<close>

definition settled_open :: "string \<Rightarrow> exec_out result \<Rightarrow> world \<Rightarrow> bool" where
  "settled_open iid out w = ((\<exists>row. out = Inr (Opened row)) \<and> length (positions_of w iid) = 1 \<and>
     (\<exists>st. status_of w iid = Some st \<and> is_position_open st))"

definition settled_cancelled :: "string \<Rightarrow> exec_out result \<Rightarrow> world \<Rightarrow> bool" where
  "settled_cancelled iid out w = (out = Inr NoPosition \<and> positions_of w iid = [] \<and>
     status_of w iid = Some CANCELLED)"

definition in_limbo :: "string \<Rightarrow> exec_out result \<Rightarrow> world \<Rightarrow> bool" where
  "in_limbo iid out w = ((\<forall>row. out \<noteq> Inr (Opened row)) \<and> positions_of w iid = [] \<and>
     (\<exists>st. status_of w iid = Some st \<and> is_unresolved st))"

definition classified :: "string \<Rightarrow> exec_out result \<times> world \<Rightarrow> bool" where
  "classified iid r = (settled_open iid (fst r) (snd r) \<or> settled_cancelled iid (fst r) (snd r) \<or>
     in_limbo iid (fst r) (snd r))"

lemma classified_limbo:
  "status_of w iid = Some SUBMITTED_UNKNOWN \<Longrightarrow> positions_of w iid = [] \<Longrightarrow> \<forall>row. out \<noteq> Inr (Opened row) \<Longrightarrow>
   classified iid (out, w)"
  by (simp add: classified_def in_limbo_def)

lemma classified_recovery:
  "status_of w iid = Some SUBMITTED_UNKNOWN \<Longrightarrow> positions_of w iid = [] \<Longrightarrow>
   classified iid (Inr (RecoveryRequired i r), recovery_ladder x iid reason oid sz w)"
  using recovery_ladder_status by (auto simp: classified_def in_limbo_def positions_of_def)

lemma classified_cancel:
  assumes "status_of w iid = Some SUBMITTED_UNKNOWN" "positions_of w iid = []"
  shows "classified iid (Inr NoPosition, cancel_intent x iid reason w)"
proof -
  define a where "a = no_args\<lparr>ta_reason := Some reason\<rparr>"
  have c: "cancel_intent x iid reason w = snd (transition (x_cancel x) (x_now x) iid (status_text CANCELLED) a w)"
    by (simp add: cancel_intent_def a_def)
  show ?thesis
  proof (cases "fst (transition (x_cancel x) (x_now x) iid (status_text CANCELLED) a w)")
    case (Inl e)
    then show ?thesis using classified_limbo [OF assms] transition_error_unchanged unfolding c by fastforce
  next
    case (Inr u)
    then show ?thesis unfolding c
      using transition_status_same [of "x_cancel x" "x_now x" iid CANCELLED a w] assms
      by (simp add: classified_def settled_cancelled_def)
  qed
qed

lemma classified_confirm:
  assumes "status_of w iid = Some SUBMITTED_UNKNOWN" "positions_of w iid = []"
  shows "classified iid (exec_confirm x iid oid d row w)"
proof (cases rule: confirm_fill_cases [of "x_confirm x" "x_dry_run x" "x_now x" iid row "fk_state d" w])
  case opened
  then show ?thesis using assms
    by (auto simp: exec_confirm_def classified_def settled_open_def)
next
  case (other r)
  then have "r \<noteq> Inr DUPLICATE" "r \<noteq> Inr OPENED" using assms(2) by (auto simp: intent_has_position_positions)
  then obtain e where "r = Inl e" by (metis confirm_result.exhaust sum.exhaust)
  then show ?thesis using other(1) classified_recovery [OF assms] by (simp add: exec_confirm_def)
qed

lemma classified_after_post:
  assumes "status_of w iid = Some SUBMITTED_UNKNOWN" "positions_of w iid = []"
  shows "classified iid (exec_after_post x f g rk iid w)"
  using classified_limbo [OF assms] classified_recovery [OF assms] classified_cancel [OF assms]
    classified_confirm [OF assms]
  by (auto simp: exec_after_post_def exec_dispatch_def exec_open_def Let_def
      split: post_outcome.split sum.split fak_kind.split)

lemma after_post_posted [simp]:
  "posted (w_trace (snd (exec_after_post x f g rk iid w))) = posted (w_trace w)"
proof -
  have c: "posted (w_trace (cancel_intent x iid r v)) = posted (w_trace v)" for r v
    using transition_trace [of "x_cancel x" "x_now x" iid "''CANCELLED''" "no_args\<lparr>ta_reason := Some r\<rparr>" v]
    by (auto simp: cancel_intent_def)
  have "posted (w_trace (snd (confirm_fill_atomic dbf dr now iid row st v))) = posted (w_trace v)" for dbf dr now row st v
    by (cases rule: confirm_fill_cases [of dbf dr now iid row st v]) simp_all
  then have "posted (w_trace (snd (exec_confirm x iid oid d row v))) = posted (w_trace v)" for oid d row v
    by (auto simp: exec_confirm_def split: prod.splits sum.splits confirm_result.splits list.splits) (metis snd_conv)+
  then show ?thesis
    by (auto simp: exec_after_post_def exec_dispatch_def exec_open_def Let_def c
        split: post_outcome.split sum.split fak_kind.split)
qed

lemma execute_cases [consumes 1, case_names quiet sent]:
  assumes "ledger_ok w"
  obtains out w' where "execute x f g rk w = (out, w')" "posted (w_trace w') = posted (w_trace w)"
      "\<forall>row. out \<noteq> Inr (Opened row)"
  | tok w3 where "entry_token f = Some tok" "exec_preflight x f (rk_usd rk) w \<noteq> Inr None"
      "execute x f g rk w = exec_after_post x f g rk (x_iid x) w3" "ledger_ok w3"
      "status_of w (x_iid x) = None" "token_of w3 (x_iid x) = Some tok"
      "status_of w3 (x_iid x) = Some SUBMITTED_UNKNOWN" "positions_of w3 (x_iid x) = []"
      "posted (w_trace w3) = posted (w_trace w) @ [x_iid x]"
proof (cases "exec_preflight x f (rk_usd rk) w")
  case (Inl e)
  then show thesis using that(1) by (simp add: execute_def execute_run_def)
next
  case (Inr m)
  show thesis
  proof (cases m)
    case None
    then show thesis using that(1) Inr by (simp add: execute_def execute_run_def)
  next
    case (Some tp)
    obtain tok price where tp: "tp = (tok, price)" by (cases tp)
    obtain b ws where wa: "exec_write_ahead x f (rk_usd rk) tok price w = (b, ws)"
      by (cases "exec_write_ahead x f (rk_usd rk) tok price w")
    note c = write_ahead_cases [OF wa assms]
    have tok: "entry_token f = Some tok"
      using Inr Some tp
      by (auto simp: exec_preflight_def rbind_eq_Inr split: if_splits option.splits sum.splits bool.splits prod.splits)
    show thesis
    proof (cases b)
      case False
      then show thesis using that(1) Inr Some tp wa c(1,2)
        by (auto simp: execute_def execute_run_def)
    next
      case True
      define w3 where "w3 = add_effect (EPost (x_iid x) tok) (last ws)"
      have ok3: "ledger_ok w3" unfolding w3_def using c(1,2) c(3) [OF True] by (intro ok_post [OF assms]) auto
      have "positions_of w3 (x_iid x) = []"
        using ok3 c(3) [OF True] by (auto simp: ledger_ok_def positions_backed_def w3_def)
      then show thesis
        using that(2) [of tok w3] tok Inr Some tp wa True ok3 c(3) [OF True]
        by (simp add: execute_def execute_run_def Let_def w3_def token_of_def split: prod.splits)
    qed
  qed
qed

lemma confirm_commit_token [simp]: "token_of (confirm_commit dry_run now iid row st w) k = token_of w k"
  by (simp add: confirm_commit_def token_of_def intent_of_def table_simps option.map_comp comp_def)

lemma after_post_token [simp]: "token_of (snd (exec_after_post x f g rk iid w)) k = token_of w k"
proof -
  have l: "token_of (recovery_ladder x iid r oid sz v) k = token_of v k" for r oid sz v
    by (auto simp: recovery_ladder_def split: prod.splits sum.splits)
      (metis snd_conv transition_token set_emergency_pause_status(2))+
  have c: "token_of (cancel_intent x iid r v) k = token_of v k" for r v by (simp add: cancel_intent_def)
  have "token_of (snd (confirm_fill_atomic dbf dr now iid row st v)) k = token_of v k" for dbf dr now row st v
    by (cases rule: confirm_fill_cases [of dbf dr now iid row st v]) simp_all
  then have "token_of (snd (exec_confirm x iid oid d row v)) k = token_of v k" for oid d row v
    by (auto simp: exec_confirm_def l split: prod.splits sum.splits confirm_result.splits list.splits) (metis snd_conv)+
  then show ?thesis
    by (auto simp: exec_after_post_def exec_dispatch_def exec_open_def Let_def c l
        split: post_outcome.split sum.split fak_kind.split)
qed

lemma guard_stops:
  assumes "is_emergency_paused (x_pause x) w \<or> entry_token f = None \<or>
    (\<exists>tok. entry_token f = Some tok \<and> has_unresolved_intent (x_unresolved x) tok w \<noteq> Inr False)"
  shows "execute x f g rk w = (Inr NoPosition, w)"
proof -
  have "exec_preflight x f (rk_usd rk) w = Inr None"
    using assms by (auto simp: exec_preflight_def split: option.split sum.split bool.split)
  then show ?thesis by (simp add: execute_def execute_run_def)
qed

lemma blocked_stops:
  assumes "blocked_token tok w" "entry_token f = Some tok"
  shows "execute x f g rk w = (Inr NoPosition, w)"
proof (rule guard_stops)
  have "has_unresolved_intent (x_unresolved x) tok w \<noteq> Inr False"
    using assms(1) by (cases "x_unresolved x") (auto simp: blocked_token_def has_unresolved_intent_def)
  then show "is_emergency_paused (x_pause x) w \<or> entry_token f = None \<or>
    (\<exists>tok. entry_token f = Some tok \<and> has_unresolved_intent (x_unresolved x) tok w \<noteq> Inr False)"
    using assms(2) by blast
qed

section \<open>Properties\<close>

abbreviation reachable_ledger :: "world \<Rightarrow> bool" where
  "reachable_ledger \<equiv> reachable (\<lambda>w. w = empty_world) ledger_step"

text \<open>A sample call: five dollars of a ten-share fill at one half.\<close>

definition sample_order :: finding where
  "sample_order = \<lparr>fd_asset = ''BTC'', fd_action = ''YES'', fd_slug = ''btc-updown'', fd_yes_tok = Some ''t1'',
     fd_no_tok = Some ''t2'', fd_fair = Some (Fin (3/4)), fd_ref = Some (Fin 100), fd_edge = Some (Fin (1/8)),
     fd_cur = Fin 100, fd_ask = Fin (1/2), fd_bid = Fin (15/32), fd_secs = Fin 180, fd_no_ask = None,
     fd_basis = None, fd_funding = None, fd_fee = None, fd_market = None\<rparr>"

definition sample_gate :: gate_result where
  "sample_gate = \<lparr>g_pass = True, g_score = Fin 80, g_action = ''dry_run_logged'', g_reason = [],
     g_fee_adj = Fin (1/8), g_liq = Fin 900\<rparr>"

definition sample_risk :: risk_result where
  "sample_risk = \<lparr>rk_pass = True, rk_usd = Fin 5, rk_kelly = Fin (1/4), rk_approval = False,
     rk_halt = False, rk_reason = []\<rparr>"

definition sample_env :: exec_env where
  "sample_env = \<lparr>x_pause = NoFault, x_unresolved = NoFault, x_quote = Some (Fin (1/2)), x_quote_raises = None, x_iid = ''i1'',
     x_create = NoFault, x_submitted = NoFault,
     x_post = PostResp \<lparr>rp_status = PStr ''matched'', rp_taking = PStr ''10'', rp_making = PStr ''5'',
       rp_order = Some ''0x1''\<rparr>,
     x_cancel = NoFault, x_recovery = NoFault, x_kill = NoFault, x_confirm = CNone, x_readback = NoFault,
     x_pid = ''p1'', x_dry_run = False, x_now = 7\<rparr>"

definition sample_call :: "exec_out result \<times> world" where
  "sample_call = execute sample_env sample_order sample_gate sample_risk empty_world"

lemma sample_call_run:
  "case sample_call of (Inr (Opened _), w') \<Rightarrow> w_trace w' =
     [EIntent ''i1'' ''t1'', EStatus ''i1'' SUBMITTED_UNKNOWN, EPost ''i1'' ''t1'', EPosition ''i1'' FILLED]
   | _ \<Rightarrow> False"
  by code_simp

lemma sample_call_opened:
  obtains row w' where "execute sample_env sample_order sample_gate sample_risk empty_world = (Inr (Opened row), w')"
    "w_trace w' = [EIntent ''i1'' ''t1'', EStatus ''i1'' SUBMITTED_UNKNOWN, EPost ''i1'' ''t1'', EPosition ''i1'' FILLED]"
  using sample_call_run unfolding sample_call_def
  by (auto split: prod.splits sum.splits exec_out.splits)

lemma execute_in_points: "snd (execute x f g rk w) \<in> set (execute_points x f g rk w)"
proof -
  have "snd (execute_run x f g rk w) \<noteq> []"
    by (auto simp: execute_run_def Let_def split: sum.split option.split prod.split bool.split)
  then show ?thesis by (cases "execute_run x f g rk w") (simp add: execute_def execute_points_def)
qed

lemma reachable_empty: "reachable_ledger empty_world"
  by (rule reach_init) simp

lemma reachable_execute: "reachable_ledger w \<Longrightarrow> execute x f g rk w = (out, w') \<Longrightarrow> reachable_ledger w'"
  using execute_in_points [of x f g rk w] by (metis ls_execute reach_step snd_conv)

text \<open>C1: Write-ahead. In every state the system can be in, including those a process leaves when it dies
  in the middle of \<open>execute\<close>, each order handed to the exchange comes after its intent was committed
  and after the intent was committed as \<open>SUBMITTED_UNKNOWN\<close>, and no intent is submitted twice.\<close>

theorem write_ahead_always:
  assumes "reachable_ledger w" "w_trace w = before @ EPost iid tok # rest"
  shows "EIntent iid tok \<in> set before \<and> EStatus iid SUBMITTED_UNKNOWN \<in> set before \<and>
    (\<forall>tok'. EPost iid tok' \<notin> set before) \<and> (\<forall>tok'. EPost iid tok' \<notin> set rest)"
proof -
  have wa: "write_ahead [] (w_trace w)"
    using ledger_reachable_ok [OF assms(1)] by (simp add: ledger_ok_def trace_ok_def)
  have "iid \<notin> set (posted rest)"
  proof
    assume "iid \<in> set (posted rest)"
    then obtain t' where "EPost iid t' \<in> set rest" by (auto simp: posted_iff)
    then obtain ys zs where rest: "rest = ys @ EPost iid t' # zs" by (meson split_list)
    have "write_ahead [] ((before @ EPost iid tok # ys) @ EPost iid t' # zs)"
      using wa assms(2) rest by simp
    from write_ahead_prefix [OF this] show False by simp
  qed
  then show ?thesis
    using write_ahead_prefix [of before iid tok rest] wa assms(2) by (simp add: posted_iff)
qed

lemma write_ahead_always_witness:
  "\<exists>w before rest. reachable_ledger w \<and> w_trace w = before @ EPost ''i1'' ''t1'' # rest \<and>
     EStatus ''i1'' SUBMITTED_UNKNOWN \<in> set before"
proof -
  obtain row w' where w': "execute sample_env sample_order sample_gate sample_risk empty_world = (Inr (Opened row), w')"
    "w_trace w' = [EIntent ''i1'' ''t1'', EStatus ''i1'' SUBMITTED_UNKNOWN] @ EPost ''i1'' ''t1'' # [EPosition ''i1'' FILLED]"
    using sample_call_opened by (metis append_Cons append_Nil)
  have r: "reachable_ledger w'" by (rule reachable_execute [OF reachable_empty w'(1)])
  show ?thesis using write_ahead_always [OF r w'(2)] r w'(2) by blast
qed

text \<open>C3: One position per intent, and only for fills. In every reachable state an intent has at most one
  position, and an intent with a position is recorded as filled or partially filled.\<close>

theorem one_backed_position:
  assumes "reachable_ledger w"
  shows "length (positions_of w iid) \<le> 1 \<and>
    (positions_of w iid \<noteq> [] \<longrightarrow> status_of w iid \<in> {Some FILLED, Some PARTIAL_FILLED})"
proof -
  have "is_position_open s \<longleftrightarrow> s = FILLED \<or> s = PARTIAL_FILLED" for s by (cases s) simp_all
  then show ?thesis
    using ledger_reachable_ok [OF assms] by (auto simp: ledger_defs)
qed

lemma one_backed_position_witness:
  "\<exists>w. reachable_ledger w \<and> w \<noteq> empty_world \<and> length (positions_of w ''i1'') \<le> 1"
proof -
  obtain row w' where w': "execute sample_env sample_order sample_gate sample_risk empty_world = (Inr (Opened row), w')"
    "w_trace w' \<noteq> []" using sample_call_opened by (metis list.distinct(1))
  have r: "reachable_ledger w'" by (rule reachable_execute [OF reachable_empty w'(1)])
  show ?thesis using one_backed_position [OF r, of "''i1''"] r w'(2) by (auto simp: empty_world_def)
qed

text \<open>The guards. While the emergency pause is set or cannot be read, or an unresolved intent for the
  token exists or the table cannot be read, or there is no token, \<open>execute\<close> opens nothing, sends
  nothing and writes nothing.\<close>

theorem guarded_execute_is_silent:
  assumes "is_emergency_paused (x_pause x) w \<or> entry_token f = None \<or>
    (\<exists>tok. entry_token f = Some tok \<and> has_unresolved_intent (x_unresolved x) tok w \<noteq> Inr False)"
  shows "execute x f g rk w = (Inr NoPosition, w)"
  using assms by (rule guard_stops)

lemma guarded_execute_is_silent_witness:
  "execute (sample_env\<lparr>x_pause := ReadFault\<rparr>) sample_order sample_gate sample_risk empty_world =
     (Inr NoPosition, empty_world)"
  by (rule guarded_execute_is_silent) (simp add: is_emergency_paused_def sample_env_def)

text \<open>C2: No limbo without a lock. When a call of \<open>execute\<close> has sent an order, the intent is afterwards
  filled with exactly one position and the position is returned, or cancelled without a position, or
  unresolved without a position and then every later call for the same token, with any input, is
  stopped without an effect. This holds whatever the exchange answers and whichever database writes
  fail.\<close>

theorem execute_settles_or_blocks:
  assumes "reachable_ledger w" "execute x f g rk w = (out, w')"
    and "posted (w_trace w') \<noteq> posted (w_trace w)"
  shows "posted (w_trace w') = posted (w_trace w) @ [x_iid x] \<and>
    (settled_open (x_iid x) out w' \<or> settled_cancelled (x_iid x) out w' \<or>
     in_limbo (x_iid x) out w' \<and>
       (\<forall>x' f' g' rk'. entry_token f' = entry_token f \<longrightarrow> execute x' f' g' rk' w' = (Inr NoPosition, w')))"
proof -
  note ok = ledger_reachable_ok [OF assms(1)]
  from ok show ?thesis
  proof (cases rule: execute_cases [where x = x and f = f and g = g and rk = rk])
    case (quiet out' w'')
    then show ?thesis using assms(2,3) by simp
  next
    case (sent tok w3)
    have cl: "classified (x_iid x) (out, w')"
      using classified_after_post [OF sent(7,8)] sent(3) assms(2) by metis
    have ok': "ledger_ok w'" using ok_after_post [OF sent(4)] sent(3,7) assms(2) by (metis option.distinct(1) snd_conv)
    have tok': "token_of w' (x_iid x) = Some tok"
      using after_post_token [of x f g rk "x_iid x" w3 "x_iid x"] sent(3,6) assms(2) by (metis snd_conv)
    have "posted (w_trace w') = posted (w_trace w) @ [x_iid x]"
      using after_post_posted [of x f g rk "x_iid x" w3] sent(3,9) assms(2) by (metis snd_conv)
    moreover have "execute x' f' g' rk' w' = (Inr NoPosition, w')"
      if "in_limbo (x_iid x) out w'" "entry_token f' = entry_token f" for x' f' g' rk'
    proof (rule blocked_stops)
      show "entry_token f' = Some tok" using that(2) sent(1) by simp
      show "blocked_token tok w'"
        using that(1) tok' ok' il.blocked_iff [of w' tok] by (auto simp: in_limbo_def ledger_ok_def)
    qed
    ultimately show ?thesis using cl by (auto simp: classified_def)
  qed
qed

lemma execute_settles_or_blocks_witness:
  "\<exists>out w'. execute sample_env sample_order sample_gate sample_risk empty_world = (out, w') \<and>
     posted (w_trace w') \<noteq> [] \<and>
     (settled_open ''i1'' out w' \<or> settled_cancelled ''i1'' out w' \<or> in_limbo ''i1'' out w')"
proof -
  obtain row w' where w': "execute sample_env sample_order sample_gate sample_risk empty_world = (Inr (Opened row), w')"
    "posted (w_trace w') \<noteq> posted (w_trace empty_world)"
    by (rule sample_call_opened) (auto simp: empty_world_def)
  show ?thesis
    using execute_settles_or_blocks [OF reachable_empty w'] w' by (auto simp: sample_env_def empty_world_def)
qed

text \<open>C4: A position is opened only by a sent order. If \<open>execute\<close> returns an opened position, this call
  submitted exactly one order, for its own fresh intent, the position carries that intent and the
  database holds exactly this position for it.\<close>

theorem opened_means_submitted:
  assumes "reachable_ledger w" "execute x f g rk w = (Inr (Opened row), w')"
  shows "posted (w_trace w') = posted (w_trace w) @ [x_iid x] \<and> status_of w (x_iid x) = None \<and>
    length (positions_of w' (x_iid x)) = 1 \<and> status_of w' (x_iid x) \<in> {Some FILLED, Some PARTIAL_FILLED}"
  using ledger_reachable_ok [OF assms(1)]
proof (cases rule: execute_cases [where x = x and f = f and g = g and rk = rk])
  case (quiet out' w'')
  have "out' = Inr (Opened row)" using quiet(1) assms(2) by simp
  then show ?thesis using quiet(3) by blast
next
  case (sent tok w3)
  have "classified (x_iid x) (Inr (Opened row), w')"
    using classified_after_post [OF sent(7,8)] sent(3) assms(2) by metis
  then obtain st where "length (positions_of w' (x_iid x)) = 1" "status_of w' (x_iid x) = Some st" "is_position_open st"
    by (auto simp: classified_def settled_open_def settled_cancelled_def in_limbo_def)
  moreover have "posted (w_trace w') = posted (w_trace w) @ [x_iid x]"
    using after_post_posted [of x f g rk "x_iid x" w3] sent(3,9) assms(2) by (metis snd_conv)
  moreover have "st = FILLED \<or> st = PARTIAL_FILLED" using \<open>is_position_open st\<close> by (cases st) simp_all
  ultimately show ?thesis using sent(5) by auto
qed

lemma opened_means_submitted_witness:
  "\<exists>w'. length (positions_of w' ''i1'') = 1 \<and> reachable_ledger w'"
proof -
  obtain row w' where w': "execute sample_env sample_order sample_gate sample_risk empty_world = (Inr (Opened row), w')"
    using sample_call_opened by blast
  show ?thesis
    using opened_means_submitted [OF reachable_empty w'] reachable_execute [OF reachable_empty w']
    by (auto simp: sample_env_def)
qed

text \<open>C5: The price of a submitted order. What passes the preflight has a worst price inside the price
  bounds and, relative to a positive ask, inside the slippage cap; the amount is at least a dollar; the
  system is not paused and the token has no unresolved intent.\<close>

theorem preflight_price_safe:
  assumes "exec_preflight x f usd w = Inr (Some (tok, p))"
  shows "\<exists>l. p = float_of_dec l \<and> dle PRICE_MIN l = Inr True \<and> dle l PRICE_MAX = Inr True \<and>
      (dlt (DFin 0) (dec_of_float (live_ask x f)) = Inr True \<longrightarrow>
        slippage_exceeds l (dec_of_float (live_ask x f)) MAX_SLIPPAGE_CAP = Inr False) \<and>
      \<not> flt usd (Fin 1) \<and> \<not> paused w \<and> \<not> blocked_token tok w \<and> entry_token f = Some tok"
proof -
  obtain l r where l: "compute_limit_price ''TAKER_BUY'' (dec_of_float (live_ask x f)) PRICE_PREMIUM TICK_SIZE
      PRICE_MIN PRICE_MAX (Some MAX_SLIPPAGE_CAP) = Inr (Some l, r)" "p = float_of_dec l"
    and g: "\<not> flt usd (Fin 1)" "\<not> is_emergency_paused (x_pause x) w"
      "has_unresolved_intent (x_unresolved x) tok w = Inr False" "entry_token f = Some tok"
    using assms
    by (auto simp: exec_preflight_def rbind_eq_Inr split: if_splits option.splits sum.splits bool.splits)
  have "\<not> blocked_token tok w"
    using g(3) by (cases "x_unresolved x") (auto simp: blocked_token_def has_unresolved_intent_def)
  then show ?thesis
    using l(2) g compute_limit_price_accepts(2,3) [OF l(1)]
      compute_limit_price_accepts(6) [OF l(1), of MAX_SLIPPAGE_CAP]
    by (auto simp: is_emergency_paused_iff intro!: exI [of _ l])
qed

lemma preflight_price_safe_witness:
  "\<exists>tok p l. exec_preflight sample_env sample_order (Fin 5) empty_world = Inr (Some (tok, p)) \<and>
     p = float_of_dec l \<and> dle l PRICE_MAX = Inr True"
proof -
  have "case exec_preflight sample_env sample_order (Fin 5) empty_world of Inr (Some _) \<Rightarrow> True | _ \<Rightarrow> False"
    by code_simp
  then obtain tok p where "exec_preflight sample_env sample_order (Fin 5) empty_world = Inr (Some (tok, p))"
    by (auto split: sum.splits option.splits)
  from preflight_price_safe [OF this] this show ?thesis by blast
qed

end
