(* ===== verification/EntrySafety.thy ===== *)
theory EntrySafety
  imports EntryLoop OrderSafety
begin

text \<open>
  What the entry loop guarantees, whatever the council, the executor and the network do: the switches
  and the persisted risk mode stop every entry, the limits on open positions and slugs hold, the
  session counters count what they say, and the ledger invariants of the order path carry over.
\<close>

section \<open>One entry\<close>

lemma map_row_slug: "map_decision_to_position_row d f g rk iid oid pid now ask slip = Inr row \<Longrightarrow>
    p_slug row = fd_slug f \<and> p_asset row = fd_asset f \<and> p_action row = fd_action f"
  by (auto simp: map_decision_to_position_row_def rbind_eq_Inr)

lemma build_row_slug: "build_row x f g rk iid oid d = Inr row \<Longrightarrow>
    p_slug row = fd_slug f \<and> p_asset row = fd_asset f \<and> p_action row = fd_action f"
  by (auto simp: build_row_def rbind_eq_Inr dest: map_row_slug split: if_splits)

lemma execute_opened_slug: "execute x f g rk w = (Inr (Opened p), w') \<Longrightarrow>
    p_slug p = fd_slug f \<and> p_asset p = fd_asset f \<and> p_action p = fd_action f"
proof -
  have confirm: "exec_confirm x iid oid d row u = (Inr (Opened p), u') \<Longrightarrow> p = row" for iid oid d row u u'
    by (auto simp: exec_confirm_def split: prod.splits sum.splits confirm_result.splits if_splits list.splits)
  have op: "exec_open x f g rk iid oid d u = (Inr (Opened p), u') \<Longrightarrow>
      p_slug p = fd_slug f \<and> p_asset p = fd_asset f \<and> p_action p = fd_action f" for iid oid d u u'
    by (auto simp: exec_open_def dest!: confirm dest: build_row_slug split: sum.splits if_splits)
  assume "execute x f g rk w = (Inr (Opened p), w')"
  then show ?thesis
    by (auto simp: execute_def execute_run_def exec_after_post_def exec_dispatch_def Let_def dest: op
        split: sum.splits option.splits prod.splits bool.splits post_outcome.splits fak_kind.splits)
qed

lemma dry_execute_fields: "dry_execute dry i now f g rk n = Inr (Some p) \<Longrightarrow>
    p_slug p = fd_slug f \<and> p_asset p = fd_asset f \<and> p_action p = fd_action f"
  by (auto simp: dry_execute_def rbind_eq_Inr Let_def split: if_splits)

lemma with_slippage_slug: "with_slippage ask p = Inr q \<Longrightarrow> p_slug q = p_slug p \<and> p_asset q = p_asset p \<and> p_action q = p_action p"
  by (auto simp: with_slippage_def rbind_eq_Inr split: if_splits)

lemma log_open_slug: "log_position_open dbf dry p w = (Inr q, w') \<Longrightarrow>
    p_slug q = p_slug p \<and> p_asset q = p_asset p \<and> p_action q = p_action p"
  by (auto simp: log_position_open_def Let_def split: if_splits)

definition same_but_db_stats :: "bot \<Rightarrow> bot \<Rightarrow> bool" where
  "same_but_db_stats b b' = (bt_open b' = bt_open b \<and> bt_closed b' = bt_closed b \<and> bt_failed b' = bt_failed b)"

lemmas stats_defs = increment_trade_count_def increment_no_fill_streak_def increment_submit_count_def reset_no_fill_streak_def

lemma count_simps [simp]:
  "bt_open (count_submit b) = bt_open b" "bt_closed (count_submit b) = bt_closed b" "bt_failed (count_submit b) = bt_failed b"
  "bt_db (count_submit b) = bt_db b" "st_trades (bt_stats (count_submit b)) = st_trades (bt_stats b)"
  "st_submits (bt_stats (count_submit b)) = st_submits (bt_stats b) + 1"
  "bt_open (count_miss b) = bt_open b" "bt_closed (count_miss b) = bt_closed b" "bt_failed (count_miss b) = bt_failed b"
  "bt_db (count_miss b) = bt_db b" "st_trades (bt_stats (count_miss b)) = st_trades (bt_stats b)"
  "st_submits (bt_stats (count_miss b)) = st_submits (bt_stats b)"
  "bt_open (add_open p b) = bt_open b @ [p]" "bt_closed (add_open p b) = bt_closed b" "bt_failed (add_open p b) = bt_failed b"
  "bt_db (add_open p b) = bt_db b" "st_trades (bt_stats (add_open p b)) = st_trades (bt_stats b) + 1"
  "st_submits (bt_stats (add_open p b)) = st_submits (bt_stats b)"
  by (simp_all add: count_submit_def count_miss_def add_open_def stats_defs)

text \<open>An entry opens one position of the finding's slug and counts one trade, or it opens nothing and counts
  none; it counts one submission unless the call raised.\<close>

lemma enter_effect:
  assumes "enter cfg x f g rk b = (r, b')"
  shows "bt_closed b' = bt_closed b \<and> bt_failed b' = bt_failed b \<and>
    (if r = Inr True then \<exists>p. bt_open b' = bt_open b @ [p] \<and> p_slug p = fd_slug f \<and>
        p_asset p = fd_asset f \<and> p_action p = fd_action f \<and>
        st_trades (bt_stats b') = st_trades (bt_stats b) + 1 \<and> st_submits (bt_stats b') = st_submits (bt_stats b) + 1
     else bt_open b' = bt_open b \<and> st_trades (bt_stats b') = st_trades (bt_stats b) \<and>
        (st_submits (bt_stats b') = st_submits (bt_stats b) + 1 \<or>
         (\<exists>e. r = Inl e) \<and> st_submits (bt_stats b') = st_submits (bt_stats b)))"
proof (cases "lc_dry cfg")
  case True
  then show ?thesis using assms
    by (auto simp: enter_def enter_dry_def dest!: dry_execute_fields with_slippage_slug log_open_slug
        split: sum.splits option.splits prod.splits)
next
  case False
  then show ?thesis using assms
    by (auto simp: enter_def enter_live_def Let_def dest!: execute_opened_slug
        split: sum.splits prod.splits exec_out.splits)
qed

lemma run_council_slug: "run_council dry x f bk n = Inr (Some (f1, g, rk)) \<Longrightarrow>
    fd_slug f1 = fd_slug f \<and> fd_asset f1 = fd_asset f \<and> fd_action f1 = fd_action f"
  by (auto simp: run_council_def rbind_eq_Inr Let_def logged_def freshen_def split: if_splits)

section \<open>The scan as a sequence of entries\<close>

inductive scan_step :: "loop_config \<Rightarrow> pyfloat \<Rightarrow> (finding \<times> entry_env) list \<Rightarrow> bot \<Rightarrow> bot \<Rightarrow> bool"
  for cfg bankroll fs where
  scan_enter: "(f, x) \<in> set fs \<Longrightarrow> n_open b < MAX_OPEN_POSITIONS \<Longrightarrow>
    fd_slug f \<notin> p_slug ` set (bt_open b) \<Longrightarrow> fd_slug f \<notin> set (bt_failed b) \<Longrightarrow>
    run_council (lc_dry cfg) (ee_council x) f bankroll (n_open b) = Inr (Some (f1, g, rk)) \<Longrightarrow>
    entry_allowed cfg x (bt_stats b) = Inr True \<Longrightarrow> enter cfg x f1 g rk b = (r, b') \<Longrightarrow>
    scan_step cfg bankroll fs b b'"

lemma scan_findings_steps:
  assumes "set fs \<subseteq> set fs0" "p_slug ` set (bt_open b) \<subseteq> set slugs"
  shows "(scan_step cfg bk fs0)\<^sup>*\<^sup>* b (snd (scan_findings cfg bk fs slugs b))"
  using assms
proof (induction cfg bk fs slugs b rule: scan_findings.induct)
  case (2 cfg bk f x rest slugs b)
  show ?case
  proof (cases "n_open b \<ge> MAX_OPEN_POSITIONS \<or> fd_slug f \<in> set slugs \<or> fd_slug f \<in> set (bt_failed b)")
    case True
    then show ?thesis using 2 by auto
  next
    case free: False
    show ?thesis
    proof (cases "\<exists>f1 g rk. run_council (lc_dry cfg) (ee_council x) f bk (n_open b) = Inr (Some (f1, g, rk)) \<and>
        entry_allowed cfg x (bt_stats b) = Inr True")
      case False
      then show ?thesis using 2 free by (auto split: sum.splits option.splits bool.splits)
    next
      case True
      then obtain f1 g rk where c: "run_council (lc_dry cfg) (ee_council x) f bk (n_open b) = Inr (Some (f1, g, rk))"
          "entry_allowed cfg x (bt_stats b) = Inr True" by blast
      obtain r b1 where e: "enter cfg x f1 g rk b = (r, b1)" by fastforce
      have "fd_slug f \<notin> p_slug ` set (bt_open b)" using free "2.prems"(2) by blast
      then have step: "scan_step cfg bk fs0 b b1" using free "2.prems"(1) c e by (intro scan_enter) auto
      note eff = enter_effect [OF e] and slug = run_council_slug [OF c(1)]
      show ?thesis
      proof (cases r)
        case (Inl err)
        then show ?thesis using step free c e by auto
      next
        case (Inr opened)
        let ?s = "if opened then fd_slug f # slugs else slugs"
        have "p_slug ` set (bt_open b1) \<subseteq> set ?s" using eff slug subsetD [OF "2.prems"(2)] Inr by (cases opened) auto
        moreover have "set rest \<subseteq> set fs0" using "2.prems"(1) by simp
        ultimately have "(scan_step cfg bk fs0)\<^sup>*\<^sup>* b1 (snd (scan_findings cfg bk rest ?s b1))"
          using "2.IH" free c e Inr by simp
        moreover have "scan_findings cfg bk ((f, x) # rest) slugs b = scan_findings cfg bk rest ?s b1"
          using free c e Inr by simp
        ultimately show ?thesis using step by (metis converse_rtranclp_into_rtranclp)
      qed
    qed
  qed
qed simp

lemma scan_steps: "(case findings of Inl _ \<Rightarrow> snd (scan_and_execute cfg bk findings b) = b
    | Inr fs \<Rightarrow> (scan_step cfg bk fs)\<^sup>*\<^sup>* b (snd (scan_and_execute cfg bk findings b)))"
  using scan_findings_steps [of _ _ b "map p_slug (bt_open b)"]
  by (auto simp: scan_and_execute_def rbind_eq_Inr split: sum.splits)

section \<open>Properties\<close>

text \<open>C12: The limits of the scan: from a state within the cap and with one position per slug, the scan stays
  within the cap and keeps one position per slug; it only appends positions, none for a slug that was open
  or failed before; the trade counter grows by exactly the number of opened positions and the submit
  counter by at least as many.\<close>

theorem scan_limits:
  assumes "n_open b \<le> MAX_OPEN_POSITIONS" "distinct (map p_slug (bt_open b))"
    and "scan_and_execute cfg bankroll findings b = (r, b')"
  shows "n_open b' \<le> MAX_OPEN_POSITIONS \<and> distinct (map p_slug (bt_open b')) \<and> bt_failed b' = bt_failed b \<and>
    (\<exists>new. bt_open b' = bt_open b @ new \<and> p_slug ` set new \<inter> (p_slug ` set (bt_open b) \<union> set (bt_failed b)) = {} \<and>
      st_trades (bt_stats b') = st_trades (bt_stats b) + int (length new) \<and>
      st_submits (bt_stats b) + int (length new) \<le> st_submits (bt_stats b'))"
proof -
  have run: "n_open c \<le> MAX_OPEN_POSITIONS \<and> distinct (map p_slug (bt_open c)) \<and> bt_failed c = bt_failed b \<and>
    (\<exists>new. bt_open c = bt_open b @ new \<and> p_slug ` set new \<inter> (p_slug ` set (bt_open b) \<union> set (bt_failed b)) = {} \<and>
      st_trades (bt_stats c) = st_trades (bt_stats b) + int (length new) \<and>
      st_submits (bt_stats b) + int (length new) \<le> st_submits (bt_stats c))"
    if "(scan_step cfg bankroll fs)\<^sup>*\<^sup>* b c" for c fs
    using that
  proof (induction rule: rtranclp_induct)
    case base
    then show ?case using assms(1,2) by auto
  next
    case (step c d)
    then obtain new where new: "bt_open c = bt_open b @ new" "st_trades (bt_stats c) = st_trades (bt_stats b) + int (length new)"
        "p_slug ` set new \<inter> (p_slug ` set (bt_open b) \<union> set (bt_failed b)) = {}"
        "st_submits (bt_stats b) + int (length new) \<le> st_submits (bt_stats c)" by blast
    from step.hyps(2) show ?case
    proof cases
      case (scan_enter f x f1 g rk r)
      note eff = enter_effect [OF scan_enter(7)] and slug = run_council_slug [OF scan_enter(5)]
      show ?thesis
      proof (cases "r = Inr True")
        case False
        then have "bt_open d = bt_open c" "bt_failed d = bt_failed c" "st_trades (bt_stats d) = st_trades (bt_stats c)"
          "st_submits (bt_stats c) \<le> st_submits (bt_stats d)" using eff by auto
        then show ?thesis using step.IH new by (auto simp: n_open_def)
      next
        case True
        then obtain p where p: "bt_open d = bt_open c @ [p]" "p_slug p = fd_slug f" "bt_failed d = bt_failed c"
            "st_trades (bt_stats d) = st_trades (bt_stats c) + 1" "st_submits (bt_stats d) = st_submits (bt_stats c) + 1"
          using eff slug by auto
        have "n_open d \<le> MAX_OPEN_POSITIONS" using p(1) scan_enter(2) by (simp add: n_open_def)
        moreover have "distinct (map p_slug (bt_open d))" using step.IH p(1,2) scan_enter(3) by auto
        moreover have "bt_open d = bt_open b @ (new @ [p])" using p(1) new(1) by simp
        moreover have "p_slug ` set (new @ [p]) \<inter> (p_slug ` set (bt_open b) \<union> set (bt_failed b)) = {}"
          using new(1,3) p(2) scan_enter(3,4) step.IH by auto
        moreover have "st_trades (bt_stats d) = st_trades (bt_stats b) + int (length (new @ [p]))"
          "st_submits (bt_stats b) + int (length (new @ [p])) \<le> st_submits (bt_stats d)" using p new by simp_all
        ultimately show ?thesis using step.IH p(3) by metis
      qed
    qed
  qed
  show ?thesis
  proof (cases findings)
    case (Inl e)
    then have "b' = b" using assms(3) by (auto simp: scan_and_execute_def split: if_splits)
    then show ?thesis using assms(1,2) by auto
  next
    case (Inr fs)
    then have "(scan_step cfg bankroll fs)\<^sup>*\<^sup>* b b'"
      using scan_steps [where findings = findings and cfg = cfg and bk = bankroll and b = b] assms(3) by simp
    then show ?thesis by (rule run)
  qed
qed

lemma entry_blocked: "\<not> lc_authority cfg \<or> \<not> lc_entries cfg \<or>
    effective_risk_mode (ee_risk_fault x) (ee_risk_db x) \<noteq> ''Operational'' \<Longrightarrow> entry_allowed cfg x st = Inr False"
  by (auto simp: entry_allowed_def)

lemma scan_blocked:
  assumes "\<forall>(f, x) \<in> set fs. \<not> lc_authority cfg \<or> \<not> lc_entries cfg \<or>
    effective_risk_mode (ee_risk_fault x) (ee_risk_db x) \<noteq> ''Operational''"
  shows "snd (scan_and_execute cfg bankroll (Inr fs) b) = b"
proof -
  have "\<not> scan_step cfg bankroll fs c d" for c d
  proof
    assume "scan_step cfg bankroll fs c d"
    then show False
    proof cases
      case (scan_enter f x f1 g rk r)
      have "entry_allowed cfg x (bt_stats c) = Inr False"
        using bspec [OF assms scan_enter(1)] by (intro entry_blocked) auto
      then show ?thesis using scan_enter(6) by simp
    qed
  qed
  then have "(scan_step cfg bankroll fs)\<^sup>*\<^sup>* b c \<Longrightarrow> c = b" for c
    by (metis rtranclp.cases converse_rtranclpE)
  then show ?thesis using scan_steps [where findings = "Inr fs" and cfg = cfg and bk = bankroll and b = b] by simp
qed

text \<open>The council has no authority: with the switches as the repository ships them a scan leaves the bot,
  its counters and its database untouched, whatever the findings, the council and the executor say; and
  under any switches so does a scan in which every persisted risk mode is not \<open>Operational\<close>.\<close>

theorem shipped_switches_never_enter:
  "snd (scan_and_execute repo_config bankroll findings b) = b \<and>
   ((\<forall>(f, x) \<in> set fs. effective_risk_mode (ee_risk_fault x) (ee_risk_db x) \<noteq> ''Operational'') \<longrightarrow>
     snd (scan_and_execute cfg bankroll (Inr fs) b) = b)"
proof
  show "snd (scan_and_execute repo_config bankroll findings b) = b"
  proof (cases findings)
    case (Inl e)
    then show ?thesis by (simp add: scan_and_execute_def)
  next
    case (Inr fs)
    have "\<not> lc_authority repo_config" by (simp add: repo_config_def COUNCIL_DECISION_AUTHORITY_ENABLED_def)
    then show ?thesis unfolding Inr by (intro scan_blocked) auto
  qed
  show "(\<forall>(f, x) \<in> set fs. effective_risk_mode (ee_risk_fault x) (ee_risk_db x) \<noteq> ''Operational'') \<longrightarrow>
     snd (scan_and_execute cfg bankroll (Inr fs) b) = b"
    by (intro impI scan_blocked) auto
qed

text \<open>The risk gate fails closed: the mode is one of the five, and it is \<open>Operational\<close> exactly when a
  snapshot can be loaded and has no active blocker; an unreadable, missing or inconsistent one counts as
  \<open>Halted\<close>.\<close>

theorem risk_gate_fails_closed:
  "effective_risk_mode f d \<in> set VALID_RISK_MODES \<and>
   (effective_risk_mode f d = ''Operational'' \<longleftrightarrow> (\<exists>snap. load_risk_state f d = Inr snap \<and> rs_blockers snap = [])) \<and>
   (\<forall>e. load_risk_state f d = Inl e \<longrightarrow> effective_risk_mode f d = ''Halted'')"
proof (cases "load_risk_state f d")
  case (Inl e)
  then show ?thesis by (simp add: effective_risk_mode_def VALID_RISK_MODES_def)
next
  case (Inr snap)
  have v: "valid_snapshot snap" using Inr by (auto simp: load_risk_state_def rbind_def dest: validate_doc
      split: if_splits risk_db.splits option.splits payload.splits json.splits sum.splits)
  then obtain m where m: "reduce_risk_mode (rs_blockers snap) = Inr m" "rs_mode snap = jstr (mode_text m)"
    by (auto simp: valid_snapshot_def validate_dict_iff)
  have eff: "effective_risk_mode f d = mode_text m"
    using m(2) by (cases m) (simp_all add: effective_risk_mode_def Inr jstr_def VALID_RISK_MODES_def)
  have "m = Operational \<longleftrightarrow> rs_blockers snap = []"
    using m(1) reduce_operational_iff by simp
  then show ?thesis unfolding eff using Inr by (cases m) (simp_all add: VALID_RISK_MODES_def)
qed

text \<open>C13: The risk chain from a signal to the entry: once a synchronisation has persisted a kill switch, a
  manual review, a hard stop or a daily loss stop, no scan that reads this state, with whatever faults,
  opens a position or submits an order.\<close>

theorem stop_signals_block_entries:
  assumes "sync_risk_state_from_runtime_signals f g d = (Inr snap, d')"
    and "sg_kill g \<or> sg_review g \<or> sg_circuit g = Some ''hard_stop'' \<or>
      (\<exists>start. number_of_json (rs_equity snap) = Inr start \<and> daily_loss_halt start (sg_pnl g) = Inr (Some ''daily_loss_stop''))"
    and "\<forall>(fd, x) \<in> set fs. ee_risk_db x = d'"
  shows "snd (scan_and_execute cfg bankroll (Inr fs) b) = b"
proof -
  obtain m where m: "rs_mode snap = jstr (mode_text m)" "m \<noteq> Operational"
  proof -
    obtain m start where ms: "rs_mode snap = jstr (mode_text m)" "number_of_json (rs_equity snap) = Inr start"
      "sg_kill g \<longleftrightarrow> m = KillSwitch" "sg_review g \<or> sg_circuit g = Some ''hard_stop'' \<longrightarrow> Halted \<le> m"
      "daily_loss_halt start (sg_pnl g) = Inr (Some ''daily_loss_stop'') \<longrightarrow> ExitOnly \<le> m"
      using sync_mode_lemma [OF assms(1)] by blast
    have "\<not> Halted \<le> Operational" "\<not> ExitOnly \<le> Operational" by (simp_all add: less_eq_risk_mode_def)
    then have "m \<noteq> Operational" using ms assms(2) by auto
    then show thesis using ms(1) that by blast
  qed
  have l: "load_risk_state StoreOk d' = Inr snap" using sync_cases [OF assms(1)] by blast
  have "effective_risk_mode ft d' \<noteq> ''Operational''" for ft
  proof (cases "load_risk_state ft d'")
    case (Inr snap')
    then have "snap' = snap" using l by (auto simp: load_risk_state_def split: if_splits)
    then show ?thesis using m Inr by (cases m) (simp_all add: effective_risk_mode_def jstr_def)
  qed (simp add: effective_risk_mode_def)
  then show ?thesis using assms(3) by (intro scan_blocked) auto
qed

section \<open>Witnesses\<close>

definition sample_entry_env :: "risk_db \<Rightarrow> entry_env" where
  "sample_entry_env d = \<lparr>ee_council = \<lparr>ce_price = Inr ''timeout'', ce_market = Inr None, ce_book = Inr None, ce_log = NoFault\<rparr>,
     ee_risk_fault = StoreOk, ee_risk_db = d, ee_exec = sample_env, ee_id = ''p9'', ee_now = 0, ee_log = NoFault\<rparr>"

definition sample_bot :: "position list \<Rightarrow> bot" where
  "sample_bot ps = \<lparr>bt_open = ps, bt_closed = [], bt_failed = [], bt_stats = \<lparr>st_trades = 0, st_no_fill = 0, st_submits = 0\<rparr>,
     bt_db = empty_world\<rparr>"

definition open_config :: loop_config where
  "open_config = \<lparr>lc_dry = False, lc_authority = True, lc_entries = True\<rparr>"

lemma scan_limits_witness:
  "\<exists>r b'. scan_and_execute open_config (Fin 100) (Inr [(sample_finding, sample_entry_env NoTable)]) (sample_bot []) = (r, b') \<and>
     n_open b' \<le> 1 \<and> st_submits (bt_stats b') \<ge> 0"
proof -
  obtain r b' where s: "scan_and_execute open_config (Fin 100) (Inr [(sample_finding, sample_entry_env NoTable)]) (sample_bot []) = (r, b')"
    by fastforce
  have b: "n_open (sample_bot []) \<le> MAX_OPEN_POSITIONS" "distinct (map p_slug (bt_open (sample_bot [])))"
    by (simp_all add: sample_bot_def n_open_def MAX_OPEN_POSITIONS_def)
  from scan_limits [OF b s] show ?thesis using s by (auto simp: MAX_OPEN_POSITIONS_def sample_bot_def)
qed

lemma shipped_switches_never_enter_witness:
  "effective_risk_mode StoreOk NoTable = ''Halted'' \<and>
   snd (scan_and_execute open_config (Fin 100) (Inr [(sample_finding, sample_entry_env NoTable)]) (sample_bot [])) = sample_bot []"
proof -
  have h: "effective_risk_mode StoreOk NoTable = ''Halted''" by (simp add: effective_risk_mode_def load_risk_state_def)
  then show ?thesis
    using shipped_switches_never_enter [of "Fin 100" "Inr []" "sample_bot []" "[(sample_finding, sample_entry_env NoTable)]" open_config]
    by (simp add: sample_entry_env_def)
qed

lemma risk_gate_fails_closed_witness: "effective_risk_mode StoreReadFails NoTable = ''Halted''"
  using risk_gate_fails_closed [of StoreReadFails NoTable] by (simp add: load_risk_state_def)

lemma stop_signals_block_entries_witness:
  "\<exists>snap d'. sync_risk_state_from_runtime_signals StoreOk sample_signals
      (sample_db (sample_snapshot ''2026-06-08'' [] ''Operational'')) = (Inr snap, d') \<and>
     snd (scan_and_execute open_config (Fin 100) (Inr [(sample_finding, sample_entry_env d')]) (sample_bot [])) = sample_bot []"
proof -
  obtain snap d' where s: "sync_risk_state_from_runtime_signals StoreOk sample_signals
     (sample_db (sample_snapshot ''2026-06-08'' [] ''Operational'')) = (Inr snap, d')" by (rule sample_sync)
  have "sg_kill sample_signals" by (simp add: sample_signals_def)
  then show ?thesis using stop_signals_block_entries [OF s, of "[(sample_finding, sample_entry_env d')]"] s
    by (auto simp: sample_entry_env_def)
qed

end
