(* ===== verification/MonitorSafety.thy ===== *)
theory MonitorSafety
  imports MonitorLoop EntrySafety "HOL-Library.Multiset" "HOL-Library.Sublist"
begin

text \<open>
  What the management of open positions guarantees, whatever the outside does: every position is either
  still open or among the closed ones, managing never touches the order ledger or the counters, a live
  position only leaves through a matched sale or a resolved market, and an expired one leaves.
\<close>

section \<open>The contract of a turn\<close>

definition fate_pos :: "fate \<Rightarrow> position" where
  "fate_pos f = (case f of Stay p \<Rightarrow> p | Gone q _ \<Rightarrow> q)"

lemma fate_pos_simps [simp]: "fate_pos (Stay p) = p" "fate_pos (Gone q s) = q"
  by (simp_all add: fate_pos_def)

lemma log_close_ledger: "same_ledger w (snd (log_position_close dbf p w))"
  by (auto simp: log_position_close_def same_ledger_def close_row_def row_key_def map_key_update_where split: sum.split)

lemma log_partial_ledger: "same_ledger w (snd (log_partial_fill_update dbf p w))"
  by (auto simp: log_partial_fill_update_def same_ledger_def row_key_def map_key_update_where)

lemma close_key [simp]: "row_key (close_position now p r px hl) = row_key p"
  by (simp add: close_position_def row_key_def)

text \<open>No position is lost or invented: what is open or closed afterwards was open or closed before, each as
  often, and neither the order ledger nor the session counters changed.\<close>

definition managed :: "bot \<Rightarrow> bot \<Rightarrow> bool" where
  "managed b b' = (mset (map row_key (bt_open b' @ bt_closed b')) = mset (map row_key (bt_open b @ bt_closed b)) \<and>
     subseq (map row_key (bt_open b')) (map row_key (bt_open b)) \<and>
     same_ledger (bt_db b) (bt_db b') \<and> bt_stats b' = bt_stats b)"

lemma managed_refl [simp]: "managed b b"
  by (simp add: managed_def)

lemma managed_trans: "managed a b \<Longrightarrow> managed b c \<Longrightarrow> managed a c"
  using same_ledger_trans subseq_order.trans by (auto simp: managed_def)

locale turn_contract =
  fixes turn :: "position \<Rightarrow> world \<Rightarrow> turn"
  assumes turn_key: "turn p w = ((r, f), w') \<Longrightarrow> row_key (fate_pos f) = row_key p"
    and turn_ledger: "turn p w = ((r, f), w') \<Longrightarrow> same_ledger w w'"
begin

lemma turns_ledger: "take_turns turn ps b = (r, b') \<Longrightarrow> same_ledger (bt_db b) (bt_db b') \<and> bt_stats b' = bt_stats b"
proof (induction ps arbitrary: b r b')
  case (Cons p ps)
  obtain r1 f w where t: "turn p (bt_db b) = ((r1, f), w)" by (metis surj_pair)
  let ?b1 = "settle f (b\<lparr>bt_db := w\<rparr>)"
  have b1: "bt_db ?b1 = w" "bt_stats ?b1 = bt_stats b" by (simp_all add: settle_def split: fate.split)
  show ?case
  proof (cases r1)
    case (Inl e)
    then show ?thesis using Cons.prems t b1 turn_ledger [OF t] by (auto simp: Let_def)
  next
    case (Inr u)
    obtain r2 b2 where t2: "take_turns turn ps ?b1 = (r2, b2)" by fastforce
    then show ?thesis using Cons.prems Cons.IH [OF t2] t b1 turn_ledger [OF t] Inr same_ledger_trans
      by (auto simp: Let_def)
  qed
qed simp

lemma turns_conserve: "take_turns turn ps b = (r, b') \<Longrightarrow>
    mset (map row_key (bt_open b' @ bt_closed b')) = mset (map row_key (ps @ bt_closed b))"
proof (induction ps arbitrary: b r b')
  case (Cons p ps)
  obtain r1 f w where t: "turn p (bt_db b) = ((r1, f), w)" by (metis surj_pair)
  let ?b1 = "settle f (b\<lparr>bt_db := w\<rparr>)"
  have k: "row_key (fate_pos f) = row_key p" using t by (rule turn_key)
  show ?case
  proof (cases r1)
    case (Inl e)
    then show ?thesis using Cons.prems t k by (cases f) (auto simp: Let_def settle_def keep_def)
  next
    case (Inr u)
    obtain r2 b2 where t2: "take_turns turn ps ?b1 = (r2, b2)" by fastforce
    then show ?thesis using Cons.prems Cons.IH [OF t2] t k Inr
      by (cases f) (auto simp: Let_def settle_def keep_def)
  qed
qed simp

lemma turns_subseq: "take_turns turn ps b = (r, b') \<Longrightarrow> subseq (map row_key (bt_open b')) (map row_key ps)"
proof (induction ps arbitrary: b r b')
  case (Cons p ps)
  obtain r1 f w where t: "turn p (bt_db b) = ((r1, f), w)" by (metis surj_pair)
  let ?b1 = "settle f (b\<lparr>bt_db := w\<rparr>)"
  have k: "row_key (fate_pos f) = row_key p" using t by (rule turn_key)
  show ?case
  proof (cases r1)
    case (Inl e)
    then show ?thesis using Cons.prems t k by (cases f) (auto simp: Let_def settle_def keep_def)
  next
    case (Inr u)
    obtain r2 b2 where t2: "take_turns turn ps ?b1 = (r2, b2)" by fastforce
    then show ?thesis using Cons.prems Cons.IH [OF t2] t k Inr
      by (cases f) (auto simp: Let_def settle_def keep_def)
  qed
qed simp

lemma managed_turns: "managed b (snd (take_turns turn (bt_open b) b))"
  using turns_conserve [of "bt_open b" b] turns_ledger [of "bt_open b" b] turns_subseq [of "bt_open b" b]
  by (cases "take_turns turn (bt_open b) b") (simp add: managed_def)

text \<open>Every closed record is what the turn of an open position made of it, and every position that is still
  open is what its turn left, or one that an error has kept from its turn.\<close>

lemma turns_closed: "take_turns turn ps b = (r, b') \<Longrightarrow>
    \<exists>new. bt_closed b' = bt_closed b @ new \<and> (\<forall>q \<in> set new. \<exists>p \<in> set ps. \<exists>w u s w'. turn p w = ((u, Gone q s), w'))"
proof (induction ps arbitrary: b r b')
  case (Cons p ps)
  obtain r1 f w where t: "turn p (bt_db b) = ((r1, f), w)" by (metis surj_pair)
  let ?b1 = "settle f (b\<lparr>bt_db := w\<rparr>)"
  obtain one where one: "bt_closed ?b1 = bt_closed b @ one" "\<forall>q \<in> set one. \<exists>s. f = Gone q s"
    by (cases f) (auto simp: settle_def)
  show ?case
  proof (cases r1)
    case (Inl e)
    then have "bt_closed b' = bt_closed b @ one" using Cons.prems t one(1) by (auto simp: Let_def)
    moreover have "\<exists>x \<in> set (p # ps). \<exists>w u s w'. turn x w = ((u, Gone q s), w')" if "q \<in> set one" for q
      using that one(2) t by fastforce
    ultimately show ?thesis by blast
  next
    case (Inr u)
    obtain r2 b2 where t2: "take_turns turn ps ?b1 = (r2, b2)" by fastforce
    from Cons.IH [OF t2] obtain new where new: "bt_closed b2 = bt_closed ?b1 @ new"
      "\<forall>q \<in> set new. \<exists>p \<in> set ps. \<exists>w u s w'. turn p w = ((u, Gone q s), w')" by blast
    have "bt_closed b' = bt_closed b @ (one @ new)" using Cons.prems t t2 Inr new(1) one(1) by (auto simp: Let_def)
    moreover have "\<exists>x \<in> set (p # ps). \<exists>w u s w'. turn x w = ((u, Gone q s), w')" if "q \<in> set (one @ new)" for q
      using that one(2) new(2) t by fastforce
    ultimately show ?thesis by blast
  qed
qed simp

lemma turns_closed_drop: "take_turns turn ps b = (r, b') \<Longrightarrow> q \<in> set (drop (length (bt_closed b)) (bt_closed b')) \<Longrightarrow>
    \<exists>p \<in> set ps. \<exists>w u s w'. turn p w = ((u, Gone q s), w')"
  by (drule turns_closed) auto

lemma turns_open: "take_turns turn ps b = (Inr u, b') \<Longrightarrow> q \<in> set (bt_open b') \<Longrightarrow>
    \<exists>p \<in> set ps. \<exists>w v w'. turn p w = ((v, Stay q), w')"
proof (induction ps arbitrary: b b')
  case (Cons p ps)
  obtain r1 f w where t: "turn p (bt_db b) = ((r1, f), w)" by (metis surj_pair)
  let ?b1 = "settle f (b\<lparr>bt_db := w\<rparr>)"
  obtain v where r1: "r1 = Inr v" using Cons.prems(1) t by (cases r1) (auto simp: Let_def)
  obtain r2 b2 where t2: "take_turns turn ps ?b1 = (r2, b2)" by fastforce
  have b': "r2 = Inr u" "b' = b2\<lparr>bt_open := keep f (bt_open b2)\<rparr>" using Cons.prems(1) t t2 r1 by (auto simp: Let_def)
  show ?case
  proof (cases "f = Stay q")
    case True
    then show ?thesis using t by fastforce
  next
    case False
    then have "q \<in> set (bt_open b2)" using Cons.prems(2) b'(2) by (cases f) (auto simp: keep_def)
    then show ?thesis using Cons.IH [OF t2 [unfolded b'(1)]] by fastforce
  qed
qed simp

text \<open>Every position of the list gets its turn, unless an error ended the loop before.\<close>

lemma turn_taken:
  assumes "take_turns turn ps b = (Inr u, b')" "p \<in> set ps"
  obtains w r f w' where "turn p w = ((Inr r, f), w')"
    "case f of Stay q \<Rightarrow> q \<in> set (bt_open b') | Gone q _ \<Rightarrow> q \<in> set (drop (length (bt_closed b)) (bt_closed b'))"
proof -
  have "\<exists>w r f w'. turn p w = ((Inr r, f), w') \<and>
      (case f of Stay q \<Rightarrow> q \<in> set (bt_open b') | Gone q _ \<Rightarrow> q \<in> set (drop (length (bt_closed b)) (bt_closed b')))"
    using assms
  proof (induction ps arbitrary: b u b')
    case (Cons q qs)
    obtain r1 f w where t: "turn q (bt_db b) = ((r1, f), w)" by (metis surj_pair)
    let ?b1 = "settle f (b\<lparr>bt_db := w\<rparr>)"
    obtain u1 where r1: "r1 = Inr u1" using Cons.prems(1) t by (cases r1) (auto simp: Let_def)
    obtain r2 b2 where t2: "take_turns turn qs ?b1 = (r2, b2)" by fastforce
    have b': "r2 = Inr u" "b' = b2\<lparr>bt_open := keep f (bt_open b2)\<rparr>" using Cons.prems(1) t t2 r1 by (auto simp: Let_def)
    obtain new where new: "bt_closed b2 = bt_closed ?b1 @ new" using turns_closed [OF t2] by blast
    obtain one where one: "bt_closed ?b1 = bt_closed b @ one" "\<And>x s. f = Gone x s \<Longrightarrow> x \<in> set one"
      by (cases f) (auto simp: settle_def)
    show ?case
    proof (cases "p = q")
      case True
      have "case f of Stay x \<Rightarrow> x \<in> set (bt_open b') | Gone x _ \<Rightarrow> x \<in> set (drop (length (bt_closed b)) (bt_closed b'))"
        using b'(2) new one by (cases f) (auto simp: keep_def)
      then show ?thesis using t r1 True by blast
    next
      case False
      then have "p \<in> set qs" using Cons.prems(2) by simp
      with Cons.IH [OF t2 [unfolded b'(1)]] obtain v rr g v' where g: "turn p v = ((Inr rr, g), v')"
        "case g of Stay x \<Rightarrow> x \<in> set (bt_open b2) | Gone x _ \<Rightarrow> x \<in> set (drop (length (bt_closed ?b1)) (bt_closed b2))" by blast
      have "case g of Stay x \<Rightarrow> x \<in> set (bt_open b') | Gone x _ \<Rightarrow> x \<in> set (drop (length (bt_closed b)) (bt_closed b'))"
        using g(2) b'(2) new one(1) by (cases g; cases f) (auto simp: keep_def)
      then show ?thesis using g(1) by blast
    qed
  qed simp
  then show thesis using that by blast
qed

end

section \<open>The turns of the program\<close>

lemma same_but_tel_key: "same_but_tel p q \<Longrightarrow> row_key q = row_key p"
  by (auto simp: same_but_tel_def row_key_def)

lemma sell_key: "sell_position x p = (r, q) \<Longrightarrow> row_key q = row_key p"
  using sell_books_lemma [where pos = p and x = x] by (auto intro: same_but_tel_key)

lemma partial_key: "apply_partial_fill p px mk = (r, q) \<Longrightarrow> row_key q = row_key p"
  by (auto simp: apply_partial_fill_def Let_def row_key_def split: if_splits sum.splits)

lemma check_exit_key: "check_exit bid now p pm secs = (r, q) \<Longrightarrow> row_key q = row_key p"
proof -
  assume c: "check_exit bid now p pm secs = (r, q)"
  obtain v t k where "valuation bid p pm = (v, t, k)" by (metis surj_pair)
  from check_exit_cases [OF this, of now secs] show ?thesis unfolding c
    by (auto simp: row_key_def confirm_profit_def unconfirm_profit_def split: if_splits)
qed

lemma heartbeat_key: "heartbeat_price x hl wd p = (r, q) \<Longrightarrow> row_key q = row_key p"
  by (auto simp: heartbeat_price_def row_key_def Let_def split: sum.splits if_splits prod.splits option.splits)

lemma price_rest_key: "price_rest x p = (r, q) \<Longrightarrow> row_key q = row_key p"
  by (auto simp: price_rest_def Let_def row_key_def dest!: heartbeat_key split: sum.splits option.splits)

lemma finish_close_fate: "finish_close x p reason px hl w = (f, w') \<Longrightarrow> row_key (fate_pos f) = row_key p \<and> same_ledger w w'"
  by (auto simp: finish_close_def Let_def log_close_ledger)

lemma live_exit_fate: "live_exit x pr bid reason p w = (f, w') \<Longrightarrow> row_key (fate_pos f) = row_key p \<and> same_ledger w w'"
proof -
  let ?p = "p\<lparr>p_closing := True, p_tel := (p_tel p)\<lparr>t_current_bid := Some bid\<rparr>\<rparr>"
  assume l: "live_exit x pr bid reason p w = (f, w')"
  obtain r q where s: "sell_position (sell_env_of x ?p) ?p = (r, q)" by fastforce
  have q: "row_key q = row_key p" using sell_key [OF s] by (simp add: row_key_def)
  have c: "row_key (q\<lparr>p_closing := c\<rparr>) = row_key q" for c by (simp add: row_key_def)
  show ?thesis
  proof (cases "\<exists>px mk. r = Inr (Some (px, mk))")
    case False
    then show ?thesis using l s q c by (auto simp: live_exit_def Let_def split: sum.splits option.splits)
  next
    case True
    then obtain px mk where r: "r = Inr (Some (px, mk))" by blast
    obtain r3 q3 where a: "apply_partial_fill q px mk = (r3, q3)" by fastforce
    have "row_key q3 = row_key p" using partial_key [OF a] q by simp
    then show ?thesis using l s r a log_partial_ledger finish_close_fate
      by (fastforce simp: live_exit_def Let_def split: sum.splits bool.splits)
  qed
qed

lemma decide_exit_fate: "decide_exit cfg x ws pr wd p w = (f, w') \<Longrightarrow> row_key (fate_pos f) = row_key p \<and> same_ledger w w'"
proof -
  assume d: "decide_exit cfg x ws pr wd p w = (f, w')"
  obtain r q where c: "check_exit (\<lambda>t. ws_bid x 2 (Some t)) (me_clock x 0) p (pr_yes pr) (pr_secs pr) = (r, q)" by fastforce
  note q = check_exit_key [OF c]
  have t: "row_key (q\<lparr>p_tel := te\<rparr>) = row_key q" for te by (simp add: row_key_def)
  show ?thesis using d c q t
    by (auto simp: decide_exit_def Let_def dest!: finish_close_fate live_exit_fate split: sum.splits option.splits if_splits)
qed

lemma watch_fate: "watch_position cfg ws x p w = (f, w') \<Longrightarrow> row_key (fate_pos f) = row_key p \<and> same_ledger w w'"
proof -
  assume a: "watch_position cfg ws x p w = (f, w')"
  have p0: "row_key (p\<lparr>p_no_clob_bid := None\<rparr>) = row_key p" by (simp add: row_key_def)
  obtain r q where pr: "price_rest x (p\<lparr>p_no_clob_bid := None\<rparr>) = (r, q)" by fastforce
  have q: "row_key q = row_key p" using price_rest_key [OF pr] p0 by simp
  have lg: "log_position_close dbf c w = (r, u) \<Longrightarrow> same_ledger w u" for dbf c r u
    using log_close_ledger [of w dbf c] by simp
  show ?thesis using a pr p0 q
    by (auto simp: watch_position_def Let_def dest!: decide_exit_fate dest: lg
        split: if_splits option.splits sum.splits heartbeat.splits prod.splits)
qed

interpretation watch: turn_contract "watch_turn cfg ws env" for cfg ws env
  by unfold_locales (auto simp: watch_turn_def dest!: watch_fate split: prod.splits)

interpretation flat: turn_contract "flatten_turn env" for env
proof
  fix p w r f w'
  assume a: "flatten_turn env p w = ((r, f), w')"
  let ?x = "env (p_id p)"
  obtain s q where s: "sell_position (fe_sell ?x) (p\<lparr>p_closing := True\<rparr>) = (s, q)" by fastforce
  have q: "row_key q = row_key p" using sell_key [OF s] by (simp add: row_key_def)
  have c: "row_key (q\<lparr>p_closing := c\<rparr>) = row_key q" for c by (simp add: row_key_def)
  have k: "apply_partial_fill q px mk = (u, v) \<Longrightarrow> row_key v = row_key p" for px mk u v
    using q by (simp add: partial_key)
  show "row_key (fate_pos f) = row_key p"
    using a s q c by (auto simp: flatten_turn_def Let_def dest!: k split: if_splits sum.splits option.splits prod.splits bool.splits)
  show "same_ledger w w'"
    using a s log_close_ledger
    by (auto simp: flatten_turn_def Let_def split: if_splits sum.splits option.splits prod.splits bool.splits)
qed

interpretation resolved: turn_contract "resolve_turn env won assets" for env won assets
proof
  fix p w r f w'
  assume a: "resolve_turn env won assets p w = ((r, f), w')"
  have lg: "log_position_close dbf c w = (u, v) \<Longrightarrow> same_ledger w v" for dbf c u v
    using log_close_ledger [of w dbf c] by simp
  show "row_key (fate_pos f) = row_key p" "same_ledger w w'"
    using a by (auto simp: resolve_turn_def Let_def dest: lg split: if_splits sum.splits prod.splits)
qed

lemma resolved_managed: "managed b (snd (handle_ws_resolved env event b))"
  using resolved.managed_turns by (simp add: handle_ws_resolved_def split: sum.split prod.split)

section \<open>How a position leaves\<close>

lemma partial_full: "apply_partial_fill p px mk = (Inr False, q) \<Longrightarrow>
    q = p \<and> (fle (or_zero (p_shares p)) (Fin 0) \<or> fge mk (fmul (or_zero (p_shares p)) FULL_FILL))"
  by (auto simp: apply_partial_fill_def Let_def split: if_splits sum.splits)

lemma sell_filled: "sell_position x p = (Inr (Some fl), q) \<Longrightarrow> same_but_tel p q \<and> \<not> fle (or_zero (p_shares p)) (Fin 0) \<and>
    (\<exists>resp. se_post x = PostResp resp \<and> status_lower (rp_status resp) = Inr ''matched'')"
  using sell_books_lemma [where pos = p and x = x] by (auto simp: sell_position_def split: if_splits)

definition sold_out :: "sell_env \<Rightarrow> position \<Rightarrow> pyfloat \<Rightarrow> bool" where
  "sold_out x p px = (\<exists>q mk. p_shares q = p_shares p \<and> p_id q = p_id p \<and> exit_token q = exit_token p \<and> fst (sell_position x q) = Inr (Some (px, mk)) \<and>
     fge mk (fmul (or_zero (p_shares p)) FULL_FILL) \<and>
     (\<exists>resp. se_post x = PostResp resp \<and> status_lower (rp_status resp) = Inr ''matched''))"

lemma exit_token_simps [simp]: "exit_token (p\<lparr>p_closing := c\<rparr>) = exit_token p" "exit_token (p\<lparr>p_tel := te\<rparr>) = exit_token p"
  by (simp_all add: exit_token_def)

lemma live_exit_gone:
  assumes "live_exit x pr bid reason p w = (Gone q s, w')"
  shows "\<exists>px. sold_out (sell_env_of x p) p px \<and> p_exit_price q = Some px \<and> p_exit_reason q = Some reason \<and> p_status q = ''closed''"
proof -
  let ?p = "p\<lparr>p_closing := True, p_tel := (p_tel p)\<lparr>t_current_bid := Some bid\<rparr>\<rparr>"
  have env: "sell_env_of x ?p = sell_env_of x p" by (simp add: sell_env_of_def exit_token_def)
  obtain px mk p1 where s: "sell_position (sell_env_of x p) ?p = (Inr (Some (px, mk)), p1)"
    and a: "apply_partial_fill p1 px mk = (Inr False, p1)"
    and q: "finish_close x p1 reason px (pr_hl pr) w = (Gone q s, w')"
    using assms by (auto simp: live_exit_def Let_def env dest: partial_full
      split: prod.splits sum.splits option.splits bool.splits)
  have f: "same_but_tel ?p p1" "\<not> fle (or_zero (p_shares ?p)) (Fin 0)"
    "\<exists>resp. se_post (sell_env_of x p) = PostResp resp \<and> status_lower (rp_status resp) = Inr ''matched''"
    using sell_filled [OF s] by blast+
  have sh: "p_shares p1 = p_shares p" using f(1) by (auto simp: same_but_tel_def)
  then have "fge mk (fmul (or_zero (p_shares p)) FULL_FILL)" using partial_full [OF a] f(2) by simp
  then have "sold_out (sell_env_of x p) p px" unfolding sold_out_def using s f(3)
    by (intro exI [of _ ?p] exI [of _ mk]) simp
  then show ?thesis using q by (auto simp: finish_close_def close_position_def Let_def)
qed

lemma check_exit_reasons: "check_exit bid now p pm secs = (Inr (Some reason), q) \<Longrightarrow>
    reason \<in> {''max_hold_time'', ''profit_target_hit'', ''stop_loss_hit''} \<and> p_shares q = p_shares p \<and>
    p_yes_tok q = p_yes_tok p \<and> p_no_tok q = p_no_tok p \<and> p_action q = p_action p"
proof -
  assume c: "check_exit bid now p pm secs = (Inr (Some reason), q)"
  obtain v t k where "valuation bid p pm = (v, t, k)" by (metis surj_pair)
  from check_exit_cases [OF this, of now secs] show ?thesis unfolding c
    by (auto simp: confirm_profit_def unconfirm_profit_def split: if_splits)
qed

lemma decide_exit_gone:
  assumes "decide_exit cfg x ws pr wd p w = (Gone q s, w')" "\<not> lc_dry cfg"
  shows "\<exists>px reason. sold_out (sell_env_of x p) p px \<and> p_exit_price q = Some px \<and> p_exit_reason q = Some reason \<and>
    reason \<in> {''max_hold_time'', ''profit_target_hit'', ''stop_loss_hit''} \<and> p_status q = ''closed''"
proof -
  obtain reason p1 where c: "check_exit (\<lambda>t. ws_bid x 2 (Some t)) (me_clock x 0) p (pr_yes pr) (pr_secs pr) = (Inr (Some reason), p1)"
    using assms by (auto simp: decide_exit_def Let_def split: prod.splits sum.splits option.splits)
  define p2 where "p2 = p1\<lparr>p_tel := (p_tel p1)\<lparr>t_price_source := Some (pr_source pr), t_mae_quality := Some (pr_quality pr),
      t_first_exit_decision := setdefault (t_first_exit_decision (p_tel p1)) (me_clock x 1)\<rparr>\<rparr>"
  have l: "live_exit x pr (exit_price x ws pr wd p2) reason p2 w = (Gone q s, w')"
    using assms c by (simp add: decide_exit_def p2_def Let_def)
  have e: "sell_env_of x p2 = sell_env_of x p" "p_shares p2 = p_shares p"
    using check_exit_reasons [OF c] by (simp_all add: p2_def sell_env_of_def exit_token_def)
  have i: "p_id p2 = p_id p" "exit_token p2 = exit_token p"
    using check_exit_reasons [OF c] check_exit_key [OF c] by (simp_all add: p2_def exit_token_def row_key_def)
  have "sold_out (sell_env_of x p) p = sold_out (sell_env_of x p) p2" by (simp add: sold_out_def e i fun_eq_iff)
  then show ?thesis using live_exit_gone [OF l] check_exit_reasons [OF c] unfolding e by metis
qed

lemma check_exit_keys: "check_exit bid now p pm secs = (r, q) \<Longrightarrow> p_token_keys q = p_token_keys p \<and> p_closing q = p_closing p"
proof -
  assume c: "check_exit bid now p pm secs = (r, q)"
  obtain v t k where "valuation bid p pm = (v, t, k)" by (metis surj_pair)
  from check_exit_cases [OF this, of now secs] show ?thesis unfolding c
    by (auto simp: confirm_profit_def unconfirm_profit_def split: if_splits)
qed

lemma heartbeat_keeps: "heartbeat_price x hl wd p = (Inr (PricedAt pr wd'), q) \<Longrightarrow> wd' = wd \<and> pr_secs pr = wd_secs wd"
  by (auto simp: heartbeat_price_def to_priced_def Let_def split: sum.splits if_splits prod.splits option.splits)

definition same_trade :: "position \<Rightarrow> position \<Rightarrow> bool" where
  "same_trade p q = (p_shares q = p_shares p \<and> p_yes_tok q = p_yes_tok p \<and> p_no_tok q = p_no_tok p \<and>
     p_action q = p_action p \<and> p_opened_at q = p_opened_at p \<and> p_id q = p_id p \<and>
     p_token_keys q = p_token_keys p \<and> p_closing q = p_closing p)"

lemma heartbeat_trade: "same_trade p (snd (heartbeat_price x hl wd p))"
  unfolding heartbeat_price_def same_trade_def by (simp add: Let_def split: sum.split prod.split)

lemma heartbeat_tradeD: "heartbeat_price x hl wd p = (r, q) \<Longrightarrow> same_trade p q"
  using heartbeat_trade [of p x hl wd] by simp

lemma price_rest_trade: "price_rest x p = (r, q) \<Longrightarrow> same_trade p q"
  by (auto simp: price_rest_def same_trade_def Let_def
      dest!: heartbeat_tradeD split: sum.splits option.splits)

lemma price_rest_priced: "price_rest x p = (Inr (PricedAt pr wd), q) \<Longrightarrow>
    pr_secs pr = wd_secs wd \<and> me_window x = Inr (Some wd)"
  by (auto simp: price_rest_def Let_def dest!: heartbeat_keeps split: sum.splits option.splits)

lemma price_rest_resolved: "price_rest x p = (Inr (ResolvedAt v hl), q) \<Longrightarrow>
    me_window x = Inr None \<and> (\<exists>r. me_resolved x = Inr (Some r) \<and> v = resolved_price p r)"
  by (auto simp: price_rest_def heartbeat_price_def to_priced_def resolved_price_def Let_def
      split: sum.splits option.splits if_splits prod.splits)

lemma dry_expired_leaves:
  assumes "watch_position cfg False x p w = (f, w')" "lc_dry cfg" "\<not> p_closing p"
    and "price_rest x (p\<lparr>p_no_clob_bid := None\<rparr>) = (Inr (PricedAt pr wd), p1)"
    and "\<not> near_expiry (wd_secs wd)" "hold_expired (me_clock x 0) p"
  obtains q where "f = Gone q None" "p_id q = p_id p" "p_exit_reason q = Some ''max_hold_time''"
    "p_closed_at q = Some (me_clock x 3)" "p_exit_price q \<noteq> None"
proof -
  have t: "same_trade p p1" using price_rest_trade [OF assms(4)] by (simp add: same_trade_def)
  have secs: "pr_secs pr = wd_secs wd" using price_rest_priced [OF assms(4)] by simp
  have h: "hold_expired (me_clock x 0) p1" using assms(6) t by (simp add: hold_expired_def same_trade_def)
  obtain v k u where v: "valuation (\<lambda>t. ws_bid x 2 (Some t)) p1 (pr_yes pr) = (v, k, u)" by (metis surj_pair)
  obtain te where "check_exit (\<lambda>t. ws_bid x 2 (Some t)) (me_clock x 0) p1 (pr_yes pr) (pr_secs pr) =
      (Inr (Some ''max_hold_time''), p1\<lparr>p_tel := te\<rparr>)"
    using check_exit_cases [OF v, of "me_clock x 0" "pr_secs pr"] h assms(5) secs by auto
  then show thesis using assms t that
    by (auto simp: watch_position_def decide_exit_def finish_close_def close_position_def same_trade_def Let_def)
qed

text \<open>The first partial fill after a restart raises: the reload has put a None where the sum is kept.\<close>

lemma reloaded_partial_fill_raises:
  assumes "p_part_keys p" "p_part_shares p = None" "\<not> fle (or_zero (p_shares p)) (Fin 0)"
    and "\<not> fge mk (fmul (or_zero (p_shares p)) FULL_FILL)"
  shows "\<exists>q. apply_partial_fill p px mk = (Inl TypeError, q) \<and> p_shares q = Some (f_round 6 (fsub (or_zero (p_shares p)) mk))"
  using assms by (simp add: apply_partial_fill_def part_sum_def Let_def)

lemma reload_has_part_keys: "p_part_keys (loaded_position r) \<and> p_part_shares (loaded_position (open_row dry p)) = None"
  by (simp add: loaded_position_def open_row_def base_position_def)

text \<open>Once a sale has raised, the mark of the running sale is never taken back.\<close>

definition stranded :: "position \<Rightarrow> bool" where
  "stranded q = ((\<forall>cfg ws x w. watch_position cfg ws x q w = (Stay q, w)) \<and>
     (\<forall>env w. flatten_turn env q w = ((Inr (), Stay q), w)))"

lemma closing_stranded: "p_closing q \<Longrightarrow> stranded q"
  by (simp add: stranded_def watch_position_def flatten_turn_def)

text \<open>What an operation added to the closed positions.\<close>

definition newly_closed :: "bot \<Rightarrow> bot \<Rightarrow> position set" where
  "newly_closed b b' = set (drop (length (bt_closed b)) (bt_closed b'))"

text \<open>How a position leaves in one turn: the market was resolved, or a sale was matched.\<close>

definition left_resolved :: "position \<Rightarrow> pyfloat \<times> pyfloat \<Rightarrow> position \<Rightarrow> bool" where
  "left_resolved p r q = (p_exit_reason q = Some ''market_resolved'' \<and> p_exit_price q = Some (resolved_price p r))"

definition left_sold :: "sell_env \<Rightarrow> position \<Rightarrow> string list \<Rightarrow> position \<Rightarrow> bool" where
  "left_sold x p reasons q = (\<exists>px. \<exists>reason \<in> set reasons. sold_out x p px \<and> p_exit_reason q = Some reason \<and> p_exit_price q = Some px)"

abbreviation verdicts :: "string list" where
  "verdicts \<equiv> [''max_hold_time'', ''profit_target_hit'', ''stop_loss_hit'']"

lemma watch_gone:
  assumes "watch_position cfg ws x p w = (Gone q s, w')" "\<not> lc_dry cfg"
  shows "\<not> p_closing p \<and> p_status q = ''closed'' \<and>
    ((\<exists>r. \<not> ws \<and> me_window x = Inr None \<and> me_resolved x = Inr (Some r) \<and> left_resolved p r q) \<or>
     left_sold (sell_env_of x p) p verdicts q)"
proof -
  let ?p = "p\<lparr>p_no_clob_bid := None\<rparr>"
  have cl: "\<not> p_closing p" using assms(1) by (auto simp: watch_position_def split: if_splits)
  have so: "sold_out (sell_env_of x a) a = sold_out (sell_env_of x p) p" if "same_trade p a" for a
    using that by (simp add: same_trade_def sold_out_def sell_env_of_def exit_token_def fun_eq_iff)
  consider (decided) pr wd a where "decide_exit cfg x ws pr wd a w = (Gone q s, w')" "same_trade p a"
    | (resolved) v hl a where "\<not> ws" "price_rest x ?p = (Inr (ResolvedAt v hl), a)"
      "q = close_position (me_clock x 3) a ''market_resolved'' (Some v) (Some hl)"
  proof (cases ws)
    case True
    then obtain pr where "decide_exit cfg x ws pr None ?p w = (Gone q s, w')"
      using assms(1) cl by (auto simp: watch_position_def Let_def split: option.splits)
    then show thesis by (rule decided) (simp add: same_trade_def)
  next
    case False
    obtain r a where pr: "price_rest x ?p = (r, a)" by fastforce
    have t: "same_trade p a" using price_rest_trade [OF pr] by (simp add: same_trade_def)
    show thesis using assms(1) cl False pr decided [OF _ t] resolved
      by (auto simp: watch_position_def Let_def split: sum.splits heartbeat.splits prod.splits)
  qed
  then show ?thesis
  proof cases
    case decided
    then show ?thesis using decide_exit_gone [OF decided(1) assms(2)] so [OF decided(2)] cl by (auto simp: left_sold_def)
  next
    case resolved
    then show ?thesis using price_rest_resolved [OF resolved(2)] cl
      by (auto simp: close_position_def resolved_price_def left_resolved_def)
  qed
qed

lemma flatten_gone:
  assumes "flatten_turn env p w = ((u, Gone q s), w')"
  shows "\<not> p_closing p \<and> p_status q = ''closed'' \<and> left_sold (fe_sell (env (p_id p))) p [''panic_flatten''] q"
proof -
  let ?x = "fe_sell (env (p_id p))" and ?p = "p\<lparr>p_closing := True\<rparr>"
  obtain px mk p1 where sale: "\<not> p_closing p" "sell_position ?x ?p = (Inr (Some (px, mk)), p1)"
    and a: "apply_partial_fill p1 px mk = (Inr False, p1)"
    and q: "q = close_position (fe_clock (env (p_id p))) p1 ''panic_flatten'' (Some px) (p_cached_hl p1)"
    using assms by (auto simp: flatten_turn_def Let_def dest: partial_full
      split: if_splits prod.splits sum.splits option.splits bool.splits)
  note f = sell_filled [OF sale(2)]
  have sh: "p_shares p1 = p_shares p" using f by (auto simp: same_but_tel_def)
  then have "fge mk (fmul (or_zero (p_shares p)) FULL_FILL)" using partial_full [OF a] f by simp
  then have "sold_out ?x p px" unfolding sold_out_def using sale(2) f
    by (intro exI [of _ ?p] exI [of _ mk]) simp
  then show ?thesis using sale(1) q by (auto simp: close_position_def left_sold_def)
qed

lemma resolve_gone:
  assumes "resolve_turn env won assets p w = ((u, Gone q s), w')"
  shows "p_status q = ''closed'' \<and> p_exit_reason q = Some ''market_resolved'' \<and> p_exit_price q = Some (outcome_exit p won) \<and>
    (token_in (p_yes_tok p) assets \<or> token_in (p_no_tok p) assets)"
  using assms by (auto simp: resolve_turn_def Let_def close_position_def split: if_splits sum.splits prod.splits)

section \<open>Properties\<close>

lemma watch_turns_fine: "take_turns (watch_turn cfg ws env) ps b = (r, b') \<Longrightarrow> r = Inr ()"
proof (induction ps arbitrary: b r b')
  case (Cons q qs)
  obtain f w where f: "watch_position cfg ws (env (p_id q)) q (bt_db b) = (f, w)" by fastforce
  obtain r2 b2 where t: "take_turns (watch_turn cfg ws env) qs (settle f (b\<lparr>bt_db := w\<rparr>)) = (r2, b2)" by fastforce
  have "watch_turn cfg ws env q (bt_db b) = ((Inr (), f), w)" using f by (simp add: watch_turn_def)
  then show ?case using Cons.prems Cons.IH [OF t] t by (auto simp: Let_def)
qed simp

text \<open>C14: No position is lost or invented: after a monitor cycle, a panic flatten or a resolution event, also
  one that ended with an error, the open and closed positions together are the ones from before, each as
  often, the open ones in their old order, and the order ledger, the trace of orders and the session counters are unchanged: managing
  positions never enters one.\<close>

theorem managing_conserves:
  "managed b (snd (snd (monitor_positions cfg x last_rest_ts b))) \<and> managed b (snd (do_flatten fenv b)) \<and>
   managed b (snd (handle_ws_resolved renv event b))"
  using watch.managed_turns flat.managed_turns resolved_managed
  by (simp add: monitor_positions_def do_flatten_def Let_def)

text \<open>C15: After the start a live position leaves only for a reason: of the positions that a monitor cycle closes,
  each is an open one whose market the heartbeat found resolved, booked at its resolution price, or one
  with an exit verdict whose sale the exchange answered as matched, for at least the full-fill share of the
  position (a matched answer without usable amounts counts as all of it), booked at the price of that
  sale; a panic flatten closes by such sales only; and a resolution event closes only the positions of a
  token it names, at the outcome it names. (The reconciliation at the start also closes expired positions
  without a price.)\<close>

theorem live_close_is_sold:
  assumes "\<not> lc_dry cfg"
  shows "(\<forall>q \<in> newly_closed b (snd (snd (monitor_positions cfg x last_rest_ts b))). \<exists>p \<in> set (bt_open b).
      p_id q = p_id p \<and> \<not> p_closing p \<and> p_status q = ''closed'' \<and>
      ((\<exists>r. \<not> ws_triggered x last_rest_ts \<and> me_window (mc_watch x (p_id p)) = Inr None \<and>
          me_resolved (mc_watch x (p_id p)) = Inr (Some r) \<and> left_resolved p r q) \<or>
       left_sold (sell_env_of (mc_watch x (p_id p)) p) p [''max_hold_time'', ''profit_target_hit'', ''stop_loss_hit''] q)) \<and>
    (\<forall>q \<in> newly_closed b (snd (do_flatten fenv b)). \<exists>p \<in> set (bt_open b).
      p_id q = p_id p \<and> \<not> p_closing p \<and> p_status q = ''closed'' \<and>
      left_sold (fe_sell (fenv (p_id p))) p [''panic_flatten''] q) \<and>
    (\<forall>q \<in> newly_closed b (snd (handle_ws_resolved renv event b)). \<exists>p \<in> set (bt_open b). \<exists>won assets.
      p_id q = p_id p \<and> p_status q = ''closed'' \<and> json_get event ''winning_outcome'' = Inr won \<and>
      assets_of event = Inr assets \<and> (token_in (p_yes_tok p) assets \<or> token_in (p_no_tok p) assets) \<and>
      p_exit_reason q = Some ''market_resolved'' \<and> p_exit_price q = Some (outcome_exit p won))"
proof (intro conjI ballI)
  fix q assume "q \<in> newly_closed b (snd (snd (monitor_positions cfg x last_rest_ts b)))"
  then obtain p w u s w' where p: "p \<in> set (bt_open b)"
      "watch_turn cfg (ws_triggered x last_rest_ts) (mc_watch x) p w = ((u, Gone q s), w')"
    using watch.turns_closed_drop [OF prod.collapse [symmetric]]
    by (fastforce simp: newly_closed_def monitor_positions_def Let_def)
  then have "watch_position cfg (ws_triggered x last_rest_ts) (mc_watch x (p_id p)) p w = (Gone q s, w')"
    by (auto simp: watch_turn_def split: prod.splits)
  from watch_gone [OF this assms] watch_fate [OF this] p(1) show "\<exists>p \<in> set (bt_open b).
      p_id q = p_id p \<and> \<not> p_closing p \<and> p_status q = ''closed'' \<and>
      ((\<exists>r. \<not> ws_triggered x last_rest_ts \<and> me_window (mc_watch x (p_id p)) = Inr None \<and>
          me_resolved (mc_watch x (p_id p)) = Inr (Some r) \<and> left_resolved p r q) \<or>
       left_sold (sell_env_of (mc_watch x (p_id p)) p) p verdicts q)" by (auto simp: row_key_def)
next
  fix q assume "q \<in> newly_closed b (snd (do_flatten fenv b))"
  then obtain p w u s w' where p: "p \<in> set (bt_open b)" "flatten_turn fenv p w = ((u, Gone q s), w')"
    using flat.turns_closed_drop [OF prod.collapse [symmetric]] by (fastforce simp: newly_closed_def do_flatten_def)
  from flatten_gone [OF p(2)] flat.turn_key [OF p(2)] p(1) show "\<exists>p \<in> set (bt_open b).
      p_id q = p_id p \<and> \<not> p_closing p \<and> p_status q = ''closed'' \<and> left_sold (fe_sell (fenv (p_id p))) p [''panic_flatten''] q"
    by (auto simp: row_key_def)
next
  fix q assume q: "q \<in> newly_closed b (snd (handle_ws_resolved renv event b))"
  then obtain won assets where ev: "json_get event ''winning_outcome'' = Inr won" "assets_of event = Inr assets"
      "snd (handle_ws_resolved renv event b) = snd (take_turns (resolve_turn renv won assets) (bt_open b) b)"
    by (auto simp: newly_closed_def handle_ws_resolved_def rbind_eq_Inr split: sum.splits if_splits)
  obtain p w u s w' where p: "p \<in> set (bt_open b)" "resolve_turn renv won assets p w = ((u, Gone q s), w')"
    using resolved.turns_closed_drop [OF prod.collapse [symmetric]] q ev(3) by (fastforce simp: newly_closed_def)
  from resolve_gone [OF p(2)] resolved.turn_key [OF p(2)] p(1) ev(1,2) show "\<exists>p \<in> set (bt_open b). \<exists>won assets.
      p_id q = p_id p \<and> p_status q = ''closed'' \<and> json_get event ''winning_outcome'' = Inr won \<and>
      assets_of event = Inr assets \<and> (token_in (p_yes_tok p) assets \<or> token_in (p_no_tok p) assets) \<and>
      p_exit_reason q = Some ''market_resolved'' \<and> p_exit_price q = Some (outcome_exit p won)"
    by (fastforce simp: row_key_def)
qed

text \<open>C16: Liveness of the holding limit in a dry run: a cycle that begins a full interval after the last
  heartbeat is a heartbeat whatever the websocket does, and every position that it can price, that has been
  held for twenty minutes and is not near expiry, is closed by it with a price and is open no more. (Near
  expiry a position is held for its resolution; ids of open positions are distinct.)\<close>

theorem expired_position_leaves:
  assumes "fge (fsub (mc_now x) last_rest_ts) SCAN_INTERVAL_SECS" "lc_dry cfg" "p \<in> set (bt_open b)" "\<not> p_closing p"
    and "price_rest (mc_watch x (p_id p)) (p\<lparr>p_no_clob_bid := None\<rparr>) = (Inr (PricedAt pr wd), p1)"
    and "\<not> near_expiry (wd_secs wd)" "hold_expired (me_clock (mc_watch x (p_id p)) 0) p"
    and "distinct (map p_id (bt_open b))"
  shows "case monitor_positions cfg x last_rest_ts b of (ws, ts, b') \<Rightarrow> \<not> ws \<and> ts = mc_after x \<and>
    p_id p \<notin> p_id ` set (bt_open b') \<and>
    (\<exists>q \<in> newly_closed b b'. p_id q = p_id p \<and> p_exit_reason q = Some ''max_hold_time'' \<and> p_exit_price q \<noteq> None)"
proof -
  let ?turn = "watch_turn cfg False (mc_watch x)"
  have ws: "\<not> ws_triggered x last_rest_ts" using assms(1) by (simp add: ws_triggered_def)
  obtain r b' where run: "take_turns ?turn (bt_open b) b = (r, b')" by fastforce
  note ok = run [unfolded watch_turns_fine [OF run]]
  have gone: "\<exists>q. f = Gone q None \<and> p_id q = p_id p \<and> p_exit_reason q = Some ''max_hold_time'' \<and> p_exit_price q \<noteq> None"
    if "?turn p v = ((u, f), v')" for v u f v'
  proof -
    have "watch_position cfg False (mc_watch x (p_id p)) p v = (f, v')" using that by (auto simp: watch_turn_def split: prod.splits)
    then show ?thesis using dry_expired_leaves assms(2,4-7) by metis
  qed
  have stay: False if "q \<in> set (bt_open b')" "p_id q = p_id p" for q
  proof -
    note q = that
    obtain p0 v u v' where p0: "p0 \<in> set (bt_open b)" "?turn p0 v = ((u, Stay q), v')"
      using watch.turns_open [OF ok q(1)] by blast
    then have "p_id p0 = p_id p" using watch.turn_key [OF p0(2)] q(2) by (simp add: row_key_def)
    then have "p0 = p" using assms(3,8) p0(1) by (auto simp: distinct_map dest: inj_onD)
    then show False using gone p0(2) by blast
  qed
  obtain u f v v' where f: "?turn p v = ((Inr u, f), v')"
    "case f of Stay q \<Rightarrow> q \<in> set (bt_open b') | Gone q _ \<Rightarrow> q \<in> set (drop (length (bt_closed b)) (bt_closed b'))"
    using watch.turn_taken [OF ok assms(3)] by blast
  then obtain q where "f = Gone q None" "p_id q = p_id p" "p_exit_reason q = Some ''max_hold_time''" "p_exit_price q \<noteq> None"
    using gone by blast
  moreover have "p_id p \<notin> p_id ` set (bt_open b')" using stay by force
  ultimately show ?thesis using f(2) run ws by (auto simp: monitor_positions_def newly_closed_def Let_def)
qed


section \<open>Witnesses\<close>

text \<open>An empty cache, a market at one half with 500 seconds to go (or resolved), no quotes.\<close>

definition sample_watch :: "tstamp \<Rightarrow> window option \<Rightarrow> watch_env" where
  "sample_watch now wd = \<lparr>me_cache = (\<lambda>_ _. None), me_time = (\<lambda>_. Fin 0), me_clock = (\<lambda>_. now), me_hl = Inr (Fin 100),
     me_window = Inr wd, me_resolved = Inr (Some (Fin 1, Fin 0)),
     me_quote = (\<lambda>_. Inr (Some \<lparr>sn_bid = Some (Fin (1/2)), sn_ask = Some (Fin (5/8)), sn_bid_size = None, sn_ask_size = None,
        sn_source = ''rest'', sn_ts = Fin 0\<rparr>)),
     me_sell_quote = Inl TypeError, me_post = PostEmpty, me_log = NoFault\<rparr>"

definition sample_window :: window where
  "sample_window = \<lparr>wd_secs = Fin 500, wd_bid = Fin (1/2), wd_ask = Fin (5/8)\<rparr>"

lemma sample_held: "hold_expired 1200000000 sample_position"
proof -
  have "case fdiv (total_seconds 1200000000 0) (Fin 60) of Inl e \<Rightarrow> False | Inr m \<Rightarrow> fge m (Fin 20)" by code_simp
  then show ?thesis by (auto simp: hold_expired_def sample_position_def split: sum.splits)
qed

lemma sample_priced:
  "price_rest (sample_watch now (Some sample_window)) (sample_position\<lparr>p_no_clob_bid := None\<rparr>) =
     (Inr (PricedAt \<lparr>pr_yes = Fin (1/2), pr_secs = Fin 500, pr_source = ''book_bid'', pr_quality = ''exact'', pr_hl = Fin 100\<rparr>
        sample_window), sample_position\<lparr>p_cached_hl := Some (Fin 100), p_cached_secs := Some (Fin 500)\<rparr>)"
  by (simp add: price_rest_def heartbeat_price_def rest_yes_def ws_bid_def get_bid_def quote_bid_def to_priced_def
      sample_watch_def sample_window_def sample_position_def rbind_def Let_def)

lemma sample_far: "\<not> near_expiry (wd_secs sample_window)"
  by (simp add: near_expiry_def sample_window_def NEAR_EXPIRY_SECS_def)

text \<open>The same market in a live run, where the sale of all shares is matched.\<close>

definition sample_sale :: watch_env where
  "sample_sale = (sample_watch 1200000000 (Some sample_window))\<lparr>
     me_sell_quote := Inr (Some \<lparr>sn_bid = Some (Fin (1/2)), sn_ask = Some (Fin (5/8)), sn_bid_size = None, sn_ask_size = None,
        sn_source = ''rest'', sn_ts = Fin 0\<rparr>),
     me_post := PostResp \<lparr>rp_status = PStr ''matched'', rp_taking = PFloat (Fin 5), rp_making = PFloat (Fin 10), rp_order = None\<rparr>\<rparr>"

definition sample_cycle :: "watch_env \<Rightarrow> monitor_env" where
  "sample_cycle x = \<lparr>mc_event = True, mc_now = Fin 7, mc_after = Fin 8, mc_watch = (\<lambda>_. x)\<rparr>"

lemma sample_selling:
  "map (\<lambda>q. (p_exit_reason q, p_exit_price q)) (bt_closed (snd (snd (monitor_positions open_config (sample_cycle sample_sale) (Fin 0)
      (sample_bot [sample_position]))))) = [(Some ''max_hold_time'', Some (Fin (1/2)))]"
  by code_simp

lemma live_close_is_sold_witness: "sold_out (sell_env_of sample_sale sample_position) sample_position (Fin (1/2))"
proof -
  let ?b = "sample_bot [sample_position]" and ?x = "sample_cycle sample_sale"
  let ?b' = "snd (snd (monitor_positions open_config ?x (Fin 0) ?b))"
  obtain q where q: "bt_closed ?b' = [q]" "p_exit_reason q = Some ''max_hold_time''" "p_exit_price q = Some (Fin (1/2))"
    using sample_selling by (auto simp: map_eq_Cons_conv)
  then have "q \<in> newly_closed ?b ?b'" by (simp add: newly_closed_def sample_bot_def)
  moreover have "\<not> lc_dry open_config" by (simp add: open_config_def)
  ultimately have "left_sold (sell_env_of sample_sale sample_position) sample_position [''max_hold_time'', ''profit_target_hit'', ''stop_loss_hit''] q"
    using conjunct1 [OF live_close_is_sold [of open_config ?b ?x "Fin 0"]] q(2)
    by (fastforce simp: sample_bot_def sample_cycle_def left_resolved_def)
  then show ?thesis using q(3) by (auto simp: left_sold_def)
qed

lemma expired_position_leaves_witness:
  "bt_open (snd (snd (monitor_positions (open_config\<lparr>lc_dry := True\<rparr>) (sample_cycle (sample_watch 1200000000 (Some sample_window)))
      (Fin 0) (sample_bot [sample_position])))) = [] \<and>
   (\<exists>q \<in> set (bt_closed (snd (snd (monitor_positions (open_config\<lparr>lc_dry := True\<rparr>) (sample_cycle (sample_watch 1200000000 (Some sample_window)))
      (Fin 0) (sample_bot [sample_position]))))). p_exit_reason q = Some ''max_hold_time'')"
proof -
  let ?x = "sample_cycle (sample_watch 1200000000 (Some sample_window))" and ?b = "sample_bot [sample_position]"
  let ?cfg = "open_config\<lparr>lc_dry := True\<rparr>"
  have due: "fge (fsub (mc_now ?x) (Fin 0)) SCAN_INTERVAL_SECS" by code_simp
  have p: "lc_dry ?cfg" "sample_position \<in> set (bt_open ?b)" "\<not> p_closing sample_position"
    and d: "distinct (map p_id (bt_open ?b))" by (simp_all add: sample_bot_def sample_position_def)
  obtain ws ts b' where m: "monitor_positions ?cfg ?x (Fin 0) ?b = (ws, ts, b')" by (metis surj_pair)
  have l: "p_id sample_position \<notin> p_id ` set (bt_open b')"
      "\<exists>q \<in> newly_closed ?b b'. p_exit_reason q = Some ''max_hold_time''"
    using expired_position_leaves [OF due p, of _ sample_window, OF _ _ _ d] sample_priced sample_far sample_held m
    by (auto simp: sample_cycle_def sample_watch_def)
  have "managed ?b b'" using watch.managed_turns [of ?b] m by (auto simp: monitor_positions_def Let_def)
  then have "set_mset (mset (map row_key (bt_open b' @ bt_closed b'))) = {row_key sample_position}"
    by (simp only: managed_def) (simp add: sample_bot_def)
  then have "row_key ` set (bt_open b') \<subseteq> {row_key sample_position}" by auto
  then have "set (map p_id (bt_open b')) \<subseteq> {p_id sample_position}" by (auto simp: row_key_def)
  then have "bt_open b' = []" using l(1) by (cases "bt_open b'") auto
  then show ?thesis using l(2) m by (auto simp: newly_closed_def sample_bot_def)
qed


end
