(* ===== verification/LoopSafety.thy ===== *)
theory LoopSafety
  imports MainLoop MonitorSafety
begin

text \<open>
  The main loop as a whole: every run of it is a run of the order ledger, so the properties of the order
  path hold for the running bot; the limits of the session hold in every reachable state; a paused bot only
  manages what is open.
\<close>

section \<open>Phases that only manage\<close>

lemma drain_managed: "managed b (snd (snd (drain_resolved env evs b)))"
proof (induction evs arbitrary: b)
  case (Cons ev evs)
  then show ?case using resolved_managed [of b env ev] managed_trans
    by (auto split: prod.splits sum.splits)
qed simp

lemma heal_first_keys [simp]: "map row_key (heal_first i px pnl ps) = map row_key ps"
  by (induction ps) (simp_all add: row_key_def)

lemma heal_first_mset [simp]: "image_mset row_key (mset (heal_first i px pnl ps)) = image_mset row_key (mset ps)"
  by (metis heal_first_keys mset_map)

lemma patch_ledger: "same_ledger w (snd (patch_position_resolution dbf i px pnl hl w))"
  by (auto simp: patch_position_resolution_def same_ledger_def row_key_def map_key_update_where)

lemma heal_row_managed: "managed b (heal_row env r b)"
proof -
  have "patch_position_resolution dbf i px pnl hl w = (u, w') \<Longrightarrow> same_ledger w w'" for dbf i px pnl hl w u w'
    using patch_ledger [of w dbf i px pnl hl] by simp
  then show ?thesis
    by (auto simp: heal_row_def managed_def Let_def split: sum.splits option.splits prod.splits)
qed

lemma heal_managed: "managed b (snd (heal_pending_resolutions q env b))"
proof -
  have "managed b (fold (heal_row env) rs b)" for rs
    by (induction rs arbitrary: b) (auto intro: managed_trans heal_row_managed)
  then show ?thesis by (simp add: heal_pending_resolutions_def)
qed

lemma monitor_phase_managed: "monitor_phase cfg bank x ms = (ws, r, ms') \<Longrightarrow>
    managed (ms_bot ms) (ms_bot ms') \<and> ms_risk ms' = ms_risk ms"
proof -
  assume a: "monitor_phase cfg bank x ms = (ws, r, ms')"
  obtain ws1 ts b1 where m: "monitor_positions cfg (le_monitor x) (ms_last_rest ms) (ms_bot ms) = (ws1, ts, b1)" by (metis surj_pair)
  obtain r1 q b2 where d: "drain_resolved (le_resolve x) (ms_queue ms @ le_events x) b1 = (r1, q, b2)" by (metis surj_pair)
  have "managed (ms_bot ms) b1"
    using watch.managed_turns m by (auto simp: monitor_positions_def Let_def)
  moreover have "managed b1 b2" using drain_managed [of b1 "le_resolve x" "ms_queue ms @ le_events x"] d by simp
  ultimately have b2: "managed (ms_bot ms) b2" by (rule managed_trans)
  have "ms_bot ms' = b2 \<and> ms_risk ms' = ms_risk ms"
    using a by (cases "r1 = Inr ()") (auto simp: monitor_phase_def m d)
  then show ?thesis using b2 by simp
qed

lemma flatten_phase_managed: "flatten_phase x ms = (r, ms') \<Longrightarrow> managed (ms_bot ms) (ms_bot ms') \<and> ms_risk ms' = ms_risk ms"
proof -
  have "do_flatten (le_flat x) (ms_bot ms) = (r, b) \<Longrightarrow> managed (ms_bot ms) b" for r b
    using flat.managed_turns [of "ms_bot ms" "le_flat x"] by (simp add: do_flatten_def)
  then show "flatten_phase x ms = (r, ms') \<Longrightarrow> ?thesis" by (auto simp: flatten_phase_def split: if_splits prod.splits)
qed

lemma heal_phase_managed: "heal_phase x ms = (r, ms') \<Longrightarrow> managed (ms_bot ms) (ms_bot ms') \<and> ms_risk ms' = ms_risk ms \<and>
    ms_flags ms' = ms_flags ms"
  using heal_managed [of "ms_bot ms" "le_heal_query x" "le_heal x"] by (auto simp: heal_phase_def split: prod.splits sum.splits)

text \<open>The scan is the only phase that enters positions; the flags stay as they are.\<close>

lemma scan_phase_cases: "scan_phase cfg bk x ms = (r, ms') \<Longrightarrow> ms_flags ms' = ms_flags ms \<and>
    (ms_bot ms' = ms_bot ms \<or> (\<exists>fs. (scan_step cfg bk fs)\<^sup>*\<^sup>* (ms_bot ms) (ms_bot ms')))"
proof -
  assume a: "scan_phase cfg bk x ms = (r, ms')"
  have "scan_and_execute cfg bk fs b = (r, b') \<Longrightarrow> b' = b \<or> (\<exists>fs. (scan_step cfg bk fs)\<^sup>*\<^sup>* b b')" for fs b r b'
    using scan_steps [where findings = fs and cfg = cfg and bk = bk and b = b] by (auto split: sum.splits)
  then show ?thesis using a by (auto simp: scan_phase_def split: prod.splits sum.splits) blast
qed

text \<open>An iteration manages, and then scans and heals if the bot is not paused after the monitoring.\<close>

definition scanned :: "loop_config \<Rightarrow> bot \<Rightarrow> bot \<Rightarrow> bool" where
  "scanned cfg b b' = (\<exists>bk fs. (scan_step cfg bk fs)\<^sup>*\<^sup>* b b')"

lemma scanned_refl [simp]: "scanned cfg b b"
  by (auto simp: scanned_def)

lemma iteration_cases:
  assumes "main_iteration cfg bank x ms = (r, ms')"
  obtains (managed) "managed (ms_bot ms) (ms_bot ms')" "ms_risk ms' = ms_risk ms"
  | (scanned) ms1 :: main_state and b where "managed (ms_bot ms) (ms_bot ms1)" "scanned cfg (ms_bot ms1) b" "managed b (ms_bot ms')"
      "\<not> is_paused (ms_flags ms')"
proof -
  consider (stop) "ms' = ms" | (crash) e where "flatten_phase x ms = (Inl e, ms')"
    | (body) u ms1 where "flatten_phase x ms = (Inr u, ms1)" "ms' = snd (iteration_body cfg bank x ms1)"
    using assms by (auto simp: main_iteration_def split: if_splits prod.splits sum.splits)
  then show thesis
  proof cases
    case stop
    then show thesis using managed by simp
  next
    case crash
    then show thesis using flatten_phase_managed [OF crash] managed by simp
  next
    case body
    note f = flatten_phase_managed [OF body(1)]
    obtain ws r1 ms2 where m: "monitor_phase cfg bank x ms1 = (ws, r1, ms2)" by (metis surj_pair)
    have m2: "managed (ms_bot ms) (ms_bot ms2)" "ms_risk ms2 = ms_risk ms"
      using f monitor_phase_managed [OF m] managed_trans by auto
    show thesis
    proof (cases "r1 = Inr () \<and> \<not> is_paused (ms_flags ms2) \<and> \<not> ws")
      case False
      then have "ms' = ms2" using body(2) m by (auto simp: iteration_body_def split: if_splits)
      then show thesis using managed m2 by simp
    next
      case True
      obtain bk r3 ms3 where s: "scan_phase cfg bk x ms2 = (r3, ms3)"
        "ms' = (case r3 of Inl e \<Rightarrow> ms3 | Inr _ \<Rightarrow> snd (heal_phase x ms3))"
        using body(2) m True by (auto simp: iteration_body_def Let_def split: prod.splits sum.splits)
      have sc: "scanned cfg (ms_bot ms2) (ms_bot ms3)" "ms_flags ms3 = ms_flags ms2"
        using scan_phase_cases [OF s(1)] by (auto simp: scanned_def)
      obtain r4 ms4 where h: "heal_phase x ms3 = (r4, ms4)" by fastforce
      have "managed (ms_bot ms3) (ms_bot ms')" "ms_flags ms' = ms_flags ms3"
        using s(2) heal_phase_managed [OF h] h by (auto split: sum.splits)
      then show thesis using scanned [OF m2(1) sc(1)] sc(2) True by simp
    qed
  qed
qed

section \<open>Limits of a session\<close>

definition session_ok :: "bot \<Rightarrow> bool" where
  "session_ok b = (n_open b \<le> MAX_OPEN_POSITIONS \<and> distinct (map p_slug (bt_open b)) \<and>
     st_trades (bt_stats b) \<le> MAX_TRADES_FIRST_SESSION \<and> st_trades (bt_stats b) \<le> st_submits (bt_stats b))"

lemma subseq_distinct: "subseq xs ys \<Longrightarrow> distinct ys \<Longrightarrow> distinct xs"
  by (metis distinct_nthsI subseq_conv_nths)

lemma managed_session: "managed b b' \<Longrightarrow> session_ok b \<Longrightarrow> session_ok b'"
proof -
  assume m: "managed b b'" and ok: "session_ok b"
  have s: "subseq (map row_key (bt_open b')) (map row_key (bt_open b))" using m by (simp add: managed_def)
  have "n_open b' \<le> n_open b" using list_emb_length [OF s] by (simp add: n_open_def)
  moreover have "subseq (map (fst \<circ> snd) (map row_key (bt_open b'))) (map (fst \<circ> snd) (map row_key (bt_open b)))"
    using s by (rule subseq_map)
  then have "subseq (map p_slug (bt_open b')) (map p_slug (bt_open b))" by (simp add: comp_def row_key_def)
  ultimately show ?thesis using m ok subseq_distinct by (auto simp: session_ok_def managed_def)
qed

lemma allowed_below_cap: "entry_allowed cfg x st = Inr True \<Longrightarrow> st_trades st < MAX_TRADES_FIRST_SESSION"
  by (auto simp: entry_allowed_def max_trades_first_session_halt_def rbind_eq_Inr Let_def split: if_splits)

lemma scan_step_session: "scan_step cfg bk fs b b' \<Longrightarrow> session_ok b \<Longrightarrow> session_ok b'"
proof -
  assume s: "scan_step cfg bk fs b b'" and ok: "session_ok b"
  from s show ?thesis
  proof cases
    case (scan_enter f x f1 g rk r)
    note eff = enter_effect [OF scan_enter(7)] and cap = allowed_below_cap [OF scan_enter(6)]
      and slug = run_council_slug [OF scan_enter(5)]
    show ?thesis
    proof (cases "r = Inr True")
      case True
      then show ?thesis using eff ok cap slug scan_enter(2,3) by (auto simp: session_ok_def n_open_def)
    next
      case False
      then show ?thesis using eff ok by (auto simp: session_ok_def n_open_def)
    qed
  qed
qed

lemma scanned_session: "scanned cfg b b' \<Longrightarrow> session_ok b \<Longrightarrow> session_ok b'"
proof -
  have "(scan_step cfg bk fs)\<^sup>*\<^sup>* b b' \<Longrightarrow> session_ok b \<Longrightarrow> session_ok b'" for bk fs
    by (induction rule: rtranclp_induct) (auto intro: scan_step_session)
  then show "scanned cfg b b' \<Longrightarrow> session_ok b \<Longrightarrow> ?thesis" by (auto simp: scanned_def)
qed

lemma main_step_session: "main_step cfg bank own ms ms' \<Longrightarrow> session_ok (ms_bot ms) \<Longrightarrow> session_ok (ms_bot ms')"
proof (erule main_stepE)
  fix x r
  assume ok: "session_ok (ms_bot ms)" and "main_iteration cfg bank x ms = (r, ms')"
  from this(2) show ?thesis
    by (cases rule: iteration_cases) (use ok managed_session scanned_session in blast)+
qed simp_all

section \<open>The loop and the ledger\<close>

lemma managed_ledger: "managed b b' \<Longrightarrow> reachable_ledger (bt_db b) \<Longrightarrow> reachable_ledger (bt_db b')"
  by (metis managed_def ls_manage reach_step)

lemma dry_execute_intent: "dry_execute dry i now f g rk n = Inr (Some p) \<Longrightarrow> p_intent p = None"
  by (auto simp: dry_execute_def rbind_eq_Inr Let_def base_position_def split: if_splits)

lemma with_slippage_intent: "with_slippage ask p = Inr q \<Longrightarrow> p_intent q = p_intent p"
  by (auto simp: with_slippage_def rbind_eq_Inr split: if_splits)

lemma log_open_ledger:
  assumes "log_position_open dbf dry p w = (r, w')" "p_intent p = None" "reachable_ledger w"
  shows "reachable_ledger w'"
proof -
  let ?q = "open_row dry (p\<lparr>p_seq := Some (next_seq w)\<rparr>)"
  have "p_intent ?q = None" using assms(2) by (simp add: open_row_def)
  moreover have "w' = w \<or> w' = w\<lparr>w_positions := w_positions w @ [?q]\<rparr>"
    using assms(1) by (auto simp: log_position_open_def Let_def split: if_splits)
  ultimately have "w' = w \<or> (\<exists>q. p_intent q = None \<and> w' = w\<lparr>w_positions := w_positions w @ [q]\<rparr>)" by blast
  then show ?thesis using assms(3) by (metis ls_new_row reach_step)
qed

lemma enter_ledger: "enter cfg x f g rk b = (r, b') \<Longrightarrow> reachable_ledger (bt_db b) \<Longrightarrow> reachable_ledger (bt_db b')"
proof (cases "lc_dry cfg")
  case True
  assume e: "enter cfg x f g rk b = (r, b')" and l: "reachable_ledger (bt_db b)"
  show ?thesis
  proof (cases "\<exists>p p1. dry_execute (lc_dry cfg) (ee_id x) (ee_now x) f g rk (n_open b) = Inr (Some p) \<and>
      with_slippage (fd_ask f) p = Inr p1")
    case True
    then obtain p p1 where p: "dry_execute (lc_dry cfg) (ee_id x) (ee_now x) f g rk (n_open b) = Inr (Some p)"
      "with_slippage (fd_ask f) p = Inr p1" by blast
    obtain r1 w where w: "log_position_open (ee_log x) (lc_dry cfg) p1 (bt_db b) = (r1, w)" by fastforce
    have "reachable_ledger w"
      using log_open_ledger [OF w] dry_execute_intent [OF p(1)] with_slippage_intent [OF p(2)] l by simp
    then show ?thesis using e \<open>lc_dry cfg\<close> p w by (cases r1) (auto simp: enter_def enter_dry_def)
  next
    case False
    then have "bt_db b' = bt_db b" using e \<open>lc_dry cfg\<close>
      by (auto simp: enter_def enter_dry_def split: sum.splits option.splits)
    then show ?thesis using l by simp
  qed
next
  case False
  assume e: "enter cfg x f g rk b = (r, b')" and l: "reachable_ledger (bt_db b)"
  obtain out w where w: "execute ((ee_exec x)\<lparr>x_dry_run := lc_dry cfg\<rparr>) f g rk (bt_db b) = (out, w)" by fastforce
  have "bt_db b' = w" using e False w by (auto simp: enter_def enter_live_def Let_def split: sum.splits exec_out.splits)
  then show ?thesis using reachable_execute [OF l w] by simp
qed

lemma scanned_ledger: "scanned cfg b b' \<Longrightarrow> reachable_ledger (bt_db b) \<Longrightarrow> reachable_ledger (bt_db b')"
proof -
  have "(scan_step cfg bk fs)\<^sup>*\<^sup>* b b' \<Longrightarrow> reachable_ledger (bt_db b) \<Longrightarrow> reachable_ledger (bt_db b')" for bk fs
    by (induction rule: rtranclp_induct) (auto elim!: scan_step.cases intro: enter_ledger)
  then show "scanned cfg b b' \<Longrightarrow> reachable_ledger (bt_db b) \<Longrightarrow> ?thesis" by (auto simp: scanned_def)
qed

lemma main_step_ledger: "main_step cfg bank own ms ms' \<Longrightarrow> reachable_ledger (bt_db (ms_bot ms)) \<Longrightarrow>
    reachable_ledger (bt_db (ms_bot ms'))"
proof (erule main_stepE)
  fix x r
  assume ok: "reachable_ledger (bt_db (ms_bot ms))" and "main_iteration cfg bank x ms = (r, ms')"
  from this(2) show ?thesis
    by (cases rule: iteration_cases) (use ok managed_ledger scanned_ledger in blast)+
qed simp_all

section \<open>The start\<close>

interpretation reconciled: turn_contract "reconcile_turn env" for env
proof
  fix p w r f w'
  assume a: "reconcile_turn env p w = ((r, f), w')"
  have lg: "log_position_close dbf c w = (u, v) \<Longrightarrow> same_ledger w v" for dbf c u v
    using log_close_ledger [of w dbf c] by simp
  show "row_key (fate_pos f) = row_key p" "same_ledger w w'"
    using a by (auto simp: reconcile_turn_def Let_def dest: lg split: if_splits sum.splits prod.splits option.splits)
qed

lemma start_ledger: "reachable_ledger w \<Longrightarrow> reachable_ledger (bt_db (ms_bot (start_main cfg bank bal now env fl d w)))"
proof -
  assume w: "reachable_ledger w"
  define b where "b = \<lparr>bt_open = load_open_positions (lc_dry cfg) w, bt_closed = load_closed_today now w, bt_failed = [],
      bt_stats = \<lparr>st_trades = 0, st_no_fill = 0, st_submits = 0\<rparr>, bt_db = w\<rparr>"
  have "reachable_ledger (bt_db (snd (take_turns (reconcile_turn env) (bt_open b) b)))"
    by (rule managed_ledger [OF reconciled.managed_turns]) (simp add: b_def w)
  then show ?thesis using w by (cases "lc_dry cfg") (simp_all add: start_main_def startup_reconcile_def b_def)
qed

definition started :: "loop_config \<Rightarrow> pyfloat \<Rightarrow> main_state \<Rightarrow> bool" where
  "started cfg bank ms = (\<exists>bal now env fl d w. reachable_ledger w \<and> ms = start_main cfg bank bal now env fl d w)"

section \<open>Pausing\<close>

lemma on_trade_paused: "is_paused fl \<Longrightarrow> is_paused (snd (on_trade_closed pnl cur start fl))"
  by (auto simp: on_trade_closed_def hard_pause_def soft_pause_def is_paused_def Let_def)

lemma note_closes_paused: "is_paused fl \<Longrightarrow> is_paused (note_closes bk start ps fl)"
  by (induction ps arbitrary: bk fl) (auto intro: on_trade_paused)

lemma iteration_keeps_pause: "main_iteration cfg bank x ms = (r, ms') \<Longrightarrow> is_paused (ms_flags ms) \<Longrightarrow> is_paused (ms_flags ms')"
proof -
  assume a: "main_iteration cfg bank x ms = (r, ms')" and p: "is_paused (ms_flags ms)"
  obtain r1 ms1 where f: "flatten_phase x ms = (r1, ms1)" by fastforce
  have p1: "is_paused (ms_flags ms1)"
    using f p by (auto simp: flatten_phase_def clear_flatten_def is_paused_def split: if_splits prod.splits)
  obtain ws r2 ms2 where m: "monitor_phase cfg bank x ms1 = (ws, r2, ms2)" by (metis surj_pair)
  have "is_paused (ms_flags ms2)"
    using m p1 note_closes_paused by (auto simp: monitor_phase_def Let_def split: prod.splits if_splits)
  then show ?thesis using a p p1 f m
    by (auto simp: main_iteration_def iteration_body_def split: if_splits sum.splits prod.splits)
qed

section \<open>Properties\<close>

text \<open>C6: Every run of the bot is a run of the order ledger: started on a reachable database, whatever the
  markets, the exchange, the operator and the signals do, and through every crash of an iteration, the
  database of the bot stays a reachable state of the order ledger, so that its guarantees (write-ahead,
  one backed position per intent) hold for the running bot in a dry and in a live run.\<close>

theorem loop_refines_ledger:
  assumes "reachable (started cfg bank) (main_step cfg bank own_chat) ms"
  shows "reachable_ledger (bt_db (ms_bot ms))"
  using assms
proof (rule reachable_invariant)
  show "started cfg bank s \<Longrightarrow> reachable_ledger (bt_db (ms_bot s))" for s
    using start_ledger by (auto simp: started_def)
qed (rule main_step_ledger)

text \<open>C7: The limits of a session: from a state within them, no sequence of iterations, commands and signals
  leads to more open positions than allowed, to two open positions of one slug, to more opened positions in
  a session than the cap, or to more opened positions than submissions.\<close>

theorem session_limits:
  assumes "reachable (\<lambda>s. session_ok (ms_bot s)) (main_step cfg bank own_chat) ms"
  shows "n_open (ms_bot ms) \<le> MAX_OPEN_POSITIONS \<and> distinct (map p_slug (bt_open (ms_bot ms))) \<and>
    st_trades (bt_stats (ms_bot ms)) \<le> MAX_TRADES_FIRST_SESSION \<and>
    st_trades (bt_stats (ms_bot ms)) \<le> st_submits (bt_stats (ms_bot ms))"
proof -
  have "session_ok (ms_bot ms)"
    using assms by (rule reachable_invariant) (auto intro: main_step_session)
  then show ?thesis by (simp add: session_ok_def)
qed

text \<open>C8: A paused bot only manages: an iteration that begins paused, or that a breaker pauses, leaves the bot
  paused, enters nothing, and conserves the positions; it does not persist the stop either, so that the
  risk state that a restart reads is the one from before.\<close>

theorem paused_iteration_only_manages:
  assumes "main_iteration cfg bank x ms = (r, ms')" "is_paused (ms_flags ms) \<or> is_paused (ms_flags ms')"
  shows "is_paused (ms_flags ms') \<and> managed (ms_bot ms) (ms_bot ms') \<and> ms_risk ms' = ms_risk ms"
proof -
  have p: "is_paused (ms_flags ms')" using assms iteration_keeps_pause by blast
  from assms(1) show ?thesis by (cases rule: iteration_cases) (use p in auto)
qed

section \<open>Witnesses\<close>

definition sample_main :: "position list \<Rightarrow> bot_state \<Rightarrow> main_state" where
  "sample_main ps fl = \<lparr>ms_bot = sample_bot ps, ms_flags = fl, ms_risk = NoTable, ms_last_rest = Fin 0, ms_start = Fin 100,
     ms_queue = [], ms_shown = []\<rparr>"

definition sample_recon :: recon_env where
  "sample_recon = \<lparr>rc_window = Inr None, rc_resolved = Inr None, rc_clock = 0, rc_log = NoFault\<rparr>"

definition idle_env :: loop_env where
  "idle_env = \<lparr>le_monitor = \<lparr>mc_event = True, mc_now = Fin 1, mc_after = Fin 1,
       mc_watch = (\<lambda>_. sample_watch 0 None)\<rparr>,
     le_flat = (\<lambda>_. \<lparr>fe_sell = sell_env_of (sample_watch 0 None) sample_position, fe_clock = 0, fe_log = NoFault\<rparr>),
     le_events = [], le_resolve = (\<lambda>_. \<lparr>rv_hl = Inr (Fin 100), rv_clock = 0, rv_log = NoFault\<rparr>),
     le_balance = (\<lambda>_. Inl TypeError), le_day = ''2026-06-09'', le_updated = jstr ''t'', le_risk_fault = StoreOk,
     le_findings = Inr [], le_heal_query = NoFault, le_heal = (\<lambda>_. \<lparr>he_resolved = Inr None, he_hl = Inr (Fin 100), he_log = NoFault\<rparr>)\<rparr>"

lemma loop_refines_ledger_witness:
  "\<exists>ms. main_step open_config (Fin 100) ''1'' (start_main open_config (Fin 100) (Inl TypeError) 0 (\<lambda>_. sample_recon) fresh_bot NoTable empty_world) ms \<and>
     reachable_ledger (bt_db (ms_bot ms))"
proof -
  let ?s = "start_main open_config (Fin 100) (Inl TypeError) 0 (\<lambda>_. sample_recon) fresh_bot NoTable empty_world"
  obtain r ms where i: "main_iteration open_config (Fin 100) idle_env ?s = (r, ms)" by fastforce
  have s: "main_step open_config (Fin 100) ''1'' ?s ms" using i by (rule step_iteration)
  have "started open_config (Fin 100) ?s" unfolding started_def using reachable_empty by blast
  then have "reachable (started open_config (Fin 100)) (main_step open_config (Fin 100) ''1'') ms"
    using s by (meson reach_init reach_step)
  from loop_refines_ledger [OF this] show ?thesis using s by blast
qed

lemma session_limits_witness:
  "\<exists>ms. main_step open_config (Fin 100) ''1'' (sample_main [sample_position] fresh_bot) ms \<and> n_open (ms_bot ms) \<le> 1"
proof -
  let ?s = "sample_main [sample_position] fresh_bot"
  obtain r ms where i: "main_iteration open_config (Fin 100) idle_env ?s = (r, ms)" by fastforce
  have s: "main_step open_config (Fin 100) ''1'' ?s ms" using i by (rule step_iteration)
  have "session_ok (ms_bot ?s)"
    by (simp add: session_ok_def sample_main_def sample_bot_def n_open_def MAX_OPEN_POSITIONS_def MAX_TRADES_FIRST_SESSION_def)
  then have "reachable (\<lambda>s. session_ok (ms_bot s)) (main_step open_config (Fin 100) ''1'') ms"
    using s by (meson reach_init reach_step)
  from session_limits [OF this] show ?thesis using s by (auto simp: MAX_OPEN_POSITIONS_def)
qed

lemma paused_iteration_only_manages_witness:
  "\<exists>r ms'. main_iteration open_config (Fin 100) idle_env (sample_main [sample_position] (soft_pause fresh_bot)) = (r, ms') \<and>
     managed (sample_bot [sample_position]) (ms_bot ms')"
proof -
  obtain r ms' where i: "main_iteration open_config (Fin 100) idle_env (sample_main [sample_position] (soft_pause fresh_bot)) = (r, ms')"
    by fastforce
  have "is_paused (ms_flags (sample_main [sample_position] (soft_pause fresh_bot)))"
    by (simp add: sample_main_def is_paused_def soft_pause_def)
  then show ?thesis using paused_iteration_only_manages [OF i] i by (simp add: sample_main_def)
qed

end
