(* ===== verification/PriceFeeds.thy ===== *)
theory PriceFeeds
  imports MarketData "HOL-Library.AList"
begin

text \<open>
  The inputs of the scout: the fair value of a binary option (\<open>data/fair_value.py\<close>), candles and the
  realized volatility (\<open>data/hl_candles.py\<close>), the state of the perpetuals (\<open>data/hyperliquid.py\<close>), the fee
  of a token with its cache (\<open>data/fee_rate.py\<close>) and the markets of the current windows
  (\<open>data/shortterm.py\<close>). The answers of the services are arguments. \<open>math.log\<close>, \<open>math.erf\<close> and the square
  of a float are those of the C library, which fixes no rounding for them: they are the record \<open>libm\<close>,
  and \<open>libm_ok\<close> states what is documented of them. What \<open>datetime.fromisoformat\<close> and \<open>json.loads\<close> read
  from a text is an argument as well.
\<close>

section \<open>The C library\<close>

record libm =
  lm_log :: "rat \<Rightarrow> rat"
  lm_erf :: "rat \<Rightarrow> rat"
  lm_sq :: "rat \<Rightarrow> rat"

definition libm_ok :: "libm \<Rightarrow> bool" where
  "libm_ok lm = ((\<forall>x. 0 < x \<and> x \<le> 1 \<longrightarrow> lm_log lm x \<le> 0) \<and> (\<forall>x. 1 \<le> x \<longrightarrow> 0 \<le> lm_log lm x) \<and>
     (\<forall>x. \<bar>lm_erf lm x\<bar> \<le> 1) \<and> (\<forall>x. 0 \<le> x \<longrightarrow> 0 \<le> lm_erf lm x) \<and> (\<forall>x. x \<le> 0 \<longrightarrow> lm_erf lm x \<le> 0) \<and>
     (\<forall>x. 0 \<le> lm_sq lm x))"

definition py_log :: "libm \<Rightarrow> pyfloat \<Rightarrow> pyfloat result" where
  "py_log lm x = (case x of Fin a \<Rightarrow> if a \<le> 0 then Inl ValueError else Inr (Fin (lm_log lm a))
     | PInf \<Rightarrow> Inr PInf | NInf \<Rightarrow> Inl ValueError | NaN \<Rightarrow> Inr NaN)"

definition py_erf :: "libm \<Rightarrow> pyfloat \<Rightarrow> pyfloat" where
  "py_erf lm x = (case x of Fin a \<Rightarrow> Fin (lm_erf lm a) | PInf \<Rightarrow> Fin 1 | NInf \<Rightarrow> Fin (-1) | NaN \<Rightarrow> NaN)"

definition py_sq :: "libm \<Rightarrow> pyfloat \<Rightarrow> pyfloat" where
  "py_sq lm x = (case x of Fin a \<Rightarrow> Fin (lm_sq lm a) | PInf \<Rightarrow> PInf | NInf \<Rightarrow> PInf | NaN \<Rightarrow> NaN)"

section \<open>data/fair_value.py\<close>

definition ASSET_VOL :: "(string \<times> pyfloat) list" where
  "ASSET_VOL = [(''BTC'', flit 0.80), (''ETH'', flit 1.20), (''SOL'', flit 1.50), (''XRP'', flit 1.50)]"

definition SECONDS_PER_YEAR :: pyfloat where "SECONDS_PER_YEAR = Fin 31557600"

definition default_vol :: "string \<Rightarrow> pyfloat" where
  "default_vol asset = (case map_of ASSET_VOL asset of Some v \<Rightarrow> v | None \<Rightarrow> flit 0.80)"

definition settled :: "pyfloat \<Rightarrow> pyfloat \<Rightarrow> pyfloat" where
  "settled p_now p_ref = (if fgt p_now p_ref then Fin 1 else Fin 0)"

definition fair_yes ::
  "libm \<Rightarrow> pyfloat \<Rightarrow> pyfloat \<Rightarrow> pyfloat \<Rightarrow> string \<Rightarrow> pyfloat option \<Rightarrow> pyfloat result" where
  "fair_yes lm p_now p_ref seconds_remaining asset current_volatility =
    (if fle p_now (Fin 0) \<or> fle p_ref (Fin 0) then Inl ValueError
     else if fle seconds_remaining (Fin 0) then Inr (settled p_now p_ref)
     else
       let annual_vol = (case current_volatility of Some v \<Rightarrow> v | None \<Rightarrow> default_vol asset) in
       rbind (fdiv seconds_remaining SECONDS_PER_YEAR) (\<lambda>years.
       rbind (f_sqrt years) (\<lambda>root.
       let sigma_t = fmul annual_vol root in
       if flt sigma_t (flit (1 / 10 ^ 10)) then Inr (settled p_now p_ref)
       else
         rbind (fdiv p_now p_ref) (\<lambda>q. rbind (py_log lm q) (\<lambda>d. rbind (fdiv d sigma_t) (\<lambda>z.
         rbind (f_sqrt (Fin 2)) (\<lambda>root2. rbind (fdiv z root2) (\<lambda>y.
           Inr (fmul (flit 0.5) (fadd (Fin 1) (py_erf lm y)))))))))))"

section \<open>data/hl_candles.py\<close>

text \<open>\<open>int(x)\<close> of a float truncates; of a text it reads a decimal integer.\<close>

definition trunc_rat :: "rat \<Rightarrow> int" where
  "trunc_rat a = (if 0 \<le> a then \<lfloor>a\<rfloor> else \<lceil>a\<rceil>)"

definition f_int :: "pyfloat \<Rightarrow> int result" where
  "f_int x = (case x of Fin a \<Rightarrow> Inr (trunc_rat a) | NaN \<Rightarrow> Inl ValueError | _ \<Rightarrow> Inl OverflowError)"

definition int_of_text :: "string \<Rightarrow> int result" where
  "int_of_text s = (let (neg, t) = split_sign (py_strip s); ds = filter (\<lambda>c. c \<noteq> CHR ''_'') t in
     if ds = [] \<or> \<not> underscores_ok False t \<or> \<not> list_all is_digit ds \<or> length ds > 4300 then Inl ValueError
     else Inr (if neg then - digits_val ds else digits_val ds))"

definition int_of_json :: "json \<Rightarrow> int result" where
  "int_of_json j = (case j of
      JVal (PBool b) \<Rightarrow> Inr (if b then 1 else 0) | JVal (PInt i) \<Rightarrow> Inr i
    | JVal (PFloat x) \<Rightarrow> f_int x | JVal (PStr s) \<Rightarrow> int_of_text s | _ \<Rightarrow> Inl TypeError)"

text \<open>\<open>len(j)\<close> and \<open>j[i]\<close>, with \<open>i\<close> inside the length.\<close>

definition json_len :: "json \<Rightarrow> nat result" where
  "json_len j = (case j of JList xs \<Rightarrow> Inr (length xs) | JObj kvs \<Rightarrow> Inr (length kvs)
     | JVal (PStr s) \<Rightarrow> Inr (length s) | _ \<Rightarrow> Inl TypeError)"

definition json_nth :: "json \<Rightarrow> nat \<Rightarrow> json result" where
  "json_nth j i = (case j of
      JList xs \<Rightarrow> if i < length xs then Inr (xs ! i) else Inl IndexError
    | JObj kvs \<Rightarrow> Inl KeyError
    | JVal (PStr s) \<Rightarrow> if i < length s then Inr (jstr [s ! i]) else Inl IndexError
    | _ \<Rightarrow> Inl TypeError)"

definition candle_num :: "string \<Rightarrow> json \<Rightarrow> pyfloat result" where
  "candle_num k x = rbind (json_index x k) float_of_json"

definition log_return :: "libm \<Rightarrow> pyfloat \<Rightarrow> pyfloat \<Rightarrow> pyfloat list result" where
  "log_return lm prev cur =
    (if fgt prev (Fin 0) \<and> fgt cur (Fin 0)
     then rbind (fdiv cur prev) (\<lambda>q. rbind (py_log lm q) (\<lambda>r. Inr [r])) else Inr [])"

fun log_returns :: "libm \<Rightarrow> json list \<Rightarrow> pyfloat list result" where
  "log_returns lm (p # c # rest) =
     rbind (candle_num ''c'' p) (\<lambda>prev. rbind (candle_num ''c'' c) (\<lambda>cur.
     rbind (log_return lm prev cur) (\<lambda>h. rbind (log_returns lm (c # rest)) (\<lambda>t. Inr (h @ t)))))"
| "log_returns lm _ = Inr []"

definition deviation :: "libm \<Rightarrow> pyfloat list \<Rightarrow> pyfloat option result" where
  "deviation lm returns =
    (let n = length returns in
     if n < 2 then Inr None else
     rbind (fdiv (py_sum returns) (Fin (of_nat n))) (\<lambda>mean.
     rbind (fdiv (py_sum (map (\<lambda>r. py_sq lm (fsub r mean)) returns)) (Fin (of_nat (n - 1)))) (\<lambda>variance.
     rbind (f_sqrt variance) (\<lambda>s. rbind (f_sqrt (Fin 525600)) (\<lambda>y. Inr (Some (fmul s y)))))))"

definition realized_vol_raw :: "libm \<Rightarrow> json \<Rightarrow> pyfloat option result" where
  "realized_vol_raw lm candles =
    (if \<not> json_truthy candles then Inr None else
     rbind (json_len candles) (\<lambda>n. if n < 2 then Inr None else
     case candles of
       JList xs \<Rightarrow> rbind (log_returns lm xs) (deviation lm)
     | JObj _ \<Rightarrow> Inl KeyError
     | _ \<Rightarrow> Inl TypeError))"

definition calculate_realized_volatility :: "libm \<Rightarrow> json \<Rightarrow> pyfloat result" where
  "calculate_realized_volatility lm candles = rbind (realized_vol_raw lm candles) (\<lambda>raw.
     Inr (case raw of None \<Rightarrow> flit 0.80 | Some v \<Rightarrow> f_max (flit 0.30) (f_min v (Fin 3))))"

text \<open>A service of candles: asset, interval, first and last millisecond.\<close>

type_synonym candle_feed = "string \<Rightarrow> string \<Rightarrow> int \<Rightarrow> int \<Rightarrow> json result"

definition fetch_candles :: "candle_feed \<Rightarrow> pyfloat \<Rightarrow> string \<Rightarrow> string \<Rightarrow> int \<Rightarrow> json result" where
  "fetch_candles feed now asset interval minutes_back =
    rbind (f_int (fmul now (Fin 1000))) (\<lambda>e. feed asset interval (e - minutes_back * 60 * 1000) e)"

definition candle_distance :: "int \<Rightarrow> json \<Rightarrow> (int \<times> json) result" where
  "candle_distance ts_ms c = rbind (json_index c ''t'') (\<lambda>t. rbind (int_of_json t) (\<lambda>i. Inr (\<bar>i - ts_ms\<bar>, c)))"

definition nearer :: "int \<times> json \<Rightarrow> int \<times> json \<Rightarrow> bool" where
  "nearer a b = (fst a < fst b)"

definition price_at_timestamp :: "candle_feed \<Rightarrow> string \<Rightarrow> int \<Rightarrow> pyfloat result" where
  "price_at_timestamp feed asset ts_ms =
    rbind (feed asset ''1m'' (ts_ms - 120000) (ts_ms + 120000)) (\<lambda>candles.
    if \<not> json_truthy candles then Inl ValueError else
    rbind (json_iter candles) (\<lambda>cs. rbind (mapM_r (candle_distance ts_ms) cs) (\<lambda>ks. case ks of
        [] \<Rightarrow> Inl ValueError
      | k # rest \<Rightarrow> candle_num ''o'' (snd (first_extreme nearer k rest)))))"

definition current_price :: "candle_feed \<Rightarrow> pyfloat \<Rightarrow> string \<Rightarrow> pyfloat result" where
  "current_price feed now asset = rbind (fetch_candles feed now asset ''1m'' 2) (\<lambda>candles.
     if \<not> json_truthy candles then Inl ValueError else
     case candles of
       JList xs \<Rightarrow> candle_num ''c'' (last xs)
     | JObj _ \<Rightarrow> Inl KeyError
     | _ \<Rightarrow> Inl TypeError)"

section \<open>data/hyperliquid.py\<close>

record perp_state =
  ps_mid :: pyfloat
  ps_mark :: pyfloat
  ps_oracle :: pyfloat
  ps_funding :: pyfloat
  ps_prev_day :: pyfloat

definition ctx_float :: "json \<Rightarrow> string \<Rightarrow> pyfloat result" where
  "ctx_float c k = rbind (json_get c k) float_or_zero"

definition perp_state :: "json \<Rightarrow> perp_state result" where
  "perp_state c = rbind (ctx_float c ''midPx'') (\<lambda>mid. rbind (ctx_float c ''markPx'') (\<lambda>mark.
     rbind (ctx_float c ''oraclePx'') (\<lambda>oracle. rbind (ctx_float c ''funding'') (\<lambda>funding.
     rbind (ctx_float c ''prevDayPx'') (\<lambda>prev_day.
       Inr \<lparr>ps_mid = mid, ps_mark = mark, ps_oracle = oracle, ps_funding = funding, ps_prev_day = prev_day\<rparr>)))))"

fun market_states :: "string list \<Rightarrow> (json \<times> json) list \<Rightarrow> (string \<times> perp_state) list \<Rightarrow> (string \<times> perp_state) list result" where
  "market_states assets [] out = Inr out"
| "market_states assets ((name, ctx) # rest) out =
    (case name of
       JVal (PStr s) \<Rightarrow> if s \<in> set assets
         then rbind (perp_state ctx) (\<lambda>p. market_states assets rest (AList.update s p out))
         else market_states assets rest out
     | _ \<Rightarrow> market_states assets rest out)"

definition fetch_market_state :: "json result \<Rightarrow> string list \<Rightarrow> (string \<times> perp_state) list result" where
  "fetch_market_state posted assets = rbind posted (\<lambda>meta.
     rbind (json_nth meta 0) (\<lambda>m0. rbind (json_index m0 ''universe'') (\<lambda>universe.
     rbind (json_nth meta 1) (\<lambda>m1. rbind (json_iter universe) (\<lambda>us.
     rbind (mapM_r (\<lambda>u. json_index u ''name'') us) (\<lambda>names. rbind (json_iter m1) (\<lambda>ctxs.
       market_states assets (zip names ctxs) [])))))))"

section \<open>data/fee_rate.py\<close>

definition CACHE_TTL :: pyfloat where "CACHE_TTL = Fin 300"
definition DEFAULT_FEE :: pyfloat where "DEFAULT_FEE = flit 0.02"

definition parse_fee :: "json option \<Rightarrow> pyfloat result" where
  "parse_fee raw =
    (case rbind (float_of_json (case raw of None \<Rightarrow> JVal PNone | Some j \<Rightarrow> j)) (\<lambda>x. fdiv x (Fin 50000)) of
       Inr fee \<Rightarrow> Inr (if fle (flit 0.001) fee \<and> fle fee (flit 0.20) then fee else DEFAULT_FEE)
     | Inl e \<Rightarrow> if e \<in> {TypeError, ValueError} then Inr DEFAULT_FEE else Inl e)"

type_synonym fee_cache = "string \<Rightarrow> (pyfloat \<times> pyfloat) option"

definition fetch_fee_rate ::
  "(string \<Rightarrow> json result) \<Rightarrow> pyfloat \<Rightarrow> string \<Rightarrow> fee_cache \<Rightarrow> pyfloat \<times> fee_cache" where
  "fetch_fee_rate api now token_id cache =
    (let ask_service = (case rbind (api token_id) (\<lambda>data. rbind (json_get data ''base_fee'') parse_fee) of
        Inl _ \<Rightarrow> (DEFAULT_FEE, cache) | Inr fee \<Rightarrow> (fee, cache(token_id \<mapsto> (fee, fadd now CACHE_TTL)))) in
     case cache token_id of
       Some (fee, expires) \<Rightarrow> if flt now expires then (fee, cache) else ask_service
     | None \<Rightarrow> ask_service)"

section \<open>data/shortterm.py\<close>

text \<open>What the standard library reads from a text: \<open>json.loads\<close>, \<open>datetime.fromisoformat\<close> (microseconds since
  1970 of the date and time as written) and \<open>str\<close> of a value that is neither text nor an integer.\<close>

record readers =
  rd_loads :: "string \<Rightarrow> json option"
  rd_iso :: "string \<Rightarrow> int option"
  rd_str :: "json \<Rightarrow> string"

definition loads :: "readers \<Rightarrow> string \<Rightarrow> json result" where
  "loads rd s = (case rd_loads rd s of None \<Rightarrow> Inl ValueError | Some j \<Rightarrow> Inr j)"

definition str_of_json :: "readers \<Rightarrow> json \<Rightarrow> string" where
  "str_of_json rd j = (case j of JVal (PStr s) \<Rightarrow> s | JVal (PInt i) \<Rightarrow> show_int i | _ \<Rightarrow> rd_str rd j)"

definition parse_token_ids :: "readers \<Rightarrow> json option \<Rightarrow> string list" where
  "parse_token_ids rd raw = (case raw of
      Some (JList xs) \<Rightarrow> map (str_of_json rd) xs
    | Some (JVal (PStr s)) \<Rightarrow> (case rd_loads rd s of
        Some (JList xs) \<Rightarrow> map (str_of_json rd) xs | _ \<Rightarrow> [])
    | _ \<Rightarrow> [])"

record market_window =
  mw_start_ms :: int
  mw_end_ms :: int
  mw_secs :: pyfloat
  mw_bid :: pyfloat
  mw_ask :: pyfloat
  mw_neg_risk :: bool

definition parse_dt :: "readers \<Rightarrow> json \<Rightarrow> int result" where
  "parse_dt rd j = (case j of
      JVal (PStr s) \<Rightarrow> (case rd_iso rd (rev (dropWhile (\<lambda>c. c = CHR ''Z'') (rev s))) of
        None \<Rightarrow> Inl ValueError | Some u \<Rightarrow> Inr u)
    | _ \<Rightarrow> Inl AttributeError)"

definition timestamp_ms :: "int \<Rightarrow> int result" where
  "timestamp_ms u = f_int (fmul (mkf (of_int u / 1000000)) (Fin 1000))"

definition missing :: "json option \<Rightarrow> bool" where
  "missing v = (v = None \<or> v = Some (JVal PNone))"

definition truthy_opt :: "json option \<Rightarrow> bool" where
  "truthy_opt v = (case v of None \<Rightarrow> False | Some j \<Rightarrow> json_truthy j)"

definition window_fields :: "readers \<Rightarrow> int \<Rightarrow> (string \<times> json) list \<Rightarrow> market_window option result" where
  "window_fields rd clock kvs =
    (let start_v = (if truthy_opt (map_of kvs ''eventStartTime'') then map_of kvs ''eventStartTime'' else map_of kvs ''startDate'');
         end_v = map_of kvs ''endDate''; ask_v = map_of kvs ''bestAsk''; bid_v = map_of kvs ''bestBid'' in
     if \<not> truthy_opt start_v \<or> \<not> truthy_opt end_v \<or> missing ask_v \<or> missing bid_v then Inr None else
     rbind (parse_dt rd (the start_v)) (\<lambda>s. rbind (parse_dt rd (the end_v)) (\<lambda>e.
     rbind (timestamp_ms s) (\<lambda>start_ms. rbind (timestamp_ms e) (\<lambda>end_ms.
     rbind (float_of_json (the bid_v)) (\<lambda>bid. rbind (float_of_json (the ask_v)) (\<lambda>ask.
       Inr (Some \<lparr>mw_start_ms = start_ms, mw_end_ms = end_ms, mw_secs = mkf (of_int (e - clock) / 1000000),
         mw_bid = bid, mw_ask = ask, mw_neg_risk = truthy_opt (map_of kvs ''negRisk'')\<rparr>))))))))"

definition parse_market_window :: "readers \<Rightarrow> int \<Rightarrow> json \<Rightarrow> market_window option result" where
  "parse_market_window rd clock m =
    (case (case m of JObj kvs \<Rightarrow> window_fields rd clock kvs | _ \<Rightarrow> Inl AttributeError) of
       Inl e \<Rightarrow> if e \<in> {ValueError, TypeError, AttributeError} then Inr None else Inl e
     | Inr w \<Rightarrow> Inr w)"

definition slug_of :: "string \<Rightarrow> int \<Rightarrow> int \<Rightarrow> string" where
  "slug_of asset interval ts = asset @ ''-updown-'' @ show_int interval @ ''m-'' @ show_int ts"

definition SLUG_ASSETS :: "string list" where
  "SLUG_ASSETS = [''btc'', ''eth'', ''sol'', ''xrp'']"

definition slugs_for_now :: "int \<Rightarrow> int \<Rightarrow> nat \<Rightarrow> string list" where
  "slugs_for_now now interval lookback =
    (let step = interval * 60; base = (now div step) * step in
     concat (map (\<lambda>asset. map (\<lambda>i. slug_of asset interval (base - int i * step)) [0..<lookback]) SLUG_ASSETS))"

text \<open>The market service: for a slug the status and the body of its answer. The clock is read once per interval.\<close>

type_synonym gamma_feed = "string \<Rightarrow> (int \<times> json) result"

definition answer_list :: "json \<Rightarrow> json result" where
  "answer_list data = (case data of JList _ \<Rightarrow> Inr data
     | _ \<Rightarrow> rbind (json_get data ''data'') (\<lambda>v. Inr (case v of None \<Rightarrow> JList [] | Some j \<Rightarrow> j)))"

definition first_answer :: "gamma_feed \<Rightarrow> string \<Rightarrow> json option result" where
  "first_answer gamma slug = (case gamma slug of
      Inl _ \<Rightarrow> Inr None
    | Inr (status, data) \<Rightarrow> if status \<noteq> 200 then Inr None else
        rbind (answer_list data) (\<lambda>arr. if json_truthy arr then rbind (json_nth arr 0) (\<lambda>m. Inr (Some m)) else Inr None))"

definition requested_slugs :: "(int \<Rightarrow> int) \<Rightarrow> int list \<Rightarrow> string list" where
  "requested_slugs now intervals = concat (map (\<lambda>iv. slugs_for_now (now iv) iv (if iv = 5 then 2 else 7)) intervals)"

definition find_shortterm :: "gamma_feed \<Rightarrow> (int \<Rightarrow> int) \<Rightarrow> int list \<Rightarrow> json list result" where
  "find_shortterm gamma now intervals =
    rbind (mapM_r (first_answer gamma) (requested_slugs now intervals)) (\<lambda>rs. Inr (filter json_truthy (some_values rs)))"

text \<open>The resolution of a closed market.\<close>

definition resolution_prices :: "readers \<Rightarrow> json \<Rightarrow> (pyfloat \<times> pyfloat) result" where
  "resolution_prices rd market = rbind (json_index market ''outcomePrices'') (\<lambda>raw.
     rbind (case raw of JVal (PStr s) \<Rightarrow> loads rd s | _ \<Rightarrow> Inl TypeError) (\<lambda>prices.
     rbind (json_nth prices 0) (\<lambda>y. rbind (float_of_json y) (\<lambda>yes_exit.
     rbind (json_nth prices 1) (\<lambda>n. rbind (float_of_json n) (\<lambda>no_exit. Inr (yes_exit, no_exit)))))))"

definition parse_resolution :: "readers \<Rightarrow> json \<Rightarrow> (pyfloat \<times> pyfloat) option result" where
  "parse_resolution rd market = (case resolution_prices rd market of
      Inl e \<Rightarrow> if e \<in> {KeyError, IndexError, ValueError, TypeError} then Inr None else Inl e
    | Inr p \<Rightarrow> Inr (Some p))"

definition fetch_resolved :: "readers \<Rightarrow> gamma_feed \<Rightarrow> string \<Rightarrow> (pyfloat \<times> pyfloat) option result" where
  "fetch_resolved rd gamma slug = rbind (first_answer gamma slug) (\<lambda>m.
     case m of None \<Rightarrow> Inr None | Some market \<Rightarrow> parse_resolution rd market)"

section \<open>The fair value is a probability\<close>

lemma erf_sum_bounds:
  assumes "libm_ok lm" "e = py_erf lm y" "e \<noteq> NaN"
  shows "fle (Fin 0) (fmul (flit 0.5) (fadd (Fin 1) e)) \<and> fle (fmul (flit 0.5) (fadd (Fin 1) e)) (Fin 1) \<and>
    (fle (Fin 0) y \<longrightarrow> fle (Fin (1/2)) (fmul (flit 0.5) (fadd (Fin 1) e))) \<and>
    (fle y (Fin 0) \<longrightarrow> fle (fmul (flit 0.5) (fadd (Fin 1) e)) (Fin (1/2)))"
proof -
  obtain r where r: "e = Fin r" "\<bar>r\<bar> \<le> 1" "fle (Fin 0) y \<longrightarrow> 0 \<le> r" "fle y (Fin 0) \<longrightarrow> r \<le> 0"
    using assms by (cases y) (auto simp: py_erf_def libm_ok_def fle_inf)
  have c: "f64 (1/2) = 1/2" "f64 1 = 1" "f64 2 = 2" "flit 0.5 = Fin (1/2)" by code_simp+
  have big: "2 < f_max_finite" by (simp add: f_max_finite_def)
  have "fle (Fin 0) (mkf (1 + r))" "fle (mkf (1 + r)) (Fin 2)"
    using r(2) big c by (auto intro!: mkf_nonneg mkf_le)
  then obtain s where s: "mkf (1 + r) = Fin s" "0 \<le> s" "s \<le> 2" by (cases "mkf (1 + r)") (auto simp: fle_inf)
  have hi: "0 \<le> r \<Longrightarrow> 1 \<le> s" using mkf_ge [of 1 "1 + r"] s(1) big c by simp
  have lo: "r \<le> 0 \<Longrightarrow> s \<le> 1" using mkf_le [of "1 + r" 1] s(1) big c by simp
  have v: "fmul (flit 0.5) (fadd (Fin 1) e) = mkf (s / 2)" unfolding c(4) r(1) by (simp add: s(1))
  have "fle (Fin 0) (mkf (s / 2))" "fle (mkf (s / 2)) (Fin 1)"
    using s big c by (auto intro!: mkf_nonneg mkf_le)
  moreover have "1 \<le> s \<Longrightarrow> fle (Fin (1/2)) (mkf (s / 2))" "s \<le> 1 \<Longrightarrow> fle (mkf (s / 2)) (Fin (1/2))"
    using big c by (auto intro!: mkf_ge mkf_le)
  ultimately show ?thesis using hi lo r(3,4) unfolding v by blast
qed

lemma fair_yes_unit:
  assumes "libm_ok lm" "fair_yes lm p_now p_ref secs asset vol = Inr r" "r \<noteq> NaN"
  shows "fle (Fin 0) r \<and> fle r (Fin 1)"
proof -
  consider "r = settled p_now p_ref" | y where "r = fmul (flit 0.5) (fadd (Fin 1) (py_erf lm y))"
    using assms(2) by (auto simp: fair_yes_def Let_def rbind_eq_Inr split: if_splits)
  then show ?thesis
  proof cases
    case 1
    then show ?thesis by (simp add: settled_def)
  next
    case (2 y)
    then have "py_erf lm y \<noteq> NaN" using assms(3) by (auto simp: flit_def)
    then show ?thesis using erf_sum_bounds [OF assms(1) refl] 2 by simp
  qed
qed

text \<open>With finite positive prices, a volatility inside its band and time left the computation raises only
  when the ratio of the prices underflows, and the price above (below) the reference gives at least (at
  most) one half.\<close>

lemma py_log_sign:
  assumes "libm_ok lm" "py_log lm q = Inr d"
  shows "(fle (Fin 1) q \<longrightarrow> fle (Fin 0) d) \<and> (fle q (Fin 1) \<longrightarrow> fle d (Fin 0)) \<and> (q \<noteq> NaN \<longrightarrow> d \<noteq> NaN \<and> d \<noteq> NInf)"
  using assms by (cases q) (auto simp: py_log_def libm_ok_def fle_inf split: if_splits)

lemma fdiv_sign:
  assumes "fdiv x (Fin c) = Inr z" "0 < c" "x \<noteq> NaN"
  shows "z \<noteq> NaN \<and> (fle (Fin 0) x \<longrightarrow> fle (Fin 0) z) \<and> (fle x (Fin 0) \<longrightarrow> fle z (Fin 0))"
proof (cases x)
  case (Fin a)
  then have z: "z = mkf (a / c)" using assms by simp
  have "a \<le> 0 \<Longrightarrow> fle (mkf (a / c)) (Fin 0)" using mkf_mono [of "a / c" 0] assms(2) by (simp add: divide_nonpos_pos)
  then show ?thesis using Fin assms(2) by (simp add: z mkf_nonneg)
qed (use assms in \<open>auto simp: fle_inf f_sgn_def split: if_splits\<close>)

lemma f_sqrt_defined: "fle (Fin 0) x \<Longrightarrow> (\<And>y. f_sqrt x = Inr y \<Longrightarrow> fle (Fin 0) y \<Longrightarrow> P) \<Longrightarrow> P"
  using f_sqrt_result [of x] by (cases x) (auto simp: f_sqrt_def fle_inf split: if_splits)

lemma fdiv_total: "0 < c \<Longrightarrow> x \<noteq> NaN \<Longrightarrow>
    \<exists>z. fdiv x (Fin c) = Inr z \<and> z \<noteq> NaN \<and> (fle (Fin 0) x \<longrightarrow> fle (Fin 0) z) \<and> (fle x (Fin 0) \<longrightarrow> fle z (Fin 0))"
proof -
  assume c: "0 < c" "x \<noteq> NaN"
  then obtain z where z: "fdiv x (Fin c) = Inr z" by (cases x) auto
  show ?thesis using fdiv_sign [OF z c] z by blast
qed

lemma sigma_quotient:
  assumes "fle (Fin 0) sigma" "\<not> flt sigma (flit (1 / 10 ^ 10))"
  obtains z where "fdiv (Fin d) sigma = Inr z" "z \<noteq> NaN" "0 \<le> d \<Longrightarrow> fle (Fin 0) z" "d \<le> 0 \<Longrightarrow> fle z (Fin 0)"
proof (cases sigma)
  case (Fin s)
  have "flit (1 / 10 ^ 10) = Fin (7737125245533627 / 77371252455336267181195264)" by code_simp
  then have "0 < s" using assms(2) Fin by simp
  then show thesis using fdiv_total [of s "Fin d"] Fin that by auto
next
  case PInf
  then show thesis using that [of "Fin 0"] by simp
qed (use assms in \<open>auto simp: fle_inf\<close>)

text \<open>\<open>math.sqrt(2)\<close>.\<close>

lemma root2: "f_sqrt (Fin 2) = Inr (Fin (6369051672525773 / 4503599627370496))"
  by code_simp

text \<open>With finite positive prices and a volatility inside its band the fair value is a probability, on
  the side of one half where the price stands to the reference; it raises only when the ratio of the
  prices underflows to zero.\<close>

theorem fair_yes_probability:
  assumes "libm_ok lm" "0 < a" "0 < b" "0 < v" "mkf (a / b) \<noteq> Fin 0" "mkf (a / b) \<noteq> PInf"
  shows "\<exists>r. fair_yes lm (Fin a) (Fin b) (Fin s) asset (Some (Fin v)) = Inr r \<and> fle (Fin 0) r \<and> fle r (Fin 1) \<and>
    (b < a \<longrightarrow> fle (Fin (1/2)) r) \<and> (a \<le> b \<longrightarrow> fle r (Fin (1/2)))"
proof -
  have st: "settled (Fin a) (Fin b) = (if b < a then Fin 1 else Fin 0)" by (simp add: settled_def)
  obtain years where y: "fdiv (Fin s) SECONDS_PER_YEAR = Inr years" "0 < s \<Longrightarrow> fle (Fin 0) years"
    by (auto simp: SECONDS_PER_YEAR_def mkf_nonneg)
  show ?thesis
  proof (cases "s \<le> 0")
    case True
    then show ?thesis using assms by (simp add: fair_yes_def st)
  next
    case False
    then have yn: "fle (Fin 0) years" using y by simp
    then obtain root where root: "f_sqrt years = Inr root" "fle (Fin 0) root" by (rule f_sqrt_defined)
    define sigma where "sigma = fmul (Fin v) root"
    have sg: "fle (Fin 0) sigma" using root(2) assms(4) by (cases root) (auto simp: sigma_def fle_inf f_sgn_def mkf_nonneg)
    show ?thesis
    proof (cases "flt sigma (flit (1 / 10 ^ 10))")
      case True
      then show ?thesis using assms False y(1) root(1) by (simp add: fair_yes_def st Let_def flip: sigma_def)
    next
      case big: False
      obtain q where q: "mkf (a / b) = Fin q" "0 < q" using assms mkf_nonneg [of "a / b"]
        by (cases "mkf (a / b)") (auto simp: fle_inf less_le)
      obtain d where d: "py_log lm (Fin q) = Inr (Fin d)" using q(2) by (simp add: py_log_def)
      have one: "f64 1 = 1" "1 < f_max_finite" by (code_simp, simp add: f_max_finite_def)
      have up: "b \<le> a \<Longrightarrow> 0 \<le> d"
        using py_log_sign [OF assms(1) d] mkf_ge [of 1 "a / b"] q one assms(3) by simp
      have down: "a \<le> b \<Longrightarrow> d \<le> 0"
        using py_log_sign [OF assms(1) d] mkf_le [of "a / b" 1] q one assms(3) by simp
      obtain z where z: "fdiv (Fin d) sigma = Inr z" "z \<noteq> NaN" "0 \<le> d \<Longrightarrow> fle (Fin 0) z" "d \<le> 0 \<Longrightarrow> fle z (Fin 0)"
        using sigma_quotient [OF sg big] by blast
      obtain w where w: "fdiv z (Fin (6369051672525773 / 4503599627370496)) = Inr w" "w \<noteq> NaN" "fle (Fin 0) z \<Longrightarrow> fle (Fin 0) w" "fle z (Fin 0) \<Longrightarrow> fle w (Fin 0)"
        using fdiv_total [of "6369051672525773 / 4503599627370496" z] z(2) by auto
      have "py_erf lm w \<noteq> NaN" using w(2) by (cases w) (simp_all add: py_erf_def)
      note e = erf_sum_bounds [OF assms(1) refl this]
      have "fair_yes lm (Fin a) (Fin b) (Fin s) asset (Some (Fin v)) =
          Inr (fmul (flit 0.5) (fadd (Fin 1) (py_erf lm w)))"
        using assms False y(1) root(1) big q(1) d z(1) w(1) root2
        by (simp add: fair_yes_def Let_def flip: sigma_def)
      then show ?thesis using e up down z(3,4) w(3,4) by auto
    qed
  qed
qed

section \<open>Volatilities and fees stay in their bands\<close>

definition vol_ok :: "pyfloat \<Rightarrow> bool" where
  "vol_ok v = (fle (flit 0.30) v \<and> fle v (Fin 3))"

lemma band_le: "fle (flit 0.30) (Fin 3)"
  by code_simp

lemma clamp_band: "fle lo hi \<Longrightarrow> fle lo (f_max lo (f_min v hi)) \<and> fle (f_max lo (f_min v hi)) hi"
  by (cases lo; cases hi; cases v) (auto simp: f_max_def f_min_def fle_inf)

lemma default_vol_ok: "vol_ok (default_vol asset)"
proof -
  have "vol_ok (flit 0.80)" "list_all (\<lambda>p. vol_ok (snd p)) ASSET_VOL" by code_simp+
  then show ?thesis by (force simp: default_vol_def list_all_iff dest: map_of_SomeD split: option.splits)
qed

lemma volatility_lemma: "calculate_realized_volatility lm candles = Inr v \<Longrightarrow> vol_ok v"
proof -
  have "vol_ok (flit 0.80)" by code_simp
  then show "calculate_realized_volatility lm candles = Inr v \<Longrightarrow> ?thesis" using clamp_band [OF band_le]
    by (auto simp: calculate_realized_volatility_def rbind_eq_Inr vol_ok_def split: option.splits)
qed

definition fee_ok :: "pyfloat \<Rightarrow> bool" where
  "fee_ok f = (fle (flit 0.001) f \<and> fle f (flit 0.20))"

definition fees_ok :: "fee_cache \<Rightarrow> bool" where
  "fees_ok c = (\<forall>t f e. c t = Some (f, e) \<longrightarrow> fee_ok f)"

lemma default_fee_ok: "fee_ok DEFAULT_FEE"
  by code_simp

lemma parse_fee_ok: "parse_fee raw = Inr f \<Longrightarrow> fee_ok f"
  using default_fee_ok by (auto simp: parse_fee_def fee_ok_def split: sum.splits if_splits)

lemma fees_okD: "fees_ok c \<Longrightarrow> c t = Some (f, e) \<Longrightarrow> fee_ok f"
  by (auto simp: fees_ok_def)

lemma fees_ok_upd: "fees_ok c \<Longrightarrow> fee_ok f \<Longrightarrow> fees_ok (c(t \<mapsto> (f, e)))"
  by (auto simp: fees_ok_def)

lemma fetch_fee_rate_ok:
  assumes "fees_ok c" "fetch_fee_rate api now t c = (f, c')"
  shows "fee_ok f \<and> fees_ok c'"
proof -
  have "fee_ok g \<Longrightarrow> (g, c(t \<mapsto> (g, x))) = (f, c') \<Longrightarrow> ?thesis" for g x
    using assms(1) fees_ok_upd by auto
  then show ?thesis using assms default_fee_ok
    by (auto simp: fetch_fee_rate_def Let_def rbind_eq_Inr dest!: parse_fee_ok dest: fees_okD
        split: option.splits sum.splits if_splits)
qed

section \<open>The slugs of the current windows\<close>

text \<open>A number is read back from its text, so texts of different numbers differ.\<close>

lemma show_nat_int_digits: "0 \<le> n \<Longrightarrow> digits_val (show_nat_int n) = n \<and> list_all is_digit (show_nat_int n) \<and> show_nat_int n \<noteq> []"
proof (induction n rule: show_nat_int.induct)
  case (1 n)
  have "list_all (\<lambda>k. digit_val (show_digit k) = k \<and> is_digit (show_digit k)) [0, 1, 2, 3, 4, 5, 6, 7, 8, 9]" by code_simp
  moreover have "k \<in> set [0, 1, 2, 3, 4, 5, 6, 7, 8, 9]" if "0 \<le> k" "k < 10" for k :: int using that by simp presburger
  ultimately have d: "0 \<le> k \<Longrightarrow> k < 10 \<Longrightarrow> digit_val (show_digit k) = k \<and> is_digit (show_digit k)" for k
    unfolding list_all_iff by blast
  show ?case
  proof (cases "n < 10")
    case True
    then show ?thesis using d [of n] 1 by (simp add: show_nat_int.simps digits_val_def)
  next
    case False
    have "digits_val (xs @ [c]) = 10 * digits_val xs + digit_val c" for xs c by (simp add: digits_val_def)
    then show ?thesis using d [of "n mod 10"] 1 False by (simp add: show_nat_int.simps [of n])
  qed
qed

lemma show_int_inj: "show_int i = show_int j \<Longrightarrow> i = j"
proof -
  assume eq: "show_int i = show_int j"
  have dash: "\<not> is_digit (CHR ''-'')" by code_simp
  have hd: "0 \<le> k \<Longrightarrow> show_nat_int k \<noteq> CHR ''-'' # x" for k x
    using show_nat_int_digits [of k] dash by auto
  have inj: "0 \<le> k \<Longrightarrow> 0 \<le> m \<Longrightarrow> show_nat_int k = show_nat_int m \<Longrightarrow> k = m" for k m
    using show_nat_int_digits by metis
  show "i = j" using eq inj [of "- i" "- j"] inj [of i j] hd [of i] hd [of j]
    by (auto simp: show_int_def split: if_splits) (metis+)?
qed

lemma slug_of_inj:
  assumes "slug_of a iv t = slug_of b iw u" "a \<in> set SLUG_ASSETS" "b \<in> set SLUG_ASSETS" "iv \<in> {5, 15}" "iw \<in> {5, 15}"
  shows "a = b \<and> iv = iw \<and> t = u"
proof -
  have s: "show_int 5 = ''5''" "show_int 15 = ''15''" by code_simp+
  have "length a = 3" "length b = 3" using assms(2,3) by (auto simp: SLUG_ASSETS_def)
  then have "a = b" "show_int iv @ ''m-'' @ show_int t = show_int iw @ ''m-'' @ show_int u"
    using assms(1) by (auto simp: slug_of_def)
  then show ?thesis using assms(4,5) s show_int_inj by auto
qed

lemma distinct_slug_lists:
  assumes "distinct as" "\<And>a b i j. a \<in> set as \<Longrightarrow> b \<in> set as \<Longrightarrow> f a i = f b j \<Longrightarrow> a = b \<and> i = j"
  shows "distinct (concat (map (\<lambda>a. map (f a) [0..<n]) as))"
  using assms
proof (induction as)
  case (Cons a as)
  have "inj_on (f a) {0..<n}" by (rule inj_onI) (use Cons.prems(2) [of a a] in auto)
  moreover have "f a i \<noteq> f b j" if "b \<in> set as" for b i j
    using Cons.prems(1) Cons.prems(2) [of a b i j] that by auto
  moreover have "distinct (concat (map (\<lambda>a. map (f a) [0..<n]) as))"
    using Cons.prems by (intro Cons.IH) auto
  ultimately show ?case by (auto simp: distinct_map)
qed simp

text \<open>The discovery asks for every market once: the slugs of a scan are distinct, and for each asset
  and interval the window that contains the present is among them.\<close>

theorem current_windows_listed:
  "distinct (requested_slugs now [5, 15]) \<and>
   (\<forall>asset \<in> set SLUG_ASSETS. \<forall>iv \<in> {5, 15}. \<exists>ts. slug_of asset iv ts \<in> set (requested_slugs now [5, 15]) \<and>
      ts \<le> now iv \<and> now iv < ts + iv * 60 \<and> iv * 60 dvd ts)"
proof (intro conjI ballI)
  have "distinct (slugs_for_now t iv n)" if iv: "iv \<in> {5, 15}" for t iv n
  proof -
    have "a = b \<and> i = j" if "a \<in> set SLUG_ASSETS" "b \<in> set SLUG_ASSETS" "slug_of a iv (c - int i * (iv * 60)) = slug_of b iv (c - int j * (iv * 60))"
      for a b i j c using slug_of_inj [OF that(3,1,2) iv iv] iv by auto
    moreover have "distinct SLUG_ASSETS" by code_simp
    ultimately show ?thesis unfolding slugs_for_now_def Let_def by (intro distinct_slug_lists)
  qed
  moreover have "set (slugs_for_now t 5 m) \<inter> set (slugs_for_now u 15 n) = {}" for t u m n
  proof -
    have s: "x \<in> set (slugs_for_now t iv n) \<Longrightarrow> \<exists>a \<in> set SLUG_ASSETS. \<exists>ts. x = slug_of a iv ts" for x t iv n
      by (auto simp: slugs_for_now_def Let_def)
    have "slug_of a 5 ts \<noteq> slug_of b 15 us" if "a \<in> set SLUG_ASSETS" "b \<in> set SLUG_ASSETS" for a b ts us
      using slug_of_inj [of a 5 ts b 15 us] that by auto
    then show ?thesis using s [of _ t 5 m] s [of _ u 15 n] by (metis disjoint_iff)
  qed
  ultimately show "distinct (requested_slugs now [5, 15])" by (simp add: requested_slugs_def)
next
  fix asset iv assume a: "asset \<in> set SLUG_ASSETS" "iv \<in> {5, 15 :: int}"
  define ts where "ts = (now iv div (iv * 60)) * (iv * 60)"
  have n: "0 < (if iv = 5 then 2 else 7 :: nat)" by simp
  have "slug_of asset iv ts \<in> set (slugs_for_now (now iv) iv (if iv = 5 then 2 else 7))"
    using a(1) n unfolding slugs_for_now_def Let_def ts_def by (auto simp: image_iff intro!: bexI [of _ 0] bexI [of _ asset])
  moreover have "now iv = ts + now iv mod (iv * 60)" "now iv mod (iv * 60) < iv * 60" "0 \<le> now iv mod (iv * 60)"
    using a(2) by (auto simp: ts_def)
  moreover have "iv * 60 dvd ts" by (simp add: ts_def)
  ultimately show "\<exists>ts. slug_of asset iv ts \<in> set (requested_slugs now [5, 15]) \<and> ts \<le> now iv \<and> now iv < ts + iv * 60 \<and> iv * 60 dvd ts"
    using a(2) by (intro exI [of _ ts]) (auto simp: requested_slugs_def)
qed

section \<open>Witnesses\<close>

definition sample_libm :: libm where
  "sample_libm = \<lparr>lm_log = (\<lambda>x. x - 1), lm_erf = (\<lambda>x. max (-1) (min 1 x)), lm_sq = (\<lambda>x. x * x)\<rparr>"

lemma sample_libm_ok: "libm_ok sample_libm"
  by (auto simp: libm_ok_def sample_libm_def min_def max_def)

lemma fair_yes_probability_witness:
  "\<exists>r. fair_yes sample_libm (Fin 1002) (Fin 1000) (Fin 900) ''BTC'' (Some (Fin (1/2))) = Inr r \<and> fle (Fin (1/2)) r \<and> fle r (Fin 1)"
proof -
  have "mkf (1002 / 1000) \<noteq> Fin 0" "mkf (1002 / 1000) \<noteq> PInf" by code_simp+
  from fair_yes_probability [OF sample_libm_ok _ _ _ this, of "1/2" 900 "''BTC''"] show ?thesis by auto
qed

lemma current_windows_listed_witness:
  "\<exists>ts. slug_of ''btc'' 15 ts \<in> set (requested_slugs (\<lambda>_. 1000000) [5, 15]) \<and> ts \<le> 1000000 \<and> 1000000 < ts + 900 \<and> 900 dvd ts"
  using current_windows_listed [of "\<lambda>_. 1000000"] by (auto simp: SLUG_ASSETS_def)

end
