(* ===== verification/Scout.thy ===== *)
theory Scout
  imports PriceFeeds Council
begin

text \<open>
  \<open>council/scout.py\<close>: the first layer, which turns the markets of the current windows into findings. The
  module globals (market list, volatilities, perpetual states) and the fee cache are the record
  \<open>scout_caches\<close>; what the outside answers during one scan is a \<open>scan_env\<close>, with a \<open>task_env\<close> for each
  market, since the markets are processed as concurrent tasks. A task changes nothing but the fee cache,
  which is threaded through them in the order of the list; of several errors the first in that order is
  raised. The audit counters are printed only and left out; identifiers and slugs of the market service
  are texts.
\<close>

section \<open>Thresholds\<close>

definition MIN_SECONDS :: pyfloat where "MIN_SECONDS = Fin 300"
definition MAX_ENTRY_PRICE :: pyfloat where "MAX_ENTRY_PRICE = flit 0.75"
definition CONVICTION_MIN :: pyfloat where "CONVICTION_MIN = flit 0.58"
definition ENTRY_DRIFT_MAX :: pyfloat where "ENTRY_DRIFT_MAX = flit 0.003"
definition MARKET_CACHE_TTL_SECS :: pyfloat where "MARKET_CACHE_TTL_SECS = Fin 60"
definition VOL_CACHE_TTL_SECS :: pyfloat where "VOL_CACHE_TTL_SECS = Fin 300"
definition PAPER_MIN_FEE_ADJ :: pyfloat where "PAPER_MIN_FEE_ADJ = flit 0.03"
definition SHADOW_MAX_CANDIDATES :: nat where "SHADOW_MAX_CANDIDATES = 40"

section \<open>Caches\<close>

record oracle_state =
  os_oracle :: pyfloat
  os_funding :: pyfloat
  os_basis :: pyfloat

record scout_caches =
  sc_markets :: "json list"
  sc_markets_ts :: pyfloat
  sc_vols :: "(string \<times> pyfloat) list"
  sc_vols_ts :: pyfloat
  sc_state :: "(string \<times> oracle_state) list"
  sc_state_ts :: pyfloat
  sc_fees :: fee_cache

record task_env =
  tk_clock :: int
  tk_feed :: "string \<Rightarrow> ws_cache \<times> pyfloat \<times> rest_book option"
  tk_candles :: candle_feed
  tk_wall :: pyfloat
  tk_mono :: pyfloat
  tk_fee :: "string \<Rightarrow> json result"

record scan_env =
  sv_now :: pyfloat
  sv_slug_clock :: "int \<Rightarrow> int"
  sv_gamma :: gamma_feed
  sv_vol_now :: pyfloat
  sv_vol_wall :: "string \<Rightarrow> pyfloat"
  sv_vol_candles :: candle_feed
  sv_state_now :: pyfloat
  sv_meta :: "json result"
  sv_price_wall :: "string \<Rightarrow> pyfloat"
  sv_price_candles :: candle_feed
  sv_task :: "nat \<Rightarrow> task_env"

definition fetch_vol :: "libm \<Rightarrow> scan_env \<Rightarrow> string \<Rightarrow> pyfloat" where
  "fetch_vol lm x asset =
    (case rbind (fetch_candles (sv_vol_candles x) (sv_vol_wall x asset) asset ''1m'' 60) (calculate_realized_volatility lm) of
       Inr v \<Rightarrow> v | Inl _ \<Rightarrow> default_vol asset)"

definition get_all_vols :: "libm \<Rightarrow> scan_env \<Rightarrow> scout_caches \<Rightarrow> scout_caches" where
  "get_all_vols lm x c =
    (if flt (fsub (sv_vol_now x) (sc_vols_ts c)) VOL_CACHE_TTL_SECS \<and> sc_vols c \<noteq> [] then c
     else c\<lparr>sc_vols := map (\<lambda>a. (a, fetch_vol lm x a)) TRACKED_ASSETS, sc_vols_ts := sv_vol_now x\<rparr>)"

definition oracle_of :: "perp_state \<Rightarrow> oracle_state result" where
  "oracle_of d = rbind (if fgt (ps_oracle d) (Fin 0)
       then fdiv (f_abs (fsub (ps_mid d) (ps_oracle d))) (ps_oracle d) else Inr (Fin 0)) (\<lambda>basis.
     Inr \<lparr>os_oracle = ps_oracle d, os_funding = ps_funding d, os_basis = basis\<rparr>)"

definition get_market_state :: "scan_env \<Rightarrow> scout_caches \<Rightarrow> scout_caches" where
  "get_market_state x c =
    (if flt (fsub (sv_state_now x) (sc_state_ts c)) VOL_CACHE_TTL_SECS \<and> sc_state c \<noteq> [] then c
     else case rbind (fetch_market_state (sv_meta x) TRACKED_ASSETS)
         (mapM_r (\<lambda>(asset, d). rbind (oracle_of d) (\<lambda>s. Inr (asset, s)))) of
       Inl _ \<Rightarrow> c | Inr st \<Rightarrow> c\<lparr>sc_state := st, sc_state_ts := sv_state_now x\<rparr>)"

definition refresh_markets :: "scan_env \<Rightarrow> scout_caches \<Rightarrow> unit result \<times> scout_caches" where
  "refresh_markets x c =
    (if fgt (fsub (sv_now x) (sc_markets_ts c)) MARKET_CACHE_TTL_SECS \<or> sc_markets c = []
     then (case find_shortterm (sv_gamma x) (sv_slug_clock x) [5, 15] of
         Inl e \<Rightarrow> (Inl e, c)
       | Inr found \<Rightarrow> (Inr (), c\<lparr>sc_markets := found, sc_markets_ts := sv_now x\<rparr>))
     else (Inr (), c))"

text \<open>The prices fetched for all assets; an asset whose fetch raised has none.\<close>

definition fetch_prices :: "scan_env \<Rightarrow> (string \<times> pyfloat) list" where
  "fetch_prices x = some_values (map (\<lambda>a.
     case current_price (sv_price_candles x) (sv_price_wall x a) a of Inr p \<Rightarrow> Some (a, p) | Inl _ \<Rightarrow> None) TRACKED_ASSETS)"

section \<open>One market\<close>

definition asset_of :: "json option \<Rightarrow> string option result" where
  "asset_of question =
    rbind (if \<not> truthy_opt question then Inr [] else
       case the question of JVal (PStr s) \<Rightarrow> Inr (py_lower s) | _ \<Rightarrow> Inl AttributeError) (\<lambda>q.
    Inr (if py_contains ''bitcoin'' q \<or> py_contains ''btc'' q then Some ''BTC''
      else if py_contains ''ethereum'' q \<or> py_contains ''eth'' q then Some ''ETH''
      else if py_contains ''solana'' q \<or> py_contains ''sol'' q then Some ''SOL''
      else if py_contains ''ripple'' q \<or> py_contains ''xrp'' q then Some ''XRP''
      else None))"

definition drift_ok :: "string \<Rightarrow> pyfloat \<Rightarrow> pyfloat \<Rightarrow> bool result" where
  "drift_ok action cur ref_price = rbind (fdiv (fsub cur ref_price) ref_price) (\<lambda>drift.
     Inr (if action = ''NO'' \<and> fgt drift ENTRY_DRIFT_MAX then False
       else if action = ''YES'' \<and> flt drift (fneg ENTRY_DRIFT_MAX) then False else True))"

definition crossed_orderbook_skip :: "pyfloat option \<Rightarrow> pyfloat option \<Rightarrow> bool" where
  "crossed_orderbook_skip yes_bid yes_ask = (case (yes_bid, yes_ask) of (Some b, Some a) \<Rightarrow> fge b a | _ \<Rightarrow> False)"

definition edge_signal :: "pyfloat \<Rightarrow> pyfloat \<Rightarrow> pyfloat \<Rightarrow> (string \<times> pyfloat) option" where
  "edge_signal fair best_ask mn =
    (let yes_edge = fsub fair best_ask; no_edge = fsub best_ask fair in
     if fge yes_edge mn then (if flt fair CONVICTION_MIN then None else Some (''YES'', yes_edge))
     else if fge no_edge mn then (if flt (fsub (Fin 1) fair) CONVICTION_MIN then None else Some (''NO'', no_edge))
     else None)"

text \<open>The market as the red team reads it when its own request fails: a container in a number's place is
  falsy when empty and no number otherwise, like the text put for it.\<close>

definition scalar_of :: "json option \<Rightarrow> pyval" where
  "scalar_of v = (case v of None \<Rightarrow> PNone | Some (JVal x) \<Rightarrow> x
     | Some j \<Rightarrow> if json_truthy j then PStr ''[]'' else PNone)"

definition raw_market :: "(string \<times> json) list \<Rightarrow> gamma_market" where
  "raw_market kvs = \<lparr>gm_spread = scalar_of (map_of kvs ''spread''), gm_liquidity = scalar_of (map_of kvs ''liquidityClob''),
     gm_volume = scalar_of (map_of kvs ''volume24hr''), gm_fee = scalar_of (map_of kvs ''takerBaseFee'')\<rparr>"

definition token_quote :: "task_env \<Rightarrow> string \<Rightarrow> snapshot option result" where
  "token_quote x t = (case tk_feed x t of (c, now, b) \<Rightarrow>
     get_quote c now b t MIN_EXECUTABLE_NOTIONAL_USD (Some WS_SNAPSHOT_MAX_AGE_S))"

text \<open>The reference and the current price; an error of either skips the market.\<close>

definition market_prices ::
  "task_env \<Rightarrow> (string \<times> pyfloat) list \<Rightarrow> string \<Rightarrow> int \<Rightarrow> (pyfloat \<times> pyfloat) option" where
  "market_prices x cur_prices asset start_ms =
    (case rbind (price_at_timestamp (tk_candles x) asset start_ms) (\<lambda>ref_price.
          rbind (case map_of cur_prices asset of Some p \<Rightarrow> Inr p | None \<Rightarrow> current_price (tk_candles x) (tk_wall x) asset)
            (\<lambda>cur. Inr (ref_price, cur))) of
       Inr p \<Rightarrow> Some p | Inl _ \<Rightarrow> None)"

text \<open>The price limit, and for a NO signal its confirmation by the ask of the NO token: nothing, or the
  edge with the ask of the NO token.\<close>

definition confirm_signal ::
  "task_env \<Rightarrow> pyfloat \<Rightarrow> pyfloat \<Rightarrow> pyfloat \<Rightarrow> string option \<Rightarrow> string \<times> pyfloat
     \<Rightarrow> (pyfloat \<times> pyfloat option) option result" where
  "confirm_signal x mn fair clob_ask no_token sig = (case sig of (action, edge) \<Rightarrow>
     if action = ''NO'' \<and> token_truthy no_token then
       rbind (token_quote x (the no_token)) (\<lambda>nq.
       Inr (case nq of None \<Rightarrow> Some (edge, None)
         | Some s \<Rightarrow> (case sn_ask s of None \<Rightarrow> Some (edge, None)
            | Some no_ask \<Rightarrow>
               if fgt no_ask MAX_ENTRY_PRICE then None else
               let real_no_edge = f_round 4 (fsub (fsub (Fin 1) fair) no_ask) in
               if flt real_no_edge mn then None else Some (real_no_edge, Some no_ask))))
     else if action = ''YES'' \<and> fgt clob_ask MAX_ENTRY_PRICE then Inr None
     else Inr (Some (edge, None)))"

definition live_vol :: "(string \<times> pyfloat) list \<Rightarrow> string \<Rightarrow> pyfloat" where
  "live_vol vols asset = (case map_of vols asset of Some v \<Rightarrow> v | None \<Rightarrow> flit 0.80)"

definition need_num :: "pyfloat option \<Rightarrow> pyfloat result" where
  "need_num v = (case v of None \<Rightarrow> Inl TypeError | Some x \<Rightarrow> Inr x)"

definition yes_no_tokens :: "readers \<Rightarrow> (string \<times> json) list \<Rightarrow> string option \<times> string option" where
  "yes_no_tokens rd kvs = (case parse_token_ids rd (map_of kvs ''clobTokenIds'') of
     [] \<Rightarrow> (None, None) | [y] \<Rightarrow> (Some y, None) | y # n # _ \<Rightarrow> (Some y, Some n))"

definition slug_text :: "readers \<Rightarrow> (string \<times> json) list \<Rightarrow> string" where
  "slug_text rd kvs = (case map_of kvs ''slug'' of None \<Rightarrow> [] | Some j \<Rightarrow> str_of_json rd j)"

text \<open>The finding once fair value, prices and tokens are known; the fee is not asked for yet.\<close>

definition judge_market ::
  "readers \<Rightarrow> task_env \<Rightarrow> pyfloat \<Rightarrow> (string \<times> oracle_state) list \<Rightarrow> (string \<times> json) list \<Rightarrow> string \<Rightarrow> market_window
     \<Rightarrow> pyfloat \<times> pyfloat \<Rightarrow> pyfloat \<times> pyfloat \<Rightarrow> pyfloat \<Rightarrow> finding option result" where
  "judge_market rd x mn states kvs asset w quote prices fair =
    (case (yes_no_tokens rd kvs, quote, prices) of ((yes_token, no_token), (yes_bid, clob_ask), (ref_price, cur)) \<Rightarrow>
     case edge_signal fair clob_ask mn of None \<Rightarrow> Inr None | Some (action, edge0) \<Rightarrow>
     if (asset, action) \<in> set BLOCKED_COMBOS then Inr None else
     rbind (confirm_signal x mn fair clob_ask no_token (action, edge0)) (\<lambda>r. case r of None \<Rightarrow> Inr None
     | Some (edge, no_ask) \<Rightarrow>
       rbind (drift_ok action cur ref_price) (\<lambda>ok. if \<not> ok then Inr None else
       let ms = map_of states asset in
       Inr (Some \<lparr>fd_asset = asset, fd_action = action, fd_slug = slug_text rd kvs,
         fd_yes_tok = yes_token, fd_no_tok = no_token, fd_fair = Some (f_round 4 fair), fd_ref = Some ref_price,
         fd_edge = Some (f_round 4 edge), fd_cur = cur, fd_ask = clob_ask, fd_bid = yes_bid, fd_secs = mw_secs w,
         fd_no_ask = no_ask, fd_basis = map_option os_basis ms, fd_funding = map_option os_funding ms,
         fd_fee = None, fd_market = Some (raw_market kvs)\<rparr>))))"

definition quoted_finding ::
  "readers \<Rightarrow> libm \<Rightarrow> task_env \<Rightarrow> (string \<times> pyfloat) list \<Rightarrow> (string \<times> oracle_state) list \<Rightarrow> (string \<times> pyfloat) list
     \<Rightarrow> pyfloat \<Rightarrow> (string \<times> json) list \<Rightarrow> string \<Rightarrow> market_window \<Rightarrow> snapshot \<Rightarrow> finding option result" where
  "quoted_finding rd lm x vols states cur_prices mn kvs asset w s =
    (if crossed_orderbook_skip (sn_bid s) (sn_ask s) then Inr None else
     case market_prices x cur_prices asset (mw_start_ms w) of None \<Rightarrow> Inr None
     | Some (ref_price, cur) \<Rightarrow>
        rbind (fair_yes lm cur ref_price (mw_secs w) asset (Some (live_vol vols asset))) (\<lambda>fair.
        rbind (need_num (sn_ask s)) (\<lambda>clob_ask. rbind (need_num (sn_bid s)) (\<lambda>yes_bid.
          judge_market rd x mn states kvs asset w (yes_bid, clob_ask) (ref_price, cur) fair))))"

definition windowed_finding ::
  "readers \<Rightarrow> libm \<Rightarrow> task_env \<Rightarrow> (string \<times> pyfloat) list \<Rightarrow> (string \<times> oracle_state) list \<Rightarrow> (string \<times> pyfloat) list
     \<Rightarrow> pyfloat \<Rightarrow> pyfloat \<Rightarrow> (string \<times> json) list \<Rightarrow> string \<Rightarrow> market_window \<Rightarrow> finding option result" where
  "windowed_finding rd lm x vols states cur_prices mn min_seconds kvs asset w =
    (if mw_neg_risk w \<or> flt (mw_secs w) min_seconds then Inr None else
     let yes_token = fst (yes_no_tokens rd kvs) in
     rbind (if token_truthy yes_token then token_quote x (the yes_token) else Inr None) (\<lambda>q. case q of None \<Rightarrow> Inr None
     | Some s \<Rightarrow> quoted_finding rd lm x vols states cur_prices mn kvs asset w s))"

definition market_finding ::
  "readers \<Rightarrow> libm \<Rightarrow> task_env \<Rightarrow> (string \<times> pyfloat) list \<Rightarrow> (string \<times> oracle_state) list \<Rightarrow> (string \<times> pyfloat) list
     \<Rightarrow> pyfloat \<Rightarrow> pyfloat \<Rightarrow> (string \<times> json) list \<Rightarrow> finding option result" where
  "market_finding rd lm x vols states cur_prices mn min_seconds kvs =
    rbind (asset_of (map_of kvs ''question'')) (\<lambda>a. case a of None \<Rightarrow> Inr None | Some asset \<Rightarrow>
    if asset \<notin> set TRACKED_ASSETS then Inr None else
    rbind (parse_market_window rd (tk_clock x) (JObj kvs)) (\<lambda>w'. case w' of None \<Rightarrow> Inr None | Some w \<Rightarrow>
      windowed_finding rd lm x vols states cur_prices mn min_seconds kvs asset w))"

definition process_market ::
  "readers \<Rightarrow> libm \<Rightarrow> task_env \<Rightarrow> (string \<times> pyfloat) list \<Rightarrow> (string \<times> oracle_state) list \<Rightarrow> (string \<times> pyfloat) list
     \<Rightarrow> pyfloat \<Rightarrow> pyfloat \<Rightarrow> json \<Rightarrow> fee_cache \<Rightarrow> finding option result \<times> fee_cache" where
  "process_market rd lm x vols states cur_prices mn min_seconds m fees =
    (case m of
       JObj kvs \<Rightarrow>
        (case market_finding rd lm x vols states cur_prices mn min_seconds kvs of
           Inr (Some f) \<Rightarrow>
            (let (fee, fees') = (if token_truthy (fd_yes_tok f)
               then fetch_fee_rate (tk_fee x) (tk_mono x) (the (fd_yes_tok f)) fees else (flit 0.02, fees))
             in (Inr (Some (f\<lparr>fd_fee := Some fee\<rparr>)), fees'))
         | r \<Rightarrow> (r, fees))
     | _ \<Rightarrow> (Inl AttributeError, fees))"

section \<open>The scan\<close>

fun run_tasks ::
  "(nat \<Rightarrow> json \<Rightarrow> fee_cache \<Rightarrow> 'a result \<times> fee_cache) \<Rightarrow> nat \<Rightarrow> json list \<Rightarrow> fee_cache \<Rightarrow> 'a result list \<times> fee_cache" where
  "run_tasks task n [] fees = ([], fees)"
| "run_tasks task n (m # ms) fees = (case task n m fees of (r, fees1) \<Rightarrow>
     case run_tasks task (Suc n) ms fees1 of (rs, fees2) \<Rightarrow> (r # rs, fees2))"

definition edge_key :: "finding \<Rightarrow> pyfloat" where
  "edge_key f = (case fd_edge f of Some e \<Rightarrow> e | None \<Rightarrow> NaN)"

definition larger_edge :: "finding \<Rightarrow> finding \<Rightarrow> bool" where
  "larger_edge a b = flt (edge_key b) (edge_key a)"

text \<open>The tasks of a scan: what it knows is fetched before, in this order.\<close>

definition prepare :: "libm \<Rightarrow> scan_env \<Rightarrow> scout_caches \<Rightarrow> scout_caches" where
  "prepare lm x c = get_market_state x (get_all_vols lm x c)"

definition scan_edges :: "readers \<Rightarrow> libm \<Rightarrow> scan_env \<Rightarrow> scout_caches \<Rightarrow> finding list result \<times> scout_caches" where
  "scan_edges rd lm x c0 =
    (case refresh_markets x c0 of
       (Inl e, c) \<Rightarrow> (Inl e, c)
     | (Inr _, c) \<Rightarrow>
        if sc_markets c = [] then (Inr [], c) else
        let c1 = prepare lm x c in
        (case run_tasks (\<lambda>n. process_market rd lm (sv_task x n) (sc_vols c1) (sc_state c1) (fetch_prices x)
              MIN_EDGE_PCT MIN_SECONDS) 0 (sc_markets c1) (sc_fees c1) of
           (rs, fees) \<Rightarrow>
             (rbind (mapM_r id rs) (\<lambda>fs. Inr (stable_sort larger_edge (some_values fs))), c1\<lparr>sc_fees := fees\<rparr>)))"

section \<open>The paper cohort\<close>

definition edge_bucket :: "pyfloat \<Rightarrow> string option" where
  "edge_bucket fee_adj =
    (if flt fee_adj (flit 0.030) then None else if flt fee_adj (flit 0.035) then Some ''E30''
     else if flt fee_adj (flit 0.040) then Some ''E35'' else if flt fee_adj (flit 0.050) then Some ''E40''
     else Some ''E50'')"

definition shadow_fee_adj :: "finding \<Rightarrow> pyfloat result" where
  "shadow_fee_adj f = rbind (key_of (fd_fair f)) (\<lambda>fair.
     let fee = (case fd_fee f of Some x \<Rightarrow> x | None \<Rightarrow> flit 0.02); slip = flit 0.01 in
     Inr (if fd_action f = ''YES'' then fsub (fmul fair (fsub (Fin 1) fee)) (fadd (fd_ask f) slip)
       else let no_ask = (case fd_no_ask f of Some a \<Rightarrow> if f_truthy a then a else fsub (Fin 1) (fd_ask f)
              | None \<Rightarrow> fsub (Fin 1) (fd_ask f))
         in fsub (fmul (fsub (Fin 1) fair) (fsub (Fin 1) fee)) (fadd no_ask slip)))"

type_synonym candidate = "finding \<times> pyfloat \<times> string option"

definition larger_fee_adj :: "candidate \<Rightarrow> candidate \<Rightarrow> bool" where
  "larger_fee_adj a b = flt (fst (snd b)) (fst (snd a))"

text \<open>Without markets the function returns a bare list, also to a caller that asked for a pair.\<close>

datatype shadow_out = Bare "candidate list" | Both "candidate list" "candidate list"

definition shadow_result :: "bool \<Rightarrow> candidate list \<Rightarrow> candidate list \<Rightarrow> shadow_out" where
  "shadow_result return_rejected out rejected =
    (if return_rejected then Both out (take SHADOW_MAX_CANDIDATES rejected) else Bare out)"

definition in_slug :: "string \<Rightarrow> json \<Rightarrow> bool result" where
  "in_slug tf m = rbind (json_get m ''slug'') (\<lambda>v. if \<not> truthy_opt v then Inr (tf = []) else
     case the v of JVal (PStr s) \<Rightarrow> Inr (py_contains tf s) | JList xs \<Rightarrow> Inr (jstr tf \<in> set xs)
     | JObj kvs \<Rightarrow> Inr (tf \<in> fst ` set kvs) | _ \<Rightarrow> Inl TypeError)"

definition filter_markets :: "string option \<Rightarrow> json list \<Rightarrow> json list result" where
  "filter_markets tf_filter ms = (case tf_filter of None \<Rightarrow> Inr ms | Some tf \<Rightarrow> if tf = [] then Inr ms else
     rbind (mapM_r (\<lambda>m. rbind (in_slug tf m) (\<lambda>b. Inr (m, b))) ms) (\<lambda>ps. Inr (map fst (filter snd ps))))"

definition grade :: "finding \<Rightarrow> candidate result" where
  "grade f = rbind (shadow_fee_adj f) (\<lambda>v. let fee_adj = f_round 4 v in Inr (f, fee_adj, edge_bucket fee_adj))"

definition scan_shadow_edges ::
  "readers \<Rightarrow> libm \<Rightarrow> pyfloat option \<Rightarrow> string option \<Rightarrow> bool \<Rightarrow> scan_env \<Rightarrow> scout_caches \<Rightarrow> shadow_out \<times> scout_caches" where
  "scan_shadow_edges rd lm min_seconds tf_filter return_rejected x c0 =
    (case refresh_markets x c0 of
       (Inl e, c) \<Rightarrow> (shadow_result return_rejected [] [], c)
     | (Inr _, c) \<Rightarrow>
        if sc_markets c = [] then (Bare [], c) else
        let c1 = prepare lm x c in
        (case filter_markets tf_filter (sc_markets c1) of
           Inl e \<Rightarrow> (shadow_result return_rejected [] [], c1)
         | Inr ms \<Rightarrow>
            (case run_tasks (\<lambda>n. process_market rd lm (sv_task x n) (sc_vols c1) (sc_state c1) (fetch_prices x)
                  (flit 0.03) (case min_seconds of Some s \<Rightarrow> s | None \<Rightarrow> MIN_SECONDS)) 0 ms (sc_fees c1) of
               (rs, fees) \<Rightarrow>
                (case mapM_r grade (some_values (map (\<lambda>r. case r of Inr v \<Rightarrow> v | Inl _ \<Rightarrow> None) rs)) of
                   Inl e \<Rightarrow> (shadow_result return_rejected [] [], c1\<lparr>sc_fees := fees\<rparr>)
                 | Inr cs \<Rightarrow>
                    (shadow_result return_rejected
                       (take SHADOW_MAX_CANDIDATES (stable_sort larger_fee_adj (filter (\<lambda>(_, _, b). b \<noteq> None) cs)))
                       (filter (\<lambda>(_, _, b). b = None) cs), c1\<lparr>sc_fees := fees\<rparr>)))))"

section \<open>What a finding promises\<close>

definition task_ok :: "task_env \<Rightarrow> bool" where
  "task_ok x = (\<forall>t. cache_ok (fst (tk_feed x t)))"

text \<open>The price, the edge and the probability of the side that is bought.\<close>

definition side_ok :: "pyfloat \<Rightarrow> pyfloat \<Rightarrow> pyfloat \<Rightarrow> finding \<Rightarrow> bool" where
  "side_ok mn fair edge f = (fle mn edge \<and> fle (Fin 0) fair \<and> fle fair (Fin 1) \<and>
     (if fd_action f = ''YES''
      then edge = fsub fair (fd_ask f) \<and> fle CONVICTION_MIN fair \<and> fle (fd_ask f) MAX_ENTRY_PRICE
      else fd_action f = ''NO'' \<and> fle CONVICTION_MIN (fsub (Fin 1) fair) \<and>
        (case fd_no_ask f of None \<Rightarrow> edge = fsub (fd_ask f) fair
         | Some a \<Rightarrow> edge = f_round 4 (fsub (fsub (Fin 1) fair) a) \<and> fle a MAX_ENTRY_PRICE)))"

definition drift_in_band :: "finding \<Rightarrow> bool" where
  "drift_in_band f = (\<exists>ref. fd_ref f = Some ref \<and> drift_ok (fd_action f) (fd_cur f) ref = Inr True)"

definition sound_finding :: "pyfloat \<Rightarrow> pyfloat \<Rightarrow> finding \<Rightarrow> bool" where
  "sound_finding mn min_seconds f = (fd_asset f \<in> set TRACKED_ASSETS \<and> (fd_asset f, fd_action f) \<notin> set BLOCKED_COMBOS \<and>
     fle min_seconds (fd_secs f) \<and> fgt (fd_bid f) (Fin 0) \<and> flt (fd_bid f) (fd_ask f) \<and> drift_in_band f \<and>
     (\<exists>fair edge. fd_fair f = Some (f_round 4 fair) \<and> fd_edge f = Some (f_round 4 edge) \<and> side_ok mn fair edge f))"

text \<open>Where a finding comes from: a market without the negative-risk flag, its window, the quote of its YES
  token and, for a NO that has a token, the ask of the quote of that token if there is one.\<close>

definition from_market :: "readers \<Rightarrow> task_env \<Rightarrow> json \<Rightarrow> finding \<Rightarrow> bool" where
  "from_market rd x m f = (\<exists>kvs w s. m = JObj kvs \<and> asset_of (map_of kvs ''question'') = Inr (Some (fd_asset f)) \<and>
     \<not> truthy_opt (map_of kvs ''negRisk'') \<and> fd_slug f = slug_text rd kvs \<and>
     (fd_yes_tok f, fd_no_tok f) = yes_no_tokens rd kvs \<and>
     parse_market_window rd (tk_clock x) m = Inr (Some w) \<and> fd_secs f = mw_secs w \<and>
     token_truthy (fd_yes_tok f) \<and> token_quote x (the (fd_yes_tok f)) = Inr (Some s) \<and>
     sn_bid s = Some (fd_bid f) \<and> sn_ask s = Some (fd_ask f) \<and>
     (fd_action f = ''NO'' \<and> token_truthy (fd_no_tok f) \<longrightarrow>
       (\<exists>q. token_quote x (the (fd_no_tok f)) = Inr q \<and> fd_no_ask f = Option.bind q sn_ask)))"

lemma fsub_NaN [simp]: "fsub NaN y = NaN" "fsub x NaN = NaN"
  by (simp_all add: fsub_def fneg_def) (cases x; simp)

lemma flit_guards: "\<not> flt x (flit c) \<Longrightarrow> x \<noteq> NaN \<Longrightarrow> fle (flit c) x" "\<not> flt (flit c) x \<Longrightarrow> x \<noteq> NaN \<Longrightarrow> fle x (flit c)"
  by (simp_all add: not_flt)

lemma quote_positive:
  assumes "task_ok x" "token_quote x t = Inr (Some s)"
  obtains b a where "sn_bid s = Some b" "sn_ask s = Some a" "fgt b (Fin 0)" "flt b a"
proof -
  obtain c now bk where f: "tk_feed x t = (c, now, bk)" by (metis surj_pair)
  have "cache_ok c" using assms(1) f by (metis task_ok_def fst_conv)
  from quote_backed [OF this] assms(2) f show thesis using that unfolding token_quote_def by fastforce
qed

lemma edge_signal_cases:
  assumes "edge_signal fair ask mn = Some (action, edge)"
  shows "fle mn edge \<and> fair \<noteq> NaN \<and> ask \<noteq> NaN \<and>
    (action = ''YES'' \<and> edge = fsub fair ask \<and> fle CONVICTION_MIN fair \<or>
     action = ''NO'' \<and> edge = fsub ask fair \<and> fle CONVICTION_MIN (fsub (Fin 1) fair))"
proof -
  have n: "fair \<noteq> NaN" "ask \<noteq> NaN" using assms by (auto simp: edge_signal_def Let_def split: if_splits)
  then have "fsub (Fin 1) fair \<noteq> NaN" by (simp add: fsub_not_NaN)
  then show ?thesis using assms n flit_guards(1) [of _ "29/50"]
    by (auto simp: edge_signal_def Let_def CONVICTION_MIN_def split: if_splits)
qed

lemma confirm_signal_cases:
  assumes "task_ok x" "confirm_signal x mn fair ask no_tok (action, edge) = Inr (Some (edge', no_ask))"
    and "fair \<noteq> NaN" "ask \<noteq> NaN" "mn \<noteq> NaN"
  shows "(action = ''YES'' \<longrightarrow> fle ask MAX_ENTRY_PRICE) \<and> (case no_ask of None \<Rightarrow> edge' = edge
      | Some a \<Rightarrow> action = ''NO'' \<and> edge' = f_round 4 (fsub (fsub (Fin 1) fair) a) \<and> fle mn edge' \<and> fle a MAX_ENTRY_PRICE)"
proof -
  have r: "f_round 4 y \<noteq> NaN" if "y \<noteq> NaN" for y using that by (cases y) (simp_all add: f_round_def)
  have fair: "fsub (Fin 1) fair \<noteq> NaN" using assms(3) by (simp add: fsub_not_NaN)
  have no: "fle a MAX_ENTRY_PRICE \<and> fle mn (f_round 4 (fsub (fsub (Fin 1) fair) a))"
    if q: "token_quote x t = Inr (Some s)" "sn_ask s = Some a" "\<not> fgt a MAX_ENTRY_PRICE"
      "\<not> flt (f_round 4 (fsub (fsub (Fin 1) fair) a)) mn" for t s a
  proof -
    obtain b where b: "fgt b (Fin 0)" "flt b a" using quote_positive [OF assms(1) q(1)] q(2) by auto
    then have "a \<noteq> PInf" using q(3) by (auto simp: MAX_ENTRY_PRICE_def flit_def)
    then obtain v where v: "a = Fin v" using b by (cases a; cases b) auto
    then have "fsub (fsub (Fin 1) fair) a \<noteq> NaN" using fsub_not_NaN(1) [OF fair] by simp
    then show ?thesis using q(3,4) r assms(5) v by (simp add: not_flt MAX_ENTRY_PRICE_def)
  qed
  have ask: "\<not> fgt ask MAX_ENTRY_PRICE \<Longrightarrow> fle ask MAX_ENTRY_PRICE"
    using assms(4) by (simp add: not_flt MAX_ENTRY_PRICE_def)
  show ?thesis
  proof (cases "action = ''NO'' \<and> token_truthy no_tok")
    case False
    then show ?thesis using assms(2) ask by (auto simp: confirm_signal_def split: if_splits)
  next
    case True
    then obtain nq where nq: "token_quote x (the no_tok) = Inr nq" using assms(2)
      by (auto simp: confirm_signal_def rbind_eq_Inr)
    show ?thesis
    proof (cases "case nq of None \<Rightarrow> None | Some s \<Rightarrow> sn_ask s")
      case None
      then show ?thesis using True assms(2) nq by (auto simp: confirm_signal_def split: option.splits)
    next
      case (Some a)
      then obtain s where s: "nq = Some s" "sn_ask s = Some a" by (cases nq) auto
      then have "\<not> fgt a MAX_ENTRY_PRICE" "\<not> flt (f_round 4 (fsub (fsub (Fin 1) fair) a)) mn"
        "edge' = f_round 4 (fsub (fsub (Fin 1) fair) a)" "no_ask = Some a"
        using True assms(2) nq by (auto simp: confirm_signal_def Let_def split: if_splits)
      then show ?thesis using no [OF nq [unfolded s(1)] s(2)] True by simp
    qed
  qed
qed

lemma judge_market_sound:
  assumes "judge_market rd x mn states kvs asset w (yes_bid, clob_ask) (ref_price, cur) fair = Inr (Some f)"
    and "task_ok x" "libm_ok lm" "fair_yes lm p q secs asset v = Inr fair" "mn \<noteq> NaN"
    and "asset \<in> set TRACKED_ASSETS" "fle ms (mw_secs w)" "fgt yes_bid (Fin 0)" "flt yes_bid clob_ask"
  shows "sound_finding mn ms f \<and> fd_yes_tok f = fst (yes_no_tokens rd kvs)"
proof -
  obtain yt nt where tok: "yes_no_tokens rd kvs = (yt, nt)" by fastforce
  obtain action edge0 where e: "edge_signal fair clob_ask mn = Some (action, edge0)" "(asset, action) \<notin> set BLOCKED_COMBOS"
    using assms(1) tok by (auto simp: judge_market_def split: option.splits if_splits)
  then obtain edge no_ask where c: "confirm_signal x mn fair clob_ask nt (action, edge0) = Inr (Some (edge, no_ask))"
    using assms(1) tok by (auto simp: judge_market_def rbind_eq_Inr split: option.splits)
  have d: "drift_ok action cur ref_price = Inr True"
    using assms(1) tok e c by (auto simp: judge_market_def rbind_eq_Inr split: if_splits)
  have f: "fd_asset f = asset" "fd_action f = action" "fd_fair f = Some (f_round 4 fair)" "fd_edge f = Some (f_round 4 edge)"
    "fd_ref f = Some ref_price" "fd_cur f = cur" "fd_ask f = clob_ask" "fd_bid f = yes_bid" "fd_secs f = mw_secs w"
    "fd_no_ask f = no_ask" "fd_yes_tok f = yt"
    using assms(1) tok e c d by (auto simp: judge_market_def Let_def)
  note es = edge_signal_cases [OF e(1)]
  have u: "fle (Fin 0) fair \<and> fle fair (Fin 1)" using fair_yes_unit [OF assms(3,4)] es by blast
  have cs: "(action = ''YES'' \<longrightarrow> fle clob_ask MAX_ENTRY_PRICE) \<and> (case no_ask of None \<Rightarrow> edge = edge0
      | Some a \<Rightarrow> action = ''NO'' \<and> edge = f_round 4 (fsub (fsub (Fin 1) fair) a) \<and> fle mn edge \<and> fle a MAX_ENTRY_PRICE)"
    using confirm_signal_cases [OF assms(2) c _ _ assms(5)] es by blast
  have "side_ok mn fair edge f" using es cs u unfolding side_ok_def f by (auto split: option.splits)
  then show ?thesis using assms d e(2) unfolding sound_finding_def drift_in_band_def f tok by auto
qed

lemma window_secs: "parse_market_window rd clock m = Inr (Some w) \<Longrightarrow> mw_secs w \<noteq> NaN"
  by (auto simp: parse_market_window_def window_fields_def Let_def rbind_eq_Inr split: sum.splits json.splits if_splits)

lemma rbind_some:
  "rbind m (\<lambda>a. case a of None \<Rightarrow> Inr None | Some v \<Rightarrow> g v) = Inr (Some y) \<longleftrightarrow> (\<exists>v. m = Inr (Some v) \<and> g v = Inr (Some y))"
  by (auto simp: rbind_def split: sum.splits option.splits)

lemma window_neg_risk: "parse_market_window rd clock (JObj kvs) = Inr (Some w) \<Longrightarrow> mw_neg_risk w = truthy_opt (map_of kvs ''negRisk'')"
  by (auto simp: parse_market_window_def window_fields_def Let_def rbind_eq_Inr split: sum.splits if_splits)

lemma confirm_signal_ask:
  assumes "confirm_signal x mn fair ask no_tok (''NO'', edge) = Inr (Some (edge', no_ask))" "token_truthy no_tok"
  shows "\<exists>q. token_quote x (the no_tok) = Inr q \<and> no_ask = Option.bind q sn_ask"
proof -
  obtain q where q: "token_quote x (the no_tok) = Inr q"
    using assms by (auto simp: confirm_signal_def rbind_eq_Inr)
  have "no_ask = Option.bind q sn_ask"
  proof (cases "Option.bind q sn_ask")
    case None
    then have "q = None \<or> (\<exists>s. q = Some s \<and> sn_ask s = None)" by (cases q) auto
    then show ?thesis using assms q None by (auto simp: confirm_signal_def)
  next
    case (Some a)
    then obtain s where "q = Some s" "sn_ask s = Some a" by (cases q) auto
    then show ?thesis using assms q Some by (auto simp: confirm_signal_def Let_def split: if_splits)
  qed
  then show ?thesis using q by blast
qed

lemma judge_market_fields:
  assumes "judge_market rd x mn states kvs asset w (yes_bid, clob_ask) (ref_price, cur) fair = Inr (Some f)"
  shows "fd_asset f = asset \<and> fd_slug f = slug_text rd kvs \<and> (fd_yes_tok f, fd_no_tok f) = yes_no_tokens rd kvs \<and>
    fd_secs f = mw_secs w \<and> fd_bid f = yes_bid \<and> fd_ask f = clob_ask \<and>
    (fd_action f = ''NO'' \<and> token_truthy (fd_no_tok f) \<longrightarrow>
      (\<exists>q. token_quote x (the (fd_no_tok f)) = Inr q \<and> fd_no_ask f = Option.bind q sn_ask))"
proof -
  obtain yt nt where tok: "yes_no_tokens rd kvs = (yt, nt)" by fastforce
  obtain action edge0 where e: "edge_signal fair clob_ask mn = Some (action, edge0)" "(asset, action) \<notin> set BLOCKED_COMBOS"
    using assms tok by (auto simp: judge_market_def split: option.splits if_splits)
  then obtain edge no_ask where c: "confirm_signal x mn fair clob_ask nt (action, edge0) = Inr (Some (edge, no_ask))"
    using assms tok by (auto simp: judge_market_def rbind_eq_Inr split: option.splits)
  have d: "drift_ok action cur ref_price = Inr True"
    using assms tok e c by (auto simp: judge_market_def rbind_eq_Inr split: if_splits)
  have f: "fd_asset f = asset" "fd_action f = action" "fd_slug f = slug_text rd kvs" "fd_yes_tok f = yt" "fd_no_tok f = nt"
    "fd_secs f = mw_secs w" "fd_bid f = yes_bid" "fd_ask f = clob_ask" "fd_no_ask f = no_ask"
    using assms tok e c d by (auto simp: judge_market_def Let_def)
  show ?thesis using confirm_signal_ask [of x mn fair clob_ask nt edge0 edge no_ask] c tok unfolding f by auto
qed

text \<open>The steps of a market to its finding.\<close>

lemma market_findingE:
  assumes "market_finding rd lm x vols states prices mn ms kvs = Inr (Some f)"
  obtains asset w s ref_price cur fair a b where "asset \<in> set TRACKED_ASSETS" "asset_of (map_of kvs ''question'') = Inr (Some asset)"
    "parse_market_window rd (tk_clock x) (JObj kvs) = Inr (Some w)" "\<not> mw_neg_risk w" "\<not> flt (mw_secs w) ms"
    "token_truthy (fst (yes_no_tokens rd kvs))" "token_quote x (the (fst (yes_no_tokens rd kvs))) = Inr (Some s)"
    "sn_ask s = Some a" "sn_bid s = Some b"
    "fair_yes lm cur ref_price (mw_secs w) asset (Some (live_vol vols asset)) = Inr fair"
    "judge_market rd x mn states kvs asset w (b, a) (ref_price, cur) fair = Inr (Some f)"
proof -
  obtain asset w where w: "asset \<in> set TRACKED_ASSETS" "asset_of (map_of kvs ''question'') = Inr (Some asset)"
      "parse_market_window rd (tk_clock x) (JObj kvs) = Inr (Some w)"
      "windowed_finding rd lm x vols states prices mn ms kvs asset w = Inr (Some f)"
    using assms by (auto simp: market_finding_def rbind_some split: if_splits)
  then obtain s where s: "\<not> mw_neg_risk w" "\<not> flt (mw_secs w) ms" "token_truthy (fst (yes_no_tokens rd kvs))"
      "token_quote x (the (fst (yes_no_tokens rd kvs))) = Inr (Some s)"
      "quoted_finding rd lm x vols states prices mn kvs asset w s = Inr (Some f)"
    by (auto simp: windowed_finding_def rbind_some Let_def split: if_splits)
  have "market_prices x prices asset (mw_start_ms w) \<noteq> None"
    using s(5) by (cases "market_prices x prices asset (mw_start_ms w)") (simp_all add: quoted_finding_def split: if_splits)
  then obtain ref_price cur where "market_prices x prices asset (mw_start_ms w) = Some (ref_price, cur)" by auto
  then have "rbind (fair_yes lm cur ref_price (mw_secs w) asset (Some (live_vol vols asset))) (\<lambda>fair.
        rbind (need_num (sn_ask s)) (\<lambda>clob_ask. rbind (need_num (sn_bid s)) (\<lambda>yes_bid.
          judge_market rd x mn states kvs asset w (yes_bid, clob_ask) (ref_price, cur) fair))) = Inr (Some f)"
    using s(5) by (simp add: quoted_finding_def split: if_splits)
  then obtain fair a b where
      m: "fair_yes lm cur ref_price (mw_secs w) asset (Some (live_vol vols asset)) = Inr fair"
      "need_num (sn_ask s) = Inr a" "need_num (sn_bid s) = Inr b"
      "judge_market rd x mn states kvs asset w (b, a) (ref_price, cur) fair = Inr (Some f)"
    unfolding rbind_eq_Inr by (elim exE conjE) (rule that)
  have "sn_ask s = Some a" "sn_bid s = Some b" using m(2,3) by (simp_all add: need_num_def split: option.splits)
  then show thesis using that w s m by blast
qed

lemma market_finding_sound:
  assumes "market_finding rd lm x vols states prices mn ms kvs = Inr (Some f)"
    and "task_ok x" "libm_ok lm" "mn \<noteq> NaN" "ms \<noteq> NaN"
  shows "sound_finding mn ms f \<and> from_market rd x (JObj kvs) f"
proof -
  obtain asset w s ref_price cur fair a b where w: "asset \<in> set TRACKED_ASSETS" "asset_of (map_of kvs ''question'') = Inr (Some asset)"
      "parse_market_window rd (tk_clock x) (JObj kvs) = Inr (Some w)" "\<not> mw_neg_risk w" "\<not> flt (mw_secs w) ms"
    and s: "token_truthy (fst (yes_no_tokens rd kvs))" "token_quote x (the (fst (yes_no_tokens rd kvs))) = Inr (Some s)"
      "sn_ask s = Some a" "sn_bid s = Some b"
    and m: "fair_yes lm cur ref_price (mw_secs w) asset (Some (live_vol vols asset)) = Inr fair"
      "judge_market rd x mn states kvs asset w (b, a) (ref_price, cur) fair = Inr (Some f)"
    by (rule market_findingE [OF assms(1)])
  have "fle ms (mw_secs w)" using not_flt [OF window_secs [OF w(3)] assms(5)] w(5) by blast
  moreover have "fgt b (Fin 0)" "flt b a" using quote_positive [OF assms(2) s(2)] s(3,4) by auto
  ultimately have "sound_finding mn ms f" using judge_market_sound [OF m(2) assms(2,3) m(1) assms(4) w(1)] by blast
  moreover have "from_market rd x (JObj kvs) f"
    using judge_market_fields [OF m(2)] w s window_neg_risk [OF w(3)] unfolding from_market_def by (metis fst_conv)
  ultimately show ?thesis ..
qed

lemma side_ok_fee [simp]: "side_ok mn fair edge (f\<lparr>fd_fee := v\<rparr>) = side_ok mn fair edge f"
  by (simp add: side_ok_def split: option.split)

lemma sound_finding_fee [simp]: "sound_finding mn ms (f\<lparr>fd_fee := v\<rparr>) = sound_finding mn ms f"
  by (simp add: sound_finding_def drift_in_band_def)

lemma from_market_fee [simp]: "from_market rd x m (f\<lparr>fd_fee := v\<rparr>) = from_market rd x m f"
  by (simp add: from_market_def)

lemma process_market_sound:
  assumes "process_market rd lm x vols states prices mn ms m fees = (Inr (Some f), fees')"
    and "task_ok x" "libm_ok lm" "mn \<noteq> NaN" "ms \<noteq> NaN" "fees_ok fees"
  shows "sound_finding mn ms f \<and> from_market rd x m f \<and> (\<exists>fee. fd_fee f = Some fee \<and> fee_ok fee)"
proof -
  obtain kvs g fee where m: "m = JObj kvs" and g: "market_finding rd lm x vols states prices mn ms kvs = Inr (Some g)" "f = g\<lparr>fd_fee := Some fee\<rparr>"
      "(fee, fees') = (if token_truthy (fd_yes_tok g) then fetch_fee_rate (tk_fee x) (tk_mono x) (the (fd_yes_tok g)) fees
         else (flit 0.02, fees))"
    using assms(1) by (auto simp: process_market_def Let_def split: json.splits sum.splits option.splits prod.splits)
  then have "fee_ok fee" using fetch_fee_rate_ok [OF assms(6)] default_fee_ok
    by (auto simp: DEFAULT_FEE_def split: if_splits) (metis)+
  then show ?thesis using market_finding_sound [OF g(1) assms(2-5)] g(2) m by simp
qed

lemma process_market_fees:
  "process_market rd lm x vols states prices mn ms m fees = (r, fees') \<Longrightarrow> fees_ok fees \<Longrightarrow> fees_ok fees'"
  by (auto simp: process_market_def Let_def dest: fetch_fee_rate_ok
      split: json.splits sum.splits option.splits prod.splits if_splits)

text \<open>The tasks of a scan keep the fees in their band, and each result comes from one of them.\<close>

lemma run_tasks_results:
  assumes "\<And>n m fees r fees'. fees_ok fees \<Longrightarrow> task n m fees = (r, fees') \<Longrightarrow> fees_ok fees' \<and> P n m r"
    and "fees_ok fees" "run_tasks task n ms fees = (rs, fees')"
  shows "fees_ok fees' \<and> (\<forall>r \<in> set rs. \<exists>i < length ms. P (n + i) (ms ! i) r)"
  using assms(2,3)
proof (induction ms arbitrary: n fees rs)
  case (Cons m ms)
  obtain r fees1 rs1 where r: "task n m fees = (r, fees1)" "run_tasks task (Suc n) ms fees1 = (rs1, fees')" "rs = r # rs1"
    using Cons.prems(2) by (auto split: prod.splits)
  note one = assms(1) [OF Cons.prems(1) r(1)]
  have "\<exists>i < length (m # ms). P (n + i) ((m # ms) ! i) q" if q: "q \<in> set rs" for q
  proof (cases "q = r")
    case True
    then show ?thesis using one by (intro exI [of _ 0]) simp
  next
    case False
    then obtain i where "i < length ms" "P (Suc n + i) (ms ! i) q" using Cons.IH [OF _ r(2)] one q r(3) by auto
    then show ?thesis by (intro exI [of _ "Suc i"]) simp
  qed
  then show ?case using Cons.IH [OF _ r(2)] one by auto
qed simp

interpretation edges: strict_key "\<lambda>f. edge_key f \<noteq> NaN" larger_edge
proof unfold_locales
  show "\<not> larger_edge x x" for x by (simp add: larger_edge_def)
  show "larger_edge x y \<Longrightarrow> larger_edge y z \<Longrightarrow> larger_edge x z" for x y z
    unfolding larger_edge_def using flt_trans by blast
  show "edge_key x \<noteq> NaN \<Longrightarrow> edge_key y \<noteq> NaN \<Longrightarrow> edge_key z \<noteq> NaN \<Longrightarrow> \<not> larger_edge y x \<Longrightarrow> \<not> larger_edge z y \<Longrightarrow> \<not> larger_edge z x"
    for x y z unfolding larger_edge_def using flt_weak by blast
qed

lemma sound_edge_key: "sound_finding mn ms f \<Longrightarrow> edge_key f \<noteq> NaN"
proof -
  have "f_round 4 y \<noteq> NaN" if "fle mn y" for y using that by (cases y) (auto simp: f_round_def)
  then show "sound_finding mn ms f \<Longrightarrow> ?thesis" by (auto simp: sound_finding_def side_ok_def edge_key_def)
qed

text \<open>What a scan keeps of its caches.\<close>

definition caches_ok :: "scout_caches \<Rightarrow> bool" where
  "caches_ok c = ((\<forall>(a, v) \<in> set (sc_vols c). vol_ok v) \<and> fees_ok (sc_fees c) \<and> (\<forall>m \<in> set (sc_markets c). json_truthy m))"

lemma fetch_vol_ok: "vol_ok (fetch_vol lm x a)"
  using default_vol_ok volatility_lemma by (auto simp: fetch_vol_def rbind_eq_Inr split: sum.splits)

lemma refresh_ok: "refresh_markets x c = (r, c') \<Longrightarrow> caches_ok c \<Longrightarrow> caches_ok c'"
  by (auto simp: refresh_markets_def caches_ok_def find_shortterm_def rbind_eq_Inr split: if_splits sum.splits)

lemma prepare_ok: "caches_ok c \<Longrightarrow> caches_ok (prepare lm x c)"
  using fetch_vol_ok by (auto simp: prepare_def get_market_state_def get_all_vols_def caches_ok_def split: sum.splits)

lemma prepare_markets [simp]: "sc_markets (prepare lm x c) = sc_markets c"
  by (simp add: prepare_def get_market_state_def get_all_vols_def split: sum.split)

lemma tasks_ok:
  assumes "caches_ok c" "run_tasks (\<lambda>n. process_market rd lm (sv_task x n) vs st ps mn ms) 0 markets (sc_fees c) = (rs, fees)"
  shows "caches_ok (c\<lparr>sc_fees := fees\<rparr>)"
proof -
  have "fees_ok fees"
    using run_tasks_results [where P = "\<lambda>_ _ _. True", OF _ _ assms(2)] process_market_fees assms(1)
    by (auto simp: caches_ok_def)
  then show ?thesis using assms(1) by (simp add: caches_ok_def)
qed

lemma scan_edges_ok:
  assumes "scan_edges rd lm x c = (r, c')" "caches_ok c"
  shows "caches_ok c'"
proof -
  obtain r1 c1 where r: "refresh_markets x c = (r1, c1)" by fastforce
  note ok = refresh_ok [OF r assms(2)]
  obtain rs fees where t: "run_tasks (\<lambda>n. process_market rd lm (sv_task x n) (sc_vols (prepare lm x c1)) (sc_state (prepare lm x c1))
      (fetch_prices x) MIN_EDGE_PCT MIN_SECONDS) 0 (sc_markets c1) (sc_fees (prepare lm x c1)) = (rs, fees)" by fastforce
  show ?thesis using assms(1) ok tasks_ok [OF prepare_ok [OF ok] t]
    by (auto simp: scan_edges_def r t Let_def split: sum.splits if_splits)
qed

text \<open>So does the scan of the paper cohort.\<close>

lemma scan_shadow_ok:
  assumes "scan_shadow_edges rd lm min_seconds tf rr x c = (r, c')" "caches_ok c"
  shows "caches_ok c'"
proof -
  obtain r1 c1 where r: "refresh_markets x c = (r1, c1)" by fastforce
  note ok = refresh_ok [OF r assms(2)]
  define ms where "ms = (case filter_markets tf (sc_markets c1) of Inl _ \<Rightarrow> [] | Inr ms \<Rightarrow> ms)"
  obtain rs fees where t: "run_tasks (\<lambda>n. process_market rd lm (sv_task x n) (sc_vols (prepare lm x c1)) (sc_state (prepare lm x c1))
      (fetch_prices x) (flit 0.03) (case min_seconds of Some s \<Rightarrow> s | None \<Rightarrow> MIN_SECONDS)) 0 ms (sc_fees (prepare lm x c1)) = (rs, fees)"
    by fastforce
  have "caches_ok (prepare lm x c1)" by (rule prepare_ok [OF ok])
  then show ?thesis using assms(1) ok tasks_ok [OF prepare_ok [OF ok] t] t unfolding ms_def
    by (auto simp: scan_shadow_edges_def r Let_def split: sum.splits if_splits)
qed

text \<open>The list of a scan: sound findings of the scanned markets with a fee in its band, in descending order of
  the edge.\<close>

definition good_finding :: "readers \<Rightarrow> scan_env \<Rightarrow> json list \<Rightarrow> finding \<Rightarrow> bool" where
  "good_finding rd x ms f = (sound_finding MIN_EDGE_PCT MIN_SECONDS f \<and> (\<exists>fee. fd_fee f = Some fee \<and> fee_ok fee) \<and>
     (\<exists>i < length ms. from_market rd (sv_task x i) (ms ! i) f))"

lemma scan_tasks_good:
  assumes "run_tasks (\<lambda>n. process_market rd lm (sv_task x n) vols states prices MIN_EDGE_PCT MIN_SECONDS) 0 ms fees = (rs, fees')"
    and "fees_ok fees" "libm_ok lm" "\<And>n. task_ok (sv_task x n)" "Inr (Some f) \<in> set rs"
  shows "good_finding rd x ms f"
proof -
  have k: "MIN_EDGE_PCT \<noteq> NaN" "MIN_SECONDS \<noteq> NaN" by (simp_all add: MIN_EDGE_PCT_def MIN_SECONDS_def)
  let ?P = "\<lambda>n m r. \<forall>f. r = Inr (Some f) \<longrightarrow> sound_finding MIN_EDGE_PCT MIN_SECONDS f \<and> from_market rd (sv_task x n) m f \<and>
      (\<exists>fee. fd_fee f = Some fee \<and> fee_ok fee)"
  have "fees_ok fe \<Longrightarrow> process_market rd lm (sv_task x n) vols states prices MIN_EDGE_PCT MIN_SECONDS m fe = (r, fe') \<Longrightarrow>
      fees_ok fe' \<and> ?P n m r" for n m fe r fe'
  proof (intro conjI allI impI)
    assume a: "fees_ok fe" "process_market rd lm (sv_task x n) vols states prices MIN_EDGE_PCT MIN_SECONDS m fe = (r, fe')"
    show "fees_ok fe'" by (rule process_market_fees [OF a(2,1)])
    fix f assume "r = Inr (Some f)"
    from process_market_sound [OF a(2) [unfolded this] assms(4,3) k a(1)]
    show "sound_finding MIN_EDGE_PCT MIN_SECONDS f" "from_market rd (sv_task x n) m f" "\<exists>fee. fd_fee f = Some fee \<and> fee_ok fee"
      by blast+
  qed
  from run_tasks_results [where P = ?P, OF this assms(2,1)] assms(5) show ?thesis by (fastforce simp: good_finding_def)
qed

lemma scan_edges_findings:
  assumes "scan_edges rd lm x c = (Inr fs, c')" "caches_ok c" "libm_ok lm" "\<And>n. task_ok (sv_task x n)"
  shows "(\<forall>f \<in> set fs. good_finding rd x (sc_markets c') f) \<and> sorted_wrt (\<lambda>f g. \<not> larger_edge g f) fs"
proof (cases "fs = []")
  case False
  obtain u c1 where r: "refresh_markets x c = (Inr u, c1)" using assms(1)
    by (auto simp: scan_edges_def split: prod.splits sum.splits)
  obtain rs fees where t: "run_tasks (\<lambda>n. process_market rd lm (sv_task x n) (sc_vols (prepare lm x c1)) (sc_state (prepare lm x c1))
      (fetch_prices x) MIN_EDGE_PCT MIN_SECONDS) 0 (sc_markets c1) (sc_fees (prepare lm x c1)) = (rs, fees)" by fastforce
  have fees: "fees_ok (sc_fees (prepare lm x c1))" using prepare_ok [OF refresh_ok [OF r assms(2)]] by (simp add: caches_ok_def)
  obtain vs where vs: "mapM_r id rs = Inr vs" "fs = stable_sort larger_edge (some_values vs)" "sc_markets c' = sc_markets c1"
    using assms(1) False by (auto simp: scan_edges_def r t Let_def rbind_eq_Inr split: if_splits)
  have good: "good_finding rd x (sc_markets c') f" if "f \<in> set (some_values vs)" for f
  proof -
    have "Some f \<in> set vs" using that by (simp add: set_some_values)
    then have "Inr (Some f) \<in> set rs" using mapM_r_in [of id rs vs "Some f"] vs(1) by auto
    then show ?thesis unfolding vs(3) by (rule scan_tasks_good [OF t fees assms(3,4)])
  qed
  then have "\<forall>f \<in> set (some_values vs). edge_key f \<noteq> NaN" using sound_edge_key by (auto simp: good_finding_def)
  from edges.stable_sort_sorted [OF this] show ?thesis using vs(2) good by simp
qed simp

end
