(* ===== verification/ScoutSafety.thy ===== *)
theory ScoutSafety
  imports Scout EntrySafety
begin

text \<open>
  The scout over time and in front of the entry loop: what every scan of a session returns, and what it
  means for the positions that are opened from it.
\<close>

section \<open>The scout of a session\<close>

definition fresh_caches :: scout_caches where
  "fresh_caches = \<lparr>sc_markets = [], sc_markets_ts = Fin 0, sc_vols = [], sc_vols_ts = Fin 0, sc_state = [],
     sc_state_ts = Fin 0, sc_fees = (\<lambda>_. None)\<rparr>"

inductive scout_step :: "scout_caches \<Rightarrow> scout_caches \<Rightarrow> bool" where
  live_scan: "scan_edges rd lm x c = (r, c') \<Longrightarrow> scout_step c c'"
| paper_scan: "scan_shadow_edges rd lm min_seconds tf rr x c = (out, c') \<Longrightarrow> scout_step c c'"

definition scouted :: "scout_caches \<Rightarrow> bool" where
  "scouted = reachable (\<lambda>c. c = fresh_caches) scout_step"

lemma scouted_ok: "scouted c \<Longrightarrow> caches_ok c"
  unfolding scouted_def
proof (erule reachable_invariant)
  show "c = fresh_caches \<Longrightarrow> caches_ok c" for c by (simp add: fresh_caches_def caches_ok_def fees_ok_def)
  show "caches_ok c \<Longrightarrow> scout_step c c' \<Longrightarrow> caches_ok c'" for c c'
    by (auto elim!: scout_step.cases dest: scan_edges_ok scan_shadow_ok)
qed

text \<open>C11: What the scout finds: in every state of a session a scan that returns gives findings in descending
  order of their edge; each comes from a listed market without the negative-risk flag, with its slug,
  tokens, window and the quote of its YES token; it is for a tracked asset, is no blocked combination,
  leaves the minimal time, has an uncrossed positive quote, a fee in its band, a fair value that is a
  probability, an edge of at least the minimum, the required conviction in the side that is bought, and a
  price that did not drift against it. A YES costs no more than the price limit, and so does a NO whose token
  has an ask, on which its edge is then computed; a NO whose token has no quote is limited by its edge
  against the YES ask only.\<close>

theorem scout_findings_sound:
  assumes "scouted c" "scan_edges rd lm x c = (Inr fs, c')" "libm_ok lm" "\<And>n. task_ok (sv_task x n)"
  shows "(\<forall>f \<in> set fs. sound_finding MIN_EDGE_PCT MIN_SECONDS f \<and> (\<exists>fee. fd_fee f = Some fee \<and> fee_ok fee) \<and>
      (\<exists>i < length (sc_markets c'). from_market rd (sv_task x i) (sc_markets c' ! i) f)) \<and>
    sorted_wrt (\<lambda>f g. \<not> larger_edge g f) fs"
  using scan_edges_findings [OF assms(2) scouted_ok [OF assms(1)] assms(3,4)] by (simp add: good_finding_def)

text \<open>C10: From the scout to the position: whatever a scan of the entry loop opens for the findings of the
  scout is of a tracked asset, on one side, and of no blocked combination, dry or live.\<close>

theorem scouted_positions:
  assumes "scouted c" "scan_edges rd lm x c = (Inr fs, c')" "libm_ok lm" "\<And>n. task_ok (sv_task x n)"
    and "map fst fxs = fs" "scan_and_execute cfg bankroll (Inr fxs) b = (r, b')"
  shows "\<exists>new. bt_open b' = bt_open b @ new \<and> (\<forall>p \<in> set new. p_asset p \<in> set TRACKED_ASSETS \<and>
    p_action p \<in> {''YES'', ''NO''} \<and> (p_asset p, p_action p) \<notin> set BLOCKED_COMBOS)"
proof -
  let ?ok = "\<lambda>p. p_asset p \<in> set TRACKED_ASSETS \<and> p_action p \<in> {''YES'', ''NO''} \<and> (p_asset p, p_action p) \<notin> set BLOCKED_COMBOS"
  have fs: "(f, y) \<in> set fxs \<Longrightarrow> sound_finding MIN_EDGE_PCT MIN_SECONDS f" for f y
    using scan_edges_findings [OF assms(2) scouted_ok [OF assms(1)] assms(3,4)] assms(5) by (force simp: good_finding_def)
  have "\<exists>new. bt_open d = bt_open b @ new \<and> (\<forall>p \<in> set new. ?ok p)" if "(scan_step cfg bankroll fxs)\<^sup>*\<^sup>* b d" for d
    using that
  proof (induction rule: rtranclp_induct)
    case (step d e)
    then obtain new where new: "bt_open d = bt_open b @ new" "\<forall>p \<in> set new. ?ok p" by blast
    from step.hyps(2) show ?case
    proof cases
      case (scan_enter f y f1 g rk r)
      note eff = enter_effect [OF scan_enter(7)] and same = run_council_slug [OF scan_enter(5)]
      show ?thesis
      proof (cases "r = Inr True")
        case True
        then obtain p where p: "bt_open e = bt_open d @ [p]" "p_asset p = fd_asset f" "p_action p = fd_action f"
          using eff same by auto
        have "?ok p" using fs [OF scan_enter(1)] unfolding p(2,3) by (auto simp: sound_finding_def side_ok_def split: if_splits)
        then show ?thesis using new p(1) by (intro exI [of _ "new @ [p]"]) auto
      next
        case False
        then show ?thesis using eff new by auto
      qed
    qed
  qed simp
  then show ?thesis
    using scan_steps [where findings = "Inr fxs" and cfg = cfg and bk = bankroll and b = b] assms(6) by simp
qed

text \<open>A paper scan without markets returns a bare list also to the caller that unpacks a pair.\<close>

lemma empty_paper_scan_is_bare:
  assumes "refresh_markets x c = (Inr u, c1)" "sc_markets c1 = []"
  shows "fst (scan_shadow_edges rd lm min_seconds tf True x c) = Bare []"
  using assms by (simp add: scan_shadow_edges_def)

section \<open>Witnesses\<close>

text \<open>One market, found, scouted, passed by the council and opened in a dry run.\<close>

definition sample_readers :: readers where
  "sample_readers = \<lparr>rd_loads = (\<lambda>_. None), rd_iso = (\<lambda>s. if s = ''start'' then Some 0 else if s = ''end'' then Some 1000000000 else None),
     rd_str = (\<lambda>_. [])\<rparr>"

definition sample_listing :: json where
  "sample_listing = JObj [(''question'', jstr ''Bitcoin Up or Down''), (''slug'', jstr ''btc-updown-15m-0''),
     (''eventStartTime'', jstr ''start''), (''endDate'', jstr ''endZ''), (''bestAsk'', JVal (PFloat (Fin (1/2)))),
     (''bestBid'', JVal (PFloat (Fin (1/4)))), (''clobTokenIds'', JList [jstr ''Y'', jstr ''N''])]"

definition sample_candles :: candle_feed where
  "sample_candles asset interval a b = Inr (JList [JObj [(''t'', JVal (PInt 0)), (''o'', JVal (PInt 1000)), (''c'', JVal (PInt 1002))]])"

definition sample_task :: task_env where
  "sample_task = \<lparr>tk_clock = 0, tk_feed = (\<lambda>_. (\<lambda>_. None, Fin 0, Some
      [(''bids'', JList [JObj [(''price'', jstr ''0.48''), (''size'', jstr ''100'')]]),
       (''asks'', JList [JObj [(''price'', jstr ''0.50''), (''size'', jstr ''100'')]])])),
     tk_candles = sample_candles, tk_wall = Fin 0, tk_mono = Fin 0, tk_fee = (\<lambda>_. Inl (NetError []))\<rparr>"

definition sample_scan :: scan_env where
  "sample_scan = \<lparr>sv_now = Fin 0, sv_slug_clock = (\<lambda>_. 0),
     sv_gamma = (\<lambda>s. if s = ''btc-updown-15m-0'' then Inr (200, JList [sample_listing]) else Inr (404, JList [])),
     sv_vol_now = Fin 0, sv_vol_wall = (\<lambda>_. Fin 0), sv_vol_candles = (\<lambda>_ _ _ _. Inl (NetError [])), sv_state_now = Fin 0,
     sv_meta = Inl (NetError []), sv_price_wall = (\<lambda>_. Fin 0), sv_price_candles = sample_candles, sv_task = (\<lambda>_. sample_task)\<rparr>"
definition sample_scouted :: finding where
  "sample_scouted = \<lparr>fd_asset = ''BTC'', fd_action = ''YES'', fd_slug = ''btc-updown-15m-0'', fd_yes_tok = Some ''Y'', fd_no_tok = Some ''N'',
     fd_fair = Some (Fin (5917729910364832 / 9007199254740992)), fd_ref = Some (Fin 1000), fd_edge = Some (Fin (5656521131977343 / 36028797018963968)), fd_cur = Fin 1002, fd_ask = Fin (1/2), fd_bid = Fin (8646911284551352 / 18014398509481984), fd_secs = Fin 1000, fd_no_ask = None, fd_basis = None, fd_funding = None,
     fd_fee = Some (Fin (5764607523034235 / 288230376151711744)), fd_market = Some \<lparr>gm_spread = PNone, gm_liquidity = PNone, gm_volume = PNone, gm_fee = PNone\<rparr>\<rparr>"

lemma sample_scouting:
  obtains c' where "scan_edges sample_readers sample_libm sample_scan fresh_caches = (Inr [sample_scouted], c')"
proof -
  have "fst (scan_edges sample_readers sample_libm sample_scan fresh_caches) = Inr [sample_scouted]" by code_simp
  then show thesis using that by (cases "scan_edges sample_readers sample_libm sample_scan fresh_caches") auto
qed

lemma sample_task_ok: "task_ok (sv_task sample_scan n)"
  by (simp add: sample_scan_def sample_task_def task_ok_def cache_ok_def)

lemma fresh_scouted: "scouted fresh_caches"
  unfolding scouted_def by (rule reach_init) simp

lemma scout_findings_sound_witness:
  "sound_finding MIN_EDGE_PCT MIN_SECONDS sample_scouted \<and> (\<exists>i m. from_market sample_readers (sv_task sample_scan i) m sample_scouted)"
proof -
  obtain c' where s: "scan_edges sample_readers sample_libm sample_scan fresh_caches = (Inr [sample_scouted], c')"
    by (rule sample_scouting)
  from scout_findings_sound [OF fresh_scouted s sample_libm_ok sample_task_ok] show ?thesis by auto
qed

definition sample_risk_db :: risk_db where
  "sample_risk_db = sample_db ((sample_snapshot ''2026-06-09'' [] ''Operational'')\<lparr>rs_pnl := JVal (PFloat (Fin 0))\<rparr>)"
definition sample_open_env :: entry_env where
  "sample_open_env = \<lparr>ee_council = \<lparr>ce_price = Inl (Fin 1002), ce_market = Inr (Some sample_market), ce_book = Inr None, ce_log = NoFault\<rparr>,
     ee_risk_fault = StoreOk, ee_risk_db = sample_risk_db, ee_exec = sample_env,
     ee_id = ''p9'', ee_now = 0, ee_log = NoFault\<rparr>"
definition dry_open_config :: loop_config where
  "dry_open_config = \<lparr>lc_dry = True, lc_authority = True, lc_entries = True\<rparr>"
lemma sample_entering:
  "map p_slug (bt_open (snd (scan_and_execute dry_open_config (Fin 100) (Inr [(sample_scouted, sample_open_env)]) (sample_bot [])))) =
     [''btc-updown-15m-0'']"
  by code_simp

lemma scouted_positions_witness:
  "\<exists>p r b'. scan_and_execute dry_open_config (Fin 100) (Inr [(sample_scouted, sample_open_env)]) (sample_bot []) = (r, b') \<and>
     bt_open b' = [p] \<and> p_action p \<in> {''YES'', ''NO''} \<and> p_asset p \<in> set TRACKED_ASSETS"
proof -
  obtain c' where s: "scan_edges sample_readers sample_libm sample_scan fresh_caches = (Inr [sample_scouted], c')"
    by (rule sample_scouting)
  obtain r b' where e: "scan_and_execute dry_open_config (Fin 100) (Inr [(sample_scouted, sample_open_env)]) (sample_bot []) = (r, b')"
    by fastforce
  have "map fst [(sample_scouted, sample_open_env)] = [sample_scouted]" by simp
  from scouted_positions [OF fresh_scouted s sample_libm_ok sample_task_ok this e] sample_entering e show ?thesis
    by (auto simp: sample_bot_def)
qed

text \<open>A price read as zero is no skipped market: it ends the scan of all.\<close>

lemma zero_price_aborts_scan:
  "fst (scan_edges sample_readers sample_libm (sample_scan\<lparr>sv_price_candles :=
     (\<lambda>_ _ _ _. Inr (JList [JObj [(''t'', JVal (PInt 0)), (''o'', JVal (PInt 0)), (''c'', JVal (PInt 0))]]))\<rparr>) fresh_caches) = Inl ValueError"
  by code_simp

end
