(* ===== verification/DryRun.thy ===== *)
theory DryRun
  imports LoopSafety ScoutSafety
begin

text \<open>
  A dry run of the main loop that began without open positions. Every position in it was made by the dry
  executor and has no token keys, so a panic flatten cannot sell one: the process ends there.
\<close>

section \<open>The steps of a living process\<close>

text \<open>As \<open>main_step\<close>, without the iterations that end the process.\<close>

inductive alive_step :: "loop_config \<Rightarrow> pyfloat \<Rightarrow> string \<Rightarrow> main_state \<Rightarrow> main_state \<Rightarrow> bool"
  for cfg bank own_chat where
  alive_iteration: "main_iteration cfg bank x ms = (Goes_on, ms') \<Longrightarrow> alive_step cfg bank own_chat ms ms'"
| alive_flags: "main_step cfg bank own_chat ms (ms\<lparr>ms_flags := fl\<rparr>) \<Longrightarrow> alive_step cfg bank own_chat ms (ms\<lparr>ms_flags := fl\<rparr>)"

lemma alive_is_step: "alive_step cfg bank own ms ms' \<Longrightarrow> main_step cfg bank own ms ms'"
  by (auto elim!: alive_step.cases intro: step_iteration)

section \<open>What the dry executor leaves open\<close>

definition unsellable :: "position \<Rightarrow> bool" where
  "unsellable p = (\<not> p_token_keys p \<and> \<not> p_closing p)"

definition dry_book :: "bot \<Rightarrow> bool" where
  "dry_book b = list_all unsellable (bt_open b)"

lemma dry_execute_unsellable: "dry_execute dry i now f g rk n = Inr (Some p) \<Longrightarrow> unsellable p"
  by (auto simp: dry_execute_def unsellable_def rbind_eq_Inr Let_def base_position_def split: if_splits)

lemma with_slippage_unsellable: "with_slippage ask p = Inr q \<Longrightarrow> unsellable q \<longleftrightarrow> unsellable p"
  by (auto simp: with_slippage_def unsellable_def rbind_eq_Inr split: if_splits)

lemma log_open_unsellable: "log_position_open dbf dry p w = (Inr q, w') \<Longrightarrow> unsellable q \<longleftrightarrow> unsellable p"
  by (auto simp: log_position_open_def unsellable_def Let_def split: if_splits)

lemma enter_dry_book: "enter cfg x f g rk b = (r, b') \<Longrightarrow> lc_dry cfg \<Longrightarrow> dry_book b \<Longrightarrow> dry_book b'"
  by (auto simp: enter_def enter_dry_def dry_book_def split: sum.splits option.splits prod.splits)
    (metis dry_execute_unsellable with_slippage_unsellable log_open_unsellable)

lemma scanned_dry_book: "scanned cfg b b' \<Longrightarrow> lc_dry cfg \<Longrightarrow> dry_book b \<Longrightarrow> dry_book b'"
proof -
  have "(scan_step cfg bk fs)\<^sup>*\<^sup>* b b' \<Longrightarrow> lc_dry cfg \<Longrightarrow> dry_book b \<Longrightarrow> dry_book b'" for bk fs
    by (induction rule: rtranclp_induct) (auto elim!: scan_step.cases intro: enter_dry_book)
  then show "scanned cfg b b' \<Longrightarrow> lc_dry cfg \<Longrightarrow> dry_book b \<Longrightarrow> ?thesis" by (auto simp: scanned_def)
qed

text \<open>Turns that keep what stays.\<close>

lemma turns_keep:
  assumes "\<And>p w u q w'. P p \<Longrightarrow> turn p w = ((u, Stay q), w') \<Longrightarrow> P q"
  shows "take_turns turn ps b = (r, b') \<Longrightarrow> list_all P ps \<Longrightarrow> list_all P (bt_open b')"
proof (induction ps arbitrary: b r b')
  case (Cons p ps)
  obtain r1 f w where t: "turn p (bt_db b) = ((r1, f), w)" by (metis surj_pair)
  let ?b1 = "settle f (b\<lparr>bt_db := w\<rparr>)"
  have f: "list_all P (keep f qs)" if "list_all P qs" for qs
    using assms [of p] t Cons.prems(2) that by (cases f) (auto simp: keep_def)
  show ?case
  proof (cases r1)
    case (Inl e)
    then show ?thesis using Cons.prems t f by (auto simp: Let_def)
  next
    case (Inr u)
    obtain r2 b2 where t2: "take_turns turn ps ?b1 = (r2, b2)" by fastforce
    then show ?thesis using Cons.prems Cons.IH [OF t2] t Inr f by (auto simp: Let_def)
  qed
qed simp

lemma decide_exit_stays:
  assumes "decide_exit cfg x ws pr wd p w = (Stay q, w')" "lc_dry cfg" "unsellable p"
  shows "unsellable q"
proof -
  obtain r p1 where c: "check_exit (\<lambda>t. ws_bid x 2 (Some t)) (me_clock x 0) p (pr_yes pr) (pr_secs pr) = (r, p1)" by fastforce
  have "unsellable p1" using check_exit_keys [OF c] assms(3) by (simp add: unsellable_def)
  then show ?thesis using assms(1,2) c
    by (auto simp: decide_exit_def finish_close_def unsellable_def Let_def split: sum.splits option.splits)
qed

lemma watch_stays:
  assumes "watch_position cfg ws x p w = (Stay q, w')" "lc_dry cfg" "unsellable p"
  shows "unsellable q"
proof -
  let ?p = "p\<lparr>p_no_clob_bid := None\<rparr>"
  have p: "unsellable ?p" "\<not> p_closing p" using assms(3) by (simp_all add: unsellable_def)
  obtain r p1 where pr: "price_rest x ?p = (r, p1)" by fastforce
  have p1: "unsellable p1" using price_rest_trade [OF pr] p(1) by (simp add: unsellable_def same_trade_def)
  show ?thesis using assms(1,2) p pr p1
    by (auto simp: watch_position_def Let_def dest: decide_exit_stays
        split: if_splits option.splits sum.splits heartbeat.splits prod.splits)
qed

lemma resolve_stays: "unsellable p \<Longrightarrow> resolve_turn env won assets p w = ((u, Stay q), w') \<Longrightarrow> unsellable q"
  by (auto simp: resolve_turn_def Let_def split: if_splits sum.splits prod.splits)

lemma resolved_dry_book: "handle_ws_resolved env ev b = (r, b') \<Longrightarrow> dry_book b \<Longrightarrow> dry_book b'"
  unfolding dry_book_def using turns_keep [of unsellable, OF resolve_stays]
  by (auto simp: handle_ws_resolved_def split: sum.splits prod.splits if_splits)

lemma drain_dry_book: "dry_book b \<Longrightarrow> dry_book (snd (snd (drain_resolved env evs b)))"
proof (induction evs arbitrary: b)
  case (Cons ev evs)
  then show ?case using resolved_dry_book [of env ev b] by (auto split: prod.splits sum.splits)
qed simp

lemma heal_open: "bt_open (snd (heal_pending_resolutions q env b)) = bt_open b"
proof -
  have "bt_open (heal_row env r b) = bt_open b" for r b
    by (simp add: heal_row_def Let_def split: sum.split option.split prod.split)
  then have "bt_open (fold (heal_row env) rs b) = bt_open b" for rs by (induction rs arbitrary: b) simp_all
  then show ?thesis by (simp add: heal_pending_resolutions_def)
qed

section \<open>The phases of an iteration\<close>

lemma monitor_phase_dry_book:
  assumes "monitor_phase cfg bank x ms = (ws, r, ms')" "lc_dry cfg" "dry_book (ms_bot ms)"
  shows "dry_book (ms_bot ms')"
proof -
  obtain ws1 ts b1 where m: "monitor_positions cfg (le_monitor x) (ms_last_rest ms) (ms_bot ms) = (ws1, ts, b1)" by (metis surj_pair)
  obtain r1 q b2 where d: "drain_resolved (le_resolve x) (ms_queue ms @ le_events x) b1 = (r1, q, b2)" by (metis surj_pair)
  have "unsellable p \<Longrightarrow> watch_turn cfg ws env p w = ((u, Stay q), w') \<Longrightarrow> unsellable q" for ws env p w u q w'
    using watch_stays assms(2) by (auto simp: watch_turn_def split: prod.splits)
  then have "dry_book b1" using m assms(3) turns_keep [of unsellable, OF _ prod.collapse [symmetric]]
    unfolding dry_book_def by (fastforce simp: monitor_positions_def Let_def)
  then have "dry_book b2" using drain_dry_book [of b1 "le_resolve x" "ms_queue ms @ le_events x"] d by simp
  moreover have "ms_bot ms' = b2" using assms(1) by (cases "r1 = Inr ()") (auto simp: monitor_phase_def m d)
  ultimately show ?thesis by simp
qed

lemma body_dry_book:
  assumes "iteration_body cfg bank x ms = (r, ms')" "lc_dry cfg" "dry_book (ms_bot ms)"
  shows "dry_book (ms_bot ms')"
proof -
  obtain ws r1 ms1 where m: "monitor_phase cfg bank x ms = (ws, r1, ms1)" by (metis surj_pair)
  note b1 = monitor_phase_dry_book [OF m assms(2,3)]
  show ?thesis
  proof (cases "r1 = Inr () \<and> \<not> is_paused (ms_flags ms1) \<and> \<not> ws")
    case False
    then have "ms' = ms1" using assms(1) m by (auto simp: iteration_body_def split: if_splits)
    then show ?thesis using b1 by simp
  next
    case True
    obtain bk r2 ms2 where s: "scan_phase cfg bk x ms1 = (r2, ms2)"
      "ms' = (case r2 of Inl e \<Rightarrow> ms2 | Inr _ \<Rightarrow> snd (heal_phase x ms2))"
      using assms(1) m True by (auto simp: iteration_body_def Let_def split: prod.splits sum.splits)
    have "scanned cfg (ms_bot ms1) (ms_bot ms2)" using scan_phase_cases [OF s(1)] by (auto simp: scanned_def)
    then have b2: "dry_book (ms_bot ms2)" using scanned_dry_book assms(2) b1 by blast
    have "bt_open (ms_bot (snd (heal_phase x ms2))) = bt_open (ms_bot ms2)"
      using heal_open [of "le_heal_query x" "le_heal x" "ms_bot ms2"]
      by (cases "heal_pending_resolutions (le_heal_query x) (le_heal x) (ms_bot ms2)") (auto simp: heal_phase_def split: sum.split)
    then show ?thesis using s(2) b2 by (cases r2) (auto simp: dry_book_def)
  qed
qed

text \<open>A flatten of such a book raises at the first position, or there is none.\<close>

lemma flatten_dry_book:
  assumes "dry_book b"
  shows "bt_open b = [] \<and> do_flatten env b = (Inr (), b) \<or>
    bt_open b \<noteq> [] \<and> do_flatten env b = (Inl KeyError, b\<lparr>bt_open := (hd (bt_open b))\<lparr>p_closing := True\<rparr> # tl (bt_open b)\<rparr>)"
  using assms by (cases "bt_open b")
    (auto simp: do_flatten_def dry_book_def unsellable_def flatten_turn_def sell_position_def settle_def keep_def Let_def)

lemma alive_dry_book: "alive_step cfg bank own ms ms' \<Longrightarrow> lc_dry cfg \<Longrightarrow> dry_book (ms_bot ms) \<Longrightarrow> dry_book (ms_bot ms')"
proof (erule alive_step.cases)
  fix x m m'
  assume dry: "lc_dry cfg" "dry_book (ms_bot ms)" and eq: "ms = m" "ms' = m'"
    and i: "main_iteration cfg bank x m = (Goes_on, m')"
  obtain u m1 where f: "flatten_phase x m = (Inr u, m1)" "m' = snd (iteration_body cfg bank x m1)"
    using i by (auto simp: main_iteration_def split: if_splits prod.splits sum.splits)
  have "ms_bot m1 = ms_bot m" using f(1) flatten_dry_book [OF dry(2), of "le_flat x"] eq
    by (auto simp: flatten_phase_def split: if_splits prod.splits)
  then show "dry_book (ms_bot ms')" using body_dry_book [OF prod.collapse [symmetric] dry(1)] f(2) dry(2) eq by simp
qed auto

section \<open>Properties\<close>

text \<open>C9: A panic flatten ends a dry run: in every state that a dry run reaches which started without open
  positions, an iteration that finds a flatten request kills the process with a KeyError outside the
  loop's error handler as soon as one position is open, instead of carrying on: the first position is left
  marked as being sold, none is closed, the database is not touched, and the request is consumed.\<close>

theorem dry_flatten_crashes:
  assumes "reachable (\<lambda>s. started cfg bank s \<and> bt_open (ms_bot s) = []) (alive_step cfg bank own_chat) ms" "lc_dry cfg"
    and "b_flatten (ms_flags ms)" "\<not> b_kill_file (ms_flags ms)" "\<not> b_shutdown (ms_flags ms)"
    and "bt_open (ms_bot ms) = p # ps"
  shows "main_iteration cfg bank x ms = (Crashed KeyError, ms\<lparr>ms_flags := clear_flatten (ms_flags ms),
    ms_bot := (ms_bot ms)\<lparr>bt_open := p\<lparr>p_closing := True\<rparr> # ps\<rparr>\<rparr>)"
proof -
  have "dry_book (ms_bot ms)"
    using assms(1)
  proof (rule reachable_invariant)
    show "started cfg bank s \<and> bt_open (ms_bot s) = [] \<Longrightarrow> dry_book (ms_bot s)" for s by (simp add: dry_book_def)
    show "dry_book (ms_bot s) \<Longrightarrow> alive_step cfg bank own_chat s t \<Longrightarrow> dry_book (ms_bot t)" for s t
      using alive_dry_book assms(2) by blast
  qed
  then have "do_flatten (le_flat x) (ms_bot ms) = (Inl KeyError, (ms_bot ms)\<lparr>bt_open := p\<lparr>p_closing := True\<rparr> # ps\<rparr>)"
    using flatten_dry_book [of "ms_bot ms" "le_flat x"] assms(6) by auto
  then show ?thesis using assms(3-5)
    by (auto simp: main_iteration_def flatten_phase_def kill_check_def is_shutdown_requested_def)
qed

section \<open>Witness\<close>

text \<open>A process that starts on an empty database, opens a position in its first iteration, gets the command,
  and dies in the second.\<close>

definition sample_start :: main_state where
  "sample_start = start_main dry_open_config (Fin 100) (Inl TypeError) 0 (\<lambda>_. sample_recon) fresh_bot sample_risk_db empty_world"

definition sample_dry_env :: loop_env where
  "sample_dry_env = idle_env\<lparr>le_findings := Inr [(sample_scouted, sample_open_env)],
     le_monitor := sample_cycle (sample_watch 0 None)\<rparr>"

lemma sample_risk_sync:
  "sync_runtime_risk_state sample_dry_env [] (Fin 100) None False sample_risk_db =
     (fst (sync_runtime_risk_state sample_dry_env [] (Fin 100) None False sample_risk_db), sample_risk_db)"
  "\<exists>s. fst (sync_runtime_risk_state sample_dry_env [] (Fin 100) None False sample_risk_db) = Inr s"
proof -
  have "(case sync_runtime_risk_state sample_dry_env [] (Fin 100) None False sample_risk_db of
      (Inr s, d) \<Rightarrow> d = sample_risk_db | _ \<Rightarrow> False)" by code_simp
  then show "sync_runtime_risk_state sample_dry_env [] (Fin 100) None False sample_risk_db =
     (fst (sync_runtime_risk_state sample_dry_env [] (Fin 100) None False sample_risk_db), sample_risk_db)"
    "\<exists>s. fst (sync_runtime_risk_state sample_dry_env [] (Fin 100) None False sample_risk_db) = Inr s"
    by (auto split: prod.splits sum.splits)
qed

lemma sample_first_iteration:
  obtains ms where "main_iteration dry_open_config (Fin 100) sample_dry_env sample_start = (Goes_on, ms)"
    "map p_slug (bt_open (ms_bot ms)) = [''btc-updown-15m-0'']" "ms_flags ms = fresh_bot"
proof -
  obtain s where sy: "sync_runtime_risk_state sample_dry_env [] (Fin 100) None False sample_risk_db = (Inr s, sample_risk_db)"
    using sample_risk_sync by metis
  obtain r b where sc: "scan_and_execute dry_open_config (Fin 100) (Inr [(sample_scouted, sample_open_env)]) (sample_bot []) = (r, b)"
    by fastforce
  have b: "map p_slug (bt_open b) = [''btc-updown-15m-0'']" using sample_entering sc by simp
  have st: "sample_start = \<lparr>ms_bot = sample_bot [], ms_flags = fresh_bot, ms_risk = sample_risk_db, ms_last_rest = Fin 0,
      ms_start = Fin 100, ms_queue = [], ms_shown = []\<rparr>"
    by (simp add: sample_start_def start_main_def startup_reconcile_def dry_open_config_def load_open_positions_def
        load_closed_today_def empty_world_def sample_bot_def get_effective_bankroll_def)
  have ev: "le_findings sample_dry_env = Inr [(sample_scouted, sample_open_env)]" "le_events sample_dry_env = []"
      "le_heal_query sample_dry_env = NoFault"
    by (simp_all add: sample_dry_env_def idle_env_def)
  have ga: "gated sample_risk_db [(sample_scouted, sample_open_env)] = [(sample_scouted, sample_open_env)]"
    by (simp add: gated_def sample_open_env_def)
  have ws: "\<not> ws_triggered (le_monitor sample_dry_env) (Fin 0)"
  proof -
    have "fge (fsub (Fin 7) (Fin 0)) SCAN_INTERVAL_SECS" by code_simp
    then show ?thesis by (simp add: ws_triggered_def sample_dry_env_def sample_cycle_def)
  qed
  have mon: "monitor_positions dry_open_config (le_monitor sample_dry_env) (Fin 0) (sample_bot []) = (False, Fin 8, sample_bot [])"
    using ws by (simp add: monitor_positions_def sample_bot_def sample_dry_env_def sample_cycle_def)
  define ms1 where "ms1 = sample_start\<lparr>ms_last_rest := Fin 8\<rparr>"
  have m: "monitor_phase dry_open_config (Fin 100) sample_dry_env sample_start = (False, Inr (), ms1)"
    unfolding ms1_def st by (simp add: monitor_phase_def mon ev Let_def)
  have ms1: "ms_bot ms1 = sample_bot []" "ms_flags ms1 = fresh_bot" "ms_risk ms1 = sample_risk_db" by (simp_all add: ms1_def st)
  have fl: "\<not> is_paused fresh_bot" "circuit_status fresh_bot = None" "\<not> kill_check fresh_bot" "\<not> is_shutdown_requested fresh_bot"
      "\<not> b_flatten fresh_bot"
    by (simp_all add: is_paused_def circuit_status_def kill_check_def is_shutdown_requested_def fresh_bot_def)
  define ms2 where "ms2 = ms1\<lparr>ms_risk := sample_risk_db, ms_bot := b\<rparr>"
  have flags: "ms_flags sample_start = fresh_bot" by (simp add: st)
  have flat: "flatten_phase sample_dry_env sample_start = (Inr (), sample_start)" by (simp add: flatten_phase_def flags fl)
  have dry: "lc_dry dry_open_config" by (simp add: dry_open_config_def)
  have scan: "scan_phase dry_open_config (Fin 100) sample_dry_env ms1 = (r, ms2)"
    using sy sc ms1 by (simp add: scan_phase_def sample_bot_def fl ev ga ms2_def)
  have body: "snd (iteration_body dry_open_config (Fin 100) sample_dry_env sample_start) =
      (case r of Inl e \<Rightarrow> ms2 | Inr _ \<Rightarrow> snd (heal_phase sample_dry_env ms2))"
    by (cases r) (simp_all add: iteration_body_def m ms1 fl get_effective_bankroll_def dry scan Let_def)
  let ?ms = "case r of Inl e \<Rightarrow> ms2 | Inr _ \<Rightarrow> snd (heal_phase sample_dry_env ms2)"
  have "bt_open (ms_bot (snd (heal_phase sample_dry_env ms2))) = bt_open b \<and> ms_flags (snd (heal_phase sample_dry_env ms2)) = fresh_bot"
    using heal_open [of "le_heal_query sample_dry_env" "le_heal sample_dry_env" b]
    by (cases "heal_pending_resolutions (le_heal_query sample_dry_env) (le_heal sample_dry_env) b")
      (auto simp: heal_phase_def ms2_def ms1 split: sum.split)
  then have opened: "map p_slug (bt_open (ms_bot ?ms)) = [''btc-updown-15m-0'']" and "ms_flags ?ms = fresh_bot"
    using b ms1 by (cases r; simp add: ms2_def)+
  moreover have "main_iteration dry_open_config (Fin 100) sample_dry_env sample_start = (Goes_on, ?ms)"
    by (simp only: main_iteration_def flat prod.case sum.case body flags fl if_False simp_thms)
  ultimately show thesis by (intro that)
qed

lemma dry_flatten_crashes_witness:
  "\<exists>ms ms'. main_iteration dry_open_config (Fin 100) sample_dry_env sample_start = (Goes_on, ms) \<and>
     main_iteration dry_open_config (Fin 100) idle_env (ms\<lparr>ms_flags := poll_message ''1'' ''1'' ''/flatten'' (ms_flags ms)\<rparr>) =
       (Crashed KeyError, ms')"
proof -
  obtain ms where i: "main_iteration dry_open_config (Fin 100) sample_dry_env sample_start = (Goes_on, ms)"
    and o: "map p_slug (bt_open (ms_bot ms)) = [''btc-updown-15m-0'']" "ms_flags ms = fresh_bot" by (rule sample_first_iteration)
  let ?m = "ms\<lparr>ms_flags := poll_message ''1'' ''1'' ''/flatten'' (ms_flags ms)\<rparr>"
  have "py_strip ''/flatten'' = ''/flatten''" by code_simp
  then have fl: "ms_flags ?m = request_flatten fresh_bot"
    using o(2) by (simp add: poll_message_def is_authorized_def handle_command_def Let_def)
  have s: "started dry_open_config (Fin 100) sample_start \<and> bt_open (ms_bot sample_start) = []"
    unfolding started_def sample_start_def using reachable_empty
    by (auto simp: start_main_def startup_reconcile_def dry_open_config_def load_open_positions_def empty_world_def)
  have "reachable (\<lambda>s. started dry_open_config (Fin 100) s \<and> bt_open (ms_bot s) = []) (alive_step dry_open_config (Fin 100) ''1'') ?m"
  proof (rule reach_step)
    show "reachable (\<lambda>s. started dry_open_config (Fin 100) s \<and> bt_open (ms_bot s) = []) (alive_step dry_open_config (Fin 100) ''1'') ms"
    proof (rule reach_step)
      show "reachable (\<lambda>s. started dry_open_config (Fin 100) s \<and> bt_open (ms_bot s) = []) (alive_step dry_open_config (Fin 100) ''1'') sample_start"
        using s by (rule reach_init)
      show "alive_step dry_open_config (Fin 100) ''1'' sample_start ms" using i by (rule alive_iteration)
    qed
    show "alive_step dry_open_config (Fin 100) ''1'' ms ?m" by (intro alive_flags step_command)
  qed
  moreover obtain p where "bt_open (ms_bot ?m) = [p]" using o(1) by auto
  moreover have "lc_dry dry_open_config" by (simp add: dry_open_config_def)
  moreover have "b_flatten (ms_flags ?m)" "\<not> b_kill_file (ms_flags ?m)" "\<not> b_shutdown (ms_flags ?m)"
    unfolding fl by (simp_all add: request_flatten_def fresh_bot_def)
  ultimately have "fst (main_iteration dry_open_config (Fin 100) idle_env ?m) = Crashed KeyError"
    using dry_flatten_crashes [of dry_open_config "Fin 100" "''1''" ?m p "[]" idle_env] by simp
  then show ?thesis using i by (metis prod.collapse)
qed

end
