(* ===== verification/WsSubscriptions.thy ===== *)
theory WsSubscriptions
  imports Prelude
begin

text \<open>
  The subscription state of \<open>data/ws_prices.py\<close>: the tokens the connection carries, the ones still to be
  subscribed and the ones to be unsubscribed, and what the exchange has been told over the present
  connection. A flush is a coroutine: it runs to the next \<open>await ws.send\<close>, where it is suspended with its
  batch, and while it waits the program may subscribe and unsubscribe. One flush runs at a time: the initial
  one before the flush task is made, then that task in its loop. A send that raises ends the connection (the
  client library raises only on a closed one), and a lost connection cancels a suspended flush.
\<close>

section \<open>State and operations\<close>

record ws_subs =
  su_subscribed :: "string set"
  su_pending :: "string set"
  su_unsub :: "string set"

definition no_subs :: ws_subs where
  "no_subs = \<lparr>su_subscribed = {}, su_pending = {}, su_unsub = {}\<rparr>"

definition subscribe :: "string list \<Rightarrow> ws_subs \<Rightarrow> ws_subs" where
  "subscribe token_ids s =
     s\<lparr>su_pending := su_pending s \<union> set (filter (\<lambda>t. t \<noteq> [] \<and> t \<notin> su_subscribed s) token_ids)\<rparr>"

definition unsubscribe :: "string list \<Rightarrow> ws_subs \<Rightarrow> ws_subs" where
  "unsubscribe token_ids s = (let ts = set (filter (\<lambda>t. t \<noteq> []) token_ids) in
     s\<lparr>su_subscribed := su_subscribed s - ts, su_pending := su_pending s - ts, su_unsub := su_unsub s \<union> ts\<rparr>)"

text \<open>Where a flush stands: not running, or suspended in the send of one of its two messages.\<close>

datatype flush = Idle | SendingUnsub "string set" | SendingSub "string set"

text \<open>\<open>_flush_pending\<close> up to its first send, and its two continuations. A batch leaves its queue before it is
  sent; the continuation after the first send may close the connection.\<close>

definition flush_subscribe :: "ws_subs \<Rightarrow> flush \<times> ws_subs" where
  "flush_subscribe s =
    (if su_pending s = {} then (Idle, s) else (SendingSub (su_pending s), s\<lparr>su_pending := {}\<rparr>))"

definition flush_pending :: "ws_subs \<Rightarrow> flush \<times> ws_subs" where
  "flush_pending s =
    (if su_unsub s = {} then flush_subscribe s
     else (SendingUnsub (su_unsub s), s\<lparr>su_unsub := {}, su_subscribed := su_subscribed s - su_unsub s\<rparr>))"

definition unsub_sent :: "ws_subs \<Rightarrow> (flush \<times> ws_subs) option" where
  "unsub_sent s =
    (if su_subscribed s = {} \<and> su_pending s = {} then None else Some (flush_subscribe s))"

definition sub_sent :: "string set \<Rightarrow> ws_subs \<Rightarrow> ws_subs" where
  "sub_sent batch s = s\<lparr>su_subscribed := su_subscribed s \<union> batch\<rparr>"

text \<open>On a new connection everything subscribed before is queued again.\<close>

definition requeue :: "ws_subs \<Rightarrow> ws_subs" where
  "requeue s = (if su_subscribed s = {} then s
     else s\<lparr>su_pending := su_pending s \<union> su_subscribed s, su_subscribed := {}\<rparr>)"

section \<open>The runs of the program\<close>

text \<open>Over a live connection: the tokens the exchange has been told to send, and the flush.\<close>

type_synonym ws_state = "ws_subs \<times> (string set \<times> flush) option"

text \<open>\<open>Sent\<close> resumes a suspended flush, with the send done or failed.\<close>

datatype ws_event = Subscribe "string list" | Unsubscribe "string list" | Connect | Flush | Sent bool | Drop

definition under_way :: "string set \<Rightarrow> flush \<times> ws_subs \<Rightarrow> ws_state" where
  "under_way S r = (snd r, Some (S, fst r))"

fun ws_run :: "ws_state \<Rightarrow> ws_event \<Rightarrow> ws_state" where
  "ws_run (s, c) (Subscribe ts) = (subscribe ts s, c)"
| "ws_run (s, c) (Unsubscribe ts) = (unsubscribe ts s, c)"
| "ws_run (s, None) Connect = under_way {} (flush_pending (requeue s))"
| "ws_run (s, Some (S, Idle)) Flush = under_way S (flush_pending s)"
| "ws_run (s, Some (S, SendingUnsub batch)) (Sent True) =
     (case unsub_sent s of None \<Rightarrow> (s, None) | Some r \<Rightarrow> under_way (S - batch) r)"
| "ws_run (s, Some (S, SendingSub batch)) (Sent True) = (sub_sent batch s, Some (S \<union> batch, Idle))"
| "ws_run (s, Some (S, SendingUnsub batch)) (Sent False) = (s, None)"
| "ws_run (s, Some (S, SendingSub batch)) (Sent False) = (s, None)"
| "ws_run (s, c) Drop = (s, None)"
| "ws_run (s, c) _ = (s, c)"

abbreviation ws_start :: ws_state where
  "ws_start \<equiv> (no_subs, None)"

section \<open>The wanted set\<close>

text \<open>What the state is heading for: the carried tokens and the batch on its way, less those queued for
  removal, and those queued for subscription, since a flush removes first.\<close>

definition sending :: "(string set \<times> flush) option \<Rightarrow> string set" where
  "sending c = (case c of Some (_, SendingSub batch) \<Rightarrow> batch | _ \<Rightarrow> {})"

definition wanted :: "ws_state \<Rightarrow> string set" where
  "wanted st = (case st of (s, c) \<Rightarrow> (su_subscribed s \<union> sending c - su_unsub s) \<union> su_pending s)"

fun want :: "string set \<Rightarrow> ws_event \<Rightarrow> string set" where
  "want W (Subscribe ts) = W \<union> {t \<in> set ts. t \<noteq> []}"
| "want W (Unsubscribe ts) = W - {t \<in> set ts. t \<noteq> []}"
| "want W _ = W"

text \<open>The steps that keep the wanted set. The others lose or revive tokens: a subscription of a token that is
  still carried but queued for removal, the end of the connection while a subscription is on its way, the
  resumption of a flush when a token was removed and subscribed again during its first send, and a reconnect
  with carried tokens that are queued for removal.\<close>

fun keeps_wanted :: "ws_state \<Rightarrow> ws_event \<Rightarrow> bool" where
  "keeps_wanted (s, c) (Subscribe ts) \<longleftrightarrow> {t \<in> set ts. t \<noteq> []} \<inter> su_subscribed s \<inter> su_unsub s \<subseteq> su_pending s"
| "keeps_wanted (s, None) Connect \<longleftrightarrow> su_subscribed s \<inter> su_unsub s \<subseteq> su_pending s"
| "keeps_wanted (s, Some (S, SendingUnsub batch)) (Sent True) \<longleftrightarrow> su_pending s \<inter> su_unsub s = {}"
| "keeps_wanted (s, Some (S, SendingSub batch)) (Sent False) \<longleftrightarrow> batch - su_unsub s \<subseteq> su_subscribed s \<union> su_pending s"
| "keeps_wanted (s, Some (S, SendingSub batch)) Drop \<longleftrightarrow> batch - su_unsub s \<subseteq> su_subscribed s \<union> su_pending s"
| "keeps_wanted st e \<longleftrightarrow> True"

fun all_kept :: "ws_state \<Rightarrow> ws_event list \<Rightarrow> bool" where
  "all_kept st [] \<longleftrightarrow> True"
| "all_kept st (e # es) \<longleftrightarrow> keeps_wanted st e \<and> all_kept (ws_run st e) es"

lemmas flush_defs = flush_pending_def flush_subscribe_def unsub_sent_def sub_sent_def under_way_def
lemmas wanted_defs = wanted_def sending_def subscribe_def unsubscribe_def requeue_def

text \<open>The wanted set changes as the program asks in exactly these steps.\<close>

lemma kept_iff: "wanted (ws_run st e) = want (wanted st) e \<longleftrightarrow> keeps_wanted st e"
proof (induction st e rule: ws_run.induct)
  case (1 s c ts)
  then show ?case by (auto simp: wanted_defs)
next
  case (2 s c ts)
  then show ?case by (auto simp: wanted_defs Let_def)
next
  case (3 s)
  show ?case by (auto simp: wanted_defs flush_defs)
next
  case (4 s S)
  show ?case by (auto simp: wanted_defs flush_defs)
next
  case (5 s S batch)
  show ?case by (auto simp: wanted_defs flush_defs)
qed (auto simp: wanted_defs flush_defs split: option.splits prod.splits flush.splits)

text \<open>What the exchange was told: it sends every carried token, and nothing but those, those on their way
  out and those queued for removal.\<close>

fun told_ok :: "ws_state \<Rightarrow> bool" where
  "told_ok (s, None) \<longleftrightarrow> True"
| "told_ok (s, Some (S, f)) \<longleftrightarrow> su_subscribed s \<subseteq> S \<and>
     S \<subseteq> su_subscribed s \<union> su_unsub s \<union> (case f of SendingUnsub batch \<Rightarrow> batch | _ \<Rightarrow> {}) \<and>
     (case f of SendingUnsub batch \<Rightarrow> su_subscribed s \<inter> batch = {} | _ \<Rightarrow> True)"

lemma run_told: "told_ok st \<Longrightarrow> told_ok (ws_run st e)"
proof (induction st e rule: ws_run.induct)
  case (1 s c ts)
  then show ?case by (cases c) (auto simp: subscribe_def split: flush.splits)
next
  case (2 s c ts)
  then show ?case by (cases c) (auto simp: unsubscribe_def Let_def split: flush.splits)
next
  case (3 s)
  show ?case by (auto simp: requeue_def flush_defs)
next
  case (4 s S)
  then show ?case by (auto simp: flush_defs)
next
  case (5 s S batch)
  then show ?case by (auto simp: flush_defs)
qed (auto simp: flush_defs)

lemma start_told: "told_ok (foldl ws_run ws_start es)"
  by (induction es rule: rev_induct) (simp_all add: run_told)

lemma all_kept_append: "all_kept st (es @ es') \<longleftrightarrow> all_kept st es \<and> all_kept (foldl ws_run st es) es'"
  by (induction es arbitrary: st) auto

lemma run_wanted: "all_kept st es \<Longrightarrow> wanted (foldl ws_run st es) = foldl want (wanted st) es"
proof (induction es arbitrary: st)
  case (Cons e es)
  then show ?case using kept_iff [of st e] by simp
qed simp

text \<open>A flush that is left alone and whose sends succeed.\<close>

lemma quiet_flush:
  assumes "told_ok (s, Some (S, Idle))"
  shows "case foldl ws_run (s, Some (S, Idle)) [Flush, Sent True, Sent True] of
     (s', None) \<Rightarrow> wanted (s, Some (S, Idle)) = {}
   | (s', Some (S', f)) \<Rightarrow> f = Idle \<and> S' = wanted (s, Some (S, Idle)) \<and> su_subscribed s' = S' \<and> su_pending s' = {} \<and> su_unsub s' = {}"
  using assms by (cases "su_unsub s = {}"; cases "su_pending s = {}"; cases "su_subscribed s \<subseteq> su_unsub s")
    (auto simp: flush_defs wanted_defs)

text \<open>C40: The subscriptions refine the set of wanted tokens. Along every interleaving of subscriptions, removals,
  flushes, sends that finish while the program goes on, failures and reconnects, a step changes the tokens the
  state is heading for exactly as the program asked, unless it is one of the four losing steps that
  \<open>keeps_wanted\<close> excludes, and those change them otherwise. After a run without a losing step, a flush over
  the live connection that is left alone leaves the exchange told of exactly the wanted tokens, or closes the
  connection because none is wanted.\<close>

theorem subscriptions_refine_wanted:
  "(wanted (ws_run st e) = want (wanted st) e \<longleftrightarrow> keeps_wanted st e) \<and>
   (all_kept ws_start es \<longrightarrow> wanted (foldl ws_run ws_start es) = foldl want {} es \<and>
     (case foldl ws_run ws_start es of
        (s, Some (S, Idle)) \<Rightarrow>
          (case foldl ws_run (s, Some (S, Idle)) [Flush, Sent True, Sent True] of
             (s', None) \<Rightarrow> foldl want {} es = {}
           | (s', Some (S', f)) \<Rightarrow> f = Idle \<and> S' = foldl want {} es \<and> su_subscribed s' = S' \<and> su_pending s' = {} \<and> su_unsub s' = {})
      | _ \<Rightarrow> True))"
proof (intro conjI impI)
  show "wanted (ws_run st e) = want (wanted st) e \<longleftrightarrow> keeps_wanted st e" by (rule kept_iff)
  assume kept: "all_kept ws_start es"
  have start: "wanted ws_start = {}" by (simp add: wanted_defs no_subs_def)
  show w: "wanted (foldl ws_run ws_start es) = foldl want {} es" using run_wanted [OF kept] start by simp
  show "case foldl ws_run ws_start es of
        (s, Some (S, Idle)) \<Rightarrow>
          (case foldl ws_run (s, Some (S, Idle)) [Flush, Sent True, Sent True] of
             (s', None) \<Rightarrow> foldl want {} es = {}
           | (s', Some (S', f)) \<Rightarrow> f = Idle \<and> S' = foldl want {} es \<and> su_subscribed s' = S' \<and> su_pending s' = {} \<and> su_unsub s' = {})
      | _ \<Rightarrow> True"
  proof (cases "\<exists>s S. foldl ws_run ws_start es = (s, Some (S, Idle))")
    case True
    then obtain s S where es: "foldl ws_run ws_start es = (s, Some (S, Idle))" by blast
    then show ?thesis using quiet_flush [of s S] start_told [of es] w by simp
  next
    case False
    then show ?thesis by (auto split: prod.splits option.splits flush.splits)
  qed
qed

lemma subscriptions_refine_wanted_witness:
  "wanted (foldl ws_run ws_start [Subscribe [''a'', ''b''], Connect, Subscribe [''c''], Sent True, Unsubscribe [''a''], Flush, Sent True,
     Sent True, Drop, Connect, Sent True]) = {''b'', ''c''}"
proof -
  let ?es = "[Subscribe [''a'', ''b''], Connect, Subscribe [''c''], Sent True, Unsubscribe [''a''], Flush, Sent True,
     Sent True, Drop, Connect, Sent True]"
  have "all_kept ws_start ?es" by (auto simp: no_subs_def wanted_defs flush_defs Let_def)
  moreover have "foldl want {} ?es = {''b'', ''c''}" by auto
  ultimately show ?thesis using subscriptions_refine_wanted [of ws_start Drop ?es] by blast
qed

text \<open>The four losses. A failed send, or a lost connection, loses the batch on its way: the tokens are in no
  queue any more, so no reconnect subscribes them.\<close>

lemma failed_send_loses_batch:
  "wanted (foldl ws_run ws_start [Subscribe [''a''], Connect, Sent False, Connect]) = {}"
  "wanted (foldl ws_run ws_start [Subscribe [''a''], Connect, Drop, Connect]) = {}"
  by (auto simp: no_subs_def wanted_defs flush_defs)

text \<open>A token removed while its subscription is on its way becomes carried and queued for removal: a new
  subscription of it is ignored, and the next flush removes it.\<close>

lemma resubscription_ignored:
  "foldl ws_run ws_start [Subscribe [''a'', ''b''], Connect, Unsubscribe [''a''], Sent True, Subscribe [''a''], Flush, Sent True] =
     (\<lparr>su_subscribed = {''b''}, su_pending = {}, su_unsub = {}\<rparr>, Some ({''b''}, Idle))"
  by (auto simp: no_subs_def subscribe_def unsubscribe_def requeue_def flush_defs Let_def)

text \<open>The same state when the connection is lost: the reconnect subscribes the removed token again.\<close>

lemma removed_token_revived:
  "''a'' \<notin> wanted (foldl ws_run ws_start [Subscribe [''a'', ''b''], Connect, Unsubscribe [''a''], Sent True])"
  "''a'' \<in> wanted (foldl ws_run ws_start [Subscribe [''a'', ''b''], Connect, Unsubscribe [''a''], Sent True, Drop, Connect])"
  by (auto simp: no_subs_def wanted_defs flush_defs Let_def)

end
