(* ===== verification/ShadowText.thy ===== *)
theory ShadowText
  imports PyVal
begin

text \<open>
  Texts of the shadow reconstruction (\<open>phase6_2_shadow_intent/\<close>). They come from outside and are
  compared verbatim, so they are sequences of Unicode code points here: blank texts as \<open>str.strip\<close>
  sees them, the decimal digits of Python's regular expressions, canonical integer texts, and the lexical
  comparison and addition of \<open>classification_predicates.py\<close>, which work on texts of any length
  without converting them. The lemmas show that they compute with the numbers the texts denote.
\<close>

section \<open>Code points\<close>

type_synonym utext = "nat list"

definition ut :: "string \<Rightarrow> utext" where
  "ut s = map of_char s"

lemma ut_eq [simp]: "ut s = ut t \<longleftrightarrow> s = t"
  by (simp add: ut_def inj_map_eq_map inj_on_def)

definition uni_space :: "nat \<Rightarrow> bool" where
  "uni_space c \<longleftrightarrow> 9 \<le> c \<and> c \<le> 13 \<or> 28 \<le> c \<and> c \<le> 32 \<or> 8192 \<le> c \<and> c \<le> 8202
     \<or> c \<in> set [133, 160, 5760, 8232, 8233, 8239, 8287, 12288]"

definition uni_strip :: "utext \<Rightarrow> utext" where
  "uni_strip t = rev (dropWhile uni_space (rev (dropWhile uni_space t)))"

text \<open>The zeros of the decimal digit blocks (Unicode 15): the ten digits of a block follow each other.\<close>

definition uni_zeros :: "nat list" where
  "uni_zeros = [48, 1632, 1776, 1984, 2406, 2534, 2662, 2790, 2918, 3046, 3174, 3302, 3430, 3558, 3664,
     3792, 3872, 4160, 4240, 6112, 6160, 6470, 6608, 6784, 6800, 6992, 7088, 7232, 7248, 42528, 43216,
     43264, 43472, 43504, 43600, 44016, 65296, 66720, 68912, 69734, 69872, 69942, 70096, 70384, 70736,
     70864, 71248, 71360, 71472, 71904, 72016, 72784, 73040, 73120, 73552, 92768, 92864, 93008, 120782,
     120792, 120802, 120812, 120822, 123200, 123632, 124144, 125264, 130032]"

definition uni_digit :: "nat \<Rightarrow> nat option" where
  "uni_digit c = map_option (\<lambda>z. c - z) (find (\<lambda>z. z \<le> c \<and> c < z + 10) uni_zeros)"

definition uni_is_digit :: "nat \<Rightarrow> bool" where
  "uni_is_digit c = (uni_digit c \<noteq> None)"

definition uni_digits_val :: "utext \<Rightarrow> nat" where
  "uni_digits_val ds = foldl (\<lambda>a c. 10 * a + the (uni_digit c)) 0 ds"

lemma uni_strip_Nil_iff: "uni_strip t = [] \<longleftrightarrow> list_all uni_space t"
proof -
  have "uni_strip t = [] \<longleftrightarrow> (\<forall>c \<in> set (dropWhile uni_space t). uni_space c)"
    by (simp add: uni_strip_def dropWhile_eq_Nil_conv)
  also have "\<dots> \<longleftrightarrow> dropWhile uni_space t = []"
    by (metis dropWhile_eq_Nil_conv hd_dropWhile list.set_sel(1) empty_iff list.set(1))
  finally show ?thesis by (simp add: dropWhile_eq_Nil_conv list_all_iff)
qed

section \<open>Canonical integer texts\<close>

definition ascii_digit :: "nat \<Rightarrow> bool" where
  "ascii_digit c \<longleftrightarrow> 48 \<le> c \<and> c \<le> 57"

text \<open>The regular expression \<open>0|[1-9][0-9]*\<close>, applied to the whole text.\<close>

definition canonical_int :: "utext \<Rightarrow> bool" where
  "canonical_int t = (case t of [] \<Rightarrow> False
     | c # cs \<Rightarrow> c = 48 \<and> cs = [] \<or> 49 \<le> c \<and> c \<le> 57 \<and> list_all ascii_digit cs)"

definition text_val :: "utext \<Rightarrow> nat" where
  "text_val t = foldl (\<lambda>a c. 10 * a + (c - 48)) 0 t"

text \<open>\<open>s < t\<close> on texts is lexicographic on code points.\<close>

fun text_less :: "utext \<Rightarrow> utext \<Rightarrow> bool" where
  "text_less _ [] = False"
| "text_less [] (_ # _) = True"
| "text_less (a # s) (b # t) = (a < b \<or> a = b \<and> text_less s t)"

definition compare_canonical :: "utext \<Rightarrow> utext \<Rightarrow> int" where
  "compare_canonical l r =
    (if length l \<noteq> length r then (if length l < length r then - 1 else 1)
     else if l = r then 0
     else if text_less l r then - 1 else 1)"

text \<open>
  The loop of \<open>_add_canonical\<close>, from the last digits on. On texts with characters below \<open>0\<close> it may
  not end (a negative carry stays negative), so it is a partial function.
\<close>

partial_function (option) add_loop ::
  "utext \<Rightarrow> utext \<Rightarrow> int \<Rightarrow> int \<Rightarrow> int \<Rightarrow> utext \<Rightarrow> utext option" where
  "add_loop left right i j carry digits =
    (if 0 \<le> i \<or> 0 \<le> j \<or> carry \<noteq> 0 then
       (let total = carry + (if 0 \<le> i then int (left ! nat i) - 48 else 0)
                          + (if 0 \<le> j then int (right ! nat j) - 48 else 0)
        in add_loop left right (if 0 \<le> i then i - 1 else i) (if 0 \<le> j then j - 1 else j)
             (total div 10) (digits @ [nat (48 + total mod 10)]))
     else Some digits)"

declare add_loop.simps [code]

definition add_canonical :: "utext \<Rightarrow> utext \<Rightarrow> utext option" where
  "add_canonical left right =
     map_option rev (add_loop left right (int (length left) - 1) (int (length right) - 1) 0 [])"

definition show_text :: "int \<Rightarrow> utext" where
  "show_text n = ut (show_int n)"


section \<open>The arithmetic of the texts is the arithmetic of the numbers\<close>

lemma canonical_int_Cons [simp]:
  "canonical_int (c # cs) \<longleftrightarrow> c = 48 \<and> cs = [] \<or> 49 \<le> c \<and> c \<le> 57 \<and> list_all ascii_digit cs"
  by (simp add: canonical_int_def)

lemma canonical_int_digits: "canonical_int t \<Longrightarrow> t \<noteq> [] \<and> list_all ascii_digit t"
  by (cases t) (auto simp: canonical_int_def ascii_digit_def)

lemma text_val_Nil [simp]: "text_val [] = 0"
  by (simp add: text_val_def)

lemma text_val_snoc: "text_val (t @ [c]) = 10 * text_val t + (c - 48)"
  by (simp add: text_val_def)

lemma foldl_digits: "foldl (\<lambda>a c. 10 * a + (c - 48)) n t = n * 10 ^ length t + text_val t"
proof (induction t rule: rev_induct)
  case (snoc c t)
  then show ?case by (simp add: text_val_snoc algebra_simps)
qed (simp add: text_val_def)

lemma text_val_Cons: "text_val (c # t) = (c - 48) * 10 ^ length t + text_val t"
  by (metis (mono_tags, lifting) text_val_def foldl_Cons foldl_digits mult_0_right add_0)

lemma text_val_less: "list_all ascii_digit t \<Longrightarrow> text_val t < 10 ^ length t"
proof (induction t rule: rev_induct)
  case (snoc c t)
  then have "text_val t < 10 ^ length t" "c - 48 \<le> 9" by (auto simp: ascii_digit_def)
  then show ?case by (simp add: text_val_snoc)
qed (simp add: text_val_def)

lemma canonical_val_ge:
  assumes "canonical_int (c # cs)" "cs \<noteq> []"
  shows "10 ^ length cs \<le> text_val (c # cs)"
proof -
  have "1 \<le> c - 48" using assms by auto
  then have "1 * 10 ^ length cs \<le> (c - 48) * 10 ^ length cs" by (intro mult_right_mono) auto
  then show ?thesis unfolding text_val_Cons by (metis mult_1 trans_le_add1)
qed

lemma canonical_shorter_less:
  assumes "canonical_int a" "canonical_int b" "length a < length b"
  shows "text_val a < text_val b"
proof -
  obtain c cs where b: "b = c # cs" "cs \<noteq> []"
    using assms(3) canonical_int_digits[OF assms(1)] canonical_int_digits[OF assms(2)]
    by (metis One_nat_def length_0_conv length_Cons less_one list.exhaust)
  have "text_val a < 10 ^ length a" using assms(1) canonical_int_digits text_val_less by blast
  also have "\<dots> \<le> 10 ^ length cs" using assms(3) b by (intro power_increasing) auto
  also have "\<dots> \<le> text_val b" using canonical_val_ge assms(2) b by simp
  finally show ?thesis .
qed

lemma text_less_val:
  "length a = length b \<Longrightarrow> list_all ascii_digit a \<Longrightarrow> list_all ascii_digit b
     \<Longrightarrow> text_less a b \<longleftrightarrow> text_val a < text_val b"
proof (induction a b rule: text_less.induct)
  case (3 x s y t)
  then have len: "length s = length t" and d: "list_all ascii_digit s" "list_all ascii_digit t"
    and xy: "48 \<le> x" "48 \<le> y" by (simp_all add: ascii_digit_def[of x] ascii_digit_def[of y])
  have bs: "text_val s < 10 ^ length t" "text_val t < 10 ^ length t"
    using text_val_less[OF d(1)] text_val_less[OF d(2)] len by auto
  have lead: "(p - 48) * 10 ^ length t + m < (q - 48) * 10 ^ length t + (n::nat)"
    if "p < q" "48 \<le> p" "m < 10 ^ length t" for p q m n :: nat
  proof -
    have "(p - 48) * 10 ^ length t + m < (p - 48) * 10 ^ length t + 10 ^ length t" using that by simp
    also have "\<dots> = Suc (p - 48) * 10 ^ length t" by simp
    also have "\<dots> \<le> (q - 48) * 10 ^ length t" using that by (intro mult_right_mono) auto
    finally show ?thesis by simp
  qed
  consider "x < y" | "x = y" | "y < x" by linarith
  then show ?case
  proof cases
    case 1 then show ?thesis using lead[OF 1 xy(1) bs(1)] len by (simp add: text_val_Cons)
  next
    case 2 then show ?thesis using 3(1) 2 len d by (simp add: text_val_Cons)
  next
    case 3 then show ?thesis using lead[OF 3 xy(2) bs(2), of "text_val s"] len by (simp add: text_val_Cons)
  qed
qed (auto simp: text_val_def)

lemma base_digits_unique:
  assumes "x * q + m = y * q + (n::nat)" "m < q" "n < q"
  shows "x = y \<and> m = n"
proof -
  have "x = (x * q + m) div q" "m = (x * q + m) mod q" "y = (y * q + n) div q" "n = (y * q + n) mod q"
    using assms(2,3) by auto
  then show ?thesis using assms(1) by metis
qed

lemma text_val_inj:
  "length a = length b \<Longrightarrow> list_all ascii_digit a \<Longrightarrow> list_all ascii_digit b
     \<Longrightarrow> text_val a = text_val b \<Longrightarrow> a = b"
proof (induction a b rule: list_induct2)
  case (Cons x xs y ys)
  have "text_val xs < 10 ^ length ys" "text_val ys < 10 ^ length ys"
    using text_val_less[of xs] text_val_less[of ys] Cons by auto
  moreover have "(x - 48) * 10 ^ length ys + text_val xs = (y - 48) * 10 ^ length ys + text_val ys"
    using Cons by (simp add: text_val_Cons)
  ultimately have "x - 48 = y - 48" "text_val xs = text_val ys"
    by (auto dest: base_digits_unique)
  moreover have "48 \<le> x" "48 \<le> y" using Cons by (auto simp: ascii_digit_def)
  ultimately show ?case using Cons by auto
qed simp

lemma canonical_val_inj:
  assumes "canonical_int a" "canonical_int b" "text_val a = text_val b"
  shows "a = b"
proof -
  have "length a = length b"
    using canonical_shorter_less[OF assms(1,2)] canonical_shorter_less[OF assms(2,1)] assms(3)
    by (cases "length a" "length b" rule: linorder_cases) auto
  moreover have "list_all ascii_digit a" "list_all ascii_digit b" using assms canonical_int_digits by auto
  ultimately show ?thesis using assms(3) by (rule text_val_inj)
qed

lemma compare_canonical_eq:
  assumes "canonical_int a" "canonical_int b"
  shows "compare_canonical a b = sgn (int (text_val a) - int (text_val b))"
proof (cases "length a" "length b" rule: linorder_cases)
  case equal
  have "list_all ascii_digit a" "list_all ascii_digit b" using assms canonical_int_digits by auto
  then have "text_less a b \<longleftrightarrow> text_val a < text_val b" using equal by (simp add: text_less_val)
  then show ?thesis using equal canonical_val_inj[OF assms]
    by (auto simp: compare_canonical_def sgn_if)
qed (use canonical_shorter_less[OF assms] canonical_shorter_less[OF assms(2,1)] in
      \<open>auto simp: compare_canonical_def sgn_if\<close>)

text \<open>The addition on the reversed digits, which the loop carries out.\<close>

fun add_rev :: "utext \<Rightarrow> utext \<Rightarrow> nat \<Rightarrow> utext" where
  "add_rev [] [] c = (if c = 0 then [] else [48 + c])"
| "add_rev (x # xs) [] c = (48 + (x - 48 + c) mod 10) # add_rev xs [] ((x - 48 + c) div 10)"
| "add_rev [] (y # ys) c = (48 + (y - 48 + c) mod 10) # add_rev [] ys ((y - 48 + c) div 10)"
| "add_rev (x # xs) (y # ys) c =
     (48 + (x - 48 + (y - 48) + c) mod 10) # add_rev xs ys ((x - 48 + (y - 48) + c) div 10)"

lemma add_loop_done: "add_loop l r (- 1) (- 1) 0 acc = Some acc"
  by (subst add_loop.simps) simp

lemma add_loop_next:
  assumes "0 \<le> i \<or> 0 \<le> j \<or> c \<noteq> 0"
    and "c + (if 0 \<le> i then int (l ! nat i) - 48 else 0) + (if 0 \<le> j then int (r ! nat j) - 48 else 0) = s"
    and "(if 0 \<le> i then i - 1 else i) = i'" "(if 0 \<le> j then j - 1 else j) = j'"
  shows "add_loop l r i j c acc = add_loop l r i' j' (s div 10) (acc @ [nat (48 + s mod 10)])"
  using assms(1) by (subst add_loop.simps) (simp only: assms if_True Let_def)

lemma add_loop_eq:
  assumes "n \<le> length l" "m \<le> length r" "list_all ascii_digit l" "list_all ascii_digit r" "c \<le> 1"
  shows "add_loop l r (int n - 1) (int m - 1) (int c) acc =
           Some (acc @ add_rev (rev (take n l)) (rev (take m r)) c)"
  using assms
proof (induction "n + m" arbitrary: n m c acc rule: less_induct)
  case less
  have digit: "48 \<le> l ! i \<and> l ! i \<le> 57" if "i < length l" for i
    using less(4) that by (auto simp: list_all_length ascii_digit_def)
  have digit': "48 \<le> r ! i \<and> r ! i \<le> 57" if "i < length r" for i
    using less(5) that by (auto simp: list_all_length ascii_digit_def)
  show ?case
  proof (cases "n + m = 0")
    case True
    then show ?thesis
      using less(6) by (cases "c = 0") (simp_all add: add_loop_done add_loop_next add_loop_next[OF _ refl refl refl])
  next
    case False
    define x where "x = (if n = 0 then 0 else l ! (n - 1) - 48)"
    define y where "y = (if m = 0 then 0 else r ! (m - 1) - 48)"
    define t where "t = x + y + c"
    have xy: "x \<le> 9" "y \<le> 9"
      using digit[of "n - 1"] digit'[of "m - 1"] less(2,3) by (simp_all add: x_def y_def) linarith+
    then have t: "t div 10 \<le> 1" using less(6) by (auto simp: t_def)
    have nat_n: "nat (int n - 1) = n - 1" "nat (int m - 1) = m - 1" by simp_all
    have "int c + (if 0 \<le> int n - 1 then int (l ! nat (int n - 1)) - 48 else 0)
        + (if 0 \<le> int m - 1 then int (r ! nat (int m - 1)) - 48 else 0) = int t"
      using digit[of "n - 1"] digit'[of "m - 1"] less(2,3) unfolding nat_n
      by (cases n; cases m) (auto simp: t_def x_def y_def)
    then have "add_loop l r (int n - 1) (int m - 1) (int c) acc =
        add_loop l r (int (n - 1) - 1) (int (m - 1) - 1) (int t div 10) (acc @ [nat (48 + int t mod 10)])"
      using False by (intro add_loop_next) auto
    also have "\<dots> = add_loop l r (int (n - 1) - 1) (int (m - 1) - 1) (int (t div 10)) (acc @ [48 + t mod 10])"
      by (simp add: zdiv_int nat_add_distrib nat_mod_distrib)
    also have "\<dots> = Some ((acc @ [48 + t mod 10]) @ add_rev (rev (take (n - 1) l)) (rev (take (m - 1) r)) (t div 10))"
      using False less(2-5) t by (intro less(1)) auto
    also have "(acc @ [48 + t mod 10]) @ add_rev (rev (take (n - 1) l)) (rev (take (m - 1) r)) (t div 10) =
        acc @ add_rev (rev (take n l)) (rev (take m r)) c"
      using False less(2,3) by (cases n; cases m) (auto simp: t_def x_def y_def take_Suc_conv_app_nth)
    finally show ?thesis .
  qed
qed

lemma carry_le:
  "ascii_digit x \<Longrightarrow> c \<le> 1 \<Longrightarrow> (x - 48 + c) div 10 \<le> 1"
  "ascii_digit x \<Longrightarrow> ascii_digit y \<Longrightarrow> c \<le> 1 \<Longrightarrow> (x - 48 + (y - 48) + c) div 10 \<le> 1"
  by (auto simp: ascii_digit_def)

lemma ascii_digit_out: "ascii_digit (48 + s mod 10)"
  by (simp add: ascii_digit_def)

lemma add_rev_digits:
  "list_all ascii_digit xs \<Longrightarrow> list_all ascii_digit ys \<Longrightarrow> c \<le> 1 \<Longrightarrow> list_all ascii_digit (add_rev xs ys c)"
  by (induction xs ys c rule: add_rev.induct)
    (use carry_le in \<open>auto simp: ascii_digit_out simp del: One_nat_def\<close>, auto simp: ascii_digit_def)

lemma add_rev_val:
  "list_all ascii_digit xs \<Longrightarrow> list_all ascii_digit ys \<Longrightarrow> c \<le> 1
     \<Longrightarrow> text_val (rev (add_rev xs ys c)) = text_val (rev xs) + text_val (rev ys) + c"
proof (induction xs ys c rule: add_rev.induct)
  case (2 x xs c)
  then have "(x - 48 + c) div 10 \<le> 1" by (auto simp: ascii_digit_def)
  then show ?case using 2 by (simp add: text_val_snoc)
next
  case (3 y ys c)
  then have "(y - 48 + c) div 10 \<le> 1" by (auto simp: ascii_digit_def)
  then show ?case using 3 by (simp add: text_val_snoc)
next
  case (4 x xs y ys c)
  then have "(x - 48 + (y - 48) + c) div 10 \<le> 1" by (auto simp: ascii_digit_def)
  then show ?case using 4 by (simp add: text_val_snoc)
qed (auto simp: text_val_def)

text \<open>No leading zero appears if the longer summand has none.\<close>

definition leads :: "utext \<Rightarrow> utext \<Rightarrow> bool" where
  "leads xs ys \<longleftrightarrow> (length ys \<le> length xs \<and> xs \<noteq> [] \<and> last xs \<noteq> 48) \<or>
     (length xs \<le> length ys \<and> ys \<noteq> [] \<and> last ys \<noteq> 48)"

lemma add_rev_carry: "add_rev xs ys (Suc 0) \<noteq> []"
  by (cases "(xs, ys, Suc 0)" rule: add_rev.cases) auto

lemma add_rev_lead:
  "leads xs ys \<or> xs = [] \<and> ys = [] \<and> c \<noteq> 0 \<Longrightarrow> list_all ascii_digit xs \<Longrightarrow> list_all ascii_digit ys \<Longrightarrow> c \<le> 1
     \<Longrightarrow> add_rev xs ys c \<noteq> [] \<and> last (add_rev xs ys c) \<noteq> 48"
proof (induction xs ys c rule: add_rev.induct)
  case (2 x xs c)
  then have "(x - 48 + c) div 10 \<le> 1" by (auto simp: ascii_digit_def)
  with 2 show ?case by (cases "xs = []") (auto simp: leads_def ascii_digit_def)
next
  case (3 y ys c)
  then have "(y - 48 + c) div 10 \<le> 1" by (auto simp: ascii_digit_def)
  with 3 show ?case by (cases "ys = []") (auto simp: leads_def ascii_digit_def)
next
  case (4 x xs y ys c)
  then have "(x - 48 + (y - 48) + c) div 10 \<le> 1" by (auto simp: ascii_digit_def)
  with 4 show ?case by (cases "xs = []"; cases "ys = []") (auto simp: leads_def ascii_digit_def)
qed (auto simp: leads_def)

lemma canonical_lead:
  "list_all ascii_digit t \<Longrightarrow> t \<noteq> [] \<Longrightarrow> hd t \<noteq> 48 \<Longrightarrow> canonical_int t"
  by (cases t) (auto simp: ascii_digit_def canonical_int_def)

lemma add_canonical_exact:
  assumes "canonical_int a" "canonical_int b"
  shows "\<exists>t. add_canonical a b = Some t \<and> canonical_int t \<and> text_val t = text_val a + text_val b"
proof -
  let ?ds = "add_rev (rev a) (rev b) 0"
  have d: "a \<noteq> []" "b \<noteq> []" "list_all ascii_digit a" "list_all ascii_digit b"
    using assms canonical_int_digits by auto
  have eq: "add_canonical a b = Some (rev ?ds)"
    using add_loop_eq[of "length a" a "length b" b 0 "[]"] d by (simp add: add_canonical_def)
  have val: "text_val (rev ?ds) = text_val a + text_val b"
    using add_rev_val[of "rev a" "rev b" 0] d by simp
  have "canonical_int (rev ?ds)"
  proof (cases "a = [48] \<and> b = [48]")
    case False
    then have "leads (rev a) (rev b)"
      using assms d by (cases a; cases b) (auto simp: leads_def)
    then have "?ds \<noteq> [] \<and> last ?ds \<noteq> 48" using d by (intro add_rev_lead) auto
    then show ?thesis using add_rev_digits[of "rev a" "rev b" 0] d by (intro canonical_lead) (auto simp: hd_rev)
  qed auto
  then show ?thesis using eq val by blast
qed

lemma show_digit_code: "0 \<le> d \<Longrightarrow> d \<le> 9 \<Longrightarrow> (of_char (show_digit d) :: nat) = nat d + 48"
proof -
  assume d: "0 \<le> d" "d \<le> 9"
  have "(of_char (show_digit d) :: int) = d + 48"
    using d by (simp add: show_digit_def)
  then have "int (of_char (show_digit d)) = d + 48" by (simp only: of_nat_of_char)
  then show ?thesis using d by simp
qed

lemma show_nat_text:
  "0 \<le> n \<Longrightarrow> ut (show_nat_int n) =
     (if n < 10 then [nat n + 48] else ut (show_nat_int (n div 10)) @ [nat (n mod 10) + 48])"
  by (subst show_nat_int.simps) (simp add: ut_def show_digit_code)

lemma nat_div_mod: "0 \<le> n \<Longrightarrow> 10 * nat (n div 10) + nat (n mod 10) = nat n"
  by (rule int_int_eq[THEN iffD1]) (simp add: pos_imp_zdiv_nonneg_iff)

lemma show_text_val:
  "0 \<le> n \<Longrightarrow> canonical_int (show_text n) \<and> text_val (show_text n) = nat n"
proof -
  have "canonical_int (ut (show_nat_int n)) \<and> text_val (ut (show_nat_int n)) = nat n
      \<and> (n \<noteq> 0 \<longrightarrow> hd (ut (show_nat_int n)) \<noteq> 48)" if "0 \<le> n" for n
    using that
  proof (induction n rule: show_nat_int.induct)
    case (1 n)
    show ?case
    proof (cases "n < 10")
      case True
      then show ?thesis using 1 by (subst (1 2 3) show_nat_text) (auto simp: text_val_def nat_less_iff)
    next
      case False
      let ?t = "ut (show_nat_int (n div 10))"
      have IH: "canonical_int ?t" "text_val ?t = nat (n div 10)" "hd ?t \<noteq> 48"
        using 1(1)[OF False] False by auto
      have t: "ut (show_nat_int n) = ?t @ [nat (n mod 10) + 48]" using 1(2) False by (simp add: show_nat_text)
      have "list_all ascii_digit (?t @ [nat (n mod 10) + 48])"
        using canonical_int_digits[OF IH(1)] by (simp add: ascii_digit_def nat_le_iff)
      then have "canonical_int (ut (show_nat_int n))"
        unfolding t using IH(3) canonical_int_digits[OF IH(1)] by (intro canonical_lead) (auto simp: hd_append)
      moreover have "text_val (ut (show_nat_int n)) = nat n"
        unfolding t using IH(2) 1(2) by (simp add: text_val_snoc nat_div_mod)
      ultimately show ?thesis using IH canonical_int_digits[OF IH(1)] t by (auto simp: hd_append)
    qed
  qed
  then show "0 \<le> n \<Longrightarrow> ?thesis" by (simp add: show_text_def show_int_def)
qed

end
