(* ===== verification/ShadowModel.thy ===== *)
theory ShadowModel
  imports ShadowText
begin

text \<open>
  The logical model of the shadow reconstruction (\<open>phase6_2_shadow_intent/logical_model.py\<close>): frozen
  slotted objects whose constructors validate every field, and factories for the artifact and the two
  snapshots. The code defends itself against objects made with \<open>object.__new__\<close>, whose slots may be
  missing or hold anything, so the objects are untyped here: \<open>pobj\<close> is the universe of Python
  objects the reconstruction distinguishes, an instance carries one optional value per declared
  slot, and a validator accepts an object or raises. The lemmas say which objects pass.
\<close>

section \<open>Python objects\<close>

text \<open>The classes with slots, of this module and of the modules that import it.\<close>

datatype cls =
    OpaqueSilverPairKey | NoPredecessor | PredecessorReference
  | DirectionalShadowIntentDefinition | InertShadowIntentDefinition | ShadowIntentDefinitionArtifact
  | EstablishedRootContext | NoRootEvidence | EstablishedRootEvidence
  | ShadowIntentLifecycleSlot | ShadowLifecycleSnapshot | SeenTargetPairsSnapshot
  | SilverPairProjection | ObservationKindProjection | ScoreFamilyProjection | ScoreContextProjection
  | ScoreTimestampProjection | ScoreUnitProjection | ScoreMagnitudeProjection
  | RawJsonInt | RawJsonFloat | SealedArtifactReference | PairedS1Projection

fun slots_of :: "cls \<Rightarrow> string list" where
  "slots_of OpaqueSilverPairKey = [''silver_artifact_locator_text'', ''silver_physical_record_position_text'']"
| "slots_of NoPredecessor = []"
| "slots_of PredecessorReference = [''opaque_reference'']"
| "slots_of DirectionalShadowIntentDefinition = [''exposure_orientation'', ''passive_boundary_magnitude'',
     ''boundary_unit_context'', ''hypothetical_window_duration_ms'']"
| "slots_of InertShadowIntentDefinition = [''exposure_orientation'', ''hypothetical_window_duration_ms'']"
| "slots_of ShadowIntentDefinitionArtifact = [''artifact_field_shape_version_reference'',
     ''artifact_version_reference'', ''declarer_opaque_reference'',
     ''predecessor_artifact_version_reference'', ''definitions_by_silver_pair'']"
| "slots_of EstablishedRootContext = [''source_venue_context_text'', ''source_pair_context_text'']"
| "slots_of NoRootEvidence = []"
| "slots_of EstablishedRootEvidence = [''root_context'', ''provenance_anchor_timestamp_text'']"
| "slots_of ShadowIntentLifecycleSlot =
     [''shadow_intent_identity_reference'', ''lifecycle_state'', ''root_evidence'']"
| "slots_of ShadowLifecycleSnapshot = [''slots_by_identity'']"
| "slots_of SeenTargetPairsSnapshot = [''seen_target_pairs'']"
| "slots_of SilverPairProjection = [''silver_artifact_locator'', ''silver_physical_record_position'']"
| "slots_of ObservationKindProjection = [''observation_kind'']"
| "slots_of ScoreFamilyProjection = [''observation_kind'', ''family_descriptor'']"
| "slots_of ScoreContextProjection = [''score_inputs_summary'']"
| "slots_of ScoreTimestampProjection = [''provenance_timestamp'']"
| "slots_of ScoreUnitProjection = [''score_unit_context'']"
| "slots_of ScoreMagnitudeProjection = [''passive_score_magnitude_text'', ''passive_score_magnitude'']"
| "slots_of RawJsonInt = [''lexical'']"
| "slots_of RawJsonFloat = [''lexical'']"
| "slots_of SealedArtifactReference = [''opaque_artifact_locator'', ''expected_detached_sha256_digest'']"
| "slots_of PairedS1Projection = [''polymarket_source_authority'', ''polymarket_token_id'',
     ''polymarket_outcome_label'', ''polymarket_timestamp_ms'', ''polymarket_timestamp_raw_string'',
     ''polymarket_capture_sequence'', ''polymarket_response_body_sha256'',
     ''hyperliquid_source_authority'', ''hyperliquid_coin'', ''hyperliquid_time_ms'',
     ''hyperliquid_best_bid_px_decimal'', ''hyperliquid_best_bid_sz_decimal'',
     ''hyperliquid_best_bid_order_count'', ''hyperliquid_best_ask_px_decimal'',
     ''hyperliquid_best_ask_sz_decimal'', ''hyperliquid_best_ask_order_count'',
     ''hyperliquid_capture_sequence'', ''hyperliquid_response_body_sha256'', ''event_time_delta_ms'']"

text \<open>
  \<open>OProxy\<close> is a \<open>MappingProxyType\<close> over a dict in insertion order, \<open>ORow\<close> an \<open>sqlite3.Row\<close> with its columns;
  a frozenset lists its members, in some order. \<open>OOther\<close> is any object of another type.
\<close>

datatype pobj =
    ONone | OBool bool | OInt int | OText utext | OBytes "nat list" | ODec dec | OOther
  | OTuple "pobj list" | OList "pobj list" | OFrozenset "pobj list"
  | ODict "(pobj \<times> pobj) list" | OProxy "(pobj \<times> pobj) list" | ORow "(utext \<times> pobj) list"
  | OInst cls "pobj option list"

abbreviation new :: "cls \<Rightarrow> pobj list \<Rightarrow> pobj" where
  "new c vs \<equiv> OInst c (map Some vs)"

text \<open>\<open>type(x) is C\<close>, and an attribute, which is absent from a forged instance.\<close>

definition type_is :: "cls \<Rightarrow> pobj \<Rightarrow> bool" where
  "type_is c x = (case x of OInst c' fs \<Rightarrow> c' = c \<and> length fs = length (slots_of c) | _ \<Rightarrow> False)"

definition py_attr :: "pobj \<Rightarrow> string \<Rightarrow> pobj option" where
  "py_attr x n = (case x of
     OInst c fs \<Rightarrow> (case map_of (zip (slots_of c) fs) n of Some v \<Rightarrow> v | None \<Rightarrow> None)
   | _ \<Rightarrow> None)"

definition is_text :: "pobj \<Rightarrow> bool" where
  "is_text x = (case x of OText _ \<Rightarrow> True | _ \<Rightarrow> False)"

lemma is_text_iff: "is_text x \<longleftrightarrow> (\<exists>t. x = OText t)"
  by (cases x) (auto simp: is_text_def)

lemma is_text_OText [simp]: "is_text (OText t)"
  by (simp add: is_text_def)

section \<open>Validators\<close>

abbreviation otext :: "string \<Rightarrow> pobj" where
  "otext s \<equiv> OText (ut s)"

definition DIRECTIONAL_ORIENTATIONS :: "pobj list" where
  "DIRECTIONAL_ORIENTATIONS = [otext ''POSITIVE_EXPOSURE'', otext ''NEGATIVE_EXPOSURE'']"

definition AUDIT_REPLAYED :: pobj where "AUDIT_REPLAYED = otext ''AUDIT_REPLAYED''"
definition INTENT_RECORDED :: pobj where "INTENT_RECORDED = otext ''INTENT_RECORDED''"
definition HYPOTHETICAL_CONDITION_MET :: pobj where
  "HYPOTHETICAL_CONDITION_MET = otext ''HYPOTHETICAL_CONDITION_MET''"
definition INTENT_EXPIRED :: pobj where "INTENT_EXPIRED = otext ''INTENT_EXPIRED''"
definition INTENT_RETIRED :: pobj where "INTENT_RETIRED = otext ''INTENT_RETIRED''"

definition CLOSED_LIFECYCLE_STATES :: "pobj list" where
  "CLOSED_LIFECYCLE_STATES =
     [AUDIT_REPLAYED, INTENT_RECORDED, HYPOTHETICAL_CONDITION_MET, INTENT_EXPIRED, INTENT_RETIRED]"

lemmas lifecycle_defs =
  AUDIT_REPLAYED_def INTENT_RECORDED_def HYPOTHETICAL_CONDITION_MET_def INTENT_EXPIRED_def INTENT_RETIRED_def

lemma lifecycle_distinct [simp]:
  "distinct [AUDIT_REPLAYED, INTENT_RECORDED, HYPOTHETICAL_CONDITION_MET, INTENT_EXPIRED, INTENT_RETIRED]"
  by (simp add: lifecycle_defs)

definition require_opaque_text :: "pobj \<Rightarrow> unit result" where
  "require_opaque_text v = raise_unless (is_text v) LogicalModelError"

definition MAX_HYPOTHETICAL_WINDOW_DURATION_MS :: int where
  "MAX_HYPOTHETICAL_WINDOW_DURATION_MS = 9223372036854775807"

definition require_non_negative_int_ms :: "pobj \<Rightarrow> unit result" where
  "require_non_negative_int_ms v = (case v of
     OInt n \<Rightarrow> if n < 0 then Inl LogicalModelError
               else if n > MAX_HYPOTHETICAL_WINDOW_DURATION_MS then Inl LogicalModelError
               else Inr ()
   | _ \<Rightarrow> Inl LogicalModelError)"

definition require_finite_decimal :: "pobj \<Rightarrow> unit result" where
  "require_finite_decimal v = (case v of ODec (DFin _) \<Rightarrow> Inr () | _ \<Rightarrow> Inl LogicalModelError)"

definition require_directional_orientation :: "pobj \<Rightarrow> unit result" where
  "require_directional_orientation v = raise_unless (v \<in> set DIRECTIONAL_ORIENTATIONS) LogicalModelError"

definition require_inert_orientation :: "pobj \<Rightarrow> unit result" where
  "require_inert_orientation v = raise_unless (v = otext ''INERT_STATE'') LogicalModelError"

definition validate_lifecycle_state :: "pobj \<Rightarrow> unit result" where
  "validate_lifecycle_state v = raise_unless (v \<in> set CLOSED_LIFECYCLE_STATES) LogicalModelError"

text \<open>\<open>_slot_value\<close>: a missing slot is a model error.\<close>

definition slot_value :: "pobj \<Rightarrow> string \<Rightarrow> pobj result" where
  "slot_value x n = (case py_attr x n of Some v \<Rightarrow> Inr v | None \<Rightarrow> Inl LogicalModelError)"

definition check_slot :: "(pobj \<Rightarrow> unit result) \<Rightarrow> pobj \<Rightarrow> string \<Rightarrow> unit result" where
  "check_slot v x n = rbind (slot_value x n) v"

section \<open>Keys, predecessors, definitions\<close>

definition make_opaque_silver_pair_key :: "pobj \<Rightarrow> pobj \<Rightarrow> pobj result" where
  "make_opaque_silver_pair_key l p =
     rbind (require_opaque_text l) (\<lambda>_. rbind (require_opaque_text p) (\<lambda>_.
       Inr (new OpaqueSilverPairKey [l, p])))"

definition make_predecessor_reference :: "pobj \<Rightarrow> pobj result" where
  "make_predecessor_reference r =
     rbind (require_opaque_text r) (\<lambda>_. Inr (new PredecessorReference [r]))"

definition require_predecessor_option :: "pobj \<Rightarrow> unit result" where
  "require_predecessor_option v =
    (if type_is NoPredecessor v then Inr ()
     else if type_is PredecessorReference v then check_slot require_opaque_text v ''opaque_reference''
     else Inl LogicalModelError)"

definition make_directional_shadow_intent_definition ::
  "pobj \<Rightarrow> pobj \<Rightarrow> pobj \<Rightarrow> pobj \<Rightarrow> pobj result" where
  "make_directional_shadow_intent_definition orientation magnitude unit_context duration =
     rbind (require_directional_orientation orientation) (\<lambda>_.
     rbind (require_finite_decimal magnitude) (\<lambda>_.
     rbind (require_opaque_text unit_context) (\<lambda>_.
     rbind (require_non_negative_int_ms duration) (\<lambda>_.
       Inr (new DirectionalShadowIntentDefinition [orientation, magnitude, unit_context, duration])))))"

definition make_inert_shadow_intent_definition :: "pobj \<Rightarrow> pobj \<Rightarrow> pobj result" where
  "make_inert_shadow_intent_definition orientation duration =
     rbind (require_inert_orientation orientation) (\<lambda>_.
     rbind (require_non_negative_int_ms duration) (\<lambda>_.
       Inr (new InertShadowIntentDefinition [orientation, duration])))"

definition revalidate_silver_pair_key :: "pobj \<Rightarrow> unit result" where
  "revalidate_silver_pair_key key =
     rbind (raise_unless (type_is OpaqueSilverPairKey key) LogicalModelError) (\<lambda>_.
     rbind (check_slot require_opaque_text key ''silver_artifact_locator_text'') (\<lambda>_.
       check_slot require_opaque_text key ''silver_physical_record_position_text''))"

definition revalidate_definition :: "pobj \<Rightarrow> unit result" where
  "revalidate_definition d =
    (if type_is DirectionalShadowIntentDefinition d then
       rbind (check_slot require_directional_orientation d ''exposure_orientation'') (\<lambda>_.
       rbind (check_slot require_finite_decimal d ''passive_boundary_magnitude'') (\<lambda>_.
       rbind (check_slot require_opaque_text d ''boundary_unit_context'') (\<lambda>_.
         check_slot require_non_negative_int_ms d ''hypothetical_window_duration_ms'')))
     else if type_is InertShadowIntentDefinition d then
       rbind (check_slot require_inert_orientation d ''exposure_orientation'') (\<lambda>_.
         check_slot require_non_negative_int_ms d ''hypothetical_window_duration_ms'')
     else Inl LogicalModelError)"

section \<open>The artifact\<close>

text \<open>The loop of a factory over a tuple of pairs; \<open>check\<close> is what it demands of one pair. A key that
  is already in the dict is rejected.\<close>

fun build_entries :: "(pobj \<Rightarrow> pobj \<Rightarrow> unit result) \<Rightarrow> pobj list \<Rightarrow> (pobj \<times> pobj) list
    \<Rightarrow> (pobj \<times> pobj) list result" where
  "build_entries check [] built = Inr built"
| "build_entries check (entry # entries) built =
    (case entry of
       OTuple [key, v] \<Rightarrow>
         rbind (check key v) (\<lambda>_.
           if key \<in> fst ` set built then Inl LogicalModelError
           else build_entries check entries (built @ [(key, v)]))
     | _ \<Rightarrow> Inl LogicalModelError)"

definition make_shadow_intent_definition_artifact ::
  "pobj \<Rightarrow> pobj \<Rightarrow> pobj \<Rightarrow> pobj \<Rightarrow> pobj \<Rightarrow> pobj result" where
  "make_shadow_intent_definition_artifact shape_version version declarer predecessor entries =
     rbind (require_opaque_text shape_version) (\<lambda>_.
     rbind (require_opaque_text version) (\<lambda>_.
     rbind (require_opaque_text declarer) (\<lambda>_.
     rbind (require_predecessor_option predecessor) (\<lambda>_.
       (case entries of
          OTuple es \<Rightarrow>
            rbind (build_entries (\<lambda>key d. rbind (revalidate_silver_pair_key key)
                     (\<lambda>_. revalidate_definition d)) es []) (\<lambda>built.
              Inr (new ShadowIntentDefinitionArtifact
                     [shape_version, version, declarer, predecessor, OProxy built]))
        | _ \<Rightarrow> Inl LogicalModelError)))))"

section \<open>Lifecycle slots and snapshots\<close>

definition require_nonblank_context_text :: "pobj \<Rightarrow> unit result" where
  "require_nonblank_context_text v = (case v of
     OText t \<Rightarrow> if uni_strip t = [] then Inl LogicalModelError else Inr ()
   | _ \<Rightarrow> Inl LogicalModelError)"

definition require_canonical_anchor_timestamp_text :: "pobj \<Rightarrow> unit result" where
  "require_canonical_anchor_timestamp_text v = (case v of
     OText t \<Rightarrow> if canonical_int t then Inr () else Inl LogicalModelError
   | _ \<Rightarrow> Inl LogicalModelError)"

definition new_established_root_context :: "pobj \<Rightarrow> pobj \<Rightarrow> pobj result" where
  "new_established_root_context venue pair =
     rbind (require_nonblank_context_text venue) (\<lambda>_.
     rbind (require_nonblank_context_text pair) (\<lambda>_.
       Inr (new EstablishedRootContext [venue, pair])))"

definition revalidate_established_root_context :: "pobj \<Rightarrow> unit result" where
  "revalidate_established_root_context ctx =
     rbind (raise_unless (type_is EstablishedRootContext ctx) LogicalModelError) (\<lambda>_.
     rbind (check_slot require_nonblank_context_text ctx ''source_venue_context_text'') (\<lambda>_.
       check_slot require_nonblank_context_text ctx ''source_pair_context_text''))"

definition new_established_root_evidence :: "pobj \<Rightarrow> pobj \<Rightarrow> pobj result" where
  "new_established_root_evidence ctx anchor =
     rbind (revalidate_established_root_context ctx) (\<lambda>_.
     rbind (require_canonical_anchor_timestamp_text anchor) (\<lambda>_.
       Inr (new EstablishedRootEvidence [ctx, anchor])))"

definition require_root_evidence_option :: "pobj \<Rightarrow> unit result" where
  "require_root_evidence_option v =
    (if type_is NoRootEvidence v then Inr ()
     else if type_is EstablishedRootEvidence v then
       rbind (check_slot revalidate_established_root_context v ''root_context'') (\<lambda>_.
         check_slot require_canonical_anchor_timestamp_text v ''provenance_anchor_timestamp_text'')
     else Inl LogicalModelError)"

definition require_slot_state_root_invariant :: "pobj \<Rightarrow> pobj \<Rightarrow> unit result" where
  "require_slot_state_root_invariant state evid =
    (if state = AUDIT_REPLAYED then raise_unless (type_is NoRootEvidence evid) LogicalModelError
     else raise_unless (type_is EstablishedRootEvidence evid) LogicalModelError)"

definition check_lifecycle_slot :: "pobj \<Rightarrow> pobj \<Rightarrow> pobj \<Rightarrow> unit result" where
  "check_lifecycle_slot identity state evid =
     rbind (revalidate_silver_pair_key identity) (\<lambda>_.
     rbind (validate_lifecycle_state state) (\<lambda>_.
     rbind (require_root_evidence_option evid) (\<lambda>_.
       require_slot_state_root_invariant state evid)))"

definition new_lifecycle_slot :: "pobj \<Rightarrow> pobj \<Rightarrow> pobj \<Rightarrow> pobj result" where
  "new_lifecycle_slot identity state evid =
     rbind (check_lifecycle_slot identity state evid) (\<lambda>_.
       Inr (new ShadowIntentLifecycleSlot [identity, state, evid]))"

definition revalidate_lifecycle_slot :: "pobj \<Rightarrow> unit result" where
  "revalidate_lifecycle_slot slot =
     rbind (raise_unless (type_is ShadowIntentLifecycleSlot slot) LogicalModelError) (\<lambda>_.
     rbind (slot_value slot ''shadow_intent_identity_reference'') (\<lambda>identity.
     rbind (slot_value slot ''lifecycle_state'') (\<lambda>state.
     rbind (slot_value slot ''root_evidence'') (\<lambda>evid.
       check_lifecycle_slot identity state evid))))"

definition check_slot_entry :: "pobj \<Rightarrow> pobj \<Rightarrow> unit result" where
  "check_slot_entry key slot =
     rbind (revalidate_silver_pair_key key) (\<lambda>_.
     rbind (revalidate_lifecycle_slot slot) (\<lambda>_.
     rbind (slot_value slot ''shadow_intent_identity_reference'') (\<lambda>identity.
       raise_unless (key = identity) LogicalModelError)))"

definition make_shadow_lifecycle_snapshot :: "pobj \<Rightarrow> pobj result" where
  "make_shadow_lifecycle_snapshot entries = (case entries of
     OTuple es \<Rightarrow> rbind (build_entries check_slot_entry es []) (\<lambda>built.
       Inr (new ShadowLifecycleSnapshot [OProxy built]))
   | _ \<Rightarrow> Inl LogicalModelError)"

fun build_members :: "pobj list \<Rightarrow> pobj list \<Rightarrow> pobj list result" where
  "build_members [] seen = Inr seen"
| "build_members (member # members) seen =
     rbind (revalidate_silver_pair_key member) (\<lambda>_.
       if member \<in> set seen then Inl LogicalModelError
       else build_members members (seen @ [member]))"

definition make_seen_target_pairs_snapshot :: "pobj \<Rightarrow> pobj result" where
  "make_seen_target_pairs_snapshot members = (case members of
     OTuple ms \<Rightarrow> rbind (build_members ms []) (\<lambda>seen.
       Inr (new SeenTargetPairsSnapshot [OFrozenset seen]))
   | _ \<Rightarrow> Inl LogicalModelError)"

section \<open>Which objects pass\<close>

lemma type_is_iff: "type_is c x \<longleftrightarrow> (\<exists>fs. x = OInst c fs \<and> length fs = length (slots_of c))"
  by (cases x) (auto simp: type_is_def)

lemma type_is_new [simp]: "type_is c (OInst c' fs) \<longleftrightarrow> c = c' \<and> length fs = length (slots_of c)"
  by (auto simp: type_is_iff)

lemma slot_value_new [simp]:
  "slot_value (OInst c fs) n = (case map_of (zip (slots_of c) fs) n of Some (Some v) \<Rightarrow> Inr v | _ \<Rightarrow> Inl LogicalModelError)"
  by (simp add: slot_value_def py_attr_def split: option.splits)

lemma check_slot_eq [simp]: "check_slot v x n = Inr r \<longleftrightarrow> (\<exists>y. slot_value x n = Inr y \<and> v y = Inr r)"
  by (simp add: check_slot_def rbind_eq_Inr)

lemma require_opaque_text_eq [simp]: "require_opaque_text v = Inr r \<longleftrightarrow> (\<exists>t. v = OText t)"
  by (simp add: require_opaque_text_def is_text_iff)

lemma require_finite_decimal_eq [simp]: "require_finite_decimal v = Inr r \<longleftrightarrow> (\<exists>q. v = ODec (DFin q))"
  by (auto simp: require_finite_decimal_def split: pobj.splits dec.splits)

lemma require_non_negative_int_ms_eq [simp]:
  "require_non_negative_int_ms v = Inr r \<longleftrightarrow>
     (\<exists>n. v = OInt n \<and> 0 \<le> n \<and> n \<le> MAX_HYPOTHETICAL_WINDOW_DURATION_MS)"
  by (auto simp: require_non_negative_int_ms_def split: pobj.splits)

lemma orientation_eq [simp]:
  "require_directional_orientation v = Inr r \<longleftrightarrow> v = otext ''POSITIVE_EXPOSURE'' \<or> v = otext ''NEGATIVE_EXPOSURE''"
  "require_inert_orientation v = Inr r \<longleftrightarrow> v = otext ''INERT_STATE''"
  by (simp_all add: require_directional_orientation_def DIRECTIONAL_ORIENTATIONS_def require_inert_orientation_def)

lemma require_nonblank_eq [simp]:
  "require_nonblank_context_text v = Inr r \<longleftrightarrow> (\<exists>t. v = OText t \<and> \<not> list_all uni_space t)"
  by (auto simp: require_nonblank_context_text_def uni_strip_Nil_iff split: pobj.splits)

lemma require_anchor_eq [simp]:
  "require_canonical_anchor_timestamp_text v = Inr r \<longleftrightarrow> (\<exists>t. v = OText t \<and> canonical_int t)"
  by (auto simp: require_canonical_anchor_timestamp_text_def split: pobj.splits)

definition okey :: "utext \<Rightarrow> utext \<Rightarrow> pobj" where
  "okey l p = new OpaqueSilverPairKey [OText l, OText p]"


definition odirectional :: "pobj \<Rightarrow> rat \<Rightarrow> utext \<Rightarrow> int \<Rightarrow> pobj" where
  "odirectional orient q un n =
     new DirectionalShadowIntentDefinition [orient, ODec (DFin q), OText un, OInt n]"

definition oinert :: "int \<Rightarrow> pobj" where
  "oinert n = new InertShadowIntentDefinition [otext ''INERT_STATE'', OInt n]"

definition oevidence :: "utext \<Rightarrow> utext \<Rightarrow> utext \<Rightarrow> pobj" where
  "oevidence venue pair anchor =
     new EstablishedRootEvidence [new EstablishedRootContext [OText venue, OText pair], OText anchor]"

definition oslot :: "pobj \<Rightarrow> pobj \<Rightarrow> pobj \<Rightarrow> pobj" where
  "oslot identity state evid = new ShadowIntentLifecycleSlot [identity, state, evid]"

definition no_root :: pobj where "no_root = new NoRootEvidence []"

lemmas object_defs = okey_def odirectional_def oinert_def oevidence_def oslot_def no_root_def

definition duration_ok :: "int \<Rightarrow> bool" where
  "duration_ok n \<longleftrightarrow> 0 \<le> n \<and> n \<le> MAX_HYPOTHETICAL_WINDOW_DURATION_MS"

definition evidence_ok :: "utext \<Rightarrow> utext \<Rightarrow> utext \<Rightarrow> bool" where
  "evidence_ok venue pair anchor \<longleftrightarrow>
     \<not> list_all uni_space venue \<and> \<not> list_all uni_space pair \<and> canonical_int anchor"

lemma key_passes: "revalidate_silver_pair_key k = Inr r \<longleftrightarrow> (\<exists>l p. k = okey l p)"
  by (auto simp: revalidate_silver_pair_key_def rbind_eq_Inr type_is_iff length_Suc_conv okey_def
      split: option.splits)

lemma definition_passes: "revalidate_definition d = Inr r \<longleftrightarrow>
    (\<exists>n. duration_ok n \<and> (d = oinert n \<or>
      (\<exists>s q un. s \<in> {otext ''POSITIVE_EXPOSURE'', otext ''NEGATIVE_EXPOSURE''} \<and> d = odirectional s q un n)))"
  by (auto simp: revalidate_definition_def rbind_eq_Inr type_is_iff length_Suc_conv duration_ok_def
      odirectional_def oinert_def split: option.splits)

lemma context_passes: "revalidate_established_root_context c = Inr r \<longleftrightarrow>
    (\<exists>v p. \<not> list_all uni_space v \<and> \<not> list_all uni_space p \<and> c = new EstablishedRootContext [OText v, OText p])"
  by (auto simp: revalidate_established_root_context_def rbind_eq_Inr type_is_iff length_Suc_conv split: option.splits)

lemma evidence_passes: "require_root_evidence_option e = Inr r \<longleftrightarrow>
    e = no_root \<or> (\<exists>v p a. evidence_ok v p a \<and> e = oevidence v p a)"
  by (auto simp: require_root_evidence_option_def rbind_eq_Inr type_is_iff length_Suc_conv context_passes
      evidence_ok_def no_root_def oevidence_def split: option.splits)

lemma slot_check_passes: "check_lifecycle_slot k s e = Inr r \<longleftrightarrow>
    (\<exists>l p. k = okey l p) \<and> s \<in> set CLOSED_LIFECYCLE_STATES \<and>
    (if s = AUDIT_REPLAYED then e = no_root else \<exists>v p a. evidence_ok v p a \<and> e = oevidence v p a)"
  by (auto simp: check_lifecycle_slot_def rbind_eq_Inr key_passes evidence_passes validate_lifecycle_state_def
      require_slot_state_root_invariant_def no_root_def oevidence_def)

lemma slot_passes: "revalidate_lifecycle_slot s = Inr r \<longleftrightarrow>
    (\<exists>k st e. s = oslot k st e \<and> check_lifecycle_slot k st e = Inr ())"
  by (auto simp: revalidate_lifecycle_slot_def rbind_eq_Inr type_is_iff length_Suc_conv oslot_def
      split: option.splits)

lemma object_inj [simp]:
  "okey l p = okey l' p' \<longleftrightarrow> l = l' \<and> p = p'"
  "oslot k st e = oslot k' st' e' \<longleftrightarrow> k = k' \<and> st = st' \<and> e = e'"
  "oevidence v p a = oevidence v' p' a' \<longleftrightarrow> v = v' \<and> p = p' \<and> a = a'"
  "oevidence v p a \<noteq> no_root" "no_root \<noteq> oevidence v p a"
  "odirectional o1 q un n = odirectional o2 q' un' n' \<longleftrightarrow> o1 = o2 \<and> q = q' \<and> un = un' \<and> n = n'"
  "oinert n = oinert n' \<longleftrightarrow> n = n'" "odirectional o1 q un n \<noteq> oinert n'" "oinert n' \<noteq> odirectional o1 q un n"
  by (auto simp: object_defs)

lemma object_slots [simp]:
  "slot_value (okey l p) ''silver_artifact_locator_text'' = Inr (OText l)"
  "slot_value (okey l p) ''silver_physical_record_position_text'' = Inr (OText p)"
  "slot_value (oslot k st e) ''shadow_intent_identity_reference'' = Inr k"
  "slot_value (oslot k st e) ''lifecycle_state'' = Inr st"
  "slot_value (oslot k st e) ''root_evidence'' = Inr e"
  "slot_value (oevidence v vp a) ''root_context'' = Inr (new EstablishedRootContext [OText v, OText vp])"
  "slot_value (oevidence v vp a) ''provenance_anchor_timestamp_text'' = Inr (OText a)"
  "slot_value (odirectional d q un n) ''exposure_orientation'' = Inr d"
  "slot_value (odirectional d q un n) ''passive_boundary_magnitude'' = Inr (ODec (DFin q))"
  "slot_value (odirectional d q un n) ''boundary_unit_context'' = Inr (OText un)"
  "slot_value (odirectional d q un n) ''hypothetical_window_duration_ms'' = Inr (OInt n)"
  "slot_value (oinert n) ''exposure_orientation'' = Inr (otext ''INERT_STATE'')"
  "slot_value (oinert n) ''hypothetical_window_duration_ms'' = Inr (OInt n)"
  by (simp_all add: object_defs)

lemma object_types [simp]:
  "type_is DirectionalShadowIntentDefinition (odirectional d q un n)"
  "\<not> type_is DirectionalShadowIntentDefinition (oinert n)"
  "type_is InertShadowIntentDefinition (oinert n)"
  "\<not> type_is InertShadowIntentDefinition (odirectional d q un n)"
  "type_is OpaqueSilverPairKey (okey l p)"
  by (simp_all add: object_defs)

lemma slot_entry_passes: "check_slot_entry k s = Inr r \<longleftrightarrow>
    (\<exists>st e. s = oslot k st e \<and> check_lifecycle_slot k st e = Inr ())"
proof
  assume "check_slot_entry k s = Inr r"
  then show "\<exists>st e. s = oslot k st e \<and> check_lifecycle_slot k st e = Inr ()"
    unfolding check_slot_entry_def rbind_eq_Inr slot_passes by auto
next
  assume "\<exists>st e. s = oslot k st e \<and> check_lifecycle_slot k st e = Inr ()"
  then obtain st e where s: "s = oslot k st e" "check_lifecycle_slot k st e = Inr ()" by blast
  then have "revalidate_silver_pair_key k = Inr ()" by (simp add: slot_check_passes key_passes)
  then show "check_slot_entry k s = Inr r"
    using s by (simp add: check_slot_entry_def rbind_eq_Inr slot_passes)
qed

text \<open>The factories accept exactly tuples of passing pairs without a repeated key.\<close>

lemma build_entries_eq:
  "build_entries check es built = Inr b \<longleftrightarrow>
     (\<exists>ps. es = map (\<lambda>(k, v). OTuple [k, v]) ps \<and> b = built @ ps \<and> (\<forall>(k, v) \<in> set ps. check k v = Inr ())
        \<and> distinct (map fst ps) \<and> fst ` set ps \<inter> fst ` set built = {})"
proof (induction check es built rule: build_entries.induct)
  case (2 check entry es built)
  show ?case
  proof (cases "\<exists>k v. entry = OTuple [k, v]")
    case True
    then obtain k v where e: "entry = OTuple [k, v]" by blast
    show ?thesis
    proof (cases "check k v = Inr () \<and> k \<notin> fst ` set built")
      case True
      then have "build_entries check (entry # es) built = build_entries check es (built @ [(k, v)])"
        by (simp add: e)
      moreover have "build_entries check es (built @ [(k, v)]) = Inr b \<longleftrightarrow>
          (\<exists>ps. es = map (\<lambda>(k, v). OTuple [k, v]) ps \<and> b = (built @ [(k, v)]) @ ps
            \<and> (\<forall>(k, v) \<in> set ps. check k v = Inr ()) \<and> distinct (map fst ps)
            \<and> fst ` set ps \<inter> fst ` set (built @ [(k, v)]) = {})"
        using 2[OF e] True by simp
      ultimately show ?thesis
        using True by (auto simp: e map_eq_Cons_conv Cons_eq_map_conv)
    next
      case False
      then show ?thesis
        by (cases "check k v") (auto simp: e Cons_eq_map_conv image_iff)
    qed
  next
    case False
    then show ?thesis
      by (auto simp: Cons_eq_map_conv split: pobj.splits list.splits)
  qed
qed auto

lemma build_members_eq:
  "build_members ms seen = Inr s \<longleftrightarrow>
     s = seen @ ms \<and> (\<forall>k \<in> set ms. \<exists>l p. k = okey l p) \<and> distinct ms \<and> set ms \<inter> set seen = {}"
proof (induction ms seen rule: build_members.induct)
  case (2 m ms seen)
  show ?case
  proof (cases "(\<exists>l p. m = okey l p) \<and> m \<notin> set seen")
    case True
    then have "revalidate_silver_pair_key m = Inr ()" by (auto simp: key_passes)
    then show ?thesis using True 2 by auto
  next
    case False
    then show ?thesis by (auto simp: rbind_eq_Inr key_passes)
  qed
qed auto

lemma lifecycle_snapshot_made:
  "make_shadow_lifecycle_snapshot (OTuple (map (\<lambda>(k, v). OTuple [k, v]) ps)) = Inr s \<longleftrightarrow>
     s = new ShadowLifecycleSnapshot [OProxy ps] \<and> distinct (map fst ps)
       \<and> (\<forall>(k, v) \<in> set ps. check_slot_entry k v = Inr ())"
proof -
  have inj: "inj (\<lambda>(k, v). OTuple [k, v])" by (auto simp: inj_def)
  show ?thesis
    by (auto simp: make_shadow_lifecycle_snapshot_def rbind_eq_Inr build_entries_eq inj_map_eq_map[OF inj])
qed

lemma seen_snapshot_made:
  "make_seen_target_pairs_snapshot (OTuple ms) = Inr s \<longleftrightarrow>
     s = new SeenTargetPairsSnapshot [OFrozenset ms] \<and> distinct ms \<and> (\<forall>k \<in> set ms. \<exists>l p. k = okey l p)"
  by (auto simp: make_seen_target_pairs_snapshot_def rbind_eq_Inr build_members_eq)

end
