(* ===== verification/ShadowEvidence.thy ===== *)
theory ShadowEvidence
  imports ShadowModel
begin

text \<open>
  The evidence projectors (\<open>phase6_2_shadow_intent/s1_evidence_projection.py\<close>): each reads one group of
  fields of a replay row, an \<open>sqlite3.Row\<close> whose payload is a JSON text, and returns a carrier or
  raises \<open>S1EvidenceProjectionError\<close> with a reason. The parser is \<open>json.loads\<close> with the hooks the
  code passes: numbers are kept as text, a repeated member or a constant such as \<open>NaN\<close> is refused.
  \<open>depth\<close> is the nesting the interpreter's recursion limit allows.
\<close>

section \<open>JSON texts\<close>

definition json_space :: "nat \<Rightarrow> bool" where
  "json_space c \<longleftrightarrow> c = 32 \<or> c = 9 \<or> c = 10 \<or> c = 13"

definition skip_ws :: "utext \<Rightarrow> utext" where
  "skip_ws t = dropWhile json_space t"

definition expect :: "nat \<Rightarrow> utext \<Rightarrow> utext option" where
  "expect c t = (case t of [] \<Rightarrow> None | x # r \<Rightarrow> if x = c then Some r else None)"

definition hex_digit :: "nat \<Rightarrow> nat option" where
  "hex_digit c = (if 48 \<le> c \<and> c \<le> 57 then Some (c - 48)
     else if 97 \<le> c \<and> c \<le> 102 then Some (c - 87)
     else if 65 \<le> c \<and> c \<le> 70 then Some (c - 55) else None)"

definition hex4 :: "nat \<Rightarrow> nat \<Rightarrow> nat \<Rightarrow> nat \<Rightarrow> nat option" where
  "hex4 a b c d = (case (hex_digit a, hex_digit b, hex_digit c, hex_digit d) of
     (Some w, Some x, Some y, Some z) \<Rightarrow> Some (4096 * w + 256 * x + 16 * y + z) | _ \<Rightarrow> None)"

definition json_escape :: "nat \<Rightarrow> nat option" where
  "json_escape c = map_of [(34, 34), (92, 92), (47, 47), (98, 8), (102, 12), (110, 10), (114, 13), (116, 9)] c"

definition is_high :: "nat \<Rightarrow> bool" where "is_high c \<longleftrightarrow> 55296 \<le> c \<and> c \<le> 56319"
definition is_low :: "nat \<Rightarrow> bool" where "is_low c \<longleftrightarrow> 56320 \<le> c \<and> c \<le> 57343"

text \<open>The characters of a string after its opening quote, and the rest after the closing one.\<close>

definition push_char :: "nat \<Rightarrow> (utext \<times> utext) option \<Rightarrow> (utext \<times> utext) option" where
  "push_char c m = map_option (\<lambda>(s, r). (c # s, r)) m"

fun scan_chars :: "utext \<Rightarrow> (utext \<times> utext) option" where
  "scan_chars [] = None"
| "scan_chars (c # cs) =
    (if c = 34 then Some ([], cs)
     else if c = 92 then
       (case cs of [] \<Rightarrow> None
        | e # es \<Rightarrow>
          if e = 117 then
            (case es of
               p # q # r # s # rest \<Rightarrow>
                 (case hex4 p q r s of None \<Rightarrow> None
                  | Some h \<Rightarrow>
                    (case rest of
                       b # v # p' # q' # r' # s' # rest' \<Rightarrow>
                         (case hex4 p' q' r' s' of None \<Rightarrow> push_char h (scan_chars rest)
                          | Some l \<Rightarrow>
                            if b = 92 \<and> v = 117 \<and> is_high h \<and> is_low l
                            then push_char (65536 + 1024 * (h - 55296) + (l - 56320)) (scan_chars rest')
                            else push_char h (scan_chars rest))
                     | _ \<Rightarrow> push_char h (scan_chars rest)))
             | _ \<Rightarrow> None)
          else (case json_escape e of None \<Rightarrow> None | Some x \<Rightarrow> push_char x (scan_chars es)))
     else if c < 32 then None
     else push_char c (scan_chars cs))"

definition scan_number :: "utext \<Rightarrow> (pobj \<times> utext) option" where
  "scan_number t =
    (let (sign, t1) = (case t of c # cs \<Rightarrow> if c = 45 then ([c], cs) else ([], t) | [] \<Rightarrow> ([], []));
         (int_part, t2) = (case t1 of [] \<Rightarrow> ([], [])
            | c # cs \<Rightarrow> if c = 48 then ([c], cs) else (takeWhile ascii_digit t1, dropWhile ascii_digit t1));
         (frac, t3) = (case t2 of p # d # ds \<Rightarrow>
              if p = 46 \<and> ascii_digit d then (p # takeWhile ascii_digit (d # ds), dropWhile ascii_digit (d # ds))
              else ([], t2) | _ \<Rightarrow> ([], t2));
         (expo, t4) = (case t3 of e # es \<Rightarrow>
              (let (sg, es') = (case es of s # r \<Rightarrow> if s = 43 \<or> s = 45 then ([s], r) else ([], es) | [] \<Rightarrow> ([], []))
               in if (e = 101 \<or> e = 69) \<and> es' \<noteq> [] \<and> ascii_digit (hd es')
                  then (e # sg @ takeWhile ascii_digit es', dropWhile ascii_digit es') else ([], t3))
            | [] \<Rightarrow> ([], []));
         lexical = OText (sign @ int_part @ frac @ expo)
     in if int_part = [] then None
        else if frac = [] \<and> expo = [] then Some (new RawJsonInt [lexical], t4)
        else Some (new RawJsonFloat [lexical], t4))"

fun strip_prefix :: "utext \<Rightarrow> utext \<Rightarrow> utext option" where
  "strip_prefix [] t = Some t"
| "strip_prefix (p # ps) [] = None"
| "strip_prefix (p # ps) (c # cs) = (if p = c then strip_prefix ps cs else None)"

definition scan_scalar :: "utext \<Rightarrow> (pobj \<times> utext) option" where
  "scan_scalar t =
    (case expect 34 t of
       Some cs \<Rightarrow> map_option (\<lambda>(s, r). (OText s, r)) (scan_chars cs)
     | None \<Rightarrow> (case strip_prefix (ut ''null'') t of Some r \<Rightarrow> Some (ONone, r)
     | None \<Rightarrow> (case strip_prefix (ut ''true'') t of Some r \<Rightarrow> Some (OBool True, r)
     | None \<Rightarrow> (case strip_prefix (ut ''false'') t of Some r \<Rightarrow> Some (OBool False, r)
     | None \<Rightarrow> scan_number t))))"

text \<open>The hook for objects, and the loops over members and items; \<open>v\<close> parses one value, and each round
  takes at least one character, so the length of the text bounds their number.\<close>

definition no_duplicate_members :: "(pobj \<times> pobj) list \<Rightarrow> pobj option" where
  "no_duplicate_members pairs = (if distinct (map fst pairs) then Some (ODict pairs) else None)"

fun scan_members :: "(utext \<Rightarrow> (pobj \<times> utext) option) \<Rightarrow> nat \<Rightarrow> utext
    \<Rightarrow> ((pobj \<times> pobj) list \<times> utext) option" where
  "scan_members v 0 t = None"
| "scan_members v (Suc n) t =
     Option.bind (expect 34 t) (\<lambda>t1. Option.bind (scan_chars t1) (\<lambda>(k, t2).
     Option.bind (expect 58 (skip_ws t2)) (\<lambda>t3. Option.bind (v (skip_ws t3)) (\<lambda>(x, t4).
       (case skip_ws t4 of [] \<Rightarrow> None
        | c # r \<Rightarrow> if c = 125 then Some ([(OText k, x)], r)
                  else if c = 44 then
                    map_option (\<lambda>(ms, r'). ((OText k, x) # ms, r')) (scan_members v n (skip_ws r))
                  else None)))))"

fun scan_items :: "(utext \<Rightarrow> (pobj \<times> utext) option) \<Rightarrow> nat \<Rightarrow> utext
    \<Rightarrow> (pobj list \<times> utext) option" where
  "scan_items v 0 t = None"
| "scan_items v (Suc n) t =
     Option.bind (v t) (\<lambda>(x, t1).
       (case skip_ws t1 of [] \<Rightarrow> None
        | c # r \<Rightarrow> if c = 93 then Some ([x], r)
                  else if c = 44 then map_option (\<lambda>(xs, r'). (x # xs, r')) (scan_items v n (skip_ws r))
                  else None))"

definition scan_object :: "(utext \<Rightarrow> (pobj \<times> utext) option) \<Rightarrow> utext \<Rightarrow> (pobj \<times> utext) option" where
  "scan_object v t =
    (case expect 125 t of
       Some r \<Rightarrow> Some (ODict [], r)
     | None \<Rightarrow> Option.bind (scan_members v (length t) t) (\<lambda>(ms, r).
         map_option (\<lambda>d. (d, r)) (no_duplicate_members ms)))"

definition scan_array :: "(utext \<Rightarrow> (pobj \<times> utext) option) \<Rightarrow> utext \<Rightarrow> (pobj \<times> utext) option" where
  "scan_array v t =
    (case expect 93 t of
       Some r \<Rightarrow> Some (OList [], r)
     | None \<Rightarrow> map_option (\<lambda>(xs, r). (OList xs, r)) (scan_items v (length t) t))"

primrec scan_value :: "nat \<Rightarrow> utext \<Rightarrow> (pobj \<times> utext) option" where
  "scan_value 0 t = scan_scalar t"
| "scan_value (Suc depth) t =
    (case expect 123 t of
       Some r \<Rightarrow> scan_object (scan_value depth) (skip_ws r)
     | None \<Rightarrow> (case expect 91 t of
         Some r \<Rightarrow> scan_array (scan_value depth) (skip_ws r)
       | None \<Rightarrow> scan_scalar t))"

definition json_loads :: "nat \<Rightarrow> utext \<Rightarrow> pobj option" where
  "json_loads depth t = Option.bind (scan_value depth (skip_ws t))
     (\<lambda>(x, r). if skip_ws r = [] then Some x else None)"

section \<open>Decimal texts\<close>

text \<open>The lexis of the magnitudes: an optional minus, Unicode decimal digits, and optionally a point with
  digits after it; and the number \<open>decimal.Decimal\<close> makes of such a text.\<close>

definition phase5_split :: "utext \<Rightarrow> (bool \<times> utext \<times> utext) option" where
  "phase5_split t =
    (let (neg, r) = (case t of c # cs \<Rightarrow> if c = 45 then (True, cs) else (False, t) | [] \<Rightarrow> (False, []));
         ip = takeWhile uni_is_digit r
     in if ip = [] then None
        else (case dropWhile uni_is_digit r of
            [] \<Rightarrow> Some (neg, ip, [])
          | c # fs \<Rightarrow> if c = 46 \<and> fs \<noteq> [] \<and> list_all uni_is_digit fs then Some (neg, ip, fs) else None))"

definition is_phase5_text :: "pobj \<Rightarrow> bool" where
  "is_phase5_text v = (case v of OText t \<Rightarrow> phase5_split t \<noteq> None | _ \<Rightarrow> False)"

definition decimal_of_text :: "utext \<Rightarrow> dec result" where
  "decimal_of_text t = (case phase5_split t of
     Some (neg, ip, fs) \<Rightarrow>
       (let q = of_nat (uni_digits_val (ip @ fs)) / 10 ^ length fs in Inr (DFin (if neg then - q else q)))
   | None \<Rightarrow> Inl InvalidOperation)"

definition is_finite_decimal :: "pobj \<Rightarrow> bool" where
  "is_finite_decimal v = (case v of ODec (DFin _) \<Rightarrow> True | _ \<Rightarrow> False)"

definition is_canonical_timestamp :: "pobj \<Rightarrow> bool" where
  "is_canonical_timestamp v = (case v of OText t \<Rightarrow> canonical_int t | _ \<Rightarrow> False)"

definition two_nonblank_text :: "pobj list \<Rightarrow> bool" where
  "two_nonblank_text vs \<longleftrightarrow> length vs = 2
     \<and> list_all (\<lambda>v. case v of OText t \<Rightarrow> uni_strip t \<noteq> [] | _ \<Rightarrow> False) vs"

section \<open>Publication of the carriers\<close>

abbreviation s1_check :: "bool \<Rightarrow> string \<Rightarrow> unit result" where
  "s1_check b reason \<equiv> raise_unless b (S1EvidenceProjectionError reason)"

abbreviation publish_check :: "bool \<Rightarrow> unit result" where
  "publish_check b \<equiv> s1_check b ''PROJECTION_PUBLICATION_INVARIANT''"

definition make_silver_pair :: "pobj \<Rightarrow> pobj \<Rightarrow> pobj result" where
  "make_silver_pair locator position =
     rbind (publish_check (is_text locator)) (\<lambda>_. rbind (publish_check (is_text position)) (\<lambda>_.
       Inr (new SilverPairProjection [locator, position])))"

definition make_observation_kind :: "pobj \<Rightarrow> pobj result" where
  "make_observation_kind kind =
     rbind (publish_check (is_text kind)) (\<lambda>_. Inr (new ObservationKindProjection [kind]))"

definition SCORE_OBSERVATION_KIND :: pobj where "SCORE_OBSERVATION_KIND = otext ''SCORE''"
definition SCORE_FAMILY_DESCRIPTOR :: pobj where
  "SCORE_FAMILY_DESCRIPTOR = otext ''passive_net_edge_diagnostic''"

definition make_score_family :: "pobj \<Rightarrow> pobj \<Rightarrow> pobj result" where
  "make_score_family kind family =
     rbind (publish_check (kind = SCORE_OBSERVATION_KIND)) (\<lambda>_.
     rbind (publish_check (family = SCORE_FAMILY_DESCRIPTOR)) (\<lambda>_.
       Inr (new ScoreFamilyProjection [kind, family])))"

definition make_score_context :: "pobj \<Rightarrow> pobj result" where
  "make_score_context summary =
     rbind (publish_check (case summary of OTuple vs \<Rightarrow> two_nonblank_text vs | _ \<Rightarrow> False)) (\<lambda>_.
       Inr (new ScoreContextProjection [summary]))"

definition make_score_timestamp :: "pobj \<Rightarrow> pobj result" where
  "make_score_timestamp ts =
     rbind (publish_check (is_canonical_timestamp ts)) (\<lambda>_. Inr (new ScoreTimestampProjection [ts]))"

definition make_score_unit :: "pobj \<Rightarrow> pobj result" where
  "make_score_unit un = rbind (publish_check (is_text un)) (\<lambda>_. Inr (new ScoreUnitProjection [un]))"

definition dec_value :: "pobj \<Rightarrow> dec" where
  "dec_value v = (case v of ODec d \<Rightarrow> d | _ \<Rightarrow> DNaN)"

definition text_value :: "pobj \<Rightarrow> utext" where
  "text_value v = (case v of OText t \<Rightarrow> t | _ \<Rightarrow> [])"

definition make_score_magnitude :: "pobj \<Rightarrow> pobj \<Rightarrow> pobj result" where
  "make_score_magnitude t v =
     rbind (publish_check (is_phase5_text t)) (\<lambda>_.
     rbind (publish_check (is_finite_decimal v)) (\<lambda>_.
     rbind (except_as ((=) InvalidOperation) (S1EvidenceProjectionError ''PROJECTION_PUBLICATION_INVARIANT'')
              (decimal_of_text (text_value t))) (\<lambda>reparsed.
     rbind (publish_check (deq reparsed (dec_value v))) (\<lambda>_.
       Inr (new ScoreMagnitudeProjection [t, v])))))"

section \<open>Row and payload access\<close>

definition EXPECTED_COLUMNS :: "utext list" where
  "EXPECTED_COLUMNS = map ut [''observation_kind'', ''family_descriptor'', ''artifact_locator'',
     ''physical_record_position'', ''provenance_timestamp'', ''canonical_text_payload'']"

definition require_row :: "pobj \<Rightarrow> unit result" where
  "require_row row = (case row of
     ORow cols \<Rightarrow> s1_check (length cols = length EXPECTED_COLUMNS \<and> set (map fst cols) = set EXPECTED_COLUMNS)
                    ''PROJECTION_ROW_COLUMN_SET''
   | _ \<Rightarrow> Inl (S1EvidenceProjectionError ''PROJECTION_ROW_NOT_SQLITE_ROW''))"

text \<open>\<open>row[column]\<close> raises an \<open>IndexError\<close> on an unknown column; the callers have checked the columns.\<close>

definition envelope_str :: "pobj \<Rightarrow> string \<Rightarrow> pobj result" where
  "envelope_str row column = (case row of
     ORow cols \<Rightarrow> (case map_of cols (ut column) of
         Some v \<Rightarrow> rbind (s1_check (is_text v) ''PROJECTION_ROW_ENVELOPE_TYPE'') (\<lambda>_. Inr v)
       | None \<Rightarrow> Inl IndexError)
   | _ \<Rightarrow> Inl TypeError)"

definition parse_payload :: "nat \<Rightarrow> pobj \<Rightarrow> (pobj \<times> pobj) list result" where
  "parse_payload depth row =
     rbind (envelope_str row ''canonical_text_payload'') (\<lambda>payload.
       (case json_loads depth (text_value payload) of
          Some (ODict members) \<Rightarrow> Inr members
        | _ \<Rightarrow> Inl (S1EvidenceProjectionError ''MALFORMED_CANONICAL_JSON'')))"

definition pmember :: "(pobj \<times> pobj) list \<Rightarrow> string \<Rightarrow> pobj option" where
  "pmember container name = map_of container (otext name)"

definition require_family_payload :: "(pobj \<times> pobj) list \<Rightarrow> (pobj \<times> pobj) list result" where
  "require_family_payload payload = (case pmember payload ''family_payload'' of
     Some (ODict members) \<Rightarrow> Inr members
   | _ \<Rightarrow> Inl (S1EvidenceProjectionError ''PROJECTION_PAYLOAD_STRUCTURE''))"

text \<open>A member that must be present and text.\<close>

definition text_member :: "(pobj \<times> pobj) list \<Rightarrow> string \<Rightarrow> string \<Rightarrow> pobj result" where
  "text_member container name reason = (case pmember container name of
     Some v \<Rightarrow> rbind (s1_check (is_text v) reason) (\<lambda>_. Inr v)
   | None \<Rightarrow> Inl (S1EvidenceProjectionError reason))"

section \<open>The projectors\<close>

definition project_silver_pair :: "pobj \<Rightarrow> pobj result" where
  "project_silver_pair row =
     rbind (require_row row) (\<lambda>_.
     rbind (envelope_str row ''artifact_locator'') (\<lambda>locator.
     rbind (envelope_str row ''physical_record_position'') (\<lambda>position.
       make_silver_pair locator position)))"

definition project_observation_kind :: "pobj \<Rightarrow> pobj result" where
  "project_observation_kind row =
     rbind (require_row row) (\<lambda>_.
     rbind (envelope_str row ''observation_kind'') make_observation_kind)"

definition project_score_family :: "nat \<Rightarrow> pobj \<Rightarrow> pobj result" where
  "project_score_family depth row =
     rbind (require_row row) (\<lambda>_.
     rbind (envelope_str row ''observation_kind'') (\<lambda>row_kind.
     rbind (envelope_str row ''family_descriptor'') (\<lambda>row_family.
     rbind (parse_payload depth row) (\<lambda>payload.
     rbind (text_member payload ''observation_kind'' ''ROW_PAYLOAD_OBSERVATION_KIND_DISAGREEMENT'') (\<lambda>payload_kind.
     rbind (s1_check (row_kind = payload_kind) ''ROW_PAYLOAD_OBSERVATION_KIND_DISAGREEMENT'') (\<lambda>_.
     rbind (s1_check (row_kind = SCORE_OBSERVATION_KIND) ''PROJECTION_NON_SCORE_OBSERVATION'') (\<lambda>_.
     rbind (require_family_payload payload) (\<lambda>family_payload.
     rbind (text_member family_payload ''score_family_descriptor'' ''ROW_PAYLOAD_FAMILY_DESCRIPTOR_DISAGREEMENT'')
       (\<lambda>payload_family.
     rbind (s1_check (row_family = SCORE_FAMILY_DESCRIPTOR \<and> payload_family = SCORE_FAMILY_DESCRIPTOR)
              ''ROW_PAYLOAD_FAMILY_DESCRIPTOR_DISAGREEMENT'') (\<lambda>_.
       make_score_family SCORE_OBSERVATION_KIND SCORE_FAMILY_DESCRIPTOR))))))))))"

definition project_score_context :: "nat \<Rightarrow> pobj \<Rightarrow> pobj result" where
  "project_score_context depth row =
     rbind (require_row row) (\<lambda>_.
     rbind (parse_payload depth row) (\<lambda>payload.
     rbind (require_family_payload payload) (\<lambda>family_payload.
       (case pmember family_payload ''score_inputs_summary'' of
          Some (OList vs) \<Rightarrow>
            rbind (s1_check (two_nonblank_text vs) ''MALFORMED_SCORE_INPUTS_SUMMARY'') (\<lambda>_.
              make_score_context (OTuple [vs ! 0, vs ! 1]))
        | _ \<Rightarrow> Inl (S1EvidenceProjectionError ''MALFORMED_SCORE_INPUTS_SUMMARY'')))))"

definition project_score_timestamp :: "nat \<Rightarrow> pobj \<Rightarrow> pobj result" where
  "project_score_timestamp depth row =
     rbind (require_row row) (\<lambda>_.
     rbind (envelope_str row ''provenance_timestamp'') (\<lambda>row_timestamp.
     rbind (parse_payload depth row) (\<lambda>payload.
       (case pmember payload ''provenance_timestamp'' of
          None \<Rightarrow> Inl (S1EvidenceProjectionError ''INVALID_PROVENANCE_TIMESTAMP'')
        | Some ts \<Rightarrow>
            (case (if type_is RawJsonInt ts then py_attr ts ''lexical'' else None) of
               None \<Rightarrow> Inl (S1EvidenceProjectionError ''INVALID_PROVENANCE_TIMESTAMP'')
             | Some lexical \<Rightarrow>
                 rbind (s1_check (is_canonical_timestamp lexical) ''INVALID_PROVENANCE_TIMESTAMP'') (\<lambda>_.
                 rbind (s1_check (is_canonical_timestamp row_timestamp) ''ROW_PAYLOAD_TIMESTAMP_DISAGREEMENT'') (\<lambda>_.
                 rbind (s1_check (row_timestamp = lexical) ''ROW_PAYLOAD_TIMESTAMP_DISAGREEMENT'') (\<lambda>_.
                   make_score_timestamp row_timestamp))))))))"

definition project_score_unit :: "nat \<Rightarrow> pobj \<Rightarrow> pobj result" where
  "project_score_unit depth row =
     rbind (require_row row) (\<lambda>_.
     rbind (parse_payload depth row) (\<lambda>payload.
     rbind (require_family_payload payload) (\<lambda>family_payload.
     rbind (text_member family_payload ''score_unit_context'' ''PROJECTION_PAYLOAD_STRUCTURE'') make_score_unit)))"

definition project_score_magnitude :: "nat \<Rightarrow> pobj \<Rightarrow> pobj result" where
  "project_score_magnitude depth row =
     rbind (require_row row) (\<lambda>_.
     rbind (parse_payload depth row) (\<lambda>payload.
     rbind (require_family_payload payload) (\<lambda>family_payload.
       (case pmember family_payload ''passive_score_magnitude'' of
          None \<Rightarrow> Inl (S1EvidenceProjectionError ''INVALID_S1_DECIMAL_LEXIS'')
        | Some v \<Rightarrow>
            rbind (s1_check (is_phase5_text v) ''INVALID_S1_DECIMAL_LEXIS'') (\<lambda>_.
            rbind (except_as ((=) InvalidOperation) (S1EvidenceProjectionError ''INVALID_S1_DECIMAL_LEXIS'')
                     (decimal_of_text (text_value v))) (\<lambda>magnitude.
              make_score_magnitude v (ODec magnitude)))))))"

section \<open>The carriers of successful projections\<close>

definition s1_error :: "exn \<Rightarrow> bool" where
  "s1_error e \<longleftrightarrow> (\<exists>r. e = S1EvidenceProjectionError r)"

text \<open>\<open>s1_total m\<close>: the only exceptions are those of the projectors.\<close>

definition s1_total :: "'a result \<Rightarrow> bool" where
  "s1_total m \<longleftrightarrow> (\<forall>e. m = Inl e \<longrightarrow> s1_error e)"

lemma s1_total_intros [simp]:
  "s1_total (Inr x)" "s1_total (Inl (S1EvidenceProjectionError r))" "s1_total (s1_check b r)"
  by (auto simp: s1_total_def s1_error_def)

lemma s1_total_bind:
  "s1_total m \<Longrightarrow> (\<And>x. m = Inr x \<Longrightarrow> s1_total (f x)) \<Longrightarrow> s1_total (rbind m f)"
  by (auto simp: s1_total_def rbind_eq_Inl)

lemma require_row_total [simp]: "s1_total (require_row row)"
  by (auto simp: require_row_def split: pobj.splits)

lemma envelope_total:
  assumes "require_row row = Inr r" "ut column \<in> set EXPECTED_COLUMNS"
  shows "s1_total (envelope_str row column)"
proof -
  obtain cols where row: "row = ORow cols" and "set (map fst cols) = set EXPECTED_COLUMNS"
    using assms(1) by (auto simp: require_row_def split: pobj.splits)
  then have "map_of cols (ut column) \<noteq> None" using assms(2) by (simp add: map_of_eq_None_iff)
  then show ?thesis
    by (auto simp: row envelope_str_def intro!: s1_total_bind)
qed

lemma column_expected [simp]:
  "ut ''observation_kind'' \<in> set EXPECTED_COLUMNS" "ut ''family_descriptor'' \<in> set EXPECTED_COLUMNS"
  "ut ''artifact_locator'' \<in> set EXPECTED_COLUMNS" "ut ''physical_record_position'' \<in> set EXPECTED_COLUMNS"
  "ut ''provenance_timestamp'' \<in> set EXPECTED_COLUMNS" "ut ''canonical_text_payload'' \<in> set EXPECTED_COLUMNS"
  by (simp_all add: EXPECTED_COLUMNS_def)

lemma parse_payload_total: "require_row row = Inr r \<Longrightarrow> s1_total (parse_payload depth row)"
  by (auto simp: parse_payload_def intro!: s1_total_bind envelope_total split: option.splits pobj.splits)

lemma member_total [simp]:
  "s1_total (require_family_payload payload)" "s1_total (text_member container name reason)"
  by (auto simp: require_family_payload_def text_member_def intro!: s1_total_bind split: option.splits pobj.splits)

lemma make_total [simp]:
  "s1_total (make_silver_pair a b)" "s1_total (make_observation_kind a)" "s1_total (make_score_family a b)"
  "s1_total (make_score_context a)" "s1_total (make_score_timestamp a)" "s1_total (make_score_unit a)"
  "s1_total (except_as ((=) InvalidOperation) (S1EvidenceProjectionError r) (decimal_of_text t))"
  "s1_total (make_score_magnitude a b)"
proof -
  show d: "s1_total (except_as ((=) InvalidOperation) (S1EvidenceProjectionError r) (decimal_of_text t))" for r t
    by (auto simp: decimal_of_text_def Let_def split: option.splits prod.splits)
  show "s1_total (make_score_magnitude a b)"
    by (auto simp: make_score_magnitude_def intro!: s1_total_bind d)
qed (auto simp: make_silver_pair_def make_observation_kind_def make_score_family_def make_score_context_def
      make_score_timestamp_def make_score_unit_def intro!: s1_total_bind)

lemmas s1_total_rules = s1_total_bind envelope_total parse_payload_total

theorem projectors_total:
  "s1_total (project_silver_pair row)" "s1_total (project_observation_kind row)"
  "s1_total (project_score_family depth row)" "s1_total (project_score_context depth row)"
  "s1_total (project_score_timestamp depth row)" "s1_total (project_score_unit depth row)"
  "s1_total (project_score_magnitude depth row)"
  by (auto simp: project_silver_pair_def project_observation_kind_def project_score_family_def
      project_score_context_def project_score_timestamp_def project_score_unit_def project_score_magnitude_def
      intro!: s1_total_rules split: option.splits pobj.splits)

lemma case_list_eq:
  "(case m of Some (OList vs) \<Rightarrow> f vs | _ \<Rightarrow> Inl e) = Inr x \<longleftrightarrow> (\<exists>vs. m = Some (OList vs) \<and> f vs = Inr x)"
  by (auto split: option.splits pobj.splits)

lemma case_some_eq:
  "(case m of None \<Rightarrow> Inl e | Some v \<Rightarrow> f v) = Inr x \<longleftrightarrow> (\<exists>v. m = Some v \<and> f v = Inr x)"
  by (auto split: option.splits)

lemma is_canonical_timestamp_iff: "is_canonical_timestamp v \<longleftrightarrow> (\<exists>t. v = OText t \<and> canonical_int t)"
  by (auto simp: is_canonical_timestamp_def split: pobj.splits)

lemma is_phase5_text_iff: "is_phase5_text v \<longleftrightarrow> (\<exists>t. v = OText t \<and> phase5_split t \<noteq> None)"
  by (auto simp: is_phase5_text_def split: pobj.splits)

lemma case_text_iff: "(case v of OText t \<Rightarrow> P t | _ \<Rightarrow> False) \<longleftrightarrow> (\<exists>t. v = OText t \<and> P t)"
  by (cases v) auto

lemma two_nonblank_text_iff: "two_nonblank_text vs \<longleftrightarrow>
    (\<exists>a b. vs = [OText a, OText b] \<and> \<not> list_all uni_space a \<and> \<not> list_all uni_space b)"
  by (auto simp: two_nonblank_text_def length_Suc_conv numeral_2_eq_2 uni_strip_Nil_iff case_text_iff)

lemma envelope_text: "envelope_str row column = Inr v \<Longrightarrow> \<exists>t. v = OText t"
  by (auto simp: envelope_str_def rbind_eq_Inr is_text_iff split: pobj.splits option.splits)

lemma text_member_text: "text_member c n r = Inr v \<Longrightarrow> \<exists>t. v = OText t"
  by (auto simp: text_member_def rbind_eq_Inr is_text_iff split: option.splits)

lemma silver_pair_shape: "project_silver_pair row = Inr x \<Longrightarrow> \<exists>l p. x = new SilverPairProjection [OText l, OText p]"
  by (auto simp: project_silver_pair_def rbind_eq_Inr make_silver_pair_def dest!: envelope_text)

lemma kind_shape: "project_observation_kind row = Inr x \<Longrightarrow> \<exists>k. x = new ObservationKindProjection [OText k]"
  by (auto simp: project_observation_kind_def rbind_eq_Inr make_observation_kind_def dest!: envelope_text)

lemma context_shape:
  "project_score_context depth row = Inr x \<Longrightarrow> \<exists>v p. x = new ScoreContextProjection [OTuple [OText v, OText p]]
           \<and> \<not> list_all uni_space v \<and> \<not> list_all uni_space p"
  by (auto simp: project_score_context_def rbind_eq_Inr case_list_eq make_score_context_def two_nonblank_text_iff)

lemma timestamp_shape:
  "project_score_timestamp depth row = Inr x \<Longrightarrow>
     \<exists>t. x = new ScoreTimestampProjection [OText t] \<and> canonical_int t"
  by (auto simp: project_score_timestamp_def rbind_eq_Inr case_some_eq make_score_timestamp_def
      is_canonical_timestamp_iff)

lemma unit_shape: "project_score_unit depth row = Inr x \<Longrightarrow> \<exists>t. x = new ScoreUnitProjection [OText t]"
  by (auto simp: project_score_unit_def rbind_eq_Inr make_score_unit_def dest!: text_member_text)

lemma decimal_of_text_shape: "decimal_of_text t = Inr d \<Longrightarrow> \<exists>q. d = DFin q"
  by (auto simp: decimal_of_text_def Let_def split: option.splits)

lemma magnitude_shape:
  assumes "project_score_magnitude depth row = Inr x"
  shows "\<exists>t q. x = new ScoreMagnitudeProjection [OText t, ODec (DFin q)] \<and> phase5_split t \<noteq> None
           \<and> decimal_of_text t = Inr (DFin q)"
proof -
  obtain v d where v: "is_phase5_text v" "decimal_of_text (text_value v) = Inr d"
      and x: "x = new ScoreMagnitudeProjection [v, ODec d]"
    using assms by (auto simp: project_score_magnitude_def rbind_eq_Inr case_some_eq make_score_magnitude_def)
  then show ?thesis
    using decimal_of_text_shape[OF v(2)] by (auto simp: is_phase5_text_iff text_value_def)
qed

end
