(* ===== verification/ShadowPredicates.thy ===== *)
theory ShadowPredicates
  imports ShadowEvidence
begin

text \<open>
  The classification predicates (\<open>phase6_2_shadow_intent/classification_predicates.py\<close>): each takes
  objects of the logical model and carriers of the projectors, checks them anew, and compares. A
  failed check raises \<open>ClassificationPredicateError\<close> with a reason. Times are compared as texts.
\<close>

abbreviation pred_check :: "bool \<Rightarrow> string \<Rightarrow> unit result" where
  "pred_check b reason \<equiv> raise_unless b (ClassificationPredicateError reason)"

definition require_carrier :: "pobj \<Rightarrow> cls \<Rightarrow> unit result" where
  "require_carrier v c = pred_check (type_is c v) ''PREDICATE_WRONG_CARRIER_TYPE''"

definition carrier_slot :: "pobj \<Rightarrow> string \<Rightarrow> pobj result" where
  "carrier_slot v n = (case py_attr v n of Some x \<Rightarrow> Inr x
     | None \<Rightarrow> Inl (ClassificationPredicateError ''PREDICATE_FORGED_OR_MISSING_SLOT''))"

definition require_text :: "pobj \<Rightarrow> pobj result" where
  "require_text v = rbind (pred_check (is_text v) ''PREDICATE_INVALID_TEXT'') (\<lambda>_. Inr v)"

definition pred_finite_decimal :: "pobj \<Rightarrow> pobj result" where
  "pred_finite_decimal v = rbind (pred_check (is_finite_decimal v) ''PREDICATE_INVALID_DECIMAL'') (\<lambda>_. Inr v)"

definition require_validated_magnitude :: "pobj \<Rightarrow> pobj result" where
  "require_validated_magnitude m =
     rbind (require_carrier m ScoreMagnitudeProjection) (\<lambda>_.
     rbind (carrier_slot m ''passive_score_magnitude_text'') (\<lambda>t.
     rbind (carrier_slot m ''passive_score_magnitude'') (\<lambda>v.
     rbind (pred_check (is_phase5_text t) ''PREDICATE_INVALID_DECIMAL_LEXIS'') (\<lambda>_.
     rbind (pred_check (is_finite_decimal v) ''PREDICATE_INVALID_DECIMAL'') (\<lambda>_.
     rbind (except_as ((=) InvalidOperation) (ClassificationPredicateError ''PREDICATE_INVALID_DECIMAL_LEXIS'')
              (decimal_of_text (text_value t))) (\<lambda>reparsed.
     rbind (pred_check (deq reparsed (dec_value v)) ''PREDICATE_MAGNITUDE_TEXT_VALUE_DISAGREEMENT'') (\<lambda>_.
       Inr v)))))))"

text \<open>\<open>_require_canonical_timestamp\<close> checks character by character, without a regular expression.\<close>

definition require_canonical_timestamp :: "pobj \<Rightarrow> utext result" where
  "require_canonical_timestamp v =
    (let bad = Inl (ClassificationPredicateError ''PREDICATE_INVALID_CANONICAL_TIMESTAMP'')
     in case v of
          OText t \<Rightarrow>
            (if t = [] then bad
             else if t \<noteq> ut ''0'' \<and> hd t = 48 then bad
             else if \<exists>c \<in> set t. c < 48 \<or> 57 < c then bad
             else Inr t)
        | _ \<Rightarrow> bad)"

section \<open>The public predicates\<close>

definition silver_pair_intersects :: "pobj \<Rightarrow> pobj \<Rightarrow> bool result" where
  "silver_pair_intersects manifest_key observed =
     rbind (require_carrier manifest_key OpaqueSilverPairKey) (\<lambda>_.
     rbind (require_carrier observed SilverPairProjection) (\<lambda>_.
     rbind (rbind (carrier_slot manifest_key ''silver_artifact_locator_text'') require_text) (\<lambda>key_locator.
     rbind (rbind (carrier_slot manifest_key ''silver_physical_record_position_text'') require_text) (\<lambda>key_position.
     rbind (rbind (carrier_slot observed ''silver_artifact_locator'') require_text) (\<lambda>observed_locator.
     rbind (rbind (carrier_slot observed ''silver_physical_record_position'') require_text) (\<lambda>observed_position.
       Inr (key_locator = observed_locator \<and> key_position = observed_position)))))))"

definition nonblank_text :: "pobj \<Rightarrow> bool" where
  "nonblank_text v = (case v of OText t \<Rightarrow> uni_strip t \<noteq> [] | _ \<Rightarrow> False)"

definition require_root_context_scalars :: "pobj \<Rightarrow> (pobj \<times> pobj) result" where
  "require_root_context_scalars ctx =
     rbind (require_carrier ctx EstablishedRootContext) (\<lambda>_.
     rbind (carrier_slot ctx ''source_venue_context_text'') (\<lambda>venue.
     rbind (carrier_slot ctx ''source_pair_context_text'') (\<lambda>pair.
     rbind (pred_check (nonblank_text venue \<and> nonblank_text pair) ''PREDICATE_INVALID_TEXT'') (\<lambda>_.
       Inr (venue, pair)))))"

definition require_context_tuple :: "pobj \<Rightarrow> (pobj \<times> pobj) result" where
  "require_context_tuple v = (case v of
     OTuple [a, b] \<Rightarrow>
       rbind (pred_check (nonblank_text a \<and> nonblank_text b) ''PREDICATE_INVALID_TEXT'') (\<lambda>_. Inr (a, b))
   | _ \<Rightarrow> Inl (ClassificationPredicateError ''PREDICATE_INVALID_TEXT''))"

definition context_equals :: "pobj \<Rightarrow> pobj \<Rightarrow> bool result" where
  "context_equals root_context observed_context =
     rbind (require_root_context_scalars root_context) (\<lambda>(root_venue, root_pair).
     rbind (require_carrier observed_context ScoreContextProjection) (\<lambda>_.
     rbind (rbind (carrier_slot observed_context ''score_inputs_summary'') require_context_tuple) (\<lambda>(v, p).
       Inr (root_venue = v \<and> root_pair = p))))"

definition WINDOW_NON_COMPARABLE :: string where "WINDOW_NON_COMPARABLE = ''WINDOW_NON_COMPARABLE''"
definition WINDOW_IN_WINDOW :: string where "WINDOW_IN_WINDOW = ''WINDOW_IN_WINDOW''"
definition WINDOW_EXPIRED :: string where "WINDOW_EXPIRED = ''WINDOW_EXPIRED''"

lemmas window_defs = WINDOW_NON_COMPARABLE_def WINDOW_IN_WINDOW_def WINDOW_EXPIRED_def

definition classify_timestamp_window :: "pobj \<Rightarrow> pobj \<Rightarrow> pobj \<Rightarrow> string result" where
  "classify_timestamp_window anchor comparison duration_ms =
     rbind (require_canonical_timestamp anchor) (\<lambda>anchor_text.
     rbind (require_carrier comparison ScoreTimestampProjection) (\<lambda>_.
     rbind (rbind (carrier_slot comparison ''provenance_timestamp'') require_canonical_timestamp) (\<lambda>comparison_text.
       (case duration_ms of
          OInt n \<Rightarrow>
            (if n < 0 \<or> n > MAX_HYPOTHETICAL_WINDOW_DURATION_MS
             then Inl (ClassificationPredicateError ''PREDICATE_INVALID_DURATION'')
             else if compare_canonical comparison_text anchor_text < 0 then Inr WINDOW_NON_COMPARABLE
             else (case add_canonical anchor_text (show_text n) of
                 None \<Rightarrow> Inl Diverges
               | Some window_bound \<Rightarrow>
                   Inr (if compare_canonical comparison_text window_bound \<le> 0 then WINDOW_IN_WINDOW
                        else WINDOW_EXPIRED)))
        | _ \<Rightarrow> Inl (ClassificationPredicateError ''PREDICATE_INVALID_DURATION'')))))"

definition unit_comparable :: "pobj \<Rightarrow> pobj \<Rightarrow> bool result" where
  "unit_comparable boundary_unit_context observed_unit =
     rbind (require_text boundary_unit_context) (\<lambda>boundary_text.
     rbind (require_carrier observed_unit ScoreUnitProjection) (\<lambda>_.
     rbind (rbind (carrier_slot observed_unit ''score_unit_context'') require_text) (\<lambda>observed_text.
       Inr (boundary_text = observed_text))))"

definition classify_directional_crossing :: "pobj \<Rightarrow> pobj \<Rightarrow> pobj \<Rightarrow> bool result" where
  "classify_directional_crossing orientation boundary observed =
     rbind (pred_check (is_text orientation) ''PREDICATE_INVALID_ORIENTATION'') (\<lambda>_.
     rbind (pred_check (orientation \<noteq> otext ''INERT_STATE'') ''PREDICATE_INERT_HAS_NO_CROSSING'') (\<lambda>_.
     rbind (pred_check (orientation = otext ''POSITIVE_EXPOSURE'' \<or> orientation = otext ''NEGATIVE_EXPOSURE'')
              ''PREDICATE_INVALID_ORIENTATION'') (\<lambda>_.
     rbind (pred_finite_decimal boundary) (\<lambda>b.
     rbind (require_validated_magnitude observed) (\<lambda>evidence.
       if orientation = otext ''POSITIVE_EXPOSURE'' then dle (dec_value b) (dec_value evidence)
       else dle (dec_value evidence) (dec_value b))))))"

section \<open>What they decide\<close>

lemma require_canonical_timestamp_eq:
  "require_canonical_timestamp v = Inr t \<longleftrightarrow> v = OText t \<and> canonical_int t"
proof -
  have "(t = [] \<or> t \<noteq> ut ''0'' \<and> hd t = 48 \<or> (\<exists>c \<in> set t. c < 48 \<or> 57 < c)) \<longleftrightarrow> \<not> canonical_int t" for t
    by (cases t) (auto simp: ut_def list_all_iff ascii_digit_def canonical_int_def not_le not_less)
  then show ?thesis
    by (auto simp: require_canonical_timestamp_def Let_def split: pobj.splits)
qed

text \<open>The window of a canonical anchor and a carrier is decided by the numbers.\<close>

lemma window_exact:
  assumes "canonical_int anchor" "canonical_int ts" "0 \<le> n" "n \<le> MAX_HYPOTHETICAL_WINDOW_DURATION_MS"
  shows "classify_timestamp_window (OText anchor) (new ScoreTimestampProjection [OText ts]) (OInt n) =
    Inr (if text_val ts < text_val anchor then WINDOW_NON_COMPARABLE
         else if int (text_val ts) - int (text_val anchor) \<le> n then WINDOW_IN_WINDOW
         else WINDOW_EXPIRED)"
proof -
  obtain w where w: "add_canonical anchor (show_text n) = Some w" "canonical_int w"
      "text_val w = text_val anchor + nat n"
    using add_canonical_exact[OF assms(1), of "show_text n"] show_text_val[OF assms(3)] by auto
  have c: "require_canonical_timestamp (OText anchor) = Inr anchor" "require_canonical_timestamp (OText ts) = Inr ts"
    using assms by (simp_all add: require_canonical_timestamp_eq)
  show ?thesis
    using assms(3,4) w
    by (auto simp: classify_timestamp_window_def c require_carrier_def carrier_slot_def py_attr_def
        compare_canonical_eq[OF assms(2,1)] compare_canonical_eq[OF assms(2) w(2)] raise_unless_def sgn_if)
qed

end
