(* ===== verification/ShadowStep.thy ===== *)
theory ShadowStep
  imports ShadowPredicates
begin

text \<open>
  One replay step and the fold (\<open>phase6_2_shadow_intent/atomic_replay_step.py\<close>,
  \<open>phase6_2_shadow_intent/reconstruction.py\<close>). A step takes the lifecycle snapshot, the pairs seen so
  far, one row and the artifact, and either publishes the next two snapshots or raises
  \<open>AtomicReplayStepError\<close> with a reason; the fold runs the rows of a tuple through it. A result is the
  pair of the two snapshots an \<open>AtomicReplayStepResult\<close> carries.
\<close>

abbreviation step_error :: "string \<Rightarrow> exn" where
  "step_error \<equiv> AtomicReplayStepError"

fun each :: "('a \<Rightarrow> unit result) \<Rightarrow> 'a list \<Rightarrow> unit result" where
  "each f [] = Inr ()"
| "each f (x # xs) = rbind (f x) (\<lambda>_. each f xs)"

section \<open>Revalidation of the inputs\<close>

definition check_snapshot_entry :: "string \<Rightarrow> pobj \<times> pobj \<Rightarrow> unit result" where
  "check_snapshot_entry reason = (\<lambda>(key, slot).
     rbind (revalidate_silver_pair_key key) (\<lambda>_.
     rbind (revalidate_lifecycle_slot slot) (\<lambda>_.
     rbind (slot_value slot ''shadow_intent_identity_reference'') (\<lambda>identity.
       raise_unless (key = identity) (step_error reason)))))"

definition revalidate_lifecycle_snapshot :: "pobj \<Rightarrow> string \<Rightarrow> (pobj \<times> pobj) list result" where
  "revalidate_lifecycle_snapshot snapshot reason =
     rbind (raise_unless (type_is ShadowLifecycleSnapshot snapshot) (step_error reason)) (\<lambda>_.
       except_as ((=) LogicalModelError) (step_error reason)
         (rbind (slot_value snapshot ''slots_by_identity'') (\<lambda>slots.
            (case slots of
               OProxy entries \<Rightarrow> rbind (each (check_snapshot_entry reason) entries) (\<lambda>_. Inr entries)
             | _ \<Rightarrow> Inl (step_error reason)))))"

definition revalidate_seen_snapshot :: "pobj \<Rightarrow> string \<Rightarrow> pobj list result" where
  "revalidate_seen_snapshot snapshot reason =
     rbind (raise_unless (type_is SeenTargetPairsSnapshot snapshot) (step_error reason)) (\<lambda>_.
       except_as ((=) LogicalModelError) (step_error reason)
         (rbind (slot_value snapshot ''seen_target_pairs'') (\<lambda>members.
            (case members of
               OFrozenset ms \<Rightarrow> rbind (each revalidate_silver_pair_key ms) (\<lambda>_. Inr ms)
             | _ \<Rightarrow> Inl (step_error reason)))))"

definition revalidate_manifest :: "pobj \<Rightarrow> (pobj \<times> pobj) list result" where
  "revalidate_manifest manifest =
    (let e = step_error ''STEP_INVALID_MANIFEST_PROJECTION''
     in rbind (raise_unless (type_is ShadowIntentDefinitionArtifact manifest) e) (\<lambda>_.
        except_as ((=) LogicalModelError) e
         (rbind (check_slot require_opaque_text manifest ''artifact_field_shape_version_reference'') (\<lambda>_.
          rbind (check_slot require_opaque_text manifest ''artifact_version_reference'') (\<lambda>_.
          rbind (check_slot require_opaque_text manifest ''declarer_opaque_reference'') (\<lambda>_.
          rbind (check_slot require_predecessor_option manifest ''predecessor_artifact_version_reference'') (\<lambda>_.
          rbind (slot_value manifest ''definitions_by_silver_pair'') (\<lambda>defs.
            (case defs of
               OProxy entries \<Rightarrow>
                 rbind (each (\<lambda>(key, d). rbind (revalidate_silver_pair_key key) (\<lambda>_. revalidate_definition d))
                          entries) (\<lambda>_. Inr entries)
             | _ \<Rightarrow> Inl e)))))))))"

section \<open>Delegation\<close>

definition is_s1_error :: "exn \<Rightarrow> bool" where
  "is_s1_error e = (case e of S1EvidenceProjectionError _ \<Rightarrow> True | _ \<Rightarrow> False)"

definition is_predicate_error :: "exn \<Rightarrow> bool" where
  "is_predicate_error e = (case e of ClassificationPredicateError _ \<Rightarrow> True | _ \<Rightarrow> False)"

definition project :: "pobj result \<Rightarrow> pobj result" where
  "project m = except_as is_s1_error (step_error ''STEP_EVIDENCE_PROJECTION_REJECTED'') m"

definition predicate :: "'a result \<Rightarrow> 'a result" where
  "predicate m = except_as is_predicate_error (step_error ''STEP_CLASSIFICATION_PREDICATE_REJECTED'') m"

definition lookup_definition :: "(pobj \<times> pobj) list \<Rightarrow> pobj \<Rightarrow> pobj result" where
  "lookup_definition defs key = (case map_of defs key of
     Some d \<Rightarrow> Inr d | None \<Rightarrow> Inl (step_error ''STEP_MANIFEST_DEFINITION_ABSENT''))"

definition legal_forward :: "pobj \<Rightarrow> pobj list" where
  "legal_forward state =
    (if state = AUDIT_REPLAYED then [INTENT_RECORDED]
     else if state = INTENT_RECORDED then [HYPOTHETICAL_CONDITION_MET, INTENT_EXPIRED, INTENT_RETIRED]
     else if state = HYPOTHETICAL_CONDITION_MET then [INTENT_EXPIRED, INTENT_RETIRED]
     else [])"

definition require_legal_transition :: "pobj \<Rightarrow> pobj \<Rightarrow> unit result" where
  "require_legal_transition old_state new_state =
    (if new_state = old_state then Inr ()
     else raise_unless (new_state \<in> set (legal_forward old_state)) (step_error ''STEP_INVALID_LIFECYCLE_TRANSITION''))"

section \<open>The first target row of a pair\<close>

definition establish_slot :: "pobj \<Rightarrow> pobj \<Rightarrow> pobj \<Rightarrow> pobj result" where
  "establish_slot key root_context anchor_text =
     rbind (new_established_root_evidence root_context anchor_text) (new_lifecycle_slot key INTENT_RECORDED)"

text \<open>What the row proposes for its own pair: the slot of an established intent, or of one that is never
  established because its unit is not the one of the definition.\<close>

definition first_target :: "nat \<Rightarrow> (pobj \<times> pobj) list \<Rightarrow> pobj \<Rightarrow> pobj \<Rightarrow> pobj result" where
  "first_target depth defs row row_key =
     rbind (lookup_definition defs row_key) (\<lambda>definition.
     rbind (project (project_observation_kind row)) (\<lambda>kind.
     rbind (slot_value kind ''observation_kind'') (\<lambda>observation_kind.
     rbind (raise_unless (observation_kind = SCORE_OBSERVATION_KIND) (step_error ''STEP_TARGETED_NON_SCORE_ROOT'')) (\<lambda>_.
     rbind (project (project_score_family depth row)) (\<lambda>_.
     rbind (project (project_score_context depth row)) (\<lambda>ctx.
     rbind (project (project_score_timestamp depth row)) (\<lambda>timestamp.
     rbind (slot_value ctx ''score_inputs_summary'') (\<lambda>summary.
     rbind (slot_value timestamp ''provenance_timestamp'') (\<lambda>anchor_text.
     rbind (case summary of OTuple [venue, pair] \<Rightarrow> new_established_root_context venue pair
            | _ \<Rightarrow> Inl IndexError) (\<lambda>root_context.
       if type_is DirectionalShadowIntentDefinition definition then
         rbind (project (project_score_unit depth row)) (\<lambda>un.
         rbind (slot_value definition ''boundary_unit_context'') (\<lambda>boundary_unit.
         rbind (predicate (unit_comparable boundary_unit un)) (\<lambda>comparable.
           if \<not> comparable then new_lifecycle_slot row_key AUDIT_REPLAYED (new NoRootEvidence [])
           else establish_slot row_key root_context anchor_text)))
       else establish_slot row_key root_context anchor_text))))))))))"

section \<open>Later observations\<close>

text \<open>The slots that can still change, less the one established by this row.\<close>

fun active_slots :: "pobj option \<Rightarrow> (pobj \<times> pobj) list \<Rightarrow> (pobj \<times> pobj) list result" where
  "active_slots established [] = Inr []"
| "active_slots established ((key, slot) # slots) =
    (if Some key = established then active_slots established slots
     else rbind (slot_value slot ''lifecycle_state'') (\<lambda>state.
          rbind (active_slots established slots) (\<lambda>rest.
            Inr (if state = INTENT_RECORDED \<or> state = HYPOTHETICAL_CONDITION_MET then (key, slot) # rest else rest))))"

fun context_equal_slots :: "pobj \<Rightarrow> (pobj \<times> pobj) list \<Rightarrow> (pobj \<times> pobj) list result" where
  "context_equal_slots ctx [] = Inr []"
| "context_equal_slots ctx ((key, slot) # slots) =
     rbind (rbind (slot_value slot ''root_evidence'') (\<lambda>e. slot_value e ''root_context'')) (\<lambda>root_context.
     rbind (predicate (context_equals root_context ctx)) (\<lambda>eq.
     rbind (context_equal_slots ctx slots) (\<lambda>rest.
       Inr (if eq then (key, slot) # rest else rest))))"

definition classify_crossing :: "nat \<Rightarrow> pobj \<Rightarrow> pobj \<Rightarrow> pobj \<Rightarrow> (pobj \<times> pobj) option result" where
  "classify_crossing depth definition old_state row =
     rbind (project (project_score_unit depth row)) (\<lambda>un.
     rbind (slot_value definition ''boundary_unit_context'') (\<lambda>boundary_unit.
     rbind (predicate (unit_comparable boundary_unit un)) (\<lambda>comparable.
       if \<not> comparable then Inr None
       else
         rbind (project (project_score_magnitude depth row)) (\<lambda>magnitude.
         rbind (slot_value definition ''exposure_orientation'') (\<lambda>orientation.
         rbind (slot_value definition ''passive_boundary_magnitude'') (\<lambda>boundary.
         rbind (predicate (classify_directional_crossing orientation boundary magnitude)) (\<lambda>crossed.
           Inr (if crossed \<and> old_state = INTENT_RECORDED
                then Some (old_state, HYPOTHETICAL_CONDITION_MET) else None))))))))"

definition classify_slot ::
  "nat \<Rightarrow> (pobj \<times> pobj) list \<Rightarrow> pobj \<Rightarrow> pobj \<Rightarrow> pobj \<Rightarrow> pobj \<Rightarrow> (pobj \<times> pobj) option result" where
  "classify_slot depth defs key slot row timestamp =
     rbind (lookup_definition defs key) (\<lambda>definition.
     rbind (slot_value definition ''hypothetical_window_duration_ms'') (\<lambda>duration.
     rbind (rbind (slot_value slot ''root_evidence'') (\<lambda>e. slot_value e ''provenance_anchor_timestamp_text'')) (\<lambda>anchor.
     rbind (predicate (classify_timestamp_window anchor timestamp duration)) (\<lambda>window.
       if window = WINDOW_NON_COMPARABLE then Inr None
       else
         rbind (slot_value slot ''lifecycle_state'') (\<lambda>old_state.
           if window = WINDOW_EXPIRED then Inr (Some (old_state, INTENT_EXPIRED))
           else if type_is InertShadowIntentDefinition definition then Inr None
           else classify_crossing depth definition old_state row)))))"

fun classify_slots :: "nat \<Rightarrow> (pobj \<times> pobj) list \<Rightarrow> pobj \<Rightarrow> pobj \<Rightarrow> (pobj \<times> pobj) list
    \<Rightarrow> (pobj \<times> (pobj \<times> pobj)) list result" where
  "classify_slots depth defs row timestamp [] = Inr []"
| "classify_slots depth defs row timestamp ((key, slot) # slots) =
     rbind (classify_slot depth defs key slot row timestamp) (\<lambda>transition.
     rbind (classify_slots depth defs row timestamp slots) (\<lambda>rest.
       Inr (case transition of Some t \<Rightarrow> (key, t) # rest | None \<Rightarrow> rest)))"

definition later_transitions :: "nat \<Rightarrow> (pobj \<times> pobj) list \<Rightarrow> pobj \<Rightarrow> (pobj \<times> pobj) list
    \<Rightarrow> (pobj \<times> (pobj \<times> pobj)) list result" where
  "later_transitions depth defs row active =
    (if active = [] then Inr []
     else
       rbind (project (project_observation_kind row)) (\<lambda>kind.
       rbind (slot_value kind ''observation_kind'') (\<lambda>observation_kind.
         if observation_kind \<noteq> SCORE_OBSERVATION_KIND then Inr []
         else
           rbind (project (project_score_context depth row)) (\<lambda>ctx.
           rbind (context_equal_slots ctx active) (\<lambda>context_equal.
             if context_equal = [] then Inr []
             else
               rbind (project (project_score_family depth row)) (\<lambda>_.
               rbind (project (project_score_timestamp depth row)) (\<lambda>timestamp.
                 classify_slots depth defs row timestamp context_equal)))))))"

section \<open>Publication, the step, the fold\<close>

fun publish_entries :: "(pobj \<times> (pobj \<times> pobj)) list \<Rightarrow> (pobj \<times> pobj) list \<Rightarrow> (pobj \<times> pobj) list result" where
  "publish_entries transitions [] = Inr []"
| "publish_entries transitions ((key, slot) # slots) =
     rbind (case map_of transitions key of
              Some (old_state, new_state) \<Rightarrow>
                rbind (require_legal_transition old_state new_state) (\<lambda>_.
                rbind (slot_value slot ''root_evidence'') (\<lambda>e. new_lifecycle_slot key new_state e))
            | None \<Rightarrow> Inr slot) (\<lambda>slot'.
     rbind (publish_entries transitions slots) (\<lambda>rest. Inr ((key, slot') # rest)))"

definition new_step_result :: "pobj \<Rightarrow> pobj \<Rightarrow> (pobj \<times> pobj) result" where
  "new_step_result lifecycle seen =
     rbind (revalidate_lifecycle_snapshot lifecycle ''STEP_PUBLICATION_INVARIANT_VIOLATION'') (\<lambda>_.
     rbind (revalidate_seen_snapshot seen ''STEP_PUBLICATION_INVARIANT_VIOLATION'') (\<lambda>_.
       Inr (lifecycle, seen)))"

definition tuple_entries :: "(pobj \<times> pobj) list \<Rightarrow> pobj" where
  "tuple_entries entries = OTuple (map (\<lambda>(k, v). OTuple [k, v]) entries)"

text \<open>The proposal of the row for its own pair is \<open>proposal\<close>: the key, which is also committed to the pairs
  seen, and its slot. A snapshot without a change is passed on as it is.\<close>

definition publish :: "pobj \<Rightarrow> pobj \<Rightarrow> (pobj \<times> pobj) list \<Rightarrow> pobj list \<Rightarrow> (pobj \<times> (pobj \<times> pobj)) list
    \<Rightarrow> (pobj \<times> pobj) option \<Rightarrow> (pobj \<times> pobj) result" where
  "publish lifecycle seen slots seen_members transitions proposal =
    (if transitions = [] \<and> proposal = None then new_step_result lifecycle seen
     else
       rbind (except_as ((=) LogicalModelError) (step_error ''STEP_PUBLICATION_INVARIANT_VIOLATION'')
         (rbind (publish_entries transitions slots) (\<lambda>entries.
          rbind (make_shadow_lifecycle_snapshot
                   (tuple_entries (entries @ (case proposal of Some p \<Rightarrow> [p] | None \<Rightarrow> [])))) (\<lambda>next_lifecycle.
          rbind (case proposal of
                   Some (key, _) \<Rightarrow> make_seen_target_pairs_snapshot (OTuple (seen_members @ [key]))
                 | None \<Rightarrow> Inr seen) (\<lambda>next_seen.
            Inr (next_lifecycle, next_seen))))))
         (\<lambda>(next_lifecycle, next_seen). new_step_result next_lifecycle next_seen))"

definition execute_atomic_replay_step :: "nat \<Rightarrow> pobj \<Rightarrow> pobj \<Rightarrow> pobj \<Rightarrow> pobj \<Rightarrow> (pobj \<times> pobj) result" where
  "execute_atomic_replay_step depth lifecycle seen row manifest =
     rbind (revalidate_lifecycle_snapshot lifecycle ''STEP_INVALID_CURRENT_LIFECYCLE_SNAPSHOT'') (\<lambda>slots.
     rbind (revalidate_seen_snapshot seen ''STEP_INVALID_CURRENT_SEEN_PAIRS'') (\<lambda>seen_members.
     rbind (revalidate_manifest manifest) (\<lambda>defs.
     rbind (project (project_silver_pair row)) (\<lambda>silver.
     rbind (slot_value silver ''silver_artifact_locator'') (\<lambda>locator.
     rbind (slot_value silver ''silver_physical_record_position'') (\<lambda>position.
     rbind (make_opaque_silver_pair_key locator position) (\<lambda>row_key.
     let is_target = row_key \<in> fst ` set defs in
     rbind (raise_unless (\<not> (is_target \<and> row_key \<in> set seen_members)) (step_error ''STEP_DUPLICATE_ROOT'')) (\<lambda>_.
     rbind (if is_target
            then rbind (first_target depth defs row row_key) (\<lambda>slot. Inr (Some (row_key, slot)))
            else Inr None) (\<lambda>proposal.
     rbind (active_slots (if is_target then Some row_key else None) slots) (\<lambda>active.
     rbind (later_transitions depth defs row active) (\<lambda>transitions.
       publish lifecycle seen slots seen_members transitions proposal)))))))))))"

text \<open>The fold; \<open>result\<close> is the loop's variable, absent before the first row.\<close>

fun reconstruct_fold :: "nat \<Rightarrow> pobj \<Rightarrow> pobj list \<Rightarrow> pobj \<Rightarrow> pobj \<Rightarrow> (pobj \<times> pobj) option
    \<Rightarrow> (pobj \<times> pobj) result" where
  "reconstruct_fold depth manifest [] lifecycle seen result =
    (case result of Some r \<Rightarrow> Inr r | None \<Rightarrow> new_step_result lifecycle seen)"
| "reconstruct_fold depth manifest (row # rows) lifecycle seen result =
     rbind (execute_atomic_replay_step depth lifecycle seen row manifest) (\<lambda>(lifecycle', seen').
       reconstruct_fold depth manifest rows lifecycle' seen' (Some (lifecycle', seen')))"

definition reconstruct_shadow_intent_state :: "nat \<Rightarrow> pobj \<Rightarrow> pobj \<Rightarrow> (pobj \<times> pobj) result" where
  "reconstruct_shadow_intent_state depth rows manifest =
    (case rows of
       OTuple rs \<Rightarrow>
         if \<not> type_is ShadowIntentDefinitionArtifact manifest then Inl TypeError
         else
           rbind (make_shadow_lifecycle_snapshot (OTuple [])) (\<lambda>lifecycle.
           rbind (make_seen_target_pairs_snapshot (OTuple [])) (\<lambda>seen.
             reconstruct_fold depth manifest rs lifecycle seen None))
     | _ \<Rightarrow> Inl TypeError)"

end
