(* ===== verification/ShadowSafety.thy ===== *)
theory ShadowSafety
  imports ShadowStep
begin

text \<open>
  What the reconstruction computes. The specification is one automaton per defined pair, over numbers:
  a pair is not yet seen, dormant (its unit never fitted), active with its context, anchor and whether
  the condition was met, or expired. \<open>step_refines\<close> shows that a successful step moves every
  pair by its own automaton, with all revalidations, text arithmetic and publication checks of
  the code passing, and that a failing step fails for one of three reasons.
\<close>

section \<open>The specification\<close>

type_synonym pair_key = "utext \<times> utext"

datatype shadow_def = Directional bool rat utext int | Inert int

fun window_of :: "shadow_def \<Rightarrow> int" where
  "window_of (Directional _ _ _ n) = n"
| "window_of (Inert n) = n"

datatype phase = Dormant | Active "utext \<times> utext" utext bool | Expired "utext \<times> utext" utext

text \<open>What a row says, where its projection succeeds.\<close>

definition row_pair :: "pobj \<Rightarrow> pair_key option" where
  "row_pair row = (case project_silver_pair row of Inr x \<Rightarrow>
     Some (text_value (the (py_attr x ''silver_artifact_locator'')),
           text_value (the (py_attr x ''silver_physical_record_position''))) | Inl _ \<Rightarrow> None)"

definition row_is_score :: "pobj \<Rightarrow> bool" where
  "row_is_score row \<longleftrightarrow> project_observation_kind row = Inr (new ObservationKindProjection [SCORE_OBSERVATION_KIND])"

definition row_context :: "nat \<Rightarrow> pobj \<Rightarrow> (utext \<times> utext) option" where
  "row_context depth row = (case project_score_context depth row of Inr x \<Rightarrow>
     (case py_attr x ''score_inputs_summary'' of
        Some (OTuple vs) \<Rightarrow> Some (text_value (vs ! 0), text_value (vs ! 1)) | _ \<Rightarrow> None) | Inl _ \<Rightarrow> None)"

definition row_time :: "nat \<Rightarrow> pobj \<Rightarrow> utext option" where
  "row_time depth row = (case project_score_timestamp depth row of Inr x \<Rightarrow>
     Some (text_value (the (py_attr x ''provenance_timestamp''))) | Inl _ \<Rightarrow> None)"

definition row_unit :: "nat \<Rightarrow> pobj \<Rightarrow> utext option" where
  "row_unit depth row = (case project_score_unit depth row of Inr x \<Rightarrow>
     Some (text_value (the (py_attr x ''score_unit_context''))) | Inl _ \<Rightarrow> None)"

definition row_magnitude :: "nat \<Rightarrow> pobj \<Rightarrow> rat option" where
  "row_magnitude depth row = (case project_score_magnitude depth row of Inr x \<Rightarrow>
     (case dec_value (the (py_attr x ''passive_score_magnitude'')) of DFin q \<Rightarrow> Some q | _ \<Rightarrow> None) | Inl _ \<Rightarrow> None)"

definition crosses :: "nat \<Rightarrow> shadow_def \<Rightarrow> pobj \<Rightarrow> bool" where
  "crosses depth d row = (case d of Inert _ \<Rightarrow> False
     | Directional up q un _ \<Rightarrow> row_unit depth row = Some un
         \<and> (case row_magnitude depth row of Some m \<Rightarrow> if up then q \<le> m else m \<le> q | None \<Rightarrow> False))"

definition establish :: "nat \<Rightarrow> shadow_def \<Rightarrow> pobj \<Rightarrow> phase" where
  "establish depth d row = (case (row_context depth row, row_time depth row) of
     (Some c, Some a) \<Rightarrow> (case d of Inert _ \<Rightarrow> Active c a False
        | Directional _ _ un _ \<Rightarrow> if row_unit depth row = Some un then Active c a False else Dormant)
   | _ \<Rightarrow> Dormant)"

fun observe :: "nat \<Rightarrow> shadow_def \<Rightarrow> pobj \<Rightarrow> phase \<Rightarrow> phase" where
  "observe depth d row (Active c a met) =
    (if row_is_score row \<and> row_context depth row = Some c then
       (case row_time depth row of
          None \<Rightarrow> Active c a met
        | Some t \<Rightarrow>
            if text_val t < text_val a then Active c a met
            else if window_of d < int (text_val t) - int (text_val a) then Expired c a
            else Active c a (met \<or> crosses depth d row))
     else Active c a met)"
| "observe depth d row p = p"

definition key_step :: "nat \<Rightarrow> pair_key \<Rightarrow> shadow_def \<Rightarrow> phase option \<Rightarrow> pobj \<Rightarrow> phase option" where
  "key_step depth k d p row = (case p of
     None \<Rightarrow> if row_pair row = Some k then Some (establish depth d row) else None
   | Some q \<Rightarrow> Some (observe depth d row q))"

definition key_run :: "nat \<Rightarrow> pair_key \<Rightarrow> shadow_def \<Rightarrow> pobj list \<Rightarrow> phase option" where
  "key_run depth k d rows = foldl (key_step depth k d) None rows"

section \<open>The objects that represent a state\<close>

definition key_obj :: "pair_key \<Rightarrow> pobj" where
  "key_obj k = okey (fst k) (snd k)"

fun def_obj :: "shadow_def \<Rightarrow> pobj" where
  "def_obj (Directional up q un n) =
     odirectional (if up then otext ''POSITIVE_EXPOSURE'' else otext ''NEGATIVE_EXPOSURE'') q un n"
| "def_obj (Inert n) = oinert n"

definition evidence_obj :: "utext \<times> utext \<Rightarrow> utext \<Rightarrow> pobj" where
  "evidence_obj c a = oevidence (fst c) (snd c) a"

fun phase_state :: "phase \<Rightarrow> pobj" where
  "phase_state Dormant = AUDIT_REPLAYED"
| "phase_state (Active c a met) = (if met then HYPOTHETICAL_CONDITION_MET else INTENT_RECORDED)"
| "phase_state (Expired c a) = INTENT_EXPIRED"

fun phase_evidence :: "phase \<Rightarrow> pobj" where
  "phase_evidence Dormant = no_root"
| "phase_evidence (Active c a met) = evidence_obj c a"
| "phase_evidence (Expired c a) = evidence_obj c a"

definition slot_obj :: "pair_key \<Rightarrow> phase \<Rightarrow> pobj" where
  "slot_obj k p = oslot (key_obj k) (phase_state p) (phase_evidence p)"

definition entries_obj :: "(pair_key \<times> phase) list \<Rightarrow> (pobj \<times> pobj) list" where
  "entries_obj ts = map (\<lambda>(k, p). (key_obj k, slot_obj k p)) ts"

definition defs_obj :: "(pair_key \<times> shadow_def) list \<Rightarrow> (pobj \<times> pobj) list" where
  "defs_obj ds = map (\<lambda>(k, d). (key_obj k, def_obj d)) ds"

definition lifecycle_obj :: "(pair_key \<times> phase) list \<Rightarrow> pobj" where
  "lifecycle_obj ts = new ShadowLifecycleSnapshot [OProxy (entries_obj ts)]"

definition seen_obj :: "(pair_key \<times> phase) list \<Rightarrow> pobj" where
  "seen_obj ts = new SeenTargetPairsSnapshot [OFrozenset (map (key_obj \<circ> fst) ts)]"

fun phase_ok :: "phase \<Rightarrow> bool" where
  "phase_ok Dormant = True"
| "phase_ok (Active (v, p) a met) = evidence_ok v p a"
| "phase_ok (Expired (v, p) a) = evidence_ok v p a"

definition state_ok :: "(pair_key \<times> shadow_def) list \<Rightarrow> (pair_key \<times> phase) list \<Rightarrow> bool" where
  "state_ok ds ts \<longleftrightarrow> distinct (map fst ts) \<and> fst ` set ts \<subseteq> fst ` set ds \<and> (\<forall>(k, p) \<in> set ts. phase_ok p)"

definition defs_ok :: "(pair_key \<times> shadow_def) list \<Rightarrow> bool" where
  "defs_ok ds \<longleftrightarrow> distinct (map fst ds) \<and> (\<forall>(k, d) \<in> set ds. duration_ok (window_of d))"

definition manifest_defs :: "pobj \<Rightarrow> (pair_key \<times> shadow_def) list \<Rightarrow> bool" where
  "manifest_defs manifest ds \<longleftrightarrow> defs_ok ds \<and> type_is ShadowIntentDefinitionArtifact manifest
     \<and> revalidate_manifest manifest = Inr (defs_obj ds)"

lemma key_obj_inj [simp]: "key_obj k = key_obj k' \<longleftrightarrow> k = k'"
  by (auto simp: key_obj_def prod_eq_iff)

lemma inj_key_obj [simp]: "inj key_obj"
  by (simp add: inj_def)

lemma key_revalidates [simp]: "revalidate_silver_pair_key (key_obj k) = Inr ()"
  by (auto simp: key_passes key_obj_def)

lemma lookup_obj [simp]:
  "map_of (defs_obj ds) (key_obj k) = map_option def_obj (map_of ds k)"
  "map_of (entries_obj ts) (key_obj k) = map_option (slot_obj k) (map_of ts k)"
  by (induction ds) (auto simp: defs_obj_def, induction ts, auto simp: entries_obj_def)

lemma keys_obj [simp]:
  "fst ` set (defs_obj ds) = key_obj ` fst ` set ds" "fst ` set (entries_obj ts) = key_obj ` fst ` set ts"
  "map fst (entries_obj ts) = map (key_obj \<circ> fst) ts"
  by (force simp: defs_obj_def entries_obj_def image_image)+

lemma entries_obj_simps [simp]:
  "entries_obj [] = []" "entries_obj ((k, p) # ts) = (key_obj k, slot_obj k p) # entries_obj ts"
  "entries_obj (ts @ ts') = entries_obj ts @ entries_obj ts'"
  by (simp_all add: entries_obj_def)

lemma slot_obj_slots [simp]:
  "slot_value (slot_obj k p) ''shadow_intent_identity_reference'' = Inr (key_obj k)"
  "slot_value (slot_obj k p) ''lifecycle_state'' = Inr (phase_state p)"
  "slot_value (slot_obj k p) ''root_evidence'' = Inr (phase_evidence p)"
  by (simp_all add: slot_obj_def)

lemma states_neq [simp]:
  "AUDIT_REPLAYED \<noteq> INTENT_RECORDED" "AUDIT_REPLAYED \<noteq> HYPOTHETICAL_CONDITION_MET" "AUDIT_REPLAYED \<noteq> INTENT_EXPIRED"
  "INTENT_RECORDED \<noteq> AUDIT_REPLAYED" "HYPOTHETICAL_CONDITION_MET \<noteq> AUDIT_REPLAYED" "INTENT_EXPIRED \<noteq> AUDIT_REPLAYED"
  "INTENT_RECORDED \<noteq> HYPOTHETICAL_CONDITION_MET" "INTENT_RECORDED \<noteq> INTENT_EXPIRED"
  "HYPOTHETICAL_CONDITION_MET \<noteq> INTENT_RECORDED" "INTENT_EXPIRED \<noteq> INTENT_RECORDED"
  "HYPOTHETICAL_CONDITION_MET \<noteq> INTENT_EXPIRED" "INTENT_EXPIRED \<noteq> HYPOTHETICAL_CONDITION_MET"
  by (simp_all add: lifecycle_defs)

lemma phase_checked: "phase_ok p \<Longrightarrow> check_lifecycle_slot (key_obj k) (phase_state p) (phase_evidence p) = Inr ()"
  by (cases p) (auto simp: slot_check_passes key_obj_def evidence_obj_def CLOSED_LIFECYCLE_STATES_def)

lemma slot_obj_checked:
  assumes "phase_ok p"
  shows "check_slot_entry (key_obj k) (slot_obj k p) = Inr ()" "revalidate_lifecycle_slot (slot_obj k p) = Inr ()"
    "new_lifecycle_slot (key_obj k) (phase_state p) (phase_evidence p) = Inr (slot_obj k p)"
  using phase_checked[OF assms, of k]
  by (auto simp: slot_entry_passes slot_passes slot_obj_def new_lifecycle_slot_def oslot_def)

section \<open>The revalidations pass\<close>

lemma each_Inr: "each f xs = Inr r \<longleftrightarrow> (\<forall>x \<in> set xs. f x = Inr ())"
  by (induction xs) (auto simp: rbind_eq_Inr)

lemma lifecycle_revalidates:
  assumes "state_ok ds ts"
  shows "revalidate_lifecycle_snapshot (lifecycle_obj ts) reason = Inr (entries_obj ts)"
proof -
  have "each (check_snapshot_entry reason) (entries_obj ts) = Inr ()"
    using assms slot_obj_checked(2)
    by (auto simp: each_Inr state_ok_def entries_obj_def check_snapshot_entry_def)
  then show ?thesis
    by (simp add: revalidate_lifecycle_snapshot_def lifecycle_obj_def raise_unless_def)
qed

lemma seen_revalidates:
  "revalidate_seen_snapshot (seen_obj ts) reason = Inr (map (key_obj \<circ> fst) ts)"
proof -
  have "each revalidate_silver_pair_key (map (key_obj \<circ> fst) ts) = Inr ()" by (auto simp: each_Inr)
  then show ?thesis
    by (simp add: revalidate_seen_snapshot_def seen_obj_def raise_unless_def)
qed

lemma result_revalidates:
  "state_ok ds ts \<Longrightarrow> new_step_result (lifecycle_obj ts) (seen_obj ts) = Inr (lifecycle_obj ts, seen_obj ts)"
  by (simp add: new_step_result_def lifecycle_revalidates seen_revalidates)

section \<open>Failures\<close>

abbreviation rejected :: exn where
  "rejected \<equiv> step_error ''STEP_EVIDENCE_PROJECTION_REJECTED''"

definition fails_only :: "exn set \<Rightarrow> 'a result \<Rightarrow> bool" where
  "fails_only E m \<longleftrightarrow> (\<forall>e. m = Inl e \<longrightarrow> e \<in> E)"

lemma fails_only_Inr [simp]: "fails_only E (Inr x)" "fails_only E (Inl e) \<longleftrightarrow> e \<in> E"
  "fails_only E (raise_unless b e) \<longleftrightarrow> b \<or> e \<in> E"
  by (auto simp: fails_only_def)

lemma fails_only_bind:
  "fails_only E m \<Longrightarrow> (\<And>x. m = Inr x \<Longrightarrow> fails_only E (f x)) \<Longrightarrow> fails_only E (rbind m f)"
  by (auto simp: fails_only_def rbind_eq_Inl)

lemma project_error: "s1_total m \<Longrightarrow> project m = Inl e \<Longrightarrow> e = rejected"
  by (auto simp: project_def s1_total_def s1_error_def except_as_def is_s1_error_def split: sum.splits)

lemma project_Inr [simp]: "project m = Inr x \<longleftrightarrow> m = Inr x"
  by (simp add: project_def)

lemma project_of_Inr: "project (Inr x) = Inr x"
  by (simp add: project_def)

lemma predicate_Inr [simp]: "predicate (Inr x) = Inr x"
  by (simp add: predicate_def)

lemma fails_only_project: "s1_total m \<Longrightarrow> rejected \<in> E \<Longrightarrow> fails_only E (project m)"
  by (auto simp: fails_only_def dest: project_error)

lemmas fails_only_rules = fails_only_bind projectors_total[THEN fails_only_project]

lemma row_pair_eq: "project_silver_pair row = Inr x \<Longrightarrow>
    \<exists>k. row_pair row = Some k \<and> x = new SilverPairProjection [OText (fst k), OText (snd k)]"
  by (auto dest!: silver_pair_shape simp: row_pair_def py_attr_def text_value_def)

lemma row_context_eq: "project_score_context depth row = Inr x \<Longrightarrow>
    \<exists>c. row_context depth row = Some c \<and> x = new ScoreContextProjection [OTuple [OText (fst c), OText (snd c)]]
      \<and> \<not> list_all uni_space (fst c) \<and> \<not> list_all uni_space (snd c)"
  by (auto dest!: context_shape simp: row_context_def py_attr_def text_value_def)

lemma row_time_eq: "project_score_timestamp depth row = Inr x \<Longrightarrow>
    \<exists>t. row_time depth row = Some t \<and> x = new ScoreTimestampProjection [OText t] \<and> canonical_int t"
  by (auto dest!: timestamp_shape simp: row_time_def py_attr_def text_value_def)

lemma row_unit_eq: "project_score_unit depth row = Inr x \<Longrightarrow>
    \<exists>t. row_unit depth row = Some t \<and> x = new ScoreUnitProjection [OText t]"
  by (auto dest!: unit_shape simp: row_unit_def py_attr_def text_value_def)

lemma row_magnitude_eq: "project_score_magnitude depth row = Inr x \<Longrightarrow>
    \<exists>q t. row_magnitude depth row = Some q \<and> x = new ScoreMagnitudeProjection [OText t, ODec (DFin q)]
      \<and> phase5_split t \<noteq> None \<and> decimal_of_text t = Inr (DFin q)"
  by (auto dest!: magnitude_shape simp: row_magnitude_def py_attr_def dec_value_def)

text \<open>The predicates on well-formed operands.\<close>

lemma unit_comparable_eq: "unit_comparable (OText b) (new ScoreUnitProjection [OText t]) = Inr (b = t)"
  by (simp add: unit_comparable_def require_text_def require_carrier_def carrier_slot_def py_attr_def raise_unless_def)

lemma context_equals_eq:
  assumes "evidence_ok v p a" "\<not> list_all uni_space v'" "\<not> list_all uni_space p'"
  shows "context_equals (new EstablishedRootContext [OText v, OText p]) (new ScoreContextProjection [OTuple [OText v', OText p']])
           = Inr (v = v' \<and> p = p')"
  using assms
  by (simp add: context_equals_def require_root_context_scalars_def require_context_tuple_def require_carrier_def
      carrier_slot_def py_attr_def raise_unless_def nonblank_text_def uni_strip_Nil_iff evidence_ok_def)

lemma crossing_eq:
  assumes "phase5_split t \<noteq> None" "decimal_of_text t = Inr (DFin m)"
  shows "classify_directional_crossing (if up then otext ''POSITIVE_EXPOSURE'' else otext ''NEGATIVE_EXPOSURE'')
           (ODec (DFin q)) (new ScoreMagnitudeProjection [OText t, ODec (DFin m)]) = Inr (if up then q \<le> m else m \<le> q)"
  using assms
  by (simp add: classify_directional_crossing_def pred_finite_decimal_def require_validated_magnitude_def
      require_carrier_def carrier_slot_def py_attr_def raise_unless_def is_finite_decimal_def is_phase5_text_iff
      text_value_def dec_value_def deq_def)

lemma def_obj_slots [simp]:
  "slot_value (def_obj d) ''hypothetical_window_duration_ms'' = Inr (OInt (window_of d))"
  "type_is DirectionalShadowIntentDefinition (def_obj d) \<longleftrightarrow> (\<exists>up q un n. d = Directional up q un n)"
  "type_is InertShadowIntentDefinition (def_obj d) \<longleftrightarrow> (\<exists>n. d = Inert n)"
  by (cases d; simp)+

section \<open>The row's own pair\<close>

lemma establish_slot_eq:
  assumes "\<not> list_all uni_space v" "\<not> list_all uni_space p" "canonical_int t"
  shows "new_established_root_context (OText v) (OText p) = Inr (OInst EstablishedRootContext [Some (OText v), Some (OText p)])"
    "establish_slot (key_obj k) (OInst EstablishedRootContext [Some (OText v), Some (OText p)]) (OText t) =
       Inr (slot_obj k (Active (v, p) t False))"
    "phase_ok (Active (v, p) t False)"
proof -
  show ok: "phase_ok (Active (v, p) t False)" using assms by (simp add: evidence_ok_def)
  show "new_established_root_context (OText v) (OText p) = Inr (OInst EstablishedRootContext [Some (OText v), Some (OText p)])"
    using assms by (auto simp: new_established_root_context_def rbind_eq_Inr)
  show "establish_slot (key_obj k) (OInst EstablishedRootContext [Some (OText v), Some (OText p)]) (OText t) =
      Inr (slot_obj k (Active (v, p) t False))"
    using assms slot_obj_checked(3)[OF ok, of k]
    by (auto simp: establish_slot_def rbind_eq_Inr new_established_root_evidence_def context_passes
        evidence_obj_def oevidence_def)
qed

lemma dormant_slot_eq: "new_lifecycle_slot (key_obj k) AUDIT_REPLAYED (OInst NoRootEvidence []) = Inr (slot_obj k Dormant)"
  using slot_obj_checked(3)[of Dormant k] by (simp add: no_root_def)

lemmas row_eqs = row_context_eq row_time_eq row_unit_eq row_magnitude_eq

lemma first_target_eq:
  assumes "map_of ds k = Some d" "first_target depth (defs_obj ds) row (key_obj k) = Inr s"
  shows "s = slot_obj k (establish depth d row) \<and> phase_ok (establish depth d row)"
  using assms(2)
  by (cases d) (auto simp: first_target_def rbind_eq_Inr lookup_definition_def assms(1) establish_def establish_slot_eq
      evidence_ok_def dormant_slot_eq unit_comparable_eq[simplified] dest!: row_eqs split: if_splits)

lemma first_target_error:
  assumes "map_of ds k = Some d"
  shows "fails_only (if row_is_score row then {rejected} else {rejected, step_error ''STEP_TARGETED_NON_SCORE_ROOT''})
      (first_target depth (defs_obj ds) row (key_obj k))"
  by (cases d) (auto simp: row_is_score_def project_of_Inr first_target_def lookup_definition_def assms(1) establish_slot_eq
      dormant_slot_eq unit_comparable_eq[simplified] dest!: kind_shape row_eqs intro!: fails_only_rules)

section \<open>Later observations\<close>

definition is_active :: "phase \<Rightarrow> bool" where
  "is_active p = (case p of Active _ _ _ \<Rightarrow> True | _ \<Rightarrow> False)"

lemma is_active_simps [simp]: "is_active (Active c a met)" "\<not> is_active Dormant" "\<not> is_active (Expired c a)"
  by (simp_all add: is_active_def)

lemma active_state: "phase_state p = INTENT_RECORDED \<or> phase_state p = HYPOTHETICAL_CONDITION_MET \<longleftrightarrow> is_active p"
  by (cases p) auto

lemma active_slots_eq:
  "active_slots est (entries_obj ts) =
     Inr (entries_obj (filter (\<lambda>(k, p). is_active p \<and> Some (key_obj k) \<noteq> est) ts))"
proof (induction ts)
  case (Cons kp ts)
  then show ?case by (cases kp) (simp add: active_state)
qed simp

fun context_of :: "phase \<Rightarrow> utext \<times> utext" where
  "context_of (Active c a met) = c"
| "context_of (Expired c a) = c"
| "context_of Dormant = ([], [])"

lemma context_equal_slots_eq:
  assumes "\<not> list_all uni_space v" "\<not> list_all uni_space p"
    and "\<forall>(k, q) \<in> set ts. is_active q \<and> phase_ok q"
  shows "context_equal_slots (OInst ScoreContextProjection [Some (OTuple [OText v, OText p])]) (entries_obj ts) =
           Inr (entries_obj (filter (\<lambda>(k, q). context_of q = (v, p)) ts))"
  using assms(3)
proof (induction ts)
  case (Cons kq ts)
  obtain k c a met where kq: "kq = (k, Active c a met)" and ok: "evidence_ok (fst c) (snd c) a"
    using Cons(2) by (cases kq; cases "snd kq") (auto simp: is_active_def)
  have "predicate (context_equals (OInst EstablishedRootContext [Some (OText (fst c)), Some (OText (snd c))])
          (OInst ScoreContextProjection [Some (OTuple [OText v, OText p])])) = Inr (c = (v, p))"
    using context_equals_eq[OF ok assms(1,2)] by (simp add: prod_eq_iff)
  then show ?case
    using Cons by (auto simp: kq evidence_obj_def)
qed simp

text \<open>One slot: the classification is the difference between the phase and the observed phase.\<close>

lemma classify_crossing_eq:
  "fails_only {rejected} (classify_crossing depth (def_obj (Directional up q un n)) (phase_state (Active c a met)) row)"
  "classify_crossing depth (def_obj (Directional up q un n)) (phase_state (Active c a met)) row = Inr tr \<Longrightarrow>
     tr = (if \<not> met \<and> crosses depth (Directional up q un n) row
           then Some (INTENT_RECORDED, HYPOTHETICAL_CONDITION_MET) else None)"
  by (auto simp: classify_crossing_def unit_comparable_eq[simplified] crossing_eq[where up = True, simplified]
      crossing_eq[where up = False, simplified] crosses_def rbind_eq_Inr
      dest!: row_eqs intro!: fails_only_rules split: if_splits)

lemma classify_slot_eq:
  assumes d: "map_of ds k = Some d" and dur: "duration_ok (window_of d)"
    and p: "p = Active c a met" "phase_ok p"
    and row: "row_is_score row" "row_context depth row = Some c" "row_time depth row = Some t" "canonical_int t"
  shows "fails_only {rejected} (classify_slot depth (defs_obj ds) (key_obj k) (slot_obj k p) row
            (OInst ScoreTimestampProjection [Some (OText t)]))"
    and "classify_slot depth (defs_obj ds) (key_obj k) (slot_obj k p) row
            (OInst ScoreTimestampProjection [Some (OText t)]) = Inr tr \<Longrightarrow>
         tr = (if observe depth d row p = p then None else Some (phase_state p, phase_state (observe depth d row p)))"
proof -
  have a: "canonical_int a" using p by (cases c) (simp add: evidence_ok_def)
  have "classify_timestamp_window (OText a) (OInst ScoreTimestampProjection [Some (OText t)]) (OInt (window_of d)) =
    Inr (if text_val t < text_val a then WINDOW_NON_COMPARABLE
         else if int (text_val t) - int (text_val a) \<le> window_of d then WINDOW_IN_WINDOW
         else WINDOW_EXPIRED)"
    using window_exact[OF a row(4)] dur by (simp add: duration_ok_def)
  then have eq: "classify_slot depth (defs_obj ds) (key_obj k) (slot_obj k p) row
       (OInst ScoreTimestampProjection [Some (OText t)]) =
     (if text_val t < text_val a then Inr None
      else if window_of d < int (text_val t) - int (text_val a) then Inr (Some (phase_state p, INTENT_EXPIRED))
      else if \<exists>n. d = Inert n then Inr None
      else classify_crossing depth (def_obj d) (phase_state p) row)"
    by (simp add: classify_slot_def lookup_definition_def d p(1) evidence_obj_def window_defs)
  show "fails_only {rejected} (classify_slot depth (defs_obj ds) (key_obj k) (slot_obj k p) row
            (OInst ScoreTimestampProjection [Some (OText t)]))"
  proof (cases d)
    case (Directional up q un n)
    then show ?thesis
      using classify_crossing_eq(1)[of depth up q un n c a met row] unfolding eq by (simp add: p(1))
  qed (simp add: eq)
  assume tr: "classify_slot depth (defs_obj ds) (key_obj k) (slot_obj k p) row
            (OInst ScoreTimestampProjection [Some (OText t)]) = Inr tr"
  show "tr = (if observe depth d row p = p then None else Some (phase_state p, phase_state (observe depth d row p)))"
  proof (cases d)
    case (Directional up q un n)
    then show ?thesis
      using tr classify_crossing_eq(2)[of depth up q un n c a met row tr]
      unfolding eq by (auto simp: p(1) row split: if_splits)
  qed (use tr in \<open>unfold eq, auto simp: p(1) row crosses_def split: if_splits\<close>)
qed

lemma observe_keeps:
  "phase_evidence (observe depth d row p) = phase_evidence p"
  "phase_ok (observe depth d row p) \<longleftrightarrow> phase_ok p"
  "\<not> is_active p \<Longrightarrow> observe depth d row p = p"
  "observe depth d row p \<noteq> p \<Longrightarrow> phase_state (observe depth d row p) \<in> set (legal_forward (phase_state p))"
  by (cases p; auto simp: legal_forward_def split: option.splits if_splits)+

lemma observe_stays:
  "\<not> row_is_score row \<or> row_context depth row \<noteq> Some (context_of p) \<Longrightarrow> observe depth d row p = p"
  by (cases p) auto

definition adv :: "nat \<Rightarrow> (pair_key \<times> shadow_def) list \<Rightarrow> pobj \<Rightarrow> pair_key \<Rightarrow> phase \<Rightarrow> phase" where
  "adv depth ds row k p = observe depth (the (map_of ds k)) row p"

definition changes :: "nat \<Rightarrow> (pair_key \<times> shadow_def) list \<Rightarrow> pobj \<Rightarrow> (pair_key \<times> phase) list
    \<Rightarrow> (pobj \<times> (pobj \<times> pobj)) list" where
  "changes depth ds row ts = map (\<lambda>(k, p). (key_obj k, phase_state p, phase_state (adv depth ds row k p)))
     (filter (\<lambda>(k, p). adv depth ds row k p \<noteq> p) ts)"

lemma changes_simps [simp]:
  "changes depth ds row [] = []"
  "changes depth ds row ((k, p) # ts) = (if adv depth ds row k p = p then changes depth ds row ts
     else (key_obj k, phase_state p, phase_state (adv depth ds row k p)) # changes depth ds row ts)"
  by (simp_all add: changes_def)

lemma changes_filter:
  "(\<And>k p. (k, p) \<in> set ts \<Longrightarrow> \<not> P (k, p) \<Longrightarrow> adv depth ds row k p = p) \<Longrightarrow>
     changes depth ds row (filter P ts) = changes depth ds row ts"
  by (induction ts) auto

lemma changes_none: "(\<And>k p. (k, p) \<in> set ts \<Longrightarrow> adv depth ds row k p = p) \<Longrightarrow> changes depth ds row ts = []"
  using changes_filter[of ts "\<lambda>_. False"] by auto

definition slots_ok :: "(pair_key \<times> shadow_def) list \<Rightarrow> (pair_key \<times> phase) list \<Rightarrow> bool" where
  "slots_ok ds ts \<longleftrightarrow> (\<forall>(k, p) \<in> set ts. phase_ok p \<and> (\<exists>d. map_of ds k = Some d \<and> duration_ok (window_of d)))"

lemma classify_slots_eq:
  assumes "slots_ok ds ts" "\<forall>(k, p) \<in> set ts. is_active p \<and> context_of p = c"
    and row: "row_is_score row" "row_context depth row = Some c" "row_time depth row = Some t" "canonical_int t"
  defines "m \<equiv> classify_slots depth (defs_obj ds) row (OInst ScoreTimestampProjection [Some (OText t)]) (entries_obj ts)"
  shows "fails_only {rejected} m \<and> (\<forall>trs. m = Inr trs \<longrightarrow> trs = changes depth ds row ts)"
  unfolding m_def using assms(1,2)
proof (induction ts)
  case (Cons kp ts)
  obtain k p a met d where kp: "kp = (k, p)" "p = Active c a met" and d: "map_of ds k = Some d" "duration_ok (window_of d)"
      and ok: "phase_ok p"
    using Cons(2,3) by (cases kp; cases "snd kp") (auto simp: slots_ok_def)
  let ?one = "classify_slot depth (defs_obj ds) (key_obj k) (slot_obj k p) row (OInst ScoreTimestampProjection [Some (OText t)])"
  let ?rest = "classify_slots depth (defs_obj ds) row (OInst ScoreTimestampProjection [Some (OText t)]) (entries_obj ts)"
  have IH: "fails_only {rejected} ?rest" "\<And>trs. ?rest = Inr trs \<Longrightarrow> trs = changes depth ds row ts"
    using Cons by (auto simp: slots_ok_def)
  have one: "fails_only {rejected} ?one" "\<And>tr. ?one = Inr tr \<Longrightarrow>
      tr = (if adv depth ds row k p = p then None else Some (phase_state p, phase_state (adv depth ds row k p)))"
    using classify_slot_eq[OF d kp(2) ok row] by (auto simp: adv_def d(1))
  show ?case
  proof (cases ?one)
    case (Inl e)
    then show ?thesis using one(1) by (simp add: kp(1))
  next
    case tr: (Inr tr)
    show ?thesis
      using IH one(2)[OF tr] by (cases ?rest) (auto simp: kp(1) tr)
  qed
qed simp

lemma later_transitions_eq:
  assumes ok: "slots_ok ds ts" and act: "\<forall>(k, p) \<in> set ts. is_active p"
  shows "fails_only {rejected} (later_transitions depth (defs_obj ds) row (entries_obj ts))
    \<and> (\<forall>trs. later_transitions depth (defs_obj ds) row (entries_obj ts) = Inr trs \<longrightarrow> trs = changes depth ds row ts)"
proof (cases "ts = []")
  case True
  then show ?thesis by (simp add: later_transitions_def)
next
  case False
  then have ne: "entries_obj ts \<noteq> []" by (simp add: entries_obj_def)
  show ?thesis
  proof (cases "project_observation_kind row")
    case (Inl e)
    then show ?thesis
      using projectors_total(2)[of row] by (auto simp: later_transitions_def ne project_def s1_total_def s1_error_def is_s1_error_def)
  next
    case kind: (Inr x)
    then obtain k where x: "x = new ObservationKindProjection [OText k]" using kind_shape by blast
    show ?thesis
    proof (cases "OText k = SCORE_OBSERVATION_KIND")
      case False
      then have "\<not> row_is_score row" by (simp add: row_is_score_def kind x)
      then have "changes depth ds row ts = []"
        by (intro changes_none) (simp add: adv_def observe_stays)
      then show ?thesis using False by (auto simp: later_transitions_def ne kind x project_def)
    next
      case score: True
      then have is_score: "row_is_score row" by (simp add: row_is_score_def kind x)
      show ?thesis
      proof (cases "project_score_context depth row")
        case (Inl e)
        then show ?thesis
          using projectors_total(4)[of depth row] score
          by (auto simp: later_transitions_def ne kind x project_def s1_total_def s1_error_def is_s1_error_def)
      next
        case ctx: (Inr y)
        then obtain c where c: "row_context depth row = Some c" "\<not> list_all uni_space (fst c)" "\<not> list_all uni_space (snd c)"
            and y: "y = OInst ScoreContextProjection [Some (OTuple [OText (fst c), OText (snd c)])]"
          using row_context_eq[OF ctx] by auto
        define eqs where "eqs = filter (\<lambda>(k, q). context_of q = c) ts"
        have eqs: "slots_ok ds eqs" "\<forall>(k, p) \<in> set eqs. is_active p \<and> context_of p = c"
          using ok act by (auto simp: eqs_def slots_ok_def)
        have "changes depth ds row eqs = changes depth ds row ts"
          unfolding eqs_def by (intro changes_filter) (auto simp: adv_def observe_stays c)
        moreover have "context_equal_slots y (entries_obj ts) = Inr (entries_obj eqs)"
          using context_equal_slots_eq[OF c(2,3), of ts] ok act by (auto simp: y eqs_def slots_ok_def)
        moreover have "fails_only {rejected} (classify_slots depth (defs_obj ds) row z (entries_obj eqs)) \<and>
            (\<forall>trs. classify_slots depth (defs_obj ds) row z (entries_obj eqs) = Inr trs \<longrightarrow> trs = changes depth ds row eqs)"
          if "project_score_timestamp depth row = Inr z" for z
          using row_time_eq[OF that] classify_slots_eq[OF eqs is_score c(1)] by auto
        moreover have "entries_obj eqs = [] \<Longrightarrow> changes depth ds row eqs = []"
          by (simp add: entries_obj_def)
        ultimately show ?thesis
          using score by (auto simp: later_transitions_def ne kind x ctx project_of_Inr rbind_eq_Inr
              intro!: fails_only_rules)
      qed
    qed
  qed
qed

section \<open>One step\<close>

definition next_state :: "nat \<Rightarrow> (pair_key \<times> shadow_def) list \<Rightarrow> pobj \<Rightarrow> (pair_key \<times> phase) list
    \<Rightarrow> (pair_key \<times> phase) list" where
  "next_state depth ds row ts = map (\<lambda>(k, p). (k, adv depth ds row k p)) ts @
     (case row_pair row of None \<Rightarrow> [] | Some k \<Rightarrow>
        (case map_of ds k of None \<Rightarrow> [] | Some d \<Rightarrow> [(k, establish depth d row)]))"

lemma changes_lookup:
  "distinct (map fst ts) \<Longrightarrow> (k, p) \<in> set ts \<Longrightarrow> map_of (changes depth ds row ts) (key_obj k) =
     (if adv depth ds row k p = p then None else Some (phase_state p, phase_state (adv depth ds row k p)))"
proof (induction ts)
  case (Cons kp ts)
  have "k \<notin> fst ` set ts \<Longrightarrow> map_of (changes depth ds row ts) (key_obj k) = None" for k
    by (force simp: changes_def map_of_eq_None_iff)
  with Cons show ?case by (cases kp) (force split: if_splits)
qed simp

lemma publish_entries_eq:
  assumes "\<And>k p. (k, p) \<in> set us \<Longrightarrow> phase_ok p \<and> map_of trs (key_obj k) =
     (if adv depth ds row k p = p then None else Some (phase_state p, phase_state (adv depth ds row k p)))"
  shows "publish_entries trs (entries_obj us) = Inr (entries_obj (map (\<lambda>(k, p). (k, adv depth ds row k p)) us))"
  using assms
proof (induction us)
  case (Cons kp us)
  obtain k p where kp: "kp = (k, p)" by (cases kp)
  have p: "phase_ok p" "map_of trs (key_obj k) =
     (if adv depth ds row k p = p then None else Some (phase_state p, phase_state (adv depth ds row k p)))"
    using Cons(2)[of k p] by (auto simp: kp)
  have "new_lifecycle_slot (key_obj k) (phase_state (adv depth ds row k p)) (phase_evidence p) =
      Inr (slot_obj k (adv depth ds row k p))"
    using slot_obj_checked(3)[of "adv depth ds row k p" k] p(1) by (simp add: adv_def observe_keeps)
  moreover have "adv depth ds row k p \<noteq> p \<Longrightarrow>
      require_legal_transition (phase_state p) (phase_state (adv depth ds row k p)) = Inr ()"
    by (simp add: require_legal_transition_def adv_def observe_keeps(4))
  moreover have "publish_entries trs (entries_obj us) = Inr (entries_obj (map (\<lambda>(k, p). (k, adv depth ds row k p)) us))"
    using Cons(2) by (intro Cons(1)) auto
  ultimately show ?case by (simp add: kp p)
qed simp

lemma entries_checked: "phase_ok p \<Longrightarrow> check_slot_entry (key_obj k) (slot_obj k p) = Inr ()"
  by (rule slot_obj_checked(1))

lemma snapshots_made:
  assumes "state_ok ds ts"
  shows "make_shadow_lifecycle_snapshot (tuple_entries (entries_obj ts)) = Inr (lifecycle_obj ts)"
    "make_seen_target_pairs_snapshot (OTuple (map (key_obj \<circ> fst) ts)) = Inr (seen_obj ts)"
proof -
  have d: "distinct (map (key_obj \<circ> fst) ts)"
    using assms by (simp add: state_ok_def distinct_map comp_inj_on_iff[symmetric] inj_on_subset[OF inj_key_obj] flip: map_map)
  show "make_shadow_lifecycle_snapshot (tuple_entries (entries_obj ts)) = Inr (lifecycle_obj ts)"
    unfolding tuple_entries_def lifecycle_snapshot_made keys_obj
    using assms d by (auto simp: lifecycle_obj_def state_ok_def) (auto simp: entries_obj_def intro!: entries_checked)
  show "make_seen_target_pairs_snapshot (OTuple (map (key_obj \<circ> fst) ts)) = Inr (seen_obj ts)"
    unfolding seen_snapshot_made using d by (auto simp: seen_obj_def key_obj_def)
qed

definition proposed :: "nat \<Rightarrow> (pair_key \<times> shadow_def) list \<Rightarrow> pobj \<Rightarrow> (pair_key \<times> phase) list" where
  "proposed depth ds row = (case row_pair row of None \<Rightarrow> [] | Some k \<Rightarrow>
     (case map_of ds k of None \<Rightarrow> [] | Some d \<Rightarrow> [(k, establish depth d row)]))"

lemma next_state_eq: "next_state depth ds row ts = map (\<lambda>(k, p). (k, adv depth ds row k p)) ts @ proposed depth ds row"
  by (simp add: next_state_def proposed_def)

lemma proposed_in: "(k, p) \<in> set (proposed depth ds row) \<Longrightarrow>
    row_pair row = Some k \<and> (\<exists>d. map_of ds k = Some d \<and> p = establish depth d row)"
  by (cases "row_pair row"; cases "map_of ds (the (row_pair row))") (auto simp: proposed_def)

lemma proposed_key: "k \<in> fst ` set (proposed depth ds row) \<Longrightarrow> row_pair row = Some k \<and> (\<exists>d. map_of ds k = Some d)"
  by (force dest: proposed_in)

lemma next_state_ok:
  assumes "state_ok ds ts" "\<And>k d. row_pair row = Some k \<Longrightarrow> map_of ds k = Some d \<Longrightarrow>
     k \<notin> fst ` set ts \<and> phase_ok (establish depth d row)"
  shows "state_ok ds (next_state depth ds row ts)"
proof -
  have keys: "map fst (map (\<lambda>(k, p). (k, adv depth ds row k p)) ts) = map fst ts" by (induction ts) auto
  have keys_set: "fst ` (\<lambda>(k, p). (k, adv depth ds row k p)) ` set ts = fst ` set ts"
    using arg_cong[OF keys, of set] by (simp only: set_map)
  have "distinct (map fst (proposed depth ds row))"
    by (auto simp: proposed_def split: option.splits)
  moreover have "k \<notin> fst ` set ts" if "k \<in> fst ` set (proposed depth ds row)" for k
    using that assms(2)[of k] proposed_key[of k depth ds row] by blast
  then have "fst ` set ts \<inter> fst ` set (proposed depth ds row) = {}" by blast
  ultimately have "distinct (map fst (next_state depth ds row ts))"
    using assms(1) unfolding next_state_eq map_append distinct_append keys set_map keys_set
    by (simp add: state_ok_def)
  moreover have "fst ` set (next_state depth ds row ts) \<subseteq> fst ` set ds"
  proof -
    have "fst ` set (proposed depth ds row) \<subseteq> fst ` set ds"
    proof
      fix k assume "k \<in> fst ` set (proposed depth ds row)"
      then obtain d where "map_of ds k = Some d" using proposed_key by blast
      then show "k \<in> fst ` set ds" by (force dest: map_of_SomeD)
    qed
    then show ?thesis
      using assms(1) unfolding next_state_eq set_append image_Un set_map keys_set by (simp add: state_ok_def)
  qed
  moreover have "phase_ok p" if "(k, p) \<in> set (next_state depth ds row ts)" for k p
    using that assms(1) assms(2)[of k] proposed_in[of k p depth ds row]
    by (auto simp: next_state_eq state_ok_def adv_def observe_keeps simp del: split_paired_All split_paired_Ex)
  ultimately show ?thesis by (auto simp: state_ok_def)
qed

lemma next_state_lookup:
  assumes "\<And>k d. row_pair row = Some k \<Longrightarrow> map_of ds k = Some d \<Longrightarrow> k \<notin> fst ` set ts"
    and "map_of ds k = Some d"
  shows "map_of (next_state depth ds row ts) k = key_step depth k d (map_of ts k) row"
proof -
  have old: "map_of (map (\<lambda>(k, p). (k, adv depth ds row k p)) ts) k = map_option (adv depth ds row k) (map_of ts k)"
    by (induction ts) auto
  have adv_eq: "adv depth ds row k p = observe depth d row p" for p by (simp add: adv_def assms(2))
  show ?thesis
  proof (cases "map_of ts k")
    case None
    then show ?thesis
      using assms(2) by (auto simp: next_state_eq key_step_def map_add_def old proposed_def split: option.splits)
  next
    case (Some p)
    then have "k \<in> fst ` set ts" by (force dest: map_of_SomeD)
    then have "map_of (proposed depth ds row) k = None"
      using assms(1)[of k] proposed_key[of k depth ds row] by (auto simp: map_of_eq_None_iff simp del: split_paired_All split_paired_Ex)
    then show ?thesis
      using assms(2) Some by (simp add: next_state_eq key_step_def map_add_def old adv_eq)
  qed
qed

definition proposal_obj :: "(pair_key \<times> phase) list \<Rightarrow> (pobj \<times> pobj) option" where
  "proposal_obj ps = (case ps of [] \<Rightarrow> None | (k, p) # _ \<Rightarrow> Some (key_obj k, slot_obj k p))"

lemma proposed_cases: "proposed depth ds row = [] \<or> (\<exists>k p. proposed depth ds row = [(k, p)])"
  by (auto simp: proposed_def split: option.splits)

lemma publish_eq:
  assumes ts: "state_ok ds ts" and ts': "state_ok ds (next_state depth ds row ts)"
  shows "publish (lifecycle_obj ts) (seen_obj ts) (entries_obj ts) (map (key_obj \<circ> fst) ts) (changes depth ds row ts)
           (proposal_obj (proposed depth ds row)) =
         Inr (lifecycle_obj (next_state depth ds row ts), seen_obj (next_state depth ds row ts))"
proof (cases "changes depth ds row ts = [] \<and> proposed depth ds row = []")
  case True
  then have "\<forall>(k, p) \<in> set ts. adv depth ds row k p = p"
    by (auto simp: changes_def filter_empty_conv)
  then have "map (\<lambda>(k, p). (k, adv depth ds row k p)) ts = ts" by (induction ts) auto
  then have "next_state depth ds row ts = ts" using True by (simp add: next_state_eq)
  then show ?thesis
    using True result_revalidates[OF ts] by (simp add: publish_def proposal_obj_def)
next
  case False
  let ?adv = "map (\<lambda>(k, p). (k, adv depth ds row k p)) ts"
  have entries: "publish_entries (changes depth ds row ts) (entries_obj ts) = Inr (entries_obj ?adv)"
    using ts changes_lookup[of ts] by (intro publish_entries_eq) (auto simp: state_ok_def)
  have keys: "map (key_obj \<circ> fst) ts @ map (key_obj \<circ> fst) (proposed depth ds row) = map (key_obj \<circ> fst) (next_state depth ds row ts)"
    by (induction ts) (auto simp: next_state_eq)
  have made: "make_shadow_lifecycle_snapshot (tuple_entries (entries_obj ?adv @ entries_obj (proposed depth ds row))) =
      Inr (lifecycle_obj (next_state depth ds row ts))"
    "make_seen_target_pairs_snapshot (OTuple (map (key_obj \<circ> fst) ts @ map (key_obj \<circ> fst) (proposed depth ds row))) =
      Inr (seen_obj (next_state depth ds row ts))"
    using snapshots_made[OF ts'] unfolding keys by (simp_all add: next_state_eq)
  have same: "proposed depth ds row = [] \<Longrightarrow> seen_obj ts = seen_obj (next_state depth ds row ts)"
    using keys by (simp add: seen_obj_def)
  show ?thesis
    using proposed_cases[of depth ds row] False made same entries result_revalidates[OF ts']
    by (auto simp: publish_def proposal_obj_def)
qed

lemma step_eq:
  assumes m: "manifest_defs manifest ds" and ts: "state_ok ds ts"
    and silver: "project_silver_pair row = Inr x" and k: "row_pair row = Some k"
  shows "execute_atomic_replay_step depth (lifecycle_obj ts) (seen_obj ts) row manifest =
    rbind (raise_unless (\<not> (k \<in> fst ` set ds \<and> k \<in> fst ` set ts)) (step_error ''STEP_DUPLICATE_ROOT'')) (\<lambda>_.
    rbind (if k \<in> fst ` set ds
           then rbind (first_target depth (defs_obj ds) row (key_obj k)) (\<lambda>slot. Inr (Some (key_obj k, slot)))
           else Inr None) (\<lambda>proposal.
    rbind (later_transitions depth (defs_obj ds) row
             (entries_obj (filter (\<lambda>(k', p). is_active p \<and> \<not> (k \<in> fst ` set ds \<and> k' = k)) ts))) (\<lambda>transitions.
      publish (lifecycle_obj ts) (seen_obj ts) (entries_obj ts) (map (key_obj \<circ> fst) ts) transitions proposal)))"
proof -
  have x: "x = new SilverPairProjection [OText (fst k), OText (snd k)]"
    using row_pair_eq[OF silver] k by auto
  have in_ds: "key_obj k \<in> fst ` set (defs_obj ds) \<longleftrightarrow> k \<in> fst ` set ds"
    unfolding keys_obj by (simp add: inj_image_mem_iff[OF inj_key_obj])
  have in_ts: "key_obj k \<in> (\<lambda>x. key_obj (fst x)) ` set ts \<longleftrightarrow> k \<in> fst ` set ts"
    by (auto simp: image_iff)
  have act: "active_slots (if k \<in> fst ` set ds then Some (key_obj k) else None) (entries_obj ts) =
      Inr (entries_obj (filter (\<lambda>(k', p). is_active p \<and> \<not> (k \<in> fst ` set ds \<and> k' = k)) ts))"
    unfolding active_slots_eq by (auto intro!: arg_cong[where f = entries_obj] filter_cong)
  have made: "make_opaque_silver_pair_key (OText (fst k)) (OText (snd k)) = Inr (key_obj k)"
    by (auto simp: make_opaque_silver_pair_key_def rbind_eq_Inr okey_def key_obj_def)
  have md: "revalidate_manifest manifest = Inr (defs_obj ds)" using m by (simp add: manifest_defs_def)
  show ?thesis
    unfolding execute_atomic_replay_step_def lifecycle_revalidates[OF ts] seen_revalidates md silver project_of_Inr rbind_simps
    by (simp add: x made in_ds in_ts act Let_def del: keys_obj)
qed

lemma state_slots_ok: "state_ok ds ts \<Longrightarrow> defs_ok ds \<Longrightarrow> set us \<subseteq> set ts \<Longrightarrow> slots_ok ds us"
proof -
  assume a: "state_ok ds ts" "defs_ok ds" "set us \<subseteq> set ts"
  have "phase_ok p \<and> (\<exists>d. map_of ds k = Some d \<and> duration_ok (window_of d))" if "(k, p) \<in> set us" for k p
  proof -
    have "k \<in> fst ` set ds" "phase_ok p" using that a by (force simp: state_ok_def)+
    then obtain d where "map_of ds k = Some d" by (metis map_of_eq_None_iff not_None_eq)
    then show ?thesis using a(2) \<open>phase_ok p\<close> by (force simp: defs_ok_def dest: map_of_SomeD)
  qed
  then show "slots_ok ds us" by (auto simp: slots_ok_def)
qed

definition target_errors :: "pobj \<Rightarrow> exn set" where
  "target_errors row = (if row_is_score row then {rejected} else {rejected, step_error ''STEP_TARGETED_NON_SCORE_ROOT''})"

lemma step_outcome:
  assumes m: "manifest_defs manifest ds" and ts: "state_ok ds ts"
    and silver: "project_silver_pair row = Inr x" and k: "row_pair row = Some k"
    and new: "\<not> (k \<in> fst ` set ds \<and> k \<in> fst ` set ts)"
  shows "(\<exists>e. execute_atomic_replay_step depth (lifecycle_obj ts) (seen_obj ts) row manifest = Inl e
            \<and> e \<in> (if k \<in> fst ` set ds then target_errors row else {rejected}))
       \<or> execute_atomic_replay_step depth (lifecycle_obj ts) (seen_obj ts) row manifest =
              Inr (lifecycle_obj (next_state depth ds row ts), seen_obj (next_state depth ds row ts))
            \<and> state_ok ds (next_state depth ds row ts)"
proof -
  define us where "us = filter (\<lambda>(k', p). is_active p \<and> \<not> (k \<in> fst ` set ds \<and> k' = k)) ts"
  have us: "slots_ok ds us" "\<forall>(k, p) \<in> set us. is_active p"
    using state_slots_ok[OF ts, of us] m by (auto simp: us_def manifest_defs_def)
  note eq = step_eq[OF m ts silver k, of depth, folded us_def]
  have no_change: "adv depth ds row k' p = p" if "(k', p) \<in> set ts" "\<not> (is_active p \<and> \<not> (k \<in> fst ` set ds \<and> k' = k))" for k' p
    using that new by (force simp: adv_def observe_keeps)
  have chg: "changes depth ds row us = changes depth ds row ts"
    unfolding us_def by (rule changes_filter) (use no_change in auto)
  note later = later_transitions_eq[OF us, of depth row, unfolded chg]
  show ?thesis
  proof (cases "map_of ds k")
    case None
    then have "proposed depth ds row = []" by (simp add: proposed_def k)
    moreover have "state_ok ds (next_state depth ds row ts)"
      by (rule next_state_ok[OF ts]) (use None k in auto)
    moreover have "k \<notin> fst ` set ds" using None by (simp add: map_of_eq_None_iff)
    ultimately show ?thesis
      using later publish_eq[OF ts, of depth row]
      by (cases "later_transitions depth (defs_obj ds) row (entries_obj us)")
        (auto simp: eq k raise_unless_def proposal_obj_def fails_only_def)
  next
    case (Some d)
    then have kd: "k \<in> fst ` set ds" by (force dest: map_of_SomeD)
    show ?thesis
    proof (cases "first_target depth (defs_obj ds) row (key_obj k)")
      case (Inl e)
      then show ?thesis
        using first_target_error[OF Some, where depth = depth and row = row] kd new by (auto simp: eq raise_unless_def target_errors_def)
    next
      case (Inr slot)
      then have slot: "slot = slot_obj k (establish depth d row)" "phase_ok (establish depth d row)"
        using first_target_eq[OF Some] by auto
      have "proposed depth ds row = [(k, establish depth d row)]" by (simp add: proposed_def k Some)
      moreover have "state_ok ds (next_state depth ds row ts)"
        by (rule next_state_ok[OF ts]) (use Some k kd new slot in auto)
      ultimately show ?thesis
        using later publish_eq[OF ts, of depth row] kd new
        by (cases "later_transitions depth (defs_obj ds) row (entries_obj us)")
          (auto simp: eq k Inr slot raise_unless_def proposal_obj_def fails_only_def target_errors_def)
    qed
  qed
qed

text \<open>Each failure has its cause.\<close>

definition step_cause :: "(pair_key \<times> shadow_def) list \<Rightarrow> (pair_key \<times> phase) list \<Rightarrow> pobj \<Rightarrow> exn \<Rightarrow> bool" where
  "step_cause ds ts row e \<longleftrightarrow> e = rejected
     \<or> e = step_error ''STEP_DUPLICATE_ROOT'' \<and> (\<exists>k. row_pair row = Some k \<and> k \<in> fst ` set ds \<and> k \<in> fst ` set ts)
     \<or> e = step_error ''STEP_TARGETED_NON_SCORE_ROOT'' \<and> (\<exists>k. row_pair row = Some k \<and> k \<in> fst ` set ds) \<and> \<not> row_is_score row"

lemma step_refines:
  assumes m: "manifest_defs manifest ds" and ts: "state_ok ds ts"
  shows "execute_atomic_replay_step depth (lifecycle_obj ts) (seen_obj ts) row manifest = Inl e \<Longrightarrow> step_cause ds ts row e"
    and "execute_atomic_replay_step depth (lifecycle_obj ts) (seen_obj ts) row manifest = Inr s \<Longrightarrow>
       s = (lifecycle_obj (next_state depth ds row ts), seen_obj (next_state depth ds row ts))
       \<and> state_ok ds (next_state depth ds row ts)
       \<and> (\<exists>k. row_pair row = Some k \<and> (k \<in> fst ` set ds \<longrightarrow> k \<notin> fst ` set ts))"
proof -
  let ?m = "execute_atomic_replay_step depth (lifecycle_obj ts) (seen_obj ts) row manifest"
  let ?n = "next_state depth ds row ts"
  have "(\<forall>e. ?m = Inl e \<longrightarrow> step_cause ds ts row e) \<and> (\<forall>s. ?m = Inr s \<longrightarrow> s = (lifecycle_obj ?n, seen_obj ?n)
      \<and> state_ok ds ?n \<and> (\<exists>k. row_pair row = Some k \<and> (k \<in> fst ` set ds \<longrightarrow> k \<notin> fst ` set ts)))"
  proof (cases "project_silver_pair row")
    case (Inl e)
    then have "?m = Inl rejected"
      using m projectors_total(1)[of row]
      by (auto simp: execute_atomic_replay_step_def lifecycle_revalidates[OF ts] seen_revalidates manifest_defs_def
          project_def s1_total_def s1_error_def is_s1_error_def)
    then show ?thesis by (simp add: step_cause_def)
  next
    case silver: (Inr x)
    then obtain k where k: "row_pair row = Some k" using row_pair_eq by blast
    show ?thesis
    proof (cases "k \<in> fst ` set ds \<and> k \<in> fst ` set ts")
      case True
      then have "?m = Inl (step_error ''STEP_DUPLICATE_ROOT'')"
        by (simp add: step_eq[OF m ts silver k] raise_unless_def)
      then show ?thesis using True k by (simp add: step_cause_def)
    next
      case False
      then show ?thesis
        using step_outcome[OF m ts silver k False, where depth = depth] k
        by (auto simp: step_cause_def target_errors_def split: if_splits)
    qed
  qed
  then show "?m = Inl e \<Longrightarrow> step_cause ds ts row e" "?m = Inr s \<Longrightarrow> s = (lifecycle_obj ?n, seen_obj ?n) \<and> state_ok ds ?n
      \<and> (\<exists>k. row_pair row = Some k \<and> (k \<in> fst ` set ds \<longrightarrow> k \<notin> fst ` set ts))" by auto
qed

section \<open>The fold\<close>

lemma definitions_typed:
  "\<forall>(k, d) \<in> set ps. rbind (revalidate_silver_pair_key k) (\<lambda>_. revalidate_definition d) = Inr () \<Longrightarrow>
     \<exists>ds. ps = defs_obj ds \<and> (\<forall>(k, d) \<in> set ds. duration_ok (window_of d))"
proof (induction ps)
  case (Cons kd ps)
  obtain k d where kd: "kd = (k, d)" by (cases kd)
  have "revalidate_silver_pair_key k = Inr ()" "revalidate_definition d = Inr ()"
    using Cons(2) by (auto simp: kd rbind_eq_Inr)
  then obtain l p n where k: "k = key_obj (l, p)" and n: "duration_ok n" and d: "d = oinert n \<or>
      (\<exists>s q un. s \<in> {otext ''POSITIVE_EXPOSURE'', otext ''NEGATIVE_EXPOSURE''} \<and> d = odirectional s q un n)"
    by (auto simp: key_passes definition_passes key_obj_def)
  have "\<exists>sd. d = def_obj sd \<and> window_of sd = n"
  proof -
    consider "d = oinert n" | q un where "d = odirectional (otext ''POSITIVE_EXPOSURE'') q un n"
      | q un where "d = odirectional (otext ''NEGATIVE_EXPOSURE'') q un n" using d by auto
    then show ?thesis
    proof cases
      case 1 then show ?thesis by (intro exI[of _ "Inert n"]) simp
    next
      case (2 q un) then show ?thesis by (intro exI[of _ "Directional True q un n"]) simp
    next
      case (3 q un) then show ?thesis by (intro exI[of _ "Directional False q un n"]) simp
    qed
  qed
  then obtain sd where "d = def_obj sd" "window_of sd = n" by blast
  moreover obtain ds where "ps = defs_obj ds" "\<forall>(k, d) \<in> set ds. duration_ok (window_of d)"
    using Cons by auto
  ultimately show ?case
    using n by (intro exI[of _ "((l, p), sd) # ds"]) (auto simp: kd k defs_obj_def)
qed (auto simp: defs_obj_def)

text \<open>Every artifact of the factory has definitions of this form.\<close>

lemma factory_manifest:
  assumes "make_shadow_intent_definition_artifact a b c p es = Inr m"
  shows "\<exists>ds. es = tuple_entries (defs_obj ds) \<and> manifest_defs m ds"
proof -
  let ?check = "\<lambda>key d. rbind (revalidate_silver_pair_key key) (\<lambda>_. revalidate_definition d)"
  obtain xs built where es: "es = OTuple xs" and b: "build_entries ?check xs [] = Inr built"
      and m: "m = new ShadowIntentDefinitionArtifact [a, b, c, p, OProxy built]"
      and ok: "require_opaque_text a = Inr ()" "require_opaque_text b = Inr ()" "require_opaque_text c = Inr ()"
        "require_predecessor_option p = Inr ()"
    using assms by (auto simp: make_shadow_intent_definition_artifact_def rbind_eq_Inr split: pobj.splits)
  have xs: "xs = map (\<lambda>(k, v). OTuple [k, v]) built" and chk: "\<forall>(k, v) \<in> set built. ?check k v = Inr ()"
      and dist: "distinct (map fst built)"
    using b by (auto simp: build_entries_eq)
  obtain ds where ds: "built = defs_obj ds" "\<forall>(k, d) \<in> set ds. duration_ok (window_of d)"
    using definitions_typed[OF chk] by blast
  have "distinct (map fst ds)"
    using dist distinct_map[of key_obj "map fst ds"] by (simp add: ds(1) defs_obj_def case_prod_beta comp_def)
  then have "defs_ok ds" using ds(2) by (auto simp: defs_ok_def)
  moreover have "each (\<lambda>(k, d). ?check k d) built = Inr ()" using chk by (auto simp: each_Inr)
  moreover have "check_slot require_opaque_text m ''artifact_field_shape_version_reference'' = Inr ()"
    "check_slot require_opaque_text m ''artifact_version_reference'' = Inr ()"
    "check_slot require_opaque_text m ''declarer_opaque_reference'' = Inr ()"
    "check_slot require_predecessor_option m ''predecessor_artifact_version_reference'' = Inr ()"
    "slot_value m ''definitions_by_silver_pair'' = Inr (OProxy built)"
    "type_is ShadowIntentDefinitionArtifact m"
    unfolding m using ok by (simp_all add: check_slot_def)
  ultimately have "defs_ok ds" "revalidate_manifest m = Inr built"
    by (simp_all add: revalidate_manifest_def raise_unless_def Let_def del: check_slot_eq)
  then show ?thesis
    unfolding es xs by (auto simp: manifest_defs_def m ds(1) tuple_entries_def)
qed

definition fold_cause :: "(pair_key \<times> shadow_def) list \<Rightarrow> pair_key set \<Rightarrow> pobj list \<Rightarrow> exn \<Rightarrow> bool" where
  "fold_cause ds old rows e \<longleftrightarrow> e = rejected
     \<or> e = step_error ''STEP_DUPLICATE_ROOT'' \<and> (\<exists>j < length rows. \<exists>k \<in> fst ` set ds. row_pair (rows ! j) = Some k
          \<and> (k \<in> old \<or> (\<exists>i < j. row_pair (rows ! i) = Some k)))
     \<or> e = step_error ''STEP_TARGETED_NON_SCORE_ROOT'' \<and>
         (\<exists>row \<in> set rows. \<not> row_is_score row \<and> (\<exists>k \<in> fst ` set ds. row_pair row = Some k))"

lemma fold_cause_first: "step_cause ds ts row e \<Longrightarrow> fold_cause ds (fst ` set ts) (row # rows) e"
  unfolding fold_cause_def step_cause_def
  by (elim disjE conjE exE) (force simp del: split_paired_Ex split_paired_All)+

lemma fold_cause_later:
  assumes "fold_cause ds seen rows e" "seen \<subseteq> old \<union> {k. row_pair row = Some k}"
  shows "fold_cause ds old (row # rows) e"
proof -
  have dup: "\<exists>j < length (row # rows). \<exists>k \<in> fst ` set ds. row_pair ((row # rows) ! j) = Some k
          \<and> (k \<in> old \<or> (\<exists>i < j. row_pair ((row # rows) ! i) = Some k))"
    if h: "j < length rows" "k \<in> fst ` set ds" "row_pair (rows ! j) = Some k" "k \<in> seen \<or> (\<exists>i < j. row_pair (rows ! i) = Some k)"
    for j k
  proof -
    have "k \<in> old \<or> (\<exists>i < Suc j. row_pair ((row # rows) ! i) = Some k)"
    proof (cases "k \<in> seen")
      case True
      then consider "k \<in> old" | "row_pair ((row # rows) ! 0) = Some k" using assms(2) by auto
      then show ?thesis by cases auto
    next
      case False
      then obtain i where "i < j" "row_pair (rows ! i) = Some k" using h(4) by blast
      then show ?thesis by (intro disjI2 exI[of _ "Suc i"]) simp
    qed
    then show ?thesis using h by (intro exI[of _ "Suc j"]) auto
  qed
  show ?thesis
    using assms(1) unfolding fold_cause_def[of ds seen]
  proof (elim disjE conjE)
    assume "e = step_error ''STEP_DUPLICATE_ROOT''" "\<exists>j < length rows. \<exists>k \<in> fst ` set ds. row_pair (rows ! j) = Some k
          \<and> (k \<in> seen \<or> (\<exists>i < j. row_pair (rows ! i) = Some k))"
    then show ?thesis using dup unfolding fold_cause_def by blast
  next
    assume "e = rejected"
    then show ?thesis by (simp add: fold_cause_def)
  next
    assume "e = step_error ''STEP_TARGETED_NON_SCORE_ROOT''"
      "\<exists>row \<in> set rows. \<not> row_is_score row \<and> (\<exists>k \<in> fst ` set ds. row_pair row = Some k)"
    then show ?thesis unfolding fold_cause_def set_simps by blast
  qed
qed

definition run_state :: "nat \<Rightarrow> (pair_key \<times> shadow_def) list \<Rightarrow> (pair_key \<times> phase) list \<Rightarrow> pobj list
    \<Rightarrow> (pair_key \<times> phase) list" where
  "run_state depth ds ts rows = foldl (\<lambda>ts row. next_state depth ds row ts) ts rows"

definition defined_pairs :: "(pair_key \<times> shadow_def) list \<Rightarrow> pobj list \<Rightarrow> pair_key list" where
  "defined_pairs ds rows = filter (\<lambda>k. k \<in> fst ` set ds) (map (\<lambda>row. the (row_pair row)) rows)"

lemma next_state_keys:
  "fst ` set (next_state depth ds row ts) = fst ` set ts \<union> fst ` set (proposed depth ds row)"
proof -
  have "fst ` set (map (\<lambda>(k, p). (k, adv depth ds row k p)) ts) = fst ` set ts" by force
  then show ?thesis by (simp only: next_state_eq set_append image_Un)
qed

lemma map_of_in: "map_of ds k = Some d \<Longrightarrow> k \<in> fst ` set ds"
  by (force dest: map_of_SomeD)

lemma fold_refines:
  assumes m: "manifest_defs manifest ds"
  shows "state_ok ds ts \<Longrightarrow> result = None \<or> result = Some (lifecycle_obj ts, seen_obj ts) \<Longrightarrow>
    (\<forall>e. reconstruct_fold depth manifest rows (lifecycle_obj ts) (seen_obj ts) result = Inl e \<longrightarrow>
        fold_cause ds (fst ` set ts) rows e)
    \<and> (\<forall>s. reconstruct_fold depth manifest rows (lifecycle_obj ts) (seen_obj ts) result = Inr s \<longrightarrow>
        s = (lifecycle_obj (run_state depth ds ts rows), seen_obj (run_state depth ds ts rows))
        \<and> state_ok ds (run_state depth ds ts rows)
        \<and> (\<forall>k d. map_of ds k = Some d \<longrightarrow>
             map_of (run_state depth ds ts rows) k = foldl (key_step depth k d) (map_of ts k) rows)
        \<and> distinct (defined_pairs ds rows) \<and> set (defined_pairs ds rows) \<inter> fst ` set ts = {}
        \<and> (\<forall>row \<in> set rows. row_pair row \<noteq> None))"
proof (induction rows arbitrary: ts result)
  case Nil
  then show ?case
    using result_revalidates[OF Nil(1)] by (auto simp: run_state_def defined_pairs_def)
next
  case (Cons row rows)
  let ?step = "execute_atomic_replay_step depth (lifecycle_obj ts) (seen_obj ts) row manifest"
  show ?case
  proof (cases ?step)
    case (Inl e)
    then show ?thesis using fold_cause_first[OF step_refines(1)[OF m Cons(2) Inl]] by simp
  next
    case (Inr s)
    let ?ts = "next_state depth ds row ts"
    obtain k where s: "s = (lifecycle_obj ?ts, seen_obj ?ts)" and ok: "state_ok ds ?ts"
        and k: "row_pair row = Some k" "k \<in> fst ` set ds \<longrightarrow> k \<notin> fst ` set ts"
      using step_refines(2)[OF m Cons(2) Inr] by auto
    have step: "map_of ?ts k' = key_step depth k' d (map_of ts k') row" if "map_of ds k' = Some d" for k' d
      using k that by (intro next_state_lookup) (auto dest: map_of_in)
    have shown: "k \<in> fst ` set ds \<Longrightarrow> k \<in> fst ` set ?ts"
      using k(1) by (cases "map_of ds k") (auto simp: next_state_keys proposed_def map_of_eq_None_iff)
    have sub: "fst ` set ts \<subseteq> fst ` set ?ts" by (simp add: next_state_keys)
    have dp: "defined_pairs ds (row # rows) = (if k \<in> fst ` set ds then [k] else []) @ defined_pairs ds rows"
      by (simp add: defined_pairs_def k)
    have run: "run_state depth ds ts (row # rows) = run_state depth ds ?ts rows" by (simp add: run_state_def)
    let ?rest = "reconstruct_fold depth manifest rows (lifecycle_obj ?ts) (seen_obj ?ts) (Some (lifecycle_obj ?ts, seen_obj ?ts))"
    have fold: "reconstruct_fold depth manifest (row # rows) (lifecycle_obj ts) (seen_obj ts) result = ?rest"
      by (simp add: Inr s)
    note IH = Cons(1)[OF ok disjI2[OF refl]]
    show ?thesis
      unfolding fold run
    proof (intro conjI allI impI ballI)
      fix e assume "?rest = Inl e"
      then have "fold_cause ds (fst ` set ?ts) rows e" using IH by blast
      moreover have "fst ` set ?ts \<subseteq> fst ` set ts \<union> {k. row_pair row = Some k}"
        unfolding next_state_keys using proposed_key by blast
      ultimately show "fold_cause ds (fst ` set ts) (row # rows) e" by (rule fold_cause_later)
    next
      fix r assume r: "?rest = Inr r"
      note facts = IH[THEN conjunct2, rule_format, OF r]
      show "r = (lifecycle_obj (run_state depth ds ?ts rows), seen_obj (run_state depth ds ?ts rows))"
        "state_ok ds (run_state depth ds ?ts rows)"
        using facts by blast+
      show "distinct (defined_pairs ds (row # rows))"
      proof (cases "k \<in> fst ` set ds")
        case True
        then have "k \<notin> set (defined_pairs ds rows)" using facts shown by blast
        then show ?thesis using facts True unfolding dp by simp
      qed (use facts in \<open>simp add: dp\<close>)
      show "set (defined_pairs ds (row # rows)) \<inter> fst ` set ts = {}"
      proof -
        have "set (defined_pairs ds rows) \<inter> fst ` set ?ts = {}" using facts by blast
        then have "set (defined_pairs ds rows) \<inter> fst ` set ts = {}" using sub by blast
        then show ?thesis using k(2) by (cases "k \<in> fst ` set ds") (simp_all add: dp)
      qed
      show "\<And>row'. row' \<in> set (row # rows) \<Longrightarrow> row_pair row' \<noteq> None" using facts k(1) by auto
    next
      fix r k' d assume r: "?rest = Inr r" and d: "map_of ds k' = Some d"
      show "map_of (run_state depth ds ?ts rows) k' = foldl (key_step depth k' d) (map_of ts k') (row # rows)"
        using IH[THEN conjunct2, rule_format, OF r, THEN conjunct2, THEN conjunct2, THEN conjunct1, rule_format, OF d]
        by (simp add: step[OF d])
    qed
  qed
qed

lemma reconstruct_eq:
  assumes "manifest_defs m ds"
  shows "reconstruct_shadow_intent_state depth (OTuple rows) m =
           reconstruct_fold depth m rows (lifecycle_obj []) (seen_obj []) None"
proof -
  have ok: "state_ok ds []" by (simp add: state_ok_def)
  show ?thesis
    using assms snapshots_made[OF ok]
    by (simp add: reconstruct_shadow_intent_state_def manifest_defs_def tuple_entries_def)
qed

lemma reconstruct_facts:
  assumes m: "manifest_defs m ds"
  shows "reconstruct_shadow_intent_state depth (OTuple rows) m = Inl e \<Longrightarrow> fold_cause ds {} rows e"
    and "reconstruct_shadow_intent_state depth (OTuple rows) m = Inr s \<Longrightarrow>
      s = (lifecycle_obj (run_state depth ds [] rows), seen_obj (run_state depth ds [] rows))
      \<and> state_ok ds (run_state depth ds [] rows)
      \<and> (\<forall>k d. map_of ds k = Some d \<longrightarrow> map_of (run_state depth ds [] rows) k = key_run depth k d rows)
      \<and> distinct (defined_pairs ds rows) \<and> (\<forall>row \<in> set rows. row_pair row \<noteq> None)"
proof -
  have ok: "state_ok ds []" by (simp add: state_ok_def)
  note F = fold_refines[OF m ok disjI1[OF refl], of depth rows]
  show "reconstruct_shadow_intent_state depth (OTuple rows) m = Inl e \<Longrightarrow> fold_cause ds {} rows e"
    using F by (simp add: reconstruct_eq[OF m])
  assume "reconstruct_shadow_intent_state depth (OTuple rows) m = Inr s"
  then have "reconstruct_fold depth m rows (lifecycle_obj []) (seen_obj []) None = Inr s"
    by (simp add: reconstruct_eq[OF m])
  from F[THEN conjunct2, rule_format, OF this]
  show "s = (lifecycle_obj (run_state depth ds [] rows), seen_obj (run_state depth ds [] rows))
      \<and> state_ok ds (run_state depth ds [] rows)
      \<and> (\<forall>k d. map_of ds k = Some d \<longrightarrow> map_of (run_state depth ds [] rows) k = key_run depth k d rows)
      \<and> distinct (defined_pairs ds rows) \<and> (\<forall>row \<in> set rows. row_pair row \<noteq> None)"
    unfolding key_run_def by simp
qed

end
