(* ===== verification/ShadowReplay.thy ===== *)
theory ShadowReplay
  imports ShadowSafety
begin

text \<open>
  What the shadow reconstruction guarantees to its caller, with an instance: two rows of one artifact, the
  second of which meets the condition of the pair the first established.
\<close>

section \<open>An instance\<close>

definition json_text :: "string \<Rightarrow> utext" where
  "json_text s = map (\<lambda>c. if c = 126 then 34 else c) (ut s)"

definition sample_payload :: "string \<Rightarrow> string \<Rightarrow> utext" where
  "sample_payload ts m = json_text (''{~observation_kind~:~SCORE~,~provenance_timestamp~:'' @ ts
     @ '',~family_payload~:{~score_family_descriptor~:~passive_net_edge_diagnostic~,~score_inputs_summary~:[~v~,~p~],~score_unit_context~:~usd~,~passive_score_magnitude~:~'' @ m @ ''~}}'')"

definition sample_row :: "string \<Rightarrow> string \<Rightarrow> string \<Rightarrow> pobj" where
  "sample_row pos ts m = ORow [(ut ''observation_kind'', otext ''SCORE''),
     (ut ''family_descriptor'', otext ''passive_net_edge_diagnostic''), (ut ''artifact_locator'', otext ''L''),
     (ut ''physical_record_position'', otext pos), (ut ''provenance_timestamp'', otext ts),
     (ut ''canonical_text_payload'', OText (sample_payload ts m))]"

definition sample_defs :: "(pair_key \<times> shadow_def) list" where
  "sample_defs = [((ut ''L'', ut ''1''), Directional True (3 / 2) (ut ''usd'') 100)]"

definition sample_manifest :: pobj where
  "sample_manifest = new ShadowIntentDefinitionArtifact [otext ''s'', otext ''a'', otext ''d'', new NoPredecessor [], OProxy (defs_obj sample_defs)]"

lemma bind_weak_cong: "m = m' \<Longrightarrow> Option.bind m f = Option.bind m' f" by simp
lemma map_option_weak_cong: "m = m' \<Longrightarrow> map_option f m = map_option f m'" by simp
lemma push_weak_cong: "m = m' \<Longrightarrow> push_char c m = push_char c m'" by simp
lemma rbind_weak_cong: "m = m' \<Longrightarrow> rbind m f = rbind m' f" by simp

lemma push_char_simps: "push_char c None = None" "push_char c (Some (s, r)) = Some (c # s, r)"
  by (simp_all add: push_char_def)

lemmas json_eval = json_loads_def scan_scalar_def scan_object_def scan_array_def expect_def skip_ws_def json_space_def
  no_duplicate_members_def scan_number_def ascii_digit_def push_char_simps

lemma sample_json:
  assumes "(ts, m) \<in> {(''1000'', ''1.25''), (''1100'', ''1.5'')}"
  shows "json_loads 3 (sample_payload ts m) =
    Some (ODict [(otext ''observation_kind'', otext ''SCORE''), (otext ''provenance_timestamp'', new RawJsonInt [otext ts]),
      (otext ''family_payload'', ODict [(otext ''score_family_descriptor'', otext ''passive_net_edge_diagnostic''),
        (otext ''score_inputs_summary'', OList [otext ''v'', otext ''p'']), (otext ''score_unit_context'', otext ''usd''),
        (otext ''passive_score_magnitude'', otext m)])])"
  using assms unfolding numeral_3_eq_3
  by (auto simp: sample_payload_def json_text_def ut_def json_eval cong: bind_weak_cong map_option_weak_cong push_weak_cong)

lemma def_obj_revalidates: "duration_ok (window_of d) \<Longrightarrow> revalidate_definition (def_obj d) = Inr ()"
  by (cases d) (auto simp: definition_passes)

lemma factory_accepts:
  assumes "defs_ok ds" "require_opaque_text a = Inr ()" "require_opaque_text b = Inr ()" "require_opaque_text c = Inr ()"
    "require_predecessor_option p = Inr ()"
  shows "make_shadow_intent_definition_artifact a b c p (tuple_entries (defs_obj ds)) =
           Inr (new ShadowIntentDefinitionArtifact [a, b, c, p, OProxy (defs_obj ds)])"
proof -
  have "distinct (map fst (defs_obj ds))"
    using assms(1) by (simp add: defs_ok_def defs_obj_def case_prod_beta comp_def distinct_map inj_on_def)
  moreover have "\<forall>(k, d) \<in> set (defs_obj ds). rbind (revalidate_silver_pair_key k) (\<lambda>_. revalidate_definition d) = Inr ()"
    using assms(1) by (auto simp: defs_obj_def defs_ok_def def_obj_revalidates)
  ultimately have "build_entries (\<lambda>k d. rbind (revalidate_silver_pair_key k) (\<lambda>_. revalidate_definition d))
      (map (\<lambda>(k, v). OTuple [k, v]) (defs_obj ds)) [] = Inr (defs_obj ds)"
    by (auto simp: build_entries_eq)
  then show ?thesis
    using assms(2-) by (simp add: make_shadow_intent_definition_artifact_def tuple_entries_def del: require_opaque_text_eq)
qed

lemma sample_defs_ok: "defs_ok sample_defs"
  by (simp add: sample_defs_def defs_ok_def duration_ok_def MAX_HYPOTHETICAL_WINDOW_DURATION_MS_def)

lemma sample_made:
  "make_shadow_intent_definition_artifact (otext ''s'') (otext ''a'') (otext ''d'') (new NoPredecessor [])
     (tuple_entries (defs_obj sample_defs)) = Inr sample_manifest"
  unfolding sample_manifest_def by (rule factory_accepts) (simp_all add: sample_defs_ok require_predecessor_option_def)

lemma sample_row_ok: "require_row (sample_row pos ts m) = Inr ()"
  by (auto simp: require_row_def sample_row_def EXPECTED_COLUMNS_def)
lemma sample_envelope: "envelope_str (sample_row pos ts m) ''artifact_locator'' = Inr (otext ''L'')"
  "envelope_str (sample_row pos ts m) ''physical_record_position'' = Inr (otext pos)"
  "envelope_str (sample_row pos ts m) ''observation_kind'' = Inr (otext ''SCORE'')"
  "envelope_str (sample_row pos ts m) ''family_descriptor'' = Inr (otext ''passive_net_edge_diagnostic'')"
  "envelope_str (sample_row pos ts m) ''provenance_timestamp'' = Inr (otext ts)"
  "envelope_str (sample_row pos ts m) ''canonical_text_payload'' = Inr (OText (sample_payload ts m))"
  by (simp_all add: envelope_str_def sample_row_def raise_unless_def)
lemma sample_projections:
  assumes "(ts, m) \<in> {(''1000'', ''1.25''), (''1100'', ''1.5'')}"
  shows "project_silver_pair (sample_row pos ts m) = Inr (new SilverPairProjection [otext ''L'', otext pos])"
    "project_observation_kind (sample_row pos ts m) = Inr (new ObservationKindProjection [otext ''SCORE''])"
    "project_score_family 3 (sample_row pos ts m) = Inr (new ScoreFamilyProjection [SCORE_OBSERVATION_KIND, SCORE_FAMILY_DESCRIPTOR])"
    "project_score_context 3 (sample_row pos ts m) = Inr (new ScoreContextProjection [OTuple [otext ''v'', otext ''p'']])"
    "project_score_timestamp 3 (sample_row pos ts m) = Inr (new ScoreTimestampProjection [otext ts])"
    "project_score_unit 3 (sample_row pos ts m) = Inr (new ScoreUnitProjection [otext ''usd''])"
    "project_score_magnitude 3 (sample_row pos ts m) =
       Inr (new ScoreMagnitudeProjection [otext m, ODec (DFin (if m = ''1.25'' then 5 / 4 else 3 / 2))])"
proof -
  note j = sample_json[OF assms]
  note e = sample_row_ok sample_envelope parse_payload_def text_value_def j pmember_def text_member_def raise_unless_def require_family_payload_def
  show "project_silver_pair (sample_row pos ts m) = Inr (new SilverPairProjection [otext ''L'', otext pos])"
    by (simp add: project_silver_pair_def e make_silver_pair_def)
  show  "project_observation_kind (sample_row pos ts m) = Inr (new ObservationKindProjection [otext ''SCORE''])"
    by (simp add: project_observation_kind_def e make_observation_kind_def)
  show "project_score_family 3 (sample_row pos ts m) = Inr (new ScoreFamilyProjection [SCORE_OBSERVATION_KIND, SCORE_FAMILY_DESCRIPTOR])"
    by (simp add: project_score_family_def e make_score_family_def SCORE_OBSERVATION_KIND_def SCORE_FAMILY_DESCRIPTOR_def)
  show "project_score_context 3 (sample_row pos ts m) = Inr (new ScoreContextProjection [OTuple [otext ''v'', otext ''p'']])"
    by (simp add: project_score_context_def e make_score_context_def two_nonblank_text_iff ut_def uni_space_def)
  have "canonical_int (ut ts)" using assms by (auto simp: ut_def ascii_digit_def)
  then show "project_score_timestamp 3 (sample_row pos ts m) = Inr (new ScoreTimestampProjection [otext ts])"
    by (simp add: project_score_timestamp_def e make_score_timestamp_def is_canonical_timestamp_iff py_attr_def)
  show "project_score_unit 3 (sample_row pos ts m) = Inr (new ScoreUnitProjection [otext ''usd''])"
    by (simp add: project_score_unit_def e make_score_unit_def)
  have "phase5_split (ut m) \<noteq> None" "decimal_of_text (ut m) = Inr (DFin (if m = ''1.25'' then 5 / 4 else 3 / 2))"
    using assms by (auto simp: ut_def phase5_split_def decimal_of_text_def uni_is_digit_def uni_digit_def uni_zeros_def uni_digits_val_def)
  then show "project_score_magnitude 3 (sample_row pos ts m) =
       Inr (new ScoreMagnitudeProjection [otext m, ODec (DFin (if m = ''1.25'' then 5 / 4 else 3 / 2))])"
    by (simp add: project_score_magnitude_def e make_score_magnitude_def is_phase5_text_iff is_finite_decimal_def deq_def dec_value_def)
qed

lemma step_succeeds:
  assumes m: "manifest_defs manifest ds" and ts: "state_ok ds ts"
    and silver: "project_silver_pair row = Inr x" and k: "row_pair row = Some k" and new: "k \<notin> fst ` set ts"
    and own: "\<And>d. map_of ds k = Some d \<Longrightarrow> \<exists>slot. first_target depth (defs_obj ds) row (key_obj k) = Inr slot"
    and later: "later_transitions depth (defs_obj ds) row (entries_obj (filter (\<lambda>(k', p). is_active p) ts)) = Inr trs"
  shows "execute_atomic_replay_step depth (lifecycle_obj ts) (seen_obj ts) row manifest =
     Inr (lifecycle_obj (next_state depth ds row ts), seen_obj (next_state depth ds row ts))"
    "state_ok ds (next_state depth ds row ts)"
proof -
  have f: "filter (\<lambda>(k', p). is_active p \<and> \<not> (k \<in> fst ` set ds \<and> k' = k)) ts = filter (\<lambda>(k', p). is_active p) ts"
    using new by (intro filter_cong) (force+)
  have us: "slots_ok ds (filter (\<lambda>(k', p). is_active p) ts)"
    using state_slots_ok[OF ts] m by (auto simp: manifest_defs_def)
  have "trs = changes depth ds row (filter (\<lambda>(k', p). is_active p) ts)"
    using later_transitions_eq[OF us, of depth row] later by auto
  also have "\<dots> = changes depth ds row ts"
    by (rule changes_filter) (auto simp: adv_def observe_keeps)
  finally have trs: "trs = changes depth ds row ts" .
  note eq = step_eq[OF m ts silver k, unfolded f] 
  have slot: "slot = slot_obj k (establish depth d row)" "phase_ok (establish depth d row)"
    if "map_of ds k = Some d" "first_target depth (defs_obj ds) row (key_obj k) = Inr slot" for d slot
    using first_target_eq[OF that] by auto
  show ok: "state_ok ds (next_state depth ds row ts)"
    using own slot(2) by (intro next_state_ok[OF ts]) (use k new in force)+
  show "execute_atomic_replay_step depth (lifecycle_obj ts) (seen_obj ts) row manifest =
     Inr (lifecycle_obj (next_state depth ds row ts), seen_obj (next_state depth ds row ts))"
  proof (cases "map_of ds k")
    case None
    have "proposed depth ds row = []" by (simp add: proposed_def k None)
    moreover have "k \<notin> fst ` set ds" using None by (simp add: map_of_eq_None_iff)
    ultimately show ?thesis
      using publish_eq[OF ts ok] later by (simp add: eq raise_unless_def trs proposal_obj_def)
  next
    case (Some d)
    then obtain s where "first_target depth (defs_obj ds) row (key_obj k) = Inr s" using own by blast
    then show ?thesis
      using publish_eq[OF ts ok] later new map_of_in[OF Some] slot(1)[OF Some]
      by (simp add: eq raise_unless_def trs proposed_def proposal_obj_def k Some)
  qed
qed

lemma def_obj_inj [simp]: "def_obj d = def_obj d' \<longleftrightarrow> d = d'"
  by (cases d; cases d') (auto simp: odirectional_def oinert_def)

lemma defs_obj_inj [simp]: "defs_obj ds = defs_obj ds' \<longleftrightarrow> ds = ds'"
proof -
  have "inj (\<lambda>(k, d). (key_obj k, def_obj d))" by (auto simp: inj_def)
  from inj_map_eq_map[OF this] show ?thesis by (simp add: defs_obj_def)
qed

lemma tuple_entries_inj [simp]: "tuple_entries xs = tuple_entries ys \<longleftrightarrow> xs = ys"
proof -
  have "inj (\<lambda>(k, v). OTuple [k, v])" by (auto simp: inj_def)
  from inj_map_eq_map[OF this] show ?thesis by (simp add: tuple_entries_def)
qed

lemma made_defs:
  "make_shadow_intent_definition_artifact a b c p (tuple_entries (defs_obj ds)) = Inr m \<Longrightarrow> manifest_defs m ds"
  using factory_manifest by force

lemma sample_facts:
  assumes "(ts, m) \<in> {(''1000'', ''1.25''), (''1100'', ''1.5'')}"
  shows "row_pair (sample_row pos ts m) = Some (ut ''L'', ut pos)"
    "row_context 3 (sample_row pos ts m) = Some (ut ''v'', ut ''p'')"
    "row_time 3 (sample_row pos ts m) = Some (ut ts)" "row_unit 3 (sample_row pos ts m) = Some (ut ''usd'')"
    "row_magnitude 3 (sample_row pos ts m) = Some (if m = ''1.25'' then 5 / 4 else 3 / 2)"
    "row_is_score (sample_row pos ts m)"
  using sample_projections[OF assms, of pos]
  by (simp_all add: row_pair_def row_context_def row_time_def row_unit_def row_magnitude_def row_is_score_def
      py_attr_def text_value_def dec_value_def SCORE_OBSERVATION_KIND_def)

lemma sample_manifest_defs: "manifest_defs sample_manifest sample_defs"
  by (rule made_defs[OF sample_made])

abbreviation sample_key :: pair_key where
  "sample_key \<equiv> (ut ''L'', ut ''1'')"
abbreviation sample_active :: "bool \<Rightarrow> phase" where
  "sample_active \<equiv> Active (ut ''v'', ut ''p'') (ut ''1000'')"

lemma sample_texts:
  "canonical_int (ut ''1000'')" "canonical_int (ut ''1100'')" "\<not> list_all uni_space (ut ''v'')" "\<not> list_all uni_space (ut ''p'')"
  "evidence_ok (ut ''v'') (ut ''p'') (ut ''1000'')" "text_val (ut ''1000'') = 1000" "text_val (ut ''1100'') = 1100"
  by (simp_all add: evidence_ok_def ut_def uni_space_def ascii_digit_def text_val_def)

lemma sample_first:
  "first_target 3 (defs_obj sample_defs) (sample_row ''1'' ''1000'' ''1.25'') (key_obj sample_key) =
     Inr (slot_obj sample_key (sample_active False))"
  using sample_texts by (simp add: first_target_def lookup_definition_def sample_projections project_of_Inr
      SCORE_OBSERVATION_KIND_def raise_unless_def establish_slot_eq unit_comparable_eq[simplified] sample_defs_def)

lemma sample_later:
  "\<exists>trs. later_transitions 3 (defs_obj sample_defs) (sample_row ''2'' ''1100'' ''1.5'')
     (entries_obj [(sample_key, sample_active False)]) = Inr trs"
proof -
  have t: "phase5_split (ut ''1.5'') \<noteq> None" "decimal_of_text (ut ''1.5'') = Inr (DFin (3 / 2))"
    by (auto simp: ut_def phase5_split_def decimal_of_text_def uni_is_digit_def uni_digit_def uni_zeros_def uni_digits_val_def)
  show ?thesis
    using sample_texts crossing_eq[OF t, of True "3/2"]
    by (simp add: later_transitions_def sample_projections project_of_Inr SCORE_OBSERVATION_KIND_def
        context_equals_eq[simplified] evidence_obj_def classify_slot_def lookup_definition_def sample_defs_def
        window_exact[simplified] classify_crossing_def unit_comparable_eq[simplified] MAX_HYPOTHETICAL_WINDOW_DURATION_MS_def window_defs)
qed

abbreviation sample_rows :: "pobj list" where
  "sample_rows \<equiv> [sample_row ''1'' ''1000'' ''1.25'', sample_row ''2'' ''1100'' ''1.5'']"

lemma sample_first_step:
  "execute_atomic_replay_step 3 (lifecycle_obj []) (seen_obj []) (sample_row ''1'' ''1000'' ''1.25'') sample_manifest =
      Inr (lifecycle_obj [(sample_key, sample_active False)], seen_obj [(sample_key, sample_active False)])"
  "state_ok sample_defs [(sample_key, sample_active False)]"
proof -
  have ok: "state_ok sample_defs []" by (simp add: state_ok_def)
  let ?row = "sample_row ''1'' ''1000'' ''1.25''"
  have n1: "next_state 3 sample_defs ?row [] = [(sample_key, sample_active False)]"
    by (simp add: next_state_def sample_facts sample_texts sample_defs_def establish_def)
  have "\<exists>slot. first_target 3 (defs_obj sample_defs) ?row (key_obj sample_key) = Inr slot" using sample_first by blast
  moreover have "later_transitions 3 (defs_obj sample_defs) ?row (entries_obj (filter (\<lambda>(k', p). is_active p) [])) = Inr []"
    by (simp add: later_transitions_def)
  ultimately show "execute_atomic_replay_step 3 (lifecycle_obj []) (seen_obj []) ?row sample_manifest =
      Inr (lifecycle_obj [(sample_key, sample_active False)], seen_obj [(sample_key, sample_active False)])"
    "state_ok sample_defs [(sample_key, sample_active False)]"
    using step_succeeds[OF sample_manifest_defs ok, of ?row _ sample_key 3 "[]"] n1
    by (simp_all add: sample_facts sample_projections)
qed

lemma sample_reconstructed:
  "reconstruct_shadow_intent_state 3 (OTuple sample_rows) sample_manifest =
     Inr (lifecycle_obj [(sample_key, sample_active True)], seen_obj [(sample_key, sample_active True)])"
proof -
  have ut12: "ut ''2'' \<noteq> ut ''1''" by (simp add: ut_def)
  note facts = sample_facts sample_texts
  let ?row = "sample_row ''2'' ''1100'' ''1.5''"
  have n2: "next_state 3 sample_defs ?row [(sample_key, sample_active False)] = [(sample_key, sample_active True)]"
    using ut12 by (simp add: next_state_def facts sample_defs_def adv_def crosses_def)
  obtain trs where "later_transitions 3 (defs_obj sample_defs) ?row
      (entries_obj (filter (\<lambda>(k', p). is_active p) [(sample_key, sample_active False)])) = Inr trs"
    using sample_later by auto
  then have "execute_atomic_replay_step 3 (lifecycle_obj [(sample_key, sample_active False)])
      (seen_obj [(sample_key, sample_active False)]) ?row sample_manifest =
      Inr (lifecycle_obj [(sample_key, sample_active True)], seen_obj [(sample_key, sample_active True)])"
    using step_succeeds(1)[OF sample_manifest_defs sample_first_step(2), of ?row _ "(ut ''L'', ut ''2'')" 3 trs] n2 ut12
    by (simp add: facts sample_projections sample_defs_def del: entries_obj_simps)
  then show ?thesis by (simp add: reconstruct_eq[OF sample_manifest_defs] sample_first_step(1))
qed

lemma sample_duplicate:
  "reconstruct_shadow_intent_state 3 (OTuple [sample_row ''1'' ''1000'' ''1.25'', sample_row ''1'' ''1000'' ''1.25'']) sample_manifest =
     Inl (step_error ''STEP_DUPLICATE_ROOT'')"
proof -
  have "sample_key \<in> fst ` set sample_defs" by (simp add: sample_defs_def)
  then show ?thesis
    by (simp add: reconstruct_eq[OF sample_manifest_defs] sample_first_step(1) raise_unless_def sample_facts
        step_eq[OF sample_manifest_defs sample_first_step(2) sample_projections(1), of "''1000''" "''1.25''"])
qed

section \<open>The guarantees\<close>


text \<open>C31: Termination of the lexical addition: on any two texts the timestamp check accepts, the digit loop
  of \<open>_add_canonical\<close> returns, with a text the check accepts again and whose number is the exact sum, of
  any length; and \<open>_compare_canonical\<close> gives the sign of the difference of the numbers.\<close>
theorem lexical_addition_returns:
  assumes "require_canonical_timestamp (OText a) = Inr x" "require_canonical_timestamp (OText b) = Inr y"
  shows "\<exists>t. add_canonical a b = Some t \<and> require_canonical_timestamp (OText t) = Inr t
     \<and> text_val t = text_val a + text_val b
     \<and> compare_canonical a b = sgn (int (text_val a) - int (text_val b))"
  using assms add_canonical_exact[of a b] by (auto simp: require_canonical_timestamp_eq compare_canonical_eq)

theorem lexical_addition_returns_witness:
  "\<exists>t. add_canonical (ut ''999'') (ut ''1'') = Some t \<and> text_val t = 1000"
proof -
  have "require_canonical_timestamp (otext ''999'') = Inr (ut ''999'')" "require_canonical_timestamp (otext ''1'') = Inr (ut ''1'')"
    by (simp_all add: require_canonical_timestamp_eq ut_def ascii_digit_def)
  from lexical_addition_returns[OF this] show ?thesis by (auto simp: text_val_def ut_def)
qed

text \<open>C30: The window predicate is decided by the integers: it answers exactly for a canonical anchor, a timestamp
  carrier with a canonical text and an integer duration within the bound; the answer compares the numbers,
  with the bound of the window included; and every other input, of whatever kind, raises
  \<open>ClassificationPredicateError\<close> (the lexical loop returns).\<close>
theorem window_decides:
  "(classify_timestamp_window anchor comparison duration = Inr w \<longleftrightarrow>
      (\<exists>a t n. anchor = OText a \<and> canonical_int a \<and> type_is ScoreTimestampProjection comparison
        \<and> py_attr comparison ''provenance_timestamp'' = Some (OText t) \<and> canonical_int t
        \<and> duration = OInt n \<and> 0 \<le> n \<and> n \<le> MAX_HYPOTHETICAL_WINDOW_DURATION_MS
        \<and> w = (if text_val t < text_val a then WINDOW_NON_COMPARABLE
               else if int (text_val t) \<le> int (text_val a) + n then WINDOW_IN_WINDOW else WINDOW_EXPIRED)))
   \<and> classify_timestamp_window anchor comparison duration \<in> range Inr \<union> Inl ` range ClassificationPredicateError"
proof -
  have stamp: "(\<exists>t. v = OText t \<and> canonical_int t \<and> require_canonical_timestamp v = Inr t)
      \<or> (\<exists>reason. require_canonical_timestamp v = Inl (ClassificationPredicateError reason))" for v
  proof (cases "require_canonical_timestamp v")
    case (Inl e)
    then show ?thesis by (auto simp: require_canonical_timestamp_def Let_def split: pobj.splits if_splits)
  next
    case (Inr t)
    then show ?thesis by (simp add: require_canonical_timestamp_eq)
  qed
  show ?thesis
  proof (cases "\<exists>a t n. anchor = OText a \<and> canonical_int a \<and> type_is ScoreTimestampProjection comparison
        \<and> py_attr comparison ''provenance_timestamp'' = Some (OText t) \<and> canonical_int t
        \<and> duration = OInt n \<and> 0 \<le> n \<and> n \<le> MAX_HYPOTHETICAL_WINDOW_DURATION_MS")
    case True
    then obtain a t n where h: "anchor = OText a" "canonical_int a" "type_is ScoreTimestampProjection comparison"
        "py_attr comparison ''provenance_timestamp'' = Some (OText t)" "canonical_int t"
        "duration = OInt n" "0 \<le> n" "n \<le> MAX_HYPOTHETICAL_WINDOW_DURATION_MS" by blast
    have "classify_timestamp_window anchor comparison duration =
        classify_timestamp_window (OText a) (new ScoreTimestampProjection [OText t]) (OInt n)"
      using h by (simp add: classify_timestamp_window_def require_carrier_def carrier_slot_def) (simp add: py_attr_def)
    then show ?thesis
      using window_exact[OF h(2,5,7,8)] h by auto
  next
    case False
    consider reason where "require_canonical_timestamp anchor = Inl (ClassificationPredicateError reason)"
      | a where "anchor = OText a" "canonical_int a" "require_canonical_timestamp anchor = Inr a" using stamp by blast
    then show ?thesis
    proof cases
      case 1
      then show ?thesis using False by (auto simp: classify_timestamp_window_def)
    next
      case anchor: 2
      have "\<exists>reason. classify_timestamp_window anchor comparison duration = Inl (ClassificationPredicateError reason)"
      proof (cases "type_is ScoreTimestampProjection comparison \<and> py_attr comparison ''provenance_timestamp'' \<noteq> None")
        case True
        then obtain v where v: "py_attr comparison ''provenance_timestamp'' = Some v" by blast
        have "n < 0 \<or> MAX_HYPOTHETICAL_WINDOW_DURATION_MS < n" if "v = OText t" "canonical_int t" "duration = OInt n" for t n
          using True False anchor v that by force
        then show ?thesis
          using True anchor v stamp[of v]
          by (auto simp: classify_timestamp_window_def require_carrier_def carrier_slot_def raise_unless_def split: pobj.split)
      qed (use anchor in \<open>auto simp: classify_timestamp_window_def require_carrier_def carrier_slot_def raise_unless_def\<close>)
      then show ?thesis using False by auto
    qed
  qed
qed

lemma reconstruction_refines_helper:
  assumes "make_shadow_intent_definition_artifact a b c p (tuple_entries (defs_obj ds)) = Inr m"
    and "reconstruct_shadow_intent_state depth (OTuple rows) m = Inr (L, S)"
  obtains ts where "L = lifecycle_obj ts" "S = seen_obj ts" "distinct (map fst ts)"
    "\<And>k. map_of ts k = (case map_of ds k of Some d \<Rightarrow> key_run depth k d rows | None \<Rightarrow> None)"
proof -
  let ?ts = "run_state depth ds [] rows"
  note f = reconstruct_facts(2)[OF made_defs[OF assms(1)] assms(2)]
  have "map_of ?ts k = None" if "map_of ds k = None" for k
    using f that by (auto simp: state_ok_def map_of_eq_None_iff)
  then have "map_of ?ts k = (case map_of ds k of Some d \<Rightarrow> key_run depth k d rows | None \<Rightarrow> None)" for k
    using f by (cases "map_of ds k") (auto simp del: split_paired_All)
  with that[of ?ts] f show ?thesis by (auto simp: state_ok_def)
qed

text \<open>C27: The reconstruction refines one automaton per defined pair: for every artifact of the factory, whenever
  the fold over the rows succeeds, its two snapshots represent one table that holds, for each defined pair,
  the phase of its own automaton run over all rows (not seen, dormant, active with context, anchor
  and whether the condition was met, expired), nothing for any other pair, and no pair twice.\<close>
theorem reconstruction_refines:
  assumes "make_shadow_intent_definition_artifact a b c p (tuple_entries (defs_obj ds)) = Inr m"
    and "reconstruct_shadow_intent_state depth (OTuple rows) m = Inr (L, S)"
  shows "\<exists>ts. L = lifecycle_obj ts \<and> S = seen_obj ts \<and> distinct (map fst ts)
    \<and> (\<forall>k. map_of ts k = (case map_of ds k of Some d \<Rightarrow> key_run depth k d rows | None \<Rightarrow> None))"
  using reconstruction_refines_helper[OF assms] by metis

theorem reconstruction_refines_witness:
  "\<exists>ts. lifecycle_obj [(sample_key, sample_active True)] = lifecycle_obj ts
    \<and> map_of ts sample_key = key_run 3 sample_key (Directional True (3 / 2) (ut ''usd'') 100) sample_rows"
proof -
  have "map_of sample_defs sample_key = Some (Directional True (3 / 2) (ut ''usd'') 100)" by (simp add: sample_defs_def)
  then show ?thesis
    using reconstruction_refines[OF sample_made sample_reconstructed] by force
qed

text \<open>C29: The reconstruction fails for three reasons only, each with its cause in the rows: a row whose evidence
  was rejected; a second row of a defined pair; a first row of a defined pair that is not a score. No
  revalidation, lookup, classification predicate, transition check or publication check of the code can
  fail on the states the fold itself produces.\<close>
theorem reconstruction_failures:
  assumes "make_shadow_intent_definition_artifact a b c p (tuple_entries (defs_obj ds)) = Inr m"
    and "reconstruct_shadow_intent_state depth (OTuple rows) m = Inl e"
  shows "e = step_error ''STEP_EVIDENCE_PROJECTION_REJECTED''
     \<or> e = step_error ''STEP_DUPLICATE_ROOT'' \<and> (\<exists>i j. \<exists>k \<in> fst ` set ds. i < j \<and> j < length rows
          \<and> row_pair (rows ! i) = Some k \<and> row_pair (rows ! j) = Some k)
     \<or> e = step_error ''STEP_TARGETED_NON_SCORE_ROOT'' \<and>
         (\<exists>row \<in> set rows. \<not> row_is_score row \<and> (\<exists>k \<in> fst ` set ds. row_pair row = Some k))"
  using reconstruct_facts(1)[OF made_defs[OF assms(1)] assms(2)] unfolding fold_cause_def by blast

theorem reconstruction_failures_witness:
  "row_pair (sample_row ''1'' ''1000'' ''1.25'') = Some sample_key"
  using reconstruction_failures[OF sample_made sample_duplicate] by (auto simp: sample_defs_def)

fun later_phase :: "phase \<Rightarrow> phase \<Rightarrow> bool" where
  "later_phase (Active c a met) q = (q = Expired c a \<or> q = Active c a True \<or> q = Active c a met)"
| "later_phase p q = (q = p)"

lemma later_refl: "later_phase p p" by (cases p) auto
lemma later_trans: "later_phase p q \<Longrightarrow> later_phase q r \<Longrightarrow> later_phase p r"
  by (cases p) auto
lemma later_observe: "later_phase p (observe depth d row p)"
  by (cases p) (auto split: option.splits)

lemma run_state_later:
  "(k, p) \<in> set ts \<Longrightarrow> \<exists>p'. later_phase p p' \<and> (k, p') \<in> set (run_state depth ds ts rows)"
proof (induction rows arbitrary: ts p)
  case Nil
  then show ?case using later_refl by (auto simp: run_state_def)
next
  case (Cons row rows)
  have "(k, adv depth ds row k p) \<in> set (next_state depth ds row ts)"
    using Cons(2) by (force simp: next_state_eq)
  from Cons(1)[OF this] obtain p' where "later_phase (adv depth ds row k p) p'" "(k, p') \<in> set (run_state depth ds ts (row # rows))"
    by (auto simp: run_state_def)
  then show ?case using later_trans[OF later_observe, where p = p and r = p'] by (auto simp: adv_def)
qed

lemma later_object:
  assumes "later_phase p p'"
  shows "slot_value (slot_obj k p') ''root_evidence'' = slot_value (slot_obj k p) ''root_evidence''
     \<and> (slot_obj k p' = slot_obj k p \<or> phase_state p \<noteq> AUDIT_REPLAYED \<and> phase_state p' \<in> set (legal_forward (phase_state p)))"
  using assms by (cases p) (auto simp: legal_forward_def)

lemma phase_not_retired: "phase_state p \<noteq> INTENT_RETIRED"
  by (cases p) (auto simp: lifecycle_defs)

lemma fold_prefix:
  assumes m: "manifest_defs manifest ds"
  shows "state_ok ds ts \<Longrightarrow> result = None \<or> result = Some (lifecycle_obj ts, seen_obj ts) \<Longrightarrow>
    reconstruct_fold depth manifest (rows @ more) (lifecycle_obj ts) (seen_obj ts) result = Inr s \<Longrightarrow>
    \<exists>s. reconstruct_fold depth manifest rows (lifecycle_obj ts) (seen_obj ts) result = Inr s"
proof (induction rows arbitrary: ts result)
  case Nil
  then show ?case using result_revalidates[OF Nil(1)] by auto
next
  case (Cons row rows)
  let ?step = "execute_atomic_replay_step depth (lifecycle_obj ts) (seen_obj ts) row manifest"
  obtain r where r: "?step = Inr r" using Cons(4) by (cases ?step) auto
  then show ?case
    using Cons(1)[OF _ disjI2[OF refl], of "next_state depth ds row ts"] Cons(4) step_refines(2)[OF m Cons(2) r] by auto
qed

lemma reconstruct_prefix:
  assumes m: "manifest_defs m ds" and r: "reconstruct_shadow_intent_state depth (OTuple (rows @ more)) m = Inr s"
  shows "reconstruct_shadow_intent_state depth (OTuple rows) m =
      Inr (lifecycle_obj (run_state depth ds [] rows), seen_obj (run_state depth ds [] rows))"
proof -
  have "state_ok ds []" by (simp add: state_ok_def)
  from fold_prefix[OF m this disjI1[OF refl]] r obtain s' where "reconstruct_shadow_intent_state depth (OTuple rows) m = Inr s'"
    unfolding reconstruct_eq[OF m] by blast
  with reconstruct_facts(2)[OF m this] show ?thesis by simp
qed

text \<open>C28: The replay only moves forward: whenever the history \<open>rows @ more\<close> reconstructs, so does \<open>rows\<close>, and every
  slot of the earlier snapshot is in the later one, under the same key and with the same root evidence; its
  state is the same or a legal forward successor, and a slot that was never established (or
  has expired) never changes. The pairs seen are exactly the keys of the slots, without duplicates, and no
  slot is ever retired, though the vocabulary has that state.\<close>
theorem reconstruction_forward:
  assumes "make_shadow_intent_definition_artifact a b c p (tuple_entries (defs_obj ds)) = Inr m"
    and "reconstruct_shadow_intent_state depth (OTuple (rows @ more)) m = Inr s'"
  shows "\<exists>es es'. reconstruct_shadow_intent_state depth (OTuple rows) m =
        Inr (new ShadowLifecycleSnapshot [OProxy es], new SeenTargetPairsSnapshot [OFrozenset (map fst es)])
     \<and> s' = (new ShadowLifecycleSnapshot [OProxy es'], new SeenTargetPairsSnapshot [OFrozenset (map fst es')])
     \<and> distinct (map fst es')
     \<and> (\<forall>(key, slot') \<in> set es'. slot_value slot' ''lifecycle_state'' \<noteq> Inr INTENT_RETIRED)
     \<and> (\<forall>(key, slot) \<in> set es. \<exists>slot'. (key, slot') \<in> set es'
          \<and> slot_value slot' ''root_evidence'' = slot_value slot ''root_evidence''
          \<and> (slot' = slot \<or> (\<exists>old new. slot_value slot ''lifecycle_state'' = Inr old
               \<and> slot_value slot' ''lifecycle_state'' = Inr new \<and> new \<in> set (legal_forward old) \<and> old \<noteq> AUDIT_REPLAYED)))"
proof -
  note m = made_defs[OF assms(1)]
  let ?ts = "run_state depth ds [] rows" and ?ts' = "run_state depth ds [] (rows @ more)"
  have ts': "?ts' = run_state depth ds ?ts more" by (simp add: run_state_def)
  note f = reconstruct_facts(2)[OF m assms(2)]
  show ?thesis
  proof (rule exI[of _ "entries_obj ?ts"], rule exI[of _ "entries_obj ?ts'"], intro conjI)
    show "reconstruct_shadow_intent_state depth (OTuple rows) m =
        Inr (new ShadowLifecycleSnapshot [OProxy (entries_obj ?ts)], new SeenTargetPairsSnapshot [OFrozenset (map fst (entries_obj ?ts))])"
      using reconstruct_prefix[OF m assms(2)] by (simp add: lifecycle_obj_def seen_obj_def)
    show "s' = (new ShadowLifecycleSnapshot [OProxy (entries_obj ?ts')], new SeenTargetPairsSnapshot [OFrozenset (map fst (entries_obj ?ts'))])"
      using f by (simp add: lifecycle_obj_def seen_obj_def)
    show "distinct (map fst (entries_obj ?ts'))"
      using f by (simp add: state_ok_def distinct_map inj_on_def flip: map_map)
    show "\<forall>(key, slot') \<in> set (entries_obj ?ts'). slot_value slot' ''lifecycle_state'' \<noteq> Inr INTENT_RETIRED"
      by (auto simp: entries_obj_def phase_not_retired)
    have "\<exists>slot'. (key, slot') \<in> set (entries_obj ?ts')
          \<and> slot_value slot' ''root_evidence'' = slot_value slot ''root_evidence''
          \<and> (slot' = slot \<or> (\<exists>old new. slot_value slot ''lifecycle_state'' = Inr old
               \<and> slot_value slot' ''lifecycle_state'' = Inr new \<and> new \<in> set (legal_forward old) \<and> old \<noteq> AUDIT_REPLAYED))"
      if h: "(key, slot) \<in> set (entries_obj ?ts)" for key slot
    proof -
      obtain k q where k: "key = key_obj k" "slot = slot_obj k q" "(k, q) \<in> set ?ts" using h by (auto simp: entries_obj_def)
      then obtain q' where "later_phase q q'" "(k, q') \<in> set ?ts'" using run_state_later unfolding ts' by blast
      moreover from this have "(key, slot_obj k q') \<in> set (entries_obj ?ts')" by (force simp: entries_obj_def k)
      ultimately show "\<exists>slot'. (key, slot') \<in> set (entries_obj ?ts')
          \<and> slot_value slot' ''root_evidence'' = slot_value slot ''root_evidence''
          \<and> (slot' = slot \<or> (\<exists>old new. slot_value slot ''lifecycle_state'' = Inr old
               \<and> slot_value slot' ''lifecycle_state'' = Inr new \<and> new \<in> set (legal_forward old) \<and> old \<noteq> AUDIT_REPLAYED))"
        using later_object[of q q' k] k by (intro exI[of _ "slot_obj k q'"]) auto
    qed
    then show "\<forall>(key, slot) \<in> set (entries_obj ?ts). \<exists>slot'. (key, slot') \<in> set (entries_obj ?ts')
          \<and> slot_value slot' ''root_evidence'' = slot_value slot ''root_evidence''
          \<and> (slot' = slot \<or> (\<exists>old new. slot_value slot ''lifecycle_state'' = Inr old
               \<and> slot_value slot' ''lifecycle_state'' = Inr new \<and> new \<in> set (legal_forward old) \<and> old \<noteq> AUDIT_REPLAYED))"
      by auto
  qed
qed

theorem reconstruction_forward_witness:
  "\<exists>es. reconstruct_shadow_intent_state 3 (OTuple [sample_row ''1'' ''1000'' ''1.25'']) sample_manifest =
     Inr (new ShadowLifecycleSnapshot [OProxy es], new SeenTargetPairsSnapshot [OFrozenset (map fst es)])"
proof -
  have "reconstruct_shadow_intent_state 3
      (OTuple ([sample_row ''1'' ''1000'' ''1.25''] @ [sample_row ''2'' ''1100'' ''1.5''])) sample_manifest =
     Inr (lifecycle_obj [(sample_key, sample_active True)], seen_obj [(sample_key, sample_active True)])"
    using sample_reconstructed by simp
  from reconstruction_forward[OF sample_made this] show ?thesis by blast
qed

end
