(* ===== verification/ShadowBytes.thy ===== *)
theory ShadowBytes
  imports ShadowText "HOL-Library.Word"
begin

text \<open>
  The byte level under the artifact verifier (\<open>phase6_2_shadow_intent/artifact_verifier.py\<close>): strict UTF-8
  as \<open>str.encode\<close> and \<open>bytes.decode\<close> have it, and the SHA-256 of \<open>hashlib\<close> on 32-bit words, with its
  hexadecimal digest as a text. Bytes are numbers below 256.
\<close>

unbundle bit_operations_syntax

section \<open>Encodings\<close>

text \<open>What a pair of an encoder and a decoder promises on its valid inputs.\<close>

locale codec =
  fixes valid :: "'a \<Rightarrow> bool" and encode :: "'a \<Rightarrow> 'b option" and decode :: "'b \<Rightarrow> 'a option"
  assumes encodes: "valid x \<Longrightarrow> \<exists>b. encode x = Some b"
    and decodes: "valid x \<Longrightarrow> encode x = Some b \<Longrightarrow> decode b = Some x"
begin

lemma roundtrip: "valid x \<Longrightarrow> Option.bind (encode x) decode = Some x"
  using encodes decodes by force

lemma injective: "valid x \<Longrightarrow> valid y \<Longrightarrow> encode x = encode y \<Longrightarrow> x = y"
  by (metis encodes decodes option.inject)

end

section \<open>UTF-8\<close>

definition utf8_char :: "nat \<Rightarrow> nat list option" where
  "utf8_char c =
    (if c < 128 then Some [c]
     else if c < 2048 then Some [192 + c div 64, 128 + c mod 64]
     else if 55296 \<le> c \<and> c \<le> 57343 then None
     else if c < 65536 then Some [224 + c div 4096, 128 + c div 64 mod 64, 128 + c mod 64]
     else if c < 1114112 then
       Some [240 + c div 262144, 128 + c div 4096 mod 64, 128 + c div 64 mod 64, 128 + c mod 64]
     else None)"

fun utf8_encode :: "utext \<Rightarrow> nat list option" where
  "utf8_encode [] = Some []"
| "utf8_encode (c # cs) =
     Option.bind (utf8_char c) (\<lambda>b. Option.bind (utf8_encode cs) (\<lambda>bs. Some (b @ bs)))"

definition continuation :: "nat \<Rightarrow> bool" where
  "continuation b \<longleftrightarrow> 128 \<le> b \<and> b < 192"

text \<open>The decoder refuses overlong forms, surrogates and numbers above the last code point.\<close>

fun utf8_decode :: "nat list \<Rightarrow> utext option" where
  "utf8_decode [] = Some []"
| "utf8_decode (b # bs) =
    (if b < 128 then map_option ((#) b) (utf8_decode bs)
     else if b < 224 then
       (case bs of x # bs' \<Rightarrow>
          (let c = (b - 192) * 64 + (x - 128)
           in if 192 \<le> b \<and> continuation x \<and> 128 \<le> c then map_option ((#) c) (utf8_decode bs') else None)
        | [] \<Rightarrow> None)
     else if b < 240 then
       (case bs of x # y # bs' \<Rightarrow>
          (let c = (b - 224) * 4096 + (x - 128) * 64 + (y - 128)
           in if continuation x \<and> continuation y \<and> 2048 \<le> c \<and> \<not> (55296 \<le> c \<and> c \<le> 57343)
              then map_option ((#) c) (utf8_decode bs') else None)
        | _ \<Rightarrow> None)
     else
       (case bs of x # y # z # bs' \<Rightarrow>
          (let c = (b - 240) * 262144 + (x - 128) * 4096 + (y - 128) * 64 + (z - 128)
           in if b < 248 \<and> continuation x \<and> continuation y \<and> continuation z \<and> 65536 \<le> c \<and> c < 1114112
              then map_option ((#) c) (utf8_decode bs') else None)
        | _ \<Rightarrow> None))"

text \<open>A text without surrogates.\<close>

definition scalar_text :: "utext \<Rightarrow> bool" where
  "scalar_text t \<longleftrightarrow> list_all (\<lambda>c. c < 1114112 \<and> \<not> (55296 \<le> c \<and> c \<le> 57343)) t"

lemma utf8_split: "(c::nat) = c div 64 * 64 + c mod 64" "(c::nat) = c div 4096 * 4096 + c div 64 mod 64 * 64 + c mod 64"
  "(c::nat) = c div 262144 * 262144 + c div 4096 mod 64 * 4096 + c div 64 mod 64 * 64 + c mod 64"
proof -
  have split: "n = n div 64 * 64 + n mod 64" for n :: nat by simp
  have d: "c div 4096 = c div 64 div 64" "c div 262144 = c div 64 div 64 div 64" by (simp_all add: div_mult2_eq[symmetric])
  show "c = c div 64 * 64 + c mod 64" by (rule split)
  show "c = c div 4096 * 4096 + c div 64 mod 64 * 64 + c mod 64"
    unfolding d using split[of c] split[of "c div 64"] by linarith
  show "c = c div 262144 * 262144 + c div 4096 mod 64 * 4096 + c div 64 mod 64 * 64 + c mod 64"
    unfolding d using split[of c] split[of "c div 64"] split[of "c div 64 div 64"] by linarith
qed

lemma utf8_decode_char:
  assumes "utf8_char c = Some b"
  shows "utf8_decode (b @ bs) = map_option ((#) c) (utf8_decode bs)"
proof -
  consider "c < 128" "b = [c]" | "128 \<le> c" "c < 2048" "b = [192 + c div 64, 128 + c mod 64]"
    | "2048 \<le> c" "c < 65536" "\<not> (55296 \<le> c \<and> c \<le> 57343)" "b = [224 + c div 4096, 128 + c div 64 mod 64, 128 + c mod 64]"
    | "65536 \<le> c" "c < 1114112" "b = [240 + c div 262144, 128 + c div 4096 mod 64, 128 + c div 64 mod 64, 128 + c mod 64]"
    using assms by (auto simp: utf8_char_def split: if_splits)
  then show ?thesis
  proof cases
    case 2
    define q r where "q = c div 64" "r = c mod 64"
    have "q < 32" "r < 64" "c = q * 64 + r" using 2 utf8_split(1)[of c] by (simp_all add: q_r_def less_mult_imp_div_less)
    then show ?thesis using 2 unfolding 2(3) q_r_def[symmetric] by (simp add: continuation_def Let_def)
  next
    case 3
    define q r s where "q = c div 4096" "r = c div 64 mod 64" "s = c mod 64"
    have "q < 16" "r < 64" "s < 64" "c = q * 4096 + r * 64 + s"
      using 3 utf8_split(2)[of c] by (simp_all add: q_r_s_def less_mult_imp_div_less)
    then show ?thesis using 3 unfolding 3(4) q_r_s_def[symmetric] by (simp add: continuation_def Let_def)
  next
    case 4
    define q r s t where "q = c div 262144" "r = c div 4096 mod 64" "s = c div 64 mod 64" "t = c mod 64"
    have "q < 8" "r < 64" "s < 64" "t < 64" "c = q * 262144 + r * 4096 + s * 64 + t"
      using 4 utf8_split(3)[of c] by (simp_all add: q_r_s_t_def less_mult_imp_div_less)
    then show ?thesis using 4 unfolding 4(3) q_r_s_t_def[symmetric] by (simp add: continuation_def Let_def)
  qed simp
qed

lemma utf8_decode_encode: "utf8_encode t = Some b \<Longrightarrow> utf8_decode b = Some t"
  by (induction t arbitrary: b) (auto simp: utf8_decode_char split: bind_splits)

lemma utf8_encodes: "(\<exists>b. utf8_encode t = Some b) \<longleftrightarrow> scalar_text t"
  by (induction t) (auto simp: scalar_text_def utf8_char_def split: bind_splits)

interpretation utf8: codec scalar_text utf8_encode utf8_decode
  by unfold_locales (use utf8_encodes utf8_decode_encode in auto)

section \<open>SHA-256\<close>

text \<open>The fractional parts of the cube roots of the first 64 primes, and of the square roots of the first eight.\<close>

definition sha_constants :: "32 word list" where
  "sha_constants = [
     1116352408, 1899447441, 3049323471, 3921009573, 961987163, 1508970993, 2453635748, 2870763221,
     3624381080, 310598401, 607225278, 1426881987, 1925078388, 2162078206, 2614888103, 3248222580,
     3835390401, 4022224774, 264347078, 604807628, 770255983, 1249150122, 1555081692, 1996064986,
     2554220882, 2821834349, 2952996808, 3210313671, 3336571891, 3584528711, 113926993, 338241895,
     666307205, 773529912, 1294757372, 1396182291, 1695183700, 1986661051, 2177026350, 2456956037,
     2730485921, 2820302411, 3259730800, 3345764771, 3516065817, 3600352804, 4094571909, 275423344,
     430227734, 506948616, 659060556, 883997877, 958139571, 1322822218, 1537002063, 1747873779,
     1955562222, 2024104815, 2227730452, 2361852424, 2428436474, 2756734187, 3204031479, 3329325298]"

definition sha_initial :: "32 word list" where
  "sha_initial = [
     1779033703, 3144134277, 1013904242, 2773480762, 1359893119, 2600822924, 528734635, 1541459225]"

definition sha_pad :: "nat list \<Rightarrow> nat list" where
  "sha_pad bs = bs @ [128] @ replicate (nat ((55 - int (length bs)) mod 64)) 0
     @ map (\<lambda>i. 8 * length bs div 256 ^ (7 - i) mod 256) [0..<8]"

definition be_word :: "nat list \<Rightarrow> 32 word" where
  "be_word bs = word_of_nat (foldl (\<lambda>a b. 256 * a + b) 0 bs)"

definition chunks :: "nat \<Rightarrow> 'a list \<Rightarrow> 'a list list" where
  "chunks n xs = map (\<lambda>i. take n (drop (n * i) xs)) [0..<length xs div n]"

definition sha_sigma0 :: "32 word \<Rightarrow> 32 word" where
  "sha_sigma0 x = (word_rotr 7 x XOR word_rotr 18 x) XOR drop_bit 3 x"

definition sha_sigma1 :: "32 word \<Rightarrow> 32 word" where
  "sha_sigma1 x = (word_rotr 17 x XOR word_rotr 19 x) XOR drop_bit 10 x"

fun sha_schedule :: "nat \<Rightarrow> 32 word list \<Rightarrow> 32 word list" where
  "sha_schedule 0 w = w"
| "sha_schedule (Suc n) w =
    (let i = length w
     in sha_schedule n (w @ [w ! (i - 16) + sha_sigma0 (w ! (i - 15)) + w ! (i - 7) + sha_sigma1 (w ! (i - 2))]))"

fun sha_round :: "32 word list \<Rightarrow> 32 word \<times> 32 word \<Rightarrow> 32 word list" where
  "sha_round [a, b, c, d, e, f, g, h] (k, w) =
    (let s1 = (word_rotr 6 e XOR word_rotr 11 e) XOR word_rotr 25 e;
         ch = (e AND f) XOR (NOT e AND g);
         t1 = h + s1 + ch + k + w;
         s0 = (word_rotr 2 a XOR word_rotr 13 a) XOR word_rotr 22 a;
         maj = ((a AND b) XOR (a AND c)) XOR (b AND c)
     in [t1 + (s0 + maj), a, b, c, d + t1, e, f, g])"
| "sha_round s _ = s"

definition sha_block :: "32 word list \<Rightarrow> nat list \<Rightarrow> 32 word list" where
  "sha_block hs block =
     map2 (+) hs (foldl sha_round hs (zip sha_constants (sha_schedule 48 (map be_word (chunks 4 block)))))"

text \<open>\<open>hashlib.sha256(b).hexdigest()\<close>.\<close>

definition hex_char :: "nat \<Rightarrow> nat" where
  "hex_char d = (if d < 10 then 48 + d else 87 + d)"

definition hex_word :: "32 word \<Rightarrow> utext" where
  "hex_word w = map (\<lambda>i. hex_char (unat w div 16 ^ (7 - i) mod 16)) [0..<8]"

definition sha256_hex :: "nat list \<Rightarrow> utext" where
  "sha256_hex bs = concat (map hex_word (foldl sha_block sha_initial (chunks 64 (sha_pad bs))))"

text \<open>The digest is a text of 64 lower-case hexadecimal digits.\<close>

definition is_sha256_hex :: "utext \<Rightarrow> bool" where
  "is_sha256_hex t \<longleftrightarrow> length t = 64 \<and> list_all (\<lambda>c. 48 \<le> c \<and> c \<le> 57 \<or> 97 \<le> c \<and> c \<le> 102) t"

lemma sha_round_length: "length (sha_round s kw) = length s"
  by (induction s kw rule: sha_round.induct) (simp_all add: Let_def)

lemma sha_block_length: "length (sha_block hs b) = length hs"
proof -
  have "length (foldl sha_round hs ks) = length hs" for ks
    by (induction ks arbitrary: hs) (simp_all add: sha_round_length)
  then show ?thesis by (simp add: sha_block_def)
qed

lemma sha256_hex_shape: "is_sha256_hex (sha256_hex bs)"
proof -
  have "length (foldl sha_block hs cs) = length hs" for hs cs
    by (induction cs arbitrary: hs) (simp_all add: sha_block_length)
  then have len: "length (foldl sha_block sha_initial cs) = 8" for cs
    by (simp add: sha_initial_def)
  have "length (concat (map hex_word ws)) = 8 * length ws" for ws
    by (induction ws) (simp_all add: hex_word_def)
  moreover have "c \<in> set (hex_word w) \<Longrightarrow> 48 \<le> c \<and> c \<le> 57 \<or> 97 \<le> c \<and> c \<le> 102" for c w
    by (auto simp: hex_word_def hex_char_def)
  ultimately show ?thesis by (auto simp: is_sha256_hex_def sha256_hex_def len list_all_iff)
qed

end
