(* ===== verification/ShadowArtifact.thy ===== *)
theory ShadowArtifact
  imports ShadowEvidence ShadowBytes "HOL-Library.List_Lexorder" "HOL-Library.Product_Lexorder"
begin

text \<open>
  The artifact verifier (\<open>phase6_2_shadow_intent/artifact_verifier.py\<close>): a sealed artifact is a byte string
  with a detached digest. It is read once, its digest compared, decoded as strict UTF-8, parsed as JSON
  without numbers, checked field by field, built through the factories of the logical model, encoded again,
  and accepted only if the bytes are the same. Texts are ordered by code points and byte strings
  byte by byte, both as lists in the library's lexicographic order.
\<close>

abbreviation art_check :: "bool \<Rightarrow> unit result" where
  "art_check b \<equiv> raise_unless b ArtifactVerificationError"

definition FIELD_SHAPE_LITERAL :: pobj where
  "FIELD_SHAPE_LITERAL = otext ''PHASE6_2_SHADOW_INTENT_DEFINITION_ARTIFACT_FIELD_SHAPE_V1''"

definition DIRECTIONAL_KIND :: pobj where "DIRECTIONAL_KIND = otext ''DIRECTIONAL_SHADOW_INTENT_DEFINITION''"
definition INERT_KIND :: pobj where "INERT_KIND = otext ''INERT_SHADOW_INTENT_DEFINITION''"

definition ROOT_MEMBERS :: "string list" where
  "ROOT_MEMBERS = [''artifact_field_shape_version_reference'', ''artifact_version_reference'',
     ''declarer_opaque_reference'', ''predecessor_artifact_version_reference'', ''definitions_by_silver_pair'']"

definition DIRECTIONAL_MEMBERS :: "string list" where
  "DIRECTIONAL_MEMBERS = [''definition_kind'', ''silver_artifact_locator_text'',
     ''silver_physical_record_position_text'', ''exposure_orientation'', ''passive_boundary_magnitude'',
     ''boundary_unit_context'', ''hypothetical_window_duration_ms'']"

definition INERT_MEMBERS :: "string list" where
  "INERT_MEMBERS = [''definition_kind'', ''silver_artifact_locator_text'',
     ''silver_physical_record_position_text'', ''exposure_orientation'', ''hypothetical_window_duration_ms'']"

text \<open>The regular expression of the magnitudes, \<open>-?(0|[1-9][0-9]*)(\.[0-9]*[1-9])?\<close>.\<close>

definition canonical_decimal_text :: "utext \<Rightarrow> bool" where
  "canonical_decimal_text t =
    (let r = (case t of c # cs \<Rightarrow> if c = 45 then cs else t | [] \<Rightarrow> [])
     in canonical_int (takeWhile ascii_digit r)
        \<and> (case dropWhile ascii_digit r of [] \<Rightarrow> True
           | c # fs \<Rightarrow> c = 46 \<and> fs \<noteq> [] \<and> list_all ascii_digit fs \<and> last fs \<noteq> 48))"

section \<open>References\<close>

text \<open>\<open>x.n\<close> on a slotted object.\<close>

definition attr :: "pobj \<Rightarrow> string \<Rightarrow> pobj result" where
  "attr x n = (case py_attr x n of Some v \<Rightarrow> Inr v | None \<Rightarrow> Inl AttributeError)"

definition require_reference_invariants :: "pobj \<Rightarrow> pobj \<Rightarrow> unit result" where
  "require_reference_invariants locator digest =
     rbind (art_check (is_text locator)) (\<lambda>_.
       art_check (case digest of OText t \<Rightarrow> is_sha256_hex t | _ \<Rightarrow> False))"

definition make_sealed_artifact_reference :: "pobj \<Rightarrow> pobj \<Rightarrow> pobj result" where
  "make_sealed_artifact_reference locator digest =
     rbind (require_reference_invariants locator digest) (\<lambda>_.
       Inr (new SealedArtifactReference [locator, digest]))"

section \<open>The encoder\<close>

text \<open>The digits of a fraction below one. Python's decimals have finitely many; the loop does not return on
  another number, which no decimal is.\<close>

partial_function (option) fraction_digits :: "rat \<Rightarrow> utext option" where
  "fraction_digits f =
    (if f = 0 then Some []
     else Option.bind (fraction_digits (10 * f - of_int \<lfloor>10 * f\<rfloor>)) (\<lambda>ds. Some (nat (48 + \<lfloor>10 * f\<rfloor>) # ds)))"

declare fraction_digits.simps [code]

text \<open>\<open>_decimal_to_canonical\<close>: \<open>format(d, "f")\<close> without the zeros at both ends depends on the number alone.\<close>

definition decimal_to_canonical :: "rat \<Rightarrow> utext option" where
  "decimal_to_canonical q =
    (if q = 0 then Some (ut ''0'')
     else Option.bind (fraction_digits (\<bar>q\<bar> - of_int \<lfloor>\<bar>q\<bar>\<rfloor>)) (\<lambda>fraction.
       (let integer_part = show_text \<lfloor>\<bar>q\<bar>\<rfloor>;
            rendered = (if fraction = [] then integer_part else integer_part @ 46 # fraction)
        in Some (if q < 0 then 45 # rendered else rendered))))"

definition canonical_predecessor :: "pobj \<Rightarrow> pobj result" where
  "canonical_predecessor p =
    (if type_is NoPredecessor p then Inr (ODict [(otext ''kind'', otext ''NO_PREDECESSOR'')])
     else rbind (attr p ''opaque_reference'') (\<lambda>r.
       Inr (ODict [(otext ''kind'', otext ''PREDECESSOR_REFERENCE''), (otext ''opaque_reference'', r)])))"

text \<open>The encoder meets only what the factories just made, so a duration is an integer and a magnitude a finite
  decimal.\<close>

definition str_int :: "pobj \<Rightarrow> pobj result" where
  "str_int v = (case v of OInt n \<Rightarrow> Inr (OText (show_text n)) | _ \<Rightarrow> Inl TypeError)"

definition str_decimal :: "pobj \<Rightarrow> pobj result" where
  "str_decimal v = (case v of
     ODec (DFin q) \<Rightarrow> (case decimal_to_canonical q of Some t \<Rightarrow> Inr (OText t) | None \<Rightarrow> Inl Diverges)
   | _ \<Rightarrow> Inl AttributeError)"

definition canonical_definition_entry :: "pobj \<Rightarrow> pobj \<Rightarrow> pobj result" where
  "canonical_definition_entry key d =
     rbind (attr key ''silver_artifact_locator_text'') (\<lambda>locator.
     rbind (attr key ''silver_physical_record_position_text'') (\<lambda>position.
     rbind (attr d ''exposure_orientation'') (\<lambda>orientation.
     rbind (rbind (attr d ''hypothetical_window_duration_ms'') str_int) (\<lambda>duration.
     let entry = [(otext ''silver_artifact_locator_text'', locator),
                  (otext ''silver_physical_record_position_text'', position),
                  (otext ''exposure_orientation'', orientation),
                  (otext ''hypothetical_window_duration_ms'', duration)]
     in if type_is DirectionalShadowIntentDefinition d then
          rbind (rbind (attr d ''passive_boundary_magnitude'') str_decimal) (\<lambda>magnitude.
          rbind (attr d ''boundary_unit_context'') (\<lambda>unit_context.
            Inr (ODict (entry @ [(otext ''definition_kind'', DIRECTIONAL_KIND),
                   (otext ''passive_boundary_magnitude'', magnitude),
                   (otext ''boundary_unit_context'', unit_context)]))))
        else Inr (ODict (entry @ [(otext ''definition_kind'', INERT_KIND)]))))))"

text \<open>\<open>json.dumps\<close> with sorted keys, minimal separators and without ASCII escapes, on texts, lists and dicts.\<close>

definition json_char :: "nat \<Rightarrow> utext" where
  "json_char c =
    (case map_of [(34, 34), (92, 92), (8, 98), (9, 116), (10, 110), (12, 102), (13, 114)] c of
       Some e \<Rightarrow> [92, e]
     | None \<Rightarrow> if c < 32 then [92, 117, 48, 48, hex_char (c div 16), hex_char (c mod 16)] else [c])"

definition json_quote :: "utext \<Rightarrow> utext" where
  "json_quote t = 34 # concat (map json_char t) @ [34]"

fun comma_join :: "utext list \<Rightarrow> utext" where
  "comma_join [] = []"
| "comma_join [x] = x"
| "comma_join (x # y # ys) = x @ 44 # comma_join (y # ys)"

function (sequential) json_dumps :: "pobj \<Rightarrow> utext" where
  "json_dumps (OText t) = json_quote t"
| "json_dumps (OList xs) = 91 # comma_join (map json_dumps xs) @ [93]"
| "json_dumps (ODict ms) =
     123 # comma_join (map snd (sort_key fst
       (map (\<lambda>(k, v). (text_value k, json_quote (text_value k) @ 58 # json_dumps v)) ms))) @ [125]"
| "json_dumps _ = []"
  by pat_completeness auto

termination
proof (relation "measure size")
  show "(x, OList xs) \<in> measure size" if "x \<in> set xs" for x xs
    using that by (induction xs) auto
  show "(y, ODict ms) \<in> measure size" if "kv \<in> set ms" "(x, y) = kv" for kv ms x y
    using that by (induction ms) auto
qed simp

fun collect :: "('a \<Rightarrow> 'b result) \<Rightarrow> 'a list \<Rightarrow> 'b list result" where
  "collect f [] = Inr []"
| "collect f (x # xs) = rbind (f x) (\<lambda>y. rbind (collect f xs) (\<lambda>ys. Inr (y # ys)))"

definition encode_text :: "pobj \<Rightarrow> nat list result" where
  "encode_text v = (case utf8_encode (text_value v) of Some b \<Rightarrow> Inr b | None \<Rightarrow> Inl UnicodeEncodeError)"

text \<open>The sort keys are encoded outside the \<open>try\<close> of the encoder.\<close>

definition canonical_bytes :: "pobj \<Rightarrow> nat list result" where
  "canonical_bytes artifact =
     rbind (attr artifact ''definitions_by_silver_pair'') (\<lambda>defs.
     rbind (case defs of OProxy es \<Rightarrow> Inr es | _ \<Rightarrow> Inl AttributeError) (\<lambda>definitions.
     rbind (collect (\<lambda>(key, d).
              rbind (rbind (attr key ''silver_artifact_locator_text'') encode_text) (\<lambda>l.
              rbind (rbind (attr key ''silver_physical_record_position_text'') encode_text) (\<lambda>p.
              rbind (canonical_definition_entry key d) (\<lambda>entry. Inr ((l, p), entry))))) definitions) (\<lambda>entries.
     rbind (attr artifact ''artifact_field_shape_version_reference'') (\<lambda>shape.
     rbind (attr artifact ''artifact_version_reference'') (\<lambda>version.
     rbind (attr artifact ''declarer_opaque_reference'') (\<lambda>declarer.
     rbind (rbind (attr artifact ''predecessor_artifact_version_reference'') canonical_predecessor) (\<lambda>predecessor.
     let root = ODict [(otext ''artifact_field_shape_version_reference'', shape),
           (otext ''artifact_version_reference'', version), (otext ''declarer_opaque_reference'', declarer),
           (otext ''predecessor_artifact_version_reference'', predecessor),
           (otext ''definitions_by_silver_pair'', OList (map snd (sort_key fst entries)))]
     in except_as ((=) UnicodeEncodeError) ArtifactVerificationError (encode_text (OText (json_dumps root))))))))))"

section \<open>The parser\<close>

text \<open>\<open>json.loads\<close> with hooks that refuse every number. All its failures are one exception, so the numbers are
  refused after the scan.\<close>

fun no_numbers :: "pobj \<Rightarrow> bool" where
  "no_numbers (OList xs) = list_all no_numbers xs"
| "no_numbers (ODict ms) = list_all (\<lambda>(_, v). no_numbers v) ms"
| "no_numbers (OInst c _) = (c \<noteq> RawJsonInt \<and> c \<noteq> RawJsonFloat)"
| "no_numbers _ = True"

definition strict_loads :: "nat \<Rightarrow> utext \<Rightarrow> pobj result" where
  "strict_loads depth t = (case json_loads depth t of
     Some x \<Rightarrow> rbind (art_check (no_numbers x)) (\<lambda>_. Inr x)
   | None \<Rightarrow> Inl ArtifactVerificationError)"

definition dict_get :: "(pobj \<times> pobj) list \<Rightarrow> string \<Rightarrow> pobj" where
  "dict_get ms n = (case pmember ms n of Some v \<Rightarrow> v | None \<Rightarrow> ONone)"

definition require_str :: "pobj \<Rightarrow> pobj result" where
  "require_str v = rbind (art_check (is_text v)) (\<lambda>_. Inr v)"

definition members_are :: "(pobj \<times> pobj) list \<Rightarrow> string list \<Rightarrow> bool" where
  "members_are ms ns \<longleftrightarrow> fst ` set ms = (\<lambda>n. otext n) ` set ns"

definition build_predecessor :: "pobj \<Rightarrow> pobj result" where
  "build_predecessor raw = (case raw of
     ODict ms \<Rightarrow>
       (let kind = dict_get ms ''kind''
        in if kind = otext ''NO_PREDECESSOR'' then
             rbind (art_check (members_are ms [''kind''])) (\<lambda>_. Inr (new NoPredecessor []))
           else if kind = otext ''PREDECESSOR_REFERENCE'' then
             rbind (art_check (members_are ms [''kind'', ''opaque_reference''])) (\<lambda>_.
             rbind (require_str (dict_get ms ''opaque_reference'')) make_predecessor_reference)
           else Inl ArtifactVerificationError)
   | _ \<Rightarrow> Inl ArtifactVerificationError)"

definition canonical_duration :: "utext \<Rightarrow> bool" where
  "canonical_duration t \<longleftrightarrow> canonical_int t
     \<and> \<not> (length t > 19 \<or> length t = 19 \<and> text_less (ut ''9223372036854775807'') t)"

definition build_definition :: "pobj \<Rightarrow> (pobj \<times> pobj \<times> pobj \<times> pobj) result" where
  "build_definition raw = (case raw of
     ODict ms \<Rightarrow>
       (let kind = dict_get ms ''definition_kind''
        in rbind (require_str (dict_get ms ''silver_artifact_locator_text'')) (\<lambda>locator.
           rbind (require_str (dict_get ms ''silver_physical_record_position_text'')) (\<lambda>position.
           rbind (make_opaque_silver_pair_key locator position) (\<lambda>key.
           rbind (require_str (dict_get ms ''hypothetical_window_duration_ms'')) (\<lambda>duration.
           rbind (art_check (canonical_duration (text_value duration))) (\<lambda>_.
           let n = OInt (int (text_val (text_value duration)))
           in if kind = DIRECTIONAL_KIND then
                rbind (art_check (members_are ms DIRECTIONAL_MEMBERS)) (\<lambda>_.
                rbind (require_str (dict_get ms ''passive_boundary_magnitude'')) (\<lambda>magnitude.
                rbind (art_check (canonical_decimal_text (text_value magnitude) \<and> magnitude \<noteq> otext ''-0'')) (\<lambda>_.
                rbind (require_str (dict_get ms ''exposure_orientation'')) (\<lambda>orientation.
                rbind (decimal_of_text (text_value magnitude)) (\<lambda>q.
                rbind (require_str (dict_get ms ''boundary_unit_context'')) (\<lambda>unit_context.
                rbind (make_directional_shadow_intent_definition orientation (ODec q) unit_context n) (\<lambda>d.
                  Inr (key, position, locator, d))))))))
              else if kind = INERT_KIND then
                rbind (art_check (members_are ms INERT_MEMBERS)) (\<lambda>_.
                rbind (require_str (dict_get ms ''exposure_orientation'')) (\<lambda>orientation.
                rbind (make_inert_shadow_intent_definition orientation n) (\<lambda>d.
                  Inr (key, position, locator, d))))
              else Inl ArtifactVerificationError))))))
   | _ \<Rightarrow> Inl ArtifactVerificationError)"

fun parse_entries :: "(nat list \<times> nat list) option \<Rightarrow> pobj list \<Rightarrow> (pobj \<times> pobj) list result" where
  "parse_entries previous_sort_key [] = Inr []"
| "parse_entries previous_sort_key (raw # raws) =
     rbind (build_definition raw) (\<lambda>(key, position, locator, d).
     rbind (encode_text locator) (\<lambda>l.
     rbind (encode_text position) (\<lambda>p.
     rbind (art_check (case previous_sort_key of None \<Rightarrow> True | Some q \<Rightarrow> q < (l, p))) (\<lambda>_.
     rbind (parse_entries (Some (l, p)) raws) (\<lambda>rest. Inr ((key, d) # rest))))))"

definition parse_and_project :: "nat \<Rightarrow> utext \<Rightarrow> pobj result" where
  "parse_and_project depth t =
     rbind (strict_loads depth t) (\<lambda>root.
     (case root of
        ODict ms \<Rightarrow>
          rbind (art_check (members_are ms ROOT_MEMBERS)) (\<lambda>_.
          rbind (require_str (dict_get ms ''artifact_field_shape_version_reference'')) (\<lambda>shape.
          rbind (art_check (shape = FIELD_SHAPE_LITERAL)) (\<lambda>_.
          rbind (require_str (dict_get ms ''artifact_version_reference'')) (\<lambda>version.
          rbind (require_str (dict_get ms ''declarer_opaque_reference'')) (\<lambda>declarer.
          rbind (build_predecessor (dict_get ms ''predecessor_artifact_version_reference'')) (\<lambda>predecessor.
          (case dict_get ms ''definitions_by_silver_pair'' of
             OList raws \<Rightarrow>
               rbind (parse_entries None raws) (\<lambda>entries.
                 make_shadow_intent_definition_artifact shape version declarer predecessor
                   (OTuple (map (\<lambda>(k, v). OTuple [k, v]) entries)))
           | _ \<Rightarrow> Inl ArtifactVerificationError)))))))
      | _ \<Rightarrow> Inl ArtifactVerificationError))"

section \<open>Verification\<close>

text \<open>\<open>stream\<close> is what the one \<open>read\<close> of the caller's stream does: return an object or raise.\<close>

definition verify_artifact :: "nat \<Rightarrow> pobj \<Rightarrow> pobj result \<Rightarrow> pobj result" where
  "verify_artifact depth reference stream =
     rbind (art_check (type_is SealedArtifactReference reference)) (\<lambda>_.
     rbind (attr reference ''opaque_artifact_locator'') (\<lambda>locator.
     rbind (attr reference ''expected_detached_sha256_digest'') (\<lambda>expected_digest.
     rbind (require_reference_invariants locator expected_digest) (\<lambda>_.
     rbind (except_as (\<lambda>e. e \<noteq> MemoryError) ArtifactVerificationError stream) (\<lambda>read_object.
     (case read_object of
        OBytes raw_bytes \<Rightarrow>
          rbind (art_check (OText (sha256_hex raw_bytes) = expected_digest)) (\<lambda>_.
          rbind (art_check (take 3 raw_bytes \<noteq> [239, 187, 191])) (\<lambda>_.
          (case utf8_decode raw_bytes of
             None \<Rightarrow> Inl ArtifactVerificationError
           | Some decoded \<Rightarrow>
               rbind (except_as ((=) LogicalModelError) ArtifactVerificationError (parse_and_project depth decoded))
                 (\<lambda>artifact.
               rbind (canonical_bytes artifact) (\<lambda>canonical.
               rbind (art_check (canonical = raw_bytes)) (\<lambda>_. Inr artifact))))))
      | _ \<Rightarrow> Inl ArtifactVerificationError))))))"

end
