(* ===== verification/ShadowCodec.thy ===== *)
theory ShadowCodec
  imports ShadowArtifact
begin

text \<open>
  What the encoder of the artifact verifier writes is read back: the JSON text of a value scans to that value
  with its members sorted, a decimal parses to the number it came from, a duration to its integer. Also
  which values have a UTF-8 encoding, and what the lookups of the parser find in a sorted dict.
\<close>

section \<open>JSON texts are read back\<close>

lemma hex_digit_char: "d < 16 \<Longrightarrow> hex_digit (hex_char d) = Some d"
  by (auto simp: hex_digit_def hex_char_def)

lemma hex4_control: "c < 32 \<Longrightarrow> hex4 48 48 (hex_char (c div 16)) (hex_char (c mod 16)) = Some c"
  using hex_digit_char[of "c div 16"] hex_digit_char[of "c mod 16"] by (simp add: hex4_def hex_digit_def)

lemma scan_unicode_escape:
  "hex4 p q r s = Some h \<Longrightarrow> \<not> is_high h \<Longrightarrow>
     scan_chars (92 # 117 # p # q # r # s # rest) = push_char h (scan_chars rest)"
  by (subst scan_chars.simps(2)) (simp del: scan_chars.simps split: list.split option.split)

lemma scan_json_char: "scan_chars (json_char c @ rest) = push_char c (scan_chars rest)"
proof -
  consider "c \<in> {34, 92, 8, 9, 10, 12, 13}" | "c \<notin> {34, 92, 8, 9, 10, 12, 13}" "c < 32"
    | "c \<notin> {34, 92, 8, 9, 10, 12, 13}" "\<not> c < 32" by blast
  then show ?thesis
  proof cases
    case 1
    then show ?thesis by (auto simp: json_char_def json_escape_def)
  next
    case 2
    then show ?thesis
      using scan_unicode_escape[OF hex4_control[OF 2(2)]] by (auto simp: json_char_def is_high_def simp del: scan_chars.simps)
  next
    case 3
    then show ?thesis by (simp add: json_char_def)
  qed
qed

lemma scan_quoted: "scan_chars (concat (map json_char t) @ 34 # rest) = Some (t, rest)"
  by (induction t) (simp_all add: scan_json_char push_char_def del: scan_chars.simps, simp)

lemma expect_simps [simp]: "expect c [] = None" "expect c (x # r) = (if x = c then Some r else None)"
  by (simp_all add: expect_def)

lemma scan_quote: "scan_value n (json_quote t @ rest) = Some (OText t, rest)"
  by (cases n) (simp_all add: json_quote_def scan_scalar_def scan_quoted)

lemma scan_member_name: "expect 34 (json_quote t @ rest) = Some (concat (map json_char t) @ 34 # rest)"
  by (simp add: json_quote_def expect_def)

text \<open>The texts of values start with a bracket or a quote, so no blank is skipped before them.\<close>

definition starts_value :: "utext \<Rightarrow> bool" where
  "starts_value t \<longleftrightarrow> (\<exists>c cs. t = c # cs \<and> c \<in> {34, 91, 123})"

lemma starts_append: "starts_value t \<Longrightarrow> starts_value (t @ rest)"
  by (auto simp: starts_value_def)

lemma starts_skip: "starts_value t \<Longrightarrow> skip_ws t = t"
  by (auto simp: starts_value_def skip_ws_def json_space_def)

lemma skip_punctuation [simp]:
  "skip_ws (93 # t) = 93 # t" "skip_ws (44 # t) = 44 # t" "skip_ws (125 # t) = 125 # t" "skip_ws (58 # t) = 58 # t" "skip_ws [] = []"
  by (simp_all add: skip_ws_def json_space_def)

lemma comma_join_Cons: "comma_join (x # xs) = (if xs = [] then x else x @ 44 # comma_join xs)"
  by (cases xs) simp_all

lemma comma_join_length: "\<forall>x \<in> set xs. starts_value x \<Longrightarrow> length xs \<le> length (comma_join xs)"
  by (induction xs rule: comma_join.induct) (auto simp: starts_value_def)

lemma comma_join_starts: "xs \<noteq> [] \<Longrightarrow> \<forall>x \<in> set xs. starts_value x \<Longrightarrow> starts_value (comma_join xs)"
  by (cases xs) (auto simp: comma_join_Cons starts_append)

lemma scan_items_join:
  assumes "\<And>x rest. x \<in> set xs \<Longrightarrow> v (d x @ rest) = Some (c x, rest)" "\<And>x. x \<in> set xs \<Longrightarrow> starts_value (d x)"
    and "xs \<noteq> []" "length xs \<le> n"
  shows "scan_items v n (comma_join (map d xs) @ 93 # rest) = Some (map c xs, rest)"
  using assms
proof (induction xs arbitrary: n)
  case (Cons x xs)
  obtain m where n: "n = Suc m" using Cons(5) by (cases n) auto
  show ?case
  proof (cases "xs = []")
    case True
    then show ?thesis using Cons(2) by (simp add: n)
  next
    case False
    have "scan_items v m (comma_join (map d xs) @ 93 # rest) = Some (map c xs, rest)"
      using Cons False by (simp add: n)
    moreover have "starts_value (comma_join (map d xs) @ 93 # rest)"
      using Cons(3) False by (intro starts_append comma_join_starts) auto
    ultimately show ?thesis using Cons(2) False by (simp add: n comma_join_Cons starts_skip)
  qed
qed simp

lemma scan_members_join:
  assumes "\<And>t x rest. (t, x) \<in> set ms \<Longrightarrow> v (d x @ rest) = Some (c x, rest)" "\<And>t x. (t, x) \<in> set ms \<Longrightarrow> starts_value (d x)"
    and "ms \<noteq> []" "length ms \<le> n"
  shows "scan_members v n (comma_join (map (\<lambda>(t, x). json_quote t @ 58 # d x) ms) @ 125 # rest) =
           Some (map (\<lambda>(t, x). (OText t, c x)) ms, rest)"
  using assms
proof (induction ms arbitrary: n)
  case (Cons tx ms)
  obtain m where n: "n = Suc m" using Cons(5) by (cases n) auto
  obtain t x where tx: "tx = (t, x)" by (cases tx)
  have x: "v (d x @ rest') = Some (c x, rest')" "skip_ws (d x @ rest') = d x @ rest'" for rest'
    using Cons(2,3)[of t x] by (simp_all add: tx starts_append starts_skip)
  show ?case
  proof (cases "ms = []")
    case True
    then show ?thesis using x by (simp add: n tx scan_member_name scan_quoted)
  next
    case False
    have "scan_members v m (comma_join (map (\<lambda>(t, x). json_quote t @ 58 # d x) ms) @ 125 # rest) =
        Some (map (\<lambda>(t, x). (OText t, c x)) ms, rest)"
      by (rule Cons(1)[OF Cons(2) Cons(3) False]) (use Cons(5) n in auto)
    moreover have "starts_value (comma_join (map (\<lambda>(t, x). json_quote t @ 58 # d x) ms) @ 125 # rest)"
      using False by (intro starts_append comma_join_starts) (auto simp: starts_value_def json_quote_def)
    ultimately show ?thesis
      using x False by (simp add: n tx comma_join_Cons scan_member_name scan_quoted starts_skip)
  qed
qed simp

text \<open>What is read back from an encoded value: the same with the members of every dict sorted.\<close>

fun json_ok :: "nat \<Rightarrow> pobj \<Rightarrow> bool" where
  "json_ok n (OText t) = True"
| "json_ok (Suc n) (OList xs) = list_all (json_ok n) xs"
| "json_ok (Suc n) (ODict ms) = (distinct (map fst ms) \<and> list_all (\<lambda>(k, v). is_text k \<and> json_ok n v) ms)"
| "json_ok n _ = False"

function (sequential) sorted_members :: "pobj \<Rightarrow> pobj" where
  "sorted_members (OList xs) = OList (map sorted_members xs)"
| "sorted_members (ODict ms) =
     ODict (sort_key (\<lambda>kv. text_value (fst kv)) (map (\<lambda>(k, v). (k, sorted_members v)) ms))"
| "sorted_members x = x"
  by pat_completeness auto

termination
proof (relation "measure size")
  show "(x, OList xs) \<in> measure size" if "x \<in> set xs" for x xs
    using that by (induction xs) auto
  show "(y, ODict ms) \<in> measure size" if "kv \<in> set ms" "(x, y) = kv" for kv ms x y
    using that by (induction ms) auto
qed simp

lemma insort_key_map: "insort_key f (g x) (map g xs) = map g (insort_key (\<lambda>a. f (g a)) x xs)"
  by (induction xs) auto

lemma sort_key_map: "sort_key f (map g xs) = map g (sort_key (\<lambda>a. f (g a)) xs)"
  by (induction xs) (simp_all add: insort_key_map)

lemma json_dumps_starts: "json_ok n x \<Longrightarrow> starts_value (json_dumps x)"
  by (induction n x rule: json_ok.induct) (auto simp: starts_value_def json_quote_def)

lemma scan_json_dumps: "json_ok n x \<Longrightarrow> scan_value n (json_dumps x @ rest) = Some (sorted_members x, rest)"
proof (induction n arbitrary: x rest)
  case 0
  then obtain t where "x = OText t" by (cases x) auto
  then show ?case using scan_quote[of 0 t rest] by simp
next
  case (Suc n)
  consider (str) t where "x = OText t" | (list) xs where "x = OList xs" "list_all (json_ok n) xs"
    | (dict) ms where "x = ODict ms" "distinct (map fst ms)" "list_all (\<lambda>(k, v). is_text k \<and> json_ok n v) ms"
    using Suc(2) by (cases x) auto
  then show ?case
  proof cases
    case str
    then show ?thesis using scan_quote[of "Suc n" t rest] by simp
  next
    case list
    show ?thesis
    proof (cases "xs = []")
      case True
      then show ?thesis by (simp add: list scan_array_def)
    next
      case False
      let ?t = "comma_join (map json_dumps xs) @ 93 # rest"
      have st: "starts_value (json_dumps y)" if "y \<in> set xs" for y
        using that list(2) json_dumps_starts by (auto simp: list_all_iff)
      have "length xs \<le> length ?t"
        using comma_join_length[of "map json_dumps xs"] st by simp
      then have "scan_items (scan_value n) (length ?t) ?t = Some (map sorted_members xs, rest)"
        using list(2) st False Suc(1) by (intro scan_items_join) (auto simp: list_all_iff)
      moreover have "starts_value ?t" using st False by (intro starts_append comma_join_starts) auto
      moreover from this have "expect 93 ?t = None" by (auto simp: starts_value_def)
      ultimately show ?thesis by (simp add: list scan_array_def starts_skip)
    qed
  next
    case dict
    define ps where "ps = sort_key fst (map (\<lambda>(k, v). (text_value k, v)) ms)"
    have keys: "\<forall>(k, v) \<in> set ms. k = OText (text_value k)"
      using dict(3) by (auto simp: list_all_iff is_text_iff text_value_def)
    have inner: "(t, y) \<in> set ps \<Longrightarrow> json_ok n y" for t y
      using dict(3) by (auto simp: ps_def list_all_iff)
    have dumps: "json_dumps x = 123 # comma_join (map (\<lambda>(t, y). json_quote t @ 58 # json_dumps y) ps) @ [125]"
      by (simp add: dict ps_def sort_key_map comp_def case_prod_beta)
    have sorted: "sorted_members x = ODict (map (\<lambda>(t, y). (OText t, sorted_members y)) ps)"
    proof -
      have "map (\<lambda>(k, v). (k, sorted_members v)) ms =
          map (\<lambda>(t, y). (OText t, sorted_members y)) (map (\<lambda>(k, v). (text_value k, v)) ms)"
        using keys by auto
      then show ?thesis
        by (simp add: dict ps_def sort_key_map comp_def case_prod_beta text_value_def)
    qed
    have dist: "distinct (map fst (map (\<lambda>(t, y). (OText t, sorted_members y)) ps))"
    proof -
      have "map fst ms = map OText (map (\<lambda>kv. text_value (fst kv)) ms)" using keys by auto
      then have "distinct (map (\<lambda>kv. text_value (fst kv)) ms)" using dict(2) distinct_map by metis
      moreover have "map fst ps = sort (map (\<lambda>kv. text_value (fst kv)) ms)"
        using sort_key_map[of "\<lambda>t. t" fst "map (\<lambda>(k, v). (text_value k, v)) ms"]
        by (simp add: ps_def comp_def case_prod_beta split_def)
      ultimately have "distinct (map fst ps)" by simp
      moreover have "map fst (map (\<lambda>(t, y). (OText t, sorted_members y)) ps) = map OText (map fst ps)" by auto
      ultimately show ?thesis by (simp only: distinct_map[of OText "map fst ps"]) (simp add: inj_on_def)
    qed
    show ?thesis
    proof (cases "ps = []")
      case True
      then show ?thesis by (simp add: dumps sorted scan_object_def)
    next
      case False
      let ?t = "comma_join (map (\<lambda>(t, y). json_quote t @ 58 # json_dumps y) ps) @ 125 # rest"
      have st: "\<forall>z \<in> set (map (\<lambda>(t, y). json_quote t @ 58 # json_dumps y) ps). starts_value z"
        by (auto simp: starts_value_def json_quote_def)
      have "length ps \<le> length ?t" using comma_join_length[OF st] by simp
      then have "scan_members (scan_value n) (length ?t) ?t = Some (map (\<lambda>(t, y). (OText t, sorted_members y)) ps, rest)"
        using inner json_dumps_starts Suc(1) False by (intro scan_members_join) auto
      moreover have "starts_value ?t" using st False by (intro starts_append comma_join_starts) auto
      moreover from this have "expect 125 ?t = None" by (auto simp: starts_value_def)
      ultimately show ?thesis
        using dist by (simp add: dumps sorted scan_object_def starts_skip no_duplicate_members_def)
    qed
  qed
qed

lemma json_roundtrip: "json_ok n x \<Longrightarrow> json_loads n (json_dumps x) = Some (sorted_members x)"
  using scan_json_dumps[of n x "[]"] json_dumps_starts[of n x] by (simp add: json_loads_def starts_skip)

section \<open>Decimals are read back\<close>

definition decimal_fraction :: "rat \<Rightarrow> bool" where
  "decimal_fraction q \<longleftrightarrow> (\<exists>n k. q = of_int n / 10 ^ k)"

lemma fraction_digits_exact:
  assumes "0 \<le> f" "f < 1" "f = of_int n / 10 ^ k"
  shows "\<exists>ds. fraction_digits f = Some ds \<and> list_all ascii_digit ds \<and> (ds = [] \<longleftrightarrow> f = 0)
     \<and> (ds \<noteq> [] \<longrightarrow> last ds \<noteq> 48) \<and> of_nat (text_val ds) = f * 10 ^ length ds"
  using assms
proof (induction k arbitrary: n f)
  case 0
  then have "f = 0" by simp
  then show ?case by (subst fraction_digits.simps) simp
next
  case (Suc k)
  show ?case
  proof (cases "f = 0")
    case True
    then show ?thesis by (subst fraction_digits.simps) simp
  next
    case False
    let ?d = "\<lfloor>10 * f\<rfloor>" and ?r = "10 * f - of_int \<lfloor>10 * f\<rfloor>"
    have d: "0 \<le> ?d" "?d \<le> 9" using Suc(2,3) by (simp_all add: floor_le_iff)
    have "?r = of_int (n - ?d * 10 ^ k) / 10 ^ k" using Suc(4) by (simp add: field_simps)
    moreover have "0 \<le> ?r" "?r < 1" by linarith+
    ultimately obtain ds where ds: "fraction_digits ?r = Some ds" "list_all ascii_digit ds" "ds = [] \<longleftrightarrow> ?r = 0"
        "ds \<noteq> [] \<longrightarrow> last ds \<noteq> 48" "of_nat (text_val ds) = ?r * 10 ^ length ds"
      using Suc(1)[of ?r "n - ?d * 10 ^ k"] by blast
    let ?c = "nat (48 + ?d)"
    obtain m where m: "?d = int m" "m \<le> 9" using d by (metis nonneg_int_cases of_nat_le_iff of_nat_numeral)
    have c: "ascii_digit ?c" "?c - 48 = nat ?d" "?c = 48 \<longleftrightarrow> ?d = 0" unfolding m(1) using m(2) by (auto simp: ascii_digit_def)
    have "fraction_digits f = Some (?c # ds)" using False by (subst fraction_digits.simps) (simp add: ds(1))
    moreover have "last (?c # ds) \<noteq> 48"
    proof (cases "ds = []")
      case True
      then have "10 * f = of_int ?d" using ds(3) by simp
      then have "?d \<noteq> 0" using False by auto
      then show ?thesis using True c(3) by simp
    qed (use ds(4) in simp)
    moreover have "of_nat (text_val (?c # ds)) = f * 10 ^ length (?c # ds)"
    proof -
      have "text_val (?c # ds) = nat ?d * 10 ^ length ds + text_val ds" by (simp only: text_val_Cons c(2))
      moreover have "of_nat (nat ?d) = (of_int ?d :: rat)" using d(1) by simp
      ultimately show ?thesis using ds(5) by (simp add: algebra_simps)
    qed
    ultimately show ?thesis using c(1) ds(2) False by (intro exI[of _ "?c # ds"]) simp
  qed
qed

lemma ascii_uni_digit: "ascii_digit c \<Longrightarrow> uni_digit c = Some (c - 48)"
  by (simp add: uni_digit_def uni_zeros_def ascii_digit_def)

lemma ascii_uni_is_digit: "ascii_digit c \<Longrightarrow> uni_is_digit c"
  by (simp add: uni_is_digit_def ascii_uni_digit)

lemma sign_point_not_digits: "\<not> uni_is_digit 45" "\<not> uni_is_digit 46" "\<not> ascii_digit 45" "\<not> ascii_digit 46"
  by (simp_all add: uni_is_digit_def uni_digit_def uni_zeros_def ascii_digit_def)

lemma uni_digits_val_ascii: "list_all ascii_digit ds \<Longrightarrow> uni_digits_val ds = text_val ds"
  by (induction ds rule: rev_induct) (simp_all add: uni_digits_val_def text_val_def ascii_uni_digit)

lemma text_val_append: "text_val (a @ b) = text_val a * 10 ^ length b + text_val b"
proof -
  have "text_val (a @ b) = foldl (\<lambda>n c. 10 * n + (c - 48)) (text_val a) b" by (simp add: text_val_def)
  then show ?thesis by (simp add: foldl_digits)
qed

lemma digits_prefix:
  assumes "list_all ascii_digit ip"
  shows "takeWhile uni_is_digit (ip @ r) = ip @ takeWhile uni_is_digit r" "dropWhile uni_is_digit (ip @ r) = dropWhile uni_is_digit r"
    "takeWhile ascii_digit (ip @ r) = ip @ takeWhile ascii_digit r" "dropWhile ascii_digit (ip @ r) = dropWhile ascii_digit r"
proof -
  have u: "\<And>c. c \<in> set ip \<Longrightarrow> uni_is_digit c" and a: "\<And>c. c \<in> set ip \<Longrightarrow> ascii_digit c"
    using assms ascii_uni_is_digit by (auto simp: list_all_iff)
  show "takeWhile uni_is_digit (ip @ r) = ip @ takeWhile uni_is_digit r" by (rule takeWhile_append2) (rule u)
  show "dropWhile uni_is_digit (ip @ r) = dropWhile uni_is_digit r" by (rule dropWhile_append2) (rule u)
  show "takeWhile ascii_digit (ip @ r) = ip @ takeWhile ascii_digit r" by (rule takeWhile_append2) (rule a)
  show "dropWhile ascii_digit (ip @ r) = dropWhile ascii_digit r" by (rule dropWhile_append2) (rule a)
qed

text \<open>A rendered number, split again.\<close>

lemma decimal_text_parts:
  fixes neg :: bool
  assumes "canonical_int ip" "list_all ascii_digit fs" "fs \<noteq> [] \<longrightarrow> last fs \<noteq> 48"
  defines "r \<equiv> (if fs = [] then ip else ip @ 46 # fs)"
  defines "t \<equiv> (if neg then 45 # r else r)"
  shows "canonical_decimal_text t"
    "decimal_of_text t = Inr (DFin (let v = of_nat (text_val ip * 10 ^ length fs + text_val fs) / 10 ^ length fs in if neg then - v else v))"
proof -
  have ip: "ip \<noteq> []" "list_all ascii_digit ip" using canonical_int_digits[OF assms(1)] by auto
  then obtain c cs where c: "r = c # cs" "c \<noteq> 45" by (cases ip; cases "fs = []") (auto simp: r_def ascii_digit_def)
  have uni: "list_all uni_is_digit ip" "list_all uni_is_digit fs"
    using ip assms(2) ascii_uni_is_digit by (auto simp: list_all_iff)
  have parts: "takeWhile ascii_digit r = ip" "dropWhile ascii_digit r = (if fs = [] then [] else 46 # fs)"
    "takeWhile uni_is_digit r = ip" "dropWhile uni_is_digit r = (if fs = [] then [] else 46 # fs)"
    using digits_prefix[OF ip(2), of "[]"] digits_prefix[OF ip(2), of "46 # fs"] by (auto simp: r_def sign_point_not_digits)
  have sgn: "(case t of c # cs \<Rightarrow> if c = 45 then cs else t | [] \<Rightarrow> []) = r"
    "(case t of c # cs \<Rightarrow> if c = 45 then (True, cs) else (False, t) | [] \<Rightarrow> (False, [])) = (neg, r)"
    using c by (auto simp: t_def)
  show "canonical_decimal_text t"
    using assms(1-3) by (simp add: canonical_decimal_text_def sgn parts)
  have "phase5_split t = Some (neg, ip, fs)"
    using ip(1) uni(2) by (simp add: phase5_split_def sgn parts)
  moreover have "uni_digits_val (ip @ fs) = text_val ip * 10 ^ length fs + text_val fs"
    using ip assms(2) by (simp add: uni_digits_val_ascii text_val_append)
  ultimately show "decimal_of_text t = Inr (DFin (let v = of_nat (text_val ip * 10 ^ length fs + text_val fs) / 10 ^ length fs in if neg then - v else v))"
    by (simp only: decimal_of_text_def option.case prod.case)  (simp add: Let_def)
qed

lemma decimal_roundtrip:
  assumes "decimal_fraction q"
  shows "\<exists>t. decimal_to_canonical q = Some t \<and> canonical_decimal_text t \<and> t \<noteq> ut ''-0'' \<and> decimal_of_text t = Inr (DFin q)"
proof (cases "q = 0")
  case True
  have "canonical_decimal_text (ut ''0'')" "decimal_of_text (ut ''0'') = Inr (DFin 0)"
    using decimal_text_parts[of "[48]" "[]" False] by (simp_all add: ut_def text_val_def)
  then show ?thesis by (simp add: decimal_to_canonical_def True)
next
  case False
  let ?ip = "show_text \<lfloor>\<bar>q\<bar>\<rfloor>" and ?f = "\<bar>q\<bar> - of_int \<lfloor>\<bar>q\<bar>\<rfloor>"
  obtain n k where nk: "q = of_int n / 10 ^ k" using assms by (auto simp: decimal_fraction_def)
  have "\<bar>q\<bar> = of_int \<bar>n\<bar> / 10 ^ k" by (simp add: nk)
  then have "?f = of_int (\<bar>n\<bar> - \<lfloor>\<bar>q\<bar>\<rfloor> * 10 ^ k) / 10 ^ k" by (simp add: field_simps)
  moreover have "0 \<le> ?f" "?f < 1" by linarith+
  ultimately obtain fs where fs: "fraction_digits ?f = Some fs" "list_all ascii_digit fs" "fs = [] \<longleftrightarrow> ?f = 0"
      "fs \<noteq> [] \<longrightarrow> last fs \<noteq> 48" "of_nat (text_val fs) = ?f * 10 ^ length fs"
    using fraction_digits_exact by blast
  have ip: "canonical_int ?ip" "text_val ?ip = nat \<lfloor>\<bar>q\<bar>\<rfloor>" using show_text_val[of "\<lfloor>\<bar>q\<bar>\<rfloor>"] by auto
  define t where "t = (let r = (if fs = [] then ?ip else ?ip @ 46 # fs) in if q < 0 then 45 # r else r)"
  have "decimal_to_canonical q = Some t"
    using False fs(1) by (simp add: decimal_to_canonical_def t_def Let_def)
  moreover have v: "canonical_decimal_text t" "decimal_of_text t = Inr (DFin q)"
  proof -
    have "of_nat (nat \<lfloor>\<bar>q\<bar>\<rfloor> * 10 ^ length fs + text_val fs) / 10 ^ length fs = \<bar>q\<bar>"
      using fs(5) by (simp add: field_simps)
    then show "canonical_decimal_text t" "decimal_of_text t = Inr (DFin q)"
      using decimal_text_parts[OF ip(1) fs(2,4), of "q < 0"] by (auto simp: t_def Let_def ip(2))
  qed
  moreover have "t \<noteq> ut ''-0''"
  proof
    assume "t = ut ''-0''"
    then have "decimal_of_text t = Inr (DFin 0)"
      using decimal_text_parts(2)[of "[48]" "[]" True] by (simp add: ut_def text_val_def)
    then show False using v(2) False by simp
  qed
  ultimately show ?thesis by blast
qed

interpretation decimals: codec decimal_fraction decimal_to_canonical
    "\<lambda>t. case decimal_of_text t of Inr (DFin q) \<Rightarrow> Some q | _ \<Rightarrow> None"
  by unfold_locales (use decimal_roundtrip in force)+

lemma decimal_of_text_fraction: "decimal_of_text t = Inr (DFin q) \<Longrightarrow> decimal_fraction q"
  by (auto simp: decimal_of_text_def decimal_fraction_def Let_def split: option.splits if_splits)
     (metis of_int_minus of_int_of_nat_eq minus_divide_left)+

lemma duration_roundtrip:
  assumes "duration_ok n"
  shows "canonical_duration (show_text n) \<and> int (text_val (show_text n)) = n"
proof -
  have n: "0 \<le> n" "n \<le> 9223372036854775807" using assms by (simp_all add: duration_ok_def MAX_HYPOTHETICAL_WINDOW_DURATION_MS_def)
  have s: "canonical_int (show_text n)" "text_val (show_text n) = nat n" using show_text_val[OF n(1)] by auto
  let ?m = "ut ''9223372036854775807''"
  have m: "canonical_int ?m" "text_val ?m = 9223372036854775807" "length ?m = 19"
    by (simp_all add: ut_def ascii_digit_def text_val_def)
  have "\<not> 19 < length (show_text n)"
  proof
    assume "19 < length (show_text n)"
    then have "text_val ?m < text_val (show_text n)" using canonical_shorter_less[OF m(1) s(1)] m(3) by simp
    then show False using n s(2) m(2) by simp
  qed
  moreover have "\<not> text_less ?m (show_text n)" if "length (show_text n) = 19"
    using text_less_val[of ?m "show_text n"] that m n s canonical_int_digits[OF m(1)] canonical_int_digits[OF s(1)] by simp
  ultimately show ?thesis using s n by (auto simp: canonical_duration_def)
qed

section \<open>Which values are encodable\<close>

fun all_scalar :: "pobj \<Rightarrow> bool" where
  "all_scalar (OText t) = scalar_text t"
| "all_scalar (OList xs) = list_all all_scalar xs"
| "all_scalar (ODict ms) = list_all (\<lambda>(k, v). scalar_text (text_value k) \<and> all_scalar v) ms"
| "all_scalar _ = True"

lemma scalar_text_append [simp]: "scalar_text (a @ b) \<longleftrightarrow> scalar_text a \<and> scalar_text b"
  by (simp add: scalar_text_def)

lemma scalar_text_Nil [simp]: "scalar_text []"
  by (simp add: scalar_text_def)

lemma scalar_text_Cons: "scalar_text (c # t) \<longleftrightarrow> c < 1114112 \<and> \<not> (55296 \<le> c \<and> c \<le> 57343) \<and> scalar_text t"
  by (simp add: scalar_text_def)

lemma scalar_json_char: "scalar_text (json_char c) \<longleftrightarrow> scalar_text [c]"
proof (cases "c < 128")
  case True
  then show ?thesis by (auto simp: json_char_def scalar_text_def hex_char_def)
qed (simp add: json_char_def)

lemma scalar_json_quote [simp]: "scalar_text (json_quote t) \<longleftrightarrow> scalar_text t"
proof -
  have "scalar_text (concat (map json_char t)) \<longleftrightarrow> scalar_text t"
    by (induction t) (simp_all add: scalar_json_char scalar_text_Cons)
  then show ?thesis by (simp add: json_quote_def scalar_text_Cons)
qed

lemma scalar_comma_join [simp]: "scalar_text (comma_join ts) \<longleftrightarrow> list_all scalar_text ts"
  by (induction ts rule: comma_join.induct) (simp_all add: scalar_text_Cons)

lemma scalar_json_dumps: "json_ok n x \<Longrightarrow> scalar_text (json_dumps x) \<longleftrightarrow> all_scalar x"
proof (induction n x rule: json_ok.induct)
  case (2 n xs)
  then show ?case by (auto simp: scalar_text_Cons list_all_iff)
next
  case (3 n ms)
  have "scalar_text (json_dumps v) = all_scalar v" if "(k, v) \<in> set ms" for k v
    using 3 that by (auto simp: list_all_iff)
  then have "(\<forall>(k, v) \<in> set ms. scalar_text (text_value k) \<and> scalar_text (json_dumps v)) \<longleftrightarrow>
      (\<forall>(k, v) \<in> set ms. scalar_text (text_value k) \<and> all_scalar v)" by blast
  then show ?case by (simp add: scalar_text_Cons list_all_iff case_prod_beta)
qed simp_all

lemma fraction_digits_decimal:
  assumes "fraction_digits f = Some ds"
  shows "decimal_fraction f"
proof (rule fraction_digits.raw_induct[OF _ assms, of "\<lambda>f _. decimal_fraction f"])
  fix g f ds
  assume 1: "\<And>f ds. g f = Some ds \<Longrightarrow> decimal_fraction f"
    "(if f = 0 then Some [] else Option.bind (g (10 * f - of_int \<lfloor>10 * f\<rfloor>)) (\<lambda>ds. Some (nat (48 + \<lfloor>10 * f\<rfloor>) # ds))) = Some ds"
  show "decimal_fraction f"
  proof (cases "f = 0")
    case True
    then show ?thesis unfolding decimal_fraction_def by (intro exI[of _ 0]) simp
  next
    case False
    then obtain ds' where "g (10 * f - of_int \<lfloor>10 * f\<rfloor>) = Some ds'" using 1(2) by (auto split: bind_splits)
    from 1(1)[OF this] obtain n k where "10 * f - of_int \<lfloor>10 * f\<rfloor> = of_int n / 10 ^ k" by (auto simp: decimal_fraction_def)
    then have "f = of_int (n + \<lfloor>10 * f\<rfloor> * 10 ^ k) / 10 ^ Suc k" by (simp add: field_simps)
    then show ?thesis unfolding decimal_fraction_def by blast
  qed
qed

lemma decimal_to_canonical_iff: "(\<exists>t. decimal_to_canonical q = Some t) \<longleftrightarrow> decimal_fraction q"
proof
  assume "\<exists>t. decimal_to_canonical q = Some t"
  then consider "q = 0" | ds where "fraction_digits (\<bar>q\<bar> - of_int \<lfloor>\<bar>q\<bar>\<rfloor>) = Some ds"
    by (auto simp: decimal_to_canonical_def split: if_splits bind_splits)
  then show "decimal_fraction q"
  proof cases
    case 1
    then show ?thesis unfolding decimal_fraction_def by (intro exI[of _ 0]) simp
  next
    case 2
    then obtain n k where nk: "\<bar>q\<bar> - of_int \<lfloor>\<bar>q\<bar>\<rfloor> = of_int n / 10 ^ k"
      using fraction_digits_decimal[OF 2] by (auto simp: decimal_fraction_def)
    then have abs: "\<bar>q\<bar> = of_int (n + \<lfloor>\<bar>q\<bar>\<rfloor> * 10 ^ k) / 10 ^ k" by (simp add: field_simps)
    then have "q = of_int (if q < 0 then - (n + \<lfloor>\<bar>q\<bar>\<rfloor> * 10 ^ k) else n + \<lfloor>\<bar>q\<bar>\<rfloor> * 10 ^ k) / 10 ^ k"
      by (auto simp: abs_if field_simps split: if_splits)
    then show ?thesis unfolding decimal_fraction_def by blast
  qed
qed (use decimal_roundtrip in blast)

section \<open>Members of a dict read back\<close>

lemma map_of_sort_key: "distinct (map fst xs) \<Longrightarrow> map_of (sort_key f xs) = map_of xs"
proof -
  assume d: "distinct (map fst xs)"
  then have "distinct (map fst (sort_key f xs))" by (simp add: distinct_map)
  then show ?thesis using d by (intro ext) (metis map_of_eq_Some_iff not_Some_eq set_sort)
qed

lemma sorted_members_dict:
  assumes "distinct (map fst ms)"
  shows "\<exists>ms'. sorted_members (ODict ms) = ODict ms' \<and> fst ` set ms' = fst ` set ms
     \<and> (\<forall>n. dict_get ms' n = (case pmember ms n of Some v \<Rightarrow> sorted_members v | None \<Rightarrow> ONone))"
proof -
  let ?s = "map (\<lambda>(k, v). (k, sorted_members v)) ms"
  have k: "map fst ?s = map fst ms" by auto
  have "map_of ?s n = map_option sorted_members (map_of ms n)" for n by (induction ms) auto
  moreover have "map_of (sort_key (\<lambda>kv. text_value (fst kv)) ?s) = map_of ?s"
    by (rule map_of_sort_key) (use assms k in \<open>simp only:\<close>)
  ultimately have "pmember (sort_key (\<lambda>kv. text_value (fst kv)) ?s) n = map_option sorted_members (pmember ms n)" for n
    by (simp add: pmember_def)
  moreover have "fst ` set ?s = fst ` set ms" using arg_cong[OF k, of set] by (simp only: set_map)
  ultimately show ?thesis by (auto simp: dict_get_def split: option.split)
qed

lemma no_numbers_sorted: "json_ok n x \<Longrightarrow> no_numbers (sorted_members x)"
  by (induction n x rule: json_ok.induct) (auto simp: list_all_iff)

lemma text_sorted [simp]: "sorted_members (OText t) = OText t" by simp

end
