(* ===== verification/ShadowSealed.thy ===== *)
theory ShadowSealed
  imports ShadowCodec ShadowReplay
begin

text \<open>
  What the artifact verifier guarantees: which artifacts its encoder writes, that it reads its own bytes
  back, what an accepted byte string is, and how a verification fails.
\<close>

section \<open>Artifacts and their canonical values\<close>

fun pred_obj :: "utext option \<Rightarrow> pobj" where
  "pred_obj None = new NoPredecessor []"
| "pred_obj (Some r) = new PredecessorReference [OText r]"

definition artifact_obj :: "utext \<Rightarrow> utext \<Rightarrow> utext \<Rightarrow> utext option \<Rightarrow> (pair_key \<times> shadow_def) list \<Rightarrow> pobj" where
  "artifact_obj s a b po ds =
     new ShadowIntentDefinitionArtifact [OText s, OText a, OText b, pred_obj po, OProxy (defs_obj ds)]"

lemma predecessor_passes: "require_predecessor_option p = Inr r \<longleftrightarrow> (\<exists>po. p = pred_obj po)"
proof
  assume "require_predecessor_option p = Inr r"
  then consider "p = pred_obj None" | t where "p = pred_obj (Some t)"
    by (auto simp: require_predecessor_option_def type_is_iff length_Suc_conv split: if_splits option.splits)
  then show "\<exists>po. p = pred_obj po" by cases blast+
next
  assume "\<exists>po. p = pred_obj po"
  then obtain po where "p = pred_obj po" by blast
  then show "require_predecessor_option p = Inr r"
    by (cases po) (simp_all add: require_predecessor_option_def)
qed

lemma factory_shape:
  "make_shadow_intent_definition_artifact s a b p (tuple_entries (defs_obj ds)) = Inr m \<longleftrightarrow>
     (\<exists>s' a' b' po. s = OText s' \<and> a = OText a' \<and> b = OText b' \<and> p = pred_obj po \<and> defs_ok ds
        \<and> m = artifact_obj s' a' b' po ds)"
proof
  assume made: "make_shadow_intent_definition_artifact s a b p (tuple_entries (defs_obj ds)) = Inr m"
  then have ok: "defs_ok ds" using made_defs by (simp add: manifest_defs_def)
  from made obtain xs built s' a' b' po where t: "s = OText s'" "a = OText a'" "b = OText b'" "p = pred_obj po"
      and xs: "tuple_entries (defs_obj ds) = OTuple xs" "build_entries (\<lambda>key d. rbind (revalidate_silver_pair_key key) (\<lambda>_. revalidate_definition d)) xs [] = Inr built"
      and m: "m = new ShadowIntentDefinitionArtifact [OText s', OText a', OText b', pred_obj po, OProxy built]"
    by (auto simp: make_shadow_intent_definition_artifact_def rbind_eq_Inr predecessor_passes split: pobj.splits)
  have "OTuple xs = tuple_entries built" using xs(2) by (simp add: build_entries_eq tuple_entries_def)
  then have "defs_obj ds = built" using xs(1) by (metis tuple_entries_inj)
  then show "\<exists>s' a' b' po. s = OText s' \<and> a = OText a' \<and> b = OText b' \<and> p = pred_obj po \<and> defs_ok ds
        \<and> m = artifact_obj s' a' b' po ds"
    using t ok m by (auto simp: artifact_obj_def)
next
  assume "\<exists>s' a' b' po. s = OText s' \<and> a = OText a' \<and> b = OText b' \<and> p = pred_obj po \<and> defs_ok ds
        \<and> m = artifact_obj s' a' b' po ds"
  then obtain s' a' b' po where t: "s = OText s'" "a = OText a'" "b = OText b'" "p = pred_obj po" "defs_ok ds"
      "m = artifact_obj s' a' b' po ds" by blast
  moreover have "require_predecessor_option p = Inr ()" using t(4) by (auto simp: predecessor_passes)
  ultimately show "make_shadow_intent_definition_artifact s a b p (tuple_entries (defs_obj ds)) = Inr m"
    using factory_accepts[OF t(5), of s a b p] by (simp add: artifact_obj_def)
qed

text \<open>The values the encoder writes.\<close>

fun def_decimal :: "shadow_def \<Rightarrow> bool" where
  "def_decimal (Directional up q un n) = decimal_fraction q"
| "def_decimal (Inert n) = True"

fun def_members :: "shadow_def \<Rightarrow> (pobj \<times> pobj) list" where
  "def_members (Directional up q un n) =
     [(otext ''definition_kind'', DIRECTIONAL_KIND),
      (otext ''passive_boundary_magnitude'', OText (the (decimal_to_canonical q))), (otext ''boundary_unit_context'', OText un)]"
| "def_members (Inert n) = [(otext ''definition_kind'', INERT_KIND)]"

fun orientation_of :: "shadow_def \<Rightarrow> string" where
  "orientation_of (Directional up q un n) = (if up then ''POSITIVE_EXPOSURE'' else ''NEGATIVE_EXPOSURE'')"
| "orientation_of (Inert n) = ''INERT_STATE''"

definition entry_members :: "pair_key \<Rightarrow> shadow_def \<Rightarrow> (pobj \<times> pobj) list" where
  "entry_members k d =
     [(otext ''silver_artifact_locator_text'', OText (fst k)),
      (otext ''silver_physical_record_position_text'', OText (snd k)),
      (otext ''exposure_orientation'', otext (orientation_of d)),
      (otext ''hypothetical_window_duration_ms'', OText (show_text (window_of d)))] @ def_members d"

lemma attr_slot: "slot_value x n = Inr v \<Longrightarrow> attr x n = Inr v"
  by (auto simp: slot_value_def attr_def split: option.splits)

lemma attr_new: "attr (OInst c fs) n = (case map_of (zip (slots_of c) fs) n of Some (Some v) \<Rightarrow> Inr v | _ \<Rightarrow> Inl AttributeError)"
  by (simp add: attr_def py_attr_def split: option.splits)

lemma attr_objects:
  "attr (key_obj k) ''silver_artifact_locator_text'' = Inr (OText (fst k))"
  "attr (key_obj k) ''silver_physical_record_position_text'' = Inr (OText (snd k))"
  "attr (def_obj d) ''exposure_orientation'' = Inr (otext (orientation_of d))"
  "attr (def_obj d) ''hypothetical_window_duration_ms'' = Inr (OInt (window_of d))"
  by (simp_all add: attr_slot key_obj_def) (cases d; simp add: attr_slot)+

lemma canonical_entry:
  "canonical_definition_entry (key_obj k) (def_obj d) = Inr e \<longleftrightarrow> def_decimal d \<and> e = ODict (entry_members k d)"
  "canonical_definition_entry (key_obj k) (def_obj d) = Inl x \<Longrightarrow> \<not> def_decimal d"
proof -
  have *: "canonical_definition_entry (key_obj k) (def_obj d) =
      (if def_decimal d then Inr (ODict (entry_members k d)) else Inl Diverges)"
  proof (cases d)
    case (Directional up q un n)
    have "(case decimal_to_canonical q of Some t \<Rightarrow> Inr (OText t) | None \<Rightarrow> Inl Diverges) =
        (if decimal_fraction q then Inr (OText (the (decimal_to_canonical q))) else Inl Diverges)"
      using decimal_to_canonical_iff[of q] by (cases "decimal_to_canonical q") auto
    moreover note o = attr_objects(3,4)[of d, unfolded Directional, simplified]
    ultimately show ?thesis
      by (simp add: canonical_definition_entry_def attr_objects(1,2) o attr_slot Directional str_int_def str_decimal_def entry_members_def)
  next
    case (Inert n)
    note o = attr_objects(3,4)[of d, unfolded Inert, simplified]
    show ?thesis
      by (simp add: canonical_definition_entry_def attr_objects(1,2) o Inert str_int_def entry_members_def)
  qed
  show "canonical_definition_entry (key_obj k) (def_obj d) = Inr e \<longleftrightarrow> def_decimal d \<and> e = ODict (entry_members k d)"
    "canonical_definition_entry (key_obj k) (def_obj d) = Inl x \<Longrightarrow> \<not> def_decimal d"
    by (auto simp: *)
qed


definition pair_bytes :: "pair_key \<Rightarrow> nat list \<times> nat list" where
  "pair_bytes k = (the (utf8_encode (fst k)), the (utf8_encode (snd k)))"

definition encodable :: "(pair_key \<times> shadow_def) list \<Rightarrow> bool" where
  "encodable ds \<longleftrightarrow> (\<forall>(k, d) \<in> set ds. scalar_text (fst k) \<and> scalar_text (snd k) \<and> def_decimal d)"

lemma encodable_simps [simp]:
  "encodable []" "encodable ((k, d) # ds) \<longleftrightarrow> scalar_text (fst k) \<and> scalar_text (snd k) \<and> def_decimal d \<and> encodable ds"
  by (auto simp: encodable_def)

lemma encode_text_eq: "encode_text (OText t) = (if scalar_text t then Inr (the (utf8_encode t)) else Inl UnicodeEncodeError)"
  using utf8_encodes[of t] by (cases "utf8_encode t") (auto simp: encode_text_def text_value_def)

lemma canonical_entries:
  "collect (\<lambda>(key, d).
     rbind (rbind (attr key ''silver_artifact_locator_text'') encode_text) (\<lambda>l.
     rbind (rbind (attr key ''silver_physical_record_position_text'') encode_text) (\<lambda>p.
     rbind (canonical_definition_entry key d) (\<lambda>entry. Inr ((l, p), entry))))) (defs_obj ds) = Inr es \<longleftrightarrow>
   encodable ds \<and> es = map (\<lambda>(k, d). (pair_bytes k, ODict (entry_members k d))) ds"
proof (induction ds arbitrary: es)
  case (Cons kd ds)
  obtain k d where kd: "kd = (k, d)" by (cases kd)
  have "defs_obj (kd # ds) = (key_obj k, def_obj d) # defs_obj ds" by (simp add: kd defs_obj_def)
  then show ?case
    using Cons by (auto simp: kd rbind_eq_Inr attr_objects encode_text_eq canonical_entry pair_bytes_def)
qed (auto simp: defs_obj_def)

fun pred_members :: "utext option \<Rightarrow> (pobj \<times> pobj) list" where
  "pred_members None = [(otext ''kind'', otext ''NO_PREDECESSOR'')]"
| "pred_members (Some r) = [(otext ''kind'', otext ''PREDECESSOR_REFERENCE''), (otext ''opaque_reference'', OText r)]"

definition sort_pairs :: "(pair_key \<times> shadow_def) list \<Rightarrow> (pair_key \<times> shadow_def) list" where
  "sort_pairs ds = sort_key (\<lambda>kd. pair_bytes (fst kd)) ds"

definition root_members :: "utext \<Rightarrow> utext \<Rightarrow> utext \<Rightarrow> utext option \<Rightarrow> (pair_key \<times> shadow_def) list
    \<Rightarrow> (pobj \<times> pobj) list" where
  "root_members s a b po ds =
     [(otext ''artifact_field_shape_version_reference'', OText s), (otext ''artifact_version_reference'', OText a),
      (otext ''declarer_opaque_reference'', OText b),
      (otext ''predecessor_artifact_version_reference'', ODict (pred_members po)),
      (otext ''definitions_by_silver_pair'', OList (map (\<lambda>(k, d). ODict (entry_members k d)) ds))]"

lemma canonical_predecessor_eq: "canonical_predecessor (pred_obj po) = Inr (ODict (pred_members po))"
  by (cases po) (simp_all add: canonical_predecessor_def attr_new)

lemma canonical_bytes_iff:
  "canonical_bytes (artifact_obj s a b po ds) = Inr bytes \<longleftrightarrow>
     encodable ds \<and> utf8_encode (json_dumps (ODict (root_members s a b po (sort_pairs ds)))) = Some bytes"
proof -
  have root: "map snd (sort_key fst (map (\<lambda>(k, d). (pair_bytes k, ODict (entry_members k d))) ds)) =
      map (\<lambda>(k, d). ODict (entry_members k d)) (sort_pairs ds)"
    by (simp add: sort_pairs_def sort_key_map case_prod_beta)
  have enc: "except_as ((=) UnicodeEncodeError) ArtifactVerificationError (encode_text (OText t)) = Inr bytes \<longleftrightarrow>
      utf8_encode t = Some bytes" for t
    by (auto simp: encode_text_def text_value_def split: option.splits)
  have attrs:
    "attr (artifact_obj s a b po ds) ''definitions_by_silver_pair'' = Inr (OProxy (defs_obj ds))"
    "attr (artifact_obj s a b po ds) ''artifact_field_shape_version_reference'' = Inr (OText s)"
    "attr (artifact_obj s a b po ds) ''artifact_version_reference'' = Inr (OText a)"
    "attr (artifact_obj s a b po ds) ''declarer_opaque_reference'' = Inr (OText b)"
    "attr (artifact_obj s a b po ds) ''predecessor_artifact_version_reference'' = Inr (pred_obj po)"
    by (simp_all add: artifact_obj_def attr_new)
  show ?thesis
    unfolding canonical_bytes_def attrs rbind_simps pobj.case canonical_predecessor_eq rbind_eq_Inr canonical_entries Let_def enc
    by (auto simp only: root root_members_def)
qed

section \<open>The parser reads the canonical value\<close>

declare sorted_members.simps(2) [simp del]

lemma entry_distinct: "distinct (map fst (entry_members k d))"
  by (cases d) (simp_all add: entry_members_def)

lemma entry_member_names: "fst ` set (entry_members k d) = (\<lambda>n. otext n) ` set (case d of Directional _ _ _ _ \<Rightarrow> DIRECTIONAL_MEMBERS | Inert _ \<Rightarrow> INERT_MEMBERS)"
  by (cases d) (auto simp: entry_members_def DIRECTIONAL_MEMBERS_def INERT_MEMBERS_def)

lemma parse_definition:
  assumes "def_decimal d" "duration_ok (window_of d)"
  shows "build_definition (sorted_members (ODict (entry_members k d))) = Inr (key_obj k, OText (snd k), OText (fst k), def_obj d)"
proof -
  obtain ms where ms: "sorted_members (ODict (entry_members k d)) = ODict ms"
      and names: "fst ` set ms = (\<lambda>n. otext n) ` set (case d of Directional _ _ _ _ \<Rightarrow> DIRECTIONAL_MEMBERS | Inert _ \<Rightarrow> INERT_MEMBERS)"
      and get: "\<And>n. dict_get ms n = (case pmember (entry_members k d) n of Some v \<Rightarrow> sorted_members v | None \<Rightarrow> ONone)"
    using sorted_members_dict[OF entry_distinct[of k d]] entry_member_names[of k d] by auto
  have base: "dict_get ms ''silver_artifact_locator_text'' = OText (fst k)"
    "dict_get ms ''silver_physical_record_position_text'' = OText (snd k)"
    "dict_get ms ''exposure_orientation'' = otext (orientation_of d)"
    "dict_get ms ''hypothetical_window_duration_ms'' = OText (show_text (window_of d))"
    by (simp_all add: get pmember_def entry_members_def)
  have dur: "canonical_duration (show_text (window_of d))" "int (text_val (show_text (window_of d))) = window_of d"
    using duration_roundtrip[OF assms(2)] by auto
  have key: "make_opaque_silver_pair_key (OText (fst k)) (OText (snd k)) = Inr (key_obj k)"
    by (simp add: make_opaque_silver_pair_key_def require_opaque_text_def raise_unless_def key_obj_def okey_def)
  have n: "0 \<le> window_of d" "window_of d \<le> MAX_HYPOTHETICAL_WINDOW_DURATION_MS"
    using assms(2) by (simp_all add: duration_ok_def)
  show ?thesis
  proof (cases d)
    case (Directional up q un w)
    obtain t where t: "decimal_to_canonical q = Some t" "canonical_decimal_text t" "t \<noteq> ut ''-0''" "decimal_of_text t = Inr (DFin q)"
      using decimal_roundtrip assms(1) Directional by auto
    have more: "dict_get ms ''definition_kind'' = DIRECTIONAL_KIND" "dict_get ms ''passive_boundary_magnitude'' = OText t"
      "dict_get ms ''boundary_unit_context'' = OText un"
      by (simp_all add: get pmember_def entry_members_def Directional t(1) DIRECTIONAL_KIND_def)
    have "make_directional_shadow_intent_definition (otext (orientation_of d)) (ODec (DFin q)) (OText un) (OInt w) = Inr (def_obj d)"
      using n by (simp add: make_directional_shadow_intent_definition_def require_directional_orientation_def
          DIRECTIONAL_ORIENTATIONS_def require_finite_decimal_def require_opaque_text_def require_non_negative_int_ms_def
          raise_unless_def Directional odirectional_def)
    then show ?thesis
      unfolding ms build_definition_def pobj.case Let_def base more
      using names dur t(2-4) key by (simp add: require_str_def raise_unless_def text_value_def members_are_def Directional)
  next
    case (Inert w)
    have more: "dict_get ms ''definition_kind'' = INERT_KIND"
      by (simp add: get pmember_def entry_members_def Inert INERT_KIND_def)
    have "INERT_KIND \<noteq> DIRECTIONAL_KIND" by (simp add: INERT_KIND_def DIRECTIONAL_KIND_def)
    moreover have "make_inert_shadow_intent_definition (otext (orientation_of d)) (OInt w) = Inr (def_obj d)"
      using n by (simp add: make_inert_shadow_intent_definition_def require_inert_orientation_def
          require_non_negative_int_ms_def raise_unless_def Inert oinert_def)
    ultimately show ?thesis
      unfolding ms build_definition_def pobj.case Let_def base more
      using names dur key by (simp add: require_str_def raise_unless_def text_value_def members_are_def Inert)
  qed
qed

lemma parse_predecessor: "build_predecessor (sorted_members (ODict (pred_members po))) = Inr (pred_obj po)"
proof -
  have d: "distinct (map fst (pred_members po))" by (cases po) simp_all
  obtain ms where ms: "sorted_members (ODict (pred_members po)) = ODict ms" "fst ` set ms = fst ` set (pred_members po)"
      and get: "\<And>n. dict_get ms n = (case pmember (pred_members po) n of Some v \<Rightarrow> sorted_members v | None \<Rightarrow> ONone)"
    using sorted_members_dict[OF d] by auto
  show ?thesis
    by (cases po) (use ms in \<open>simp_all add: build_predecessor_def get pmember_def members_are_def require_str_def
        raise_unless_def make_predecessor_reference_def require_opaque_text_def\<close>)
qed

definition ascending :: "(pair_key \<times> shadow_def) list \<Rightarrow> bool" where
  "ascending ds \<longleftrightarrow> sorted_wrt (<) (map (\<lambda>kd. pair_bytes (fst kd)) ds)"

lemma parse_entries_eq:
  assumes "encodable ds" "\<forall>(k, d) \<in> set ds. duration_ok (window_of d)" "ascending ds"
    and "\<forall>q. previous = Some q \<longrightarrow> (\<forall>kd \<in> set ds. q < pair_bytes (fst kd))"
  shows "parse_entries previous (map (\<lambda>(k, d). sorted_members (ODict (entry_members k d))) ds) = Inr (defs_obj ds)"
  using assms
proof (induction ds arbitrary: previous)
  case (Cons kd ds)
  obtain k d where kd: "kd = (k, d)" by (cases kd)
  have def: "build_definition (sorted_members (ODict (entry_members k d))) = Inr (key_obj k, OText (snd k), OText (fst k), def_obj d)"
    using Cons(2,3) by (intro parse_definition) (auto simp: kd)
  have rest: "parse_entries (Some (pair_bytes k)) (map (\<lambda>(k, d). sorted_members (ODict (entry_members k d))) ds) = Inr (defs_obj ds)"
    using Cons(2-4) by (intro Cons(1)) (auto simp: kd ascending_def)
  have first: "case previous of None \<Rightarrow> True | Some q \<Rightarrow> q < pair_bytes k"
    using Cons(5) by (auto simp: kd split: option.split)
  have bytes: "encode_text (OText (fst k)) = Inr (fst (pair_bytes k))" "encode_text (OText (snd k)) = Inr (snd (pair_bytes k))"
    using Cons(2) by (simp_all add: kd encode_text_eq pair_bytes_def)
  have "defs_obj (kd # ds) = (key_obj k, def_obj d) # defs_obj ds" by (simp add: kd defs_obj_def)
  then show ?case
    using def rest first bytes by (cases "pair_bytes k"; cases previous) (simp_all add: kd raise_unless_def)
qed (simp add: defs_obj_def)

lemma root_json_ok: "json_ok (Suc (Suc (Suc n))) (ODict (root_members s a b po ds))"
proof -
  have "json_ok (Suc n) (ODict (entry_members k d))" for k d
    by (cases d) (simp_all add: entry_members_def DIRECTIONAL_KIND_def INERT_KIND_def)
  moreover have "json_ok (Suc (Suc n)) (ODict (pred_members po))" by (cases po) simp_all
  ultimately show ?thesis by (auto simp: root_members_def list_all_iff simp del: json_ok.simps(3)) (auto simp: list_all_iff)
qed

declare json_dumps.simps(3) [simp del]

lemma parse_canonical:
  assumes "encodable ds" "defs_ok ds" "ascending ds" "OText s = FIELD_SHAPE_LITERAL"
  shows "parse_and_project (Suc (Suc (Suc n))) (json_dumps (ODict (root_members s a b po ds))) = Inr (artifact_obj s a b po ds)"
proof -
  let ?n = "Suc (Suc (Suc n))" and ?root = "ODict (root_members s a b po ds)"
  have d: "distinct (map fst (root_members s a b po ds))" by (simp add: root_members_def)
  obtain ms where ms: "sorted_members ?root = ODict ms" and names: "fst ` set ms = fst ` set (root_members s a b po ds)"
      and get: "\<And>n. dict_get ms n = (case pmember (root_members s a b po ds) n of Some v \<Rightarrow> sorted_members v | None \<Rightarrow> ONone)"
    using sorted_members_dict[OF d] by auto
  have load: "strict_loads ?n (json_dumps ?root) = Inr (ODict ms)"
    using json_roundtrip[OF root_json_ok, of n s a b po ds] no_numbers_sorted[OF root_json_ok, of s a b po ds]
    by (simp add: strict_loads_def ms raise_unless_def del: no_numbers.simps)
  have fields: "dict_get ms ''artifact_field_shape_version_reference'' = OText s"
    "dict_get ms ''artifact_version_reference'' = OText a" "dict_get ms ''declarer_opaque_reference'' = OText b"
    "dict_get ms ''predecessor_artifact_version_reference'' = sorted_members (ODict (pred_members po))"
    "dict_get ms ''definitions_by_silver_pair'' = OList (map (\<lambda>(k, d). sorted_members (ODict (entry_members k d))) ds)"
    by (simp_all add: get pmember_def root_members_def comp_def case_prod_beta)
  have entries: "parse_entries None (map (\<lambda>(k, d). sorted_members (ODict (entry_members k d))) ds) = Inr (defs_obj ds)"
    using assms by (intro parse_entries_eq) (auto simp: defs_ok_def)
  have mem: "members_are ms ROOT_MEMBERS"
    by (auto simp: members_are_def names root_members_def ROOT_MEMBERS_def)
  have "make_shadow_intent_definition_artifact (OText s) (OText a) (OText b) (pred_obj po) (tuple_entries (defs_obj ds)) =
      Inr (artifact_obj s a b po ds)"
    using assms(2) by (auto simp: factory_shape)
  then show ?thesis
    unfolding parse_and_project_def load rbind_simps pobj.case fields parse_predecessor
    using mem entries by (simp add: require_str_def raise_unless_def tuple_entries_def flip: assms(4))
qed

lemma sort_pairs_set [simp]: "set (sort_pairs ds) = set ds"
  by (simp add: sort_pairs_def)

lemma utf8_inj: "scalar_text t \<Longrightarrow> scalar_text u \<Longrightarrow> the (utf8_encode t) = the (utf8_encode u) \<Longrightarrow> t = u"
  using utf8_encodes utf8_decode_encode by (metis option.sel option.inject)

lemma sort_pairs_ok:
  assumes "encodable ds" "defs_ok ds"
  shows "encodable (sort_pairs ds)" "defs_ok (sort_pairs ds)" "ascending (sort_pairs ds)" "sort_pairs (sort_pairs ds) = sort_pairs ds"
proof -
  show "encodable (sort_pairs ds)" using assms(1) by (simp add: encodable_def)
  show "defs_ok (sort_pairs ds)" using assms(2) by (simp add: defs_ok_def distinct_map) (simp add: sort_pairs_def)
  have sorted: "sorted (map (\<lambda>kd. pair_bytes (fst kd)) (sort_pairs ds))"
    by (simp add: sort_pairs_def)
  have "k = k'" if "pair_bytes k = pair_bytes k'" "(k, d) \<in> set ds" "(k', d') \<in> set ds" for k d k' d'
  proof -
    have "scalar_text (fst k)" "scalar_text (snd k)" "scalar_text (fst k')" "scalar_text (snd k')"
      using assms(1) that(2,3) by (auto simp: encodable_def)
    then show ?thesis using that(1) by (simp add: pair_bytes_def prod_eq_iff utf8_inj)
  qed
  then have "inj_on pair_bytes (fst ` set ds)" by (fastforce intro: inj_onI)
  moreover have "distinct (map fst (sort_pairs ds))" using \<open>defs_ok (sort_pairs ds)\<close> by (simp add: defs_ok_def)
  ultimately have "distinct (map pair_bytes (map fst (sort_pairs ds)))" by (simp only: distinct_map set_map sort_pairs_set)
  then have "distinct (map (\<lambda>kd. pair_bytes (fst kd)) (sort_pairs ds))" by (simp add: comp_def)
  with sorted show "ascending (sort_pairs ds)" by (simp add: ascending_def strict_sorted_iff)
  show "sort_pairs (sort_pairs ds) = sort_pairs ds"
    using sorted by (simp add: sort_pairs_def[of "sort_pairs ds"] sort_key_id_if_sorted)
qed

lemma verify_canonical:
  assumes "canonical_bytes (artifact_obj s a b po ds) = Inr bytes" "OText s = FIELD_SHAPE_LITERAL" "defs_ok ds" "is_text locator"
  shows "verify_artifact (Suc (Suc (Suc n))) (new SealedArtifactReference [locator, OText (sha256_hex bytes)]) (Inr (OBytes bytes)) =
      Inr (artifact_obj s a b po (sort_pairs ds))"
proof -
  let ?ds = "sort_pairs ds" and ?t = "json_dumps (ODict (root_members s a b po (sort_pairs ds)))"
  have enc: "encodable ds" "utf8_encode ?t = Some bytes" using assms(1) by (simp_all add: canonical_bytes_iff)
  note ok = sort_pairs_ok[OF enc(1) assms(3)]
  have "take 3 bytes \<noteq> [239, 187, 191]"
    using enc(2) by (auto simp: json_dumps.simps(3) utf8_char_def split: bind_splits)
  moreover have "parse_and_project (Suc (Suc (Suc n))) ?t = Inr (artifact_obj s a b po ?ds)"
    using parse_canonical[OF ok(1-3) assms(2)] .
  moreover have "canonical_bytes (artifact_obj s a b po ?ds) = Inr bytes"
    using ok enc(2) by (simp add: canonical_bytes_iff)
  moreover have "utf8_decode bytes = Some ?t" using utf8_decode_encode[OF enc(2)] .
  ultimately show ?thesis
    using assms(4)
    by (simp add: verify_artifact_def attr_new require_reference_invariants_def sha256_hex_shape raise_unless_def)
qed

text \<open>What the parser accepts.\<close>

lemma definition_parsed:
  assumes "build_definition raw = Inr (key, position, locator, d)"
  shows "\<exists>l p. locator = OText l \<and> position = OText p \<and> key = okey l p"
  using assms
  by (auto simp: build_definition_def require_str_def is_text_iff rbind_eq_Inr Let_def make_opaque_silver_pair_key_def okey_def
      split: pobj.splits if_splits)

lemma entries_ascend:
  assumes "parse_entries previous raws = Inr (defs_obj ds)"
  shows "ascending ds \<and> (\<forall>q. previous = Some q \<longrightarrow> (\<forall>kd \<in> set ds. q < pair_bytes (fst kd)))"
  using assms
proof (induction raws arbitrary: previous ds)
  case Nil
  then show ?case by (simp add: defs_obj_def ascending_def)
next
  case (Cons raw raws)
  obtain key position locator d l p rest where step: "build_definition raw = Inr (key, position, locator, d)"
      "encode_text locator = Inr l" "encode_text position = Inr p"
      "case previous of None \<Rightarrow> True | Some q \<Rightarrow> q < (l, p)"
      "parse_entries (Some (l, p)) raws = Inr rest" "defs_obj ds = (key, d) # rest"
    using Cons(2) by (auto simp: rbind_eq_Inr)
  obtain k sd ds' where ds: "ds = (k, sd) # ds'" "key = key_obj k" "rest = defs_obj ds'"
    using step(6) by (cases ds) (auto simp: defs_obj_def)
  have pb: "pair_bytes k = (l, p)"
    using definition_parsed[OF step(1)] step(2,3) ds(2)
    by (auto simp: key_obj_def pair_bytes_def encode_text_eq split: if_splits)
  have IH: "ascending ds'" "\<forall>kd \<in> set ds'. (l, p) < pair_bytes (fst kd)"
    using Cons(1)[of "Some (l, p)" ds'] step(5) ds(3) by auto
  have "\<forall>q. previous = Some q \<longrightarrow> q < (l, p)" using step(4) by auto
  then show ?case using IH by (auto simp: ds(1) pb ascending_def simp del: less_prod_simp intro: less_trans)
qed

lemma case_dict_eq: "(case x of ODict ms \<Rightarrow> f ms | _ \<Rightarrow> Inl e) = Inr y \<longleftrightarrow> (\<exists>ms. x = ODict ms \<and> f ms = Inr y)"
  by (cases x) auto

lemma case_items_eq: "(case x of OList xs \<Rightarrow> f xs | _ \<Rightarrow> Inl e) = Inr y \<longleftrightarrow> (\<exists>xs. x = OList xs \<and> f xs = Inr y)"
  by (cases x) auto

section \<open>Failures\<close>

lemma canonical_decimal_parses:
  assumes "canonical_decimal_text t"
  shows "\<exists>q. decimal_of_text t = Inr (DFin q)"
proof -
  define r where "r = (case t of c # cs \<Rightarrow> if c = 45 then cs else t | [] \<Rightarrow> [])"
  define ip where "ip = takeWhile ascii_digit r"
  have h: "canonical_int ip" "case dropWhile ascii_digit r of [] \<Rightarrow> True
           | c # fs \<Rightarrow> c = 46 \<and> fs \<noteq> [] \<and> list_all ascii_digit fs \<and> last fs \<noteq> 48"
    using assms by (simp_all add: canonical_decimal_text_def Let_def flip: r_def ip_def)
  have r: "r = ip @ dropWhile ascii_digit r" by (simp add: ip_def)
  obtain fs where fs: "list_all ascii_digit fs" "fs \<noteq> [] \<longrightarrow> last fs \<noteq> 48" "r = (if fs = [] then ip else ip @ 46 # fs)"
  proof (cases "dropWhile ascii_digit r")
    case Nil
    from r have "r = ip" unfolding Nil by simp
    then show ?thesis using that[of "[]"] by simp
  next
    case (Cons c fs)
    from h(2) r have "r = ip @ 46 # fs" "fs \<noteq> []" "list_all ascii_digit fs" "last fs \<noteq> 48" unfolding Cons by auto
    then show ?thesis using that[of fs] by simp
  qed
  have t: "(if t \<noteq> r then 45 # r else r) = t" by (auto simp: r_def split: list.splits)
  show ?thesis using decimal_text_parts(2)[OF h(1) fs(1,2), of "t \<noteq> r"] unfolding fs(3)[symmetric] t by blast
qed

lemma dict_get_scalar: "all_scalar (ODict ms) \<Longrightarrow> all_scalar (dict_get ms n)"
  by (auto simp: dict_get_def pmember_def list_all_iff dest!: map_of_SomeD split: option.split)

abbreviation structural :: "exn set" where
  "structural \<equiv> {ArtifactVerificationError, LogicalModelError}"

lemma model_fails:
  "LogicalModelError \<in> E \<Longrightarrow> fails_only E (make_opaque_silver_pair_key l p)"
  "LogicalModelError \<in> E \<Longrightarrow> fails_only E (make_predecessor_reference r)"
  "LogicalModelError \<in> E \<Longrightarrow> fails_only E (make_directional_shadow_intent_definition o1 m un n)"
  "LogicalModelError \<in> E \<Longrightarrow> fails_only E (make_inert_shadow_intent_definition o1 n)"
  "ArtifactVerificationError \<in> E \<Longrightarrow> fails_only E (require_str v)"
  by (auto simp: make_opaque_silver_pair_key_def make_predecessor_reference_def make_directional_shadow_intent_definition_def
      make_inert_shadow_intent_definition_def require_str_def require_opaque_text_def require_directional_orientation_def
      require_inert_orientation_def require_finite_decimal_def require_non_negative_int_ms_def
      intro!: fails_only_bind split: pobj.split dec.split)

lemma build_definition_fails: "fails_only structural (build_definition raw)"
proof (cases raw)
  case (ODict ms)
  have "fails_only structural (decimal_of_text t)" if "canonical_decimal_text t" for t
    using canonical_decimal_parses[OF that] by auto
  then show ?thesis
    by (auto simp: ODict build_definition_def Let_def intro!: fails_only_bind model_fails)
qed (simp_all add: build_definition_def)

lemma build_predecessor_fails: "fails_only structural (build_predecessor raw)"
  by (cases raw) (auto simp: build_predecessor_def Let_def intro!: fails_only_bind model_fails)

lemma parsed_texts:
  assumes "build_definition raw = Inr (key, position, locator, d)" "all_scalar raw"
  shows "\<exists>l p. encode_text locator = Inr l \<and> encode_text position = Inr p"
proof -
  obtain ms where "raw = ODict ms" "locator = dict_get ms ''silver_artifact_locator_text''"
      "position = dict_get ms ''silver_physical_record_position_text''" "is_text locator" "is_text position"
    using assms(1) by (auto simp: build_definition_def case_dict_eq require_str_def rbind_eq_Inr Let_def split: if_splits)
  then show ?thesis
    using assms(2) dict_get_scalar[of ms] by (auto simp: is_text_iff encode_text_eq dest: sym) (metis all_scalar.simps(1))+
qed

lemma factory_fails: "fails_only {LogicalModelError} (make_shadow_intent_definition_artifact a b c p es)"
proof -
  have slot: "fails_only {LogicalModelError} (slot_value x n)" for x n
    by (simp add: slot_value_def split: option.split)
  have checked: "fails_only {LogicalModelError} (check_slot v x n)" if "\<And>y. fails_only {LogicalModelError} (v y)" for v x n
    unfolding check_slot_def by (intro fails_only_bind slot that)
  have req: "fails_only {LogicalModelError} (require_opaque_text v)" "fails_only {LogicalModelError} (require_finite_decimal v)"
    "fails_only {LogicalModelError} (require_directional_orientation v)" "fails_only {LogicalModelError} (require_inert_orientation v)"
    "fails_only {LogicalModelError} (require_non_negative_int_ms v)" for v
    by (auto simp: require_opaque_text_def require_directional_orientation_def require_inert_orientation_def
        require_finite_decimal_def require_non_negative_int_ms_def split: pobj.split dec.split)
  have key: "fails_only {LogicalModelError} (revalidate_silver_pair_key k)" for k
    by (auto simp: revalidate_silver_pair_key_def intro!: fails_only_bind checked req)
  have def: "fails_only {LogicalModelError} (revalidate_definition d)" for d
    by (auto simp: revalidate_definition_def intro!: fails_only_bind checked req)
  have entries: "fails_only {LogicalModelError} (build_entries (\<lambda>k d. rbind (revalidate_silver_pair_key k) (\<lambda>_. revalidate_definition d)) xs built)" for xs built
  proof (induction xs arbitrary: built)
    case (Cons x xs)
    then show ?case by (auto intro!: fails_only_bind key def split: pobj.split list.split)
  qed simp
  have "fails_only {LogicalModelError} (require_predecessor_option p)"
    by (auto simp: require_predecessor_option_def intro!: checked req)
  then show ?thesis
    by (auto simp: make_shadow_intent_definition_artifact_def intro!: fails_only_bind req entries split: pobj.split)
qed

lemma fails_only_mono: "fails_only E m \<Longrightarrow> E \<subseteq> F \<Longrightarrow> fails_only F m"
  by (auto simp: fails_only_def)

lemma parse_entries_fails:
  assumes "structural \<subseteq> E" "list_all all_scalar raws \<or> UnicodeEncodeError \<in> E"
  shows "fails_only E (parse_entries previous raws)"
  using assms(2)
proof (induction raws arbitrary: previous)
  case (Cons raw raws)
  have E: "ArtifactVerificationError \<in> E" using assms(1) by simp
  have one: "fails_only E (build_definition raw)" by (rule fails_only_mono[OF build_definition_fails assms(1)])
  have both: "fails_only E (encode_text locator)" "fails_only E (encode_text position)"
    if "build_definition raw = Inr (key, position, locator, d)" for key position locator d
  proof -
    have "UnicodeEncodeError \<in> E \<Longrightarrow> fails_only E (encode_text v)" for v
      by (simp add: encode_text_def split: option.split)
    then show "fails_only E (encode_text locator)" "fails_only E (encode_text position)"
      using parsed_texts[OF that] Cons(2) by auto
  qed
  have "fails_only E (parse_entries p raws)" for p using Cons by auto
  then show ?case
    unfolding parse_entries.simps by (auto intro!: fails_only_bind one dest: both simp: E)
qed simp

lemma project_fails:
  assumes "parse_and_project depth t = Inl e"
  shows "e \<in> structural \<or> e = UnicodeEncodeError \<and> (\<exists>x. json_loads depth t = Some x \<and> \<not> all_scalar x)"
proof (cases "json_loads depth t")
  case None
  then show ?thesis using assms by (simp add: parse_and_project_def strict_loads_def)
next
  case (Some x)
  define E where "E = structural \<union> (if all_scalar x then {} else {UnicodeEncodeError})"
  have E: "structural \<subseteq> E" "ArtifactVerificationError \<in> E" by (auto simp: E_def)
  have "fails_only E (parse_and_project depth t)"
  proof (cases "no_numbers x")
    case True
    then have load: "strict_loads depth t = Inr x" by (simp add: strict_loads_def Some raise_unless_def)
    show ?thesis
    proof (cases x)
      case (ODict ms)
      have entries: "fails_only E (parse_entries None raws)" if "dict_get ms ''definitions_by_silver_pair'' = OList raws" for raws
      proof (rule parse_entries_fails[OF E(1)])
        have "all_scalar x \<Longrightarrow> list_all all_scalar raws"
          using dict_get_scalar[of ms "''definitions_by_silver_pair''"] that ODict by simp
        then show "list_all all_scalar raws \<or> UnicodeEncodeError \<in> E" by (auto simp: E_def)
      qed
      have pred: "fails_only E (build_predecessor v)" for v by (rule fails_only_mono[OF build_predecessor_fails E(1)])
      have made: "fails_only E (make_shadow_intent_definition_artifact s a b p es)" for s a b p es
        using E(1) by (intro fails_only_mono[OF factory_fails]) simp
      show ?thesis
        unfolding parse_and_project_def load rbind_simps ODict pobj.case
        by (auto simp: E(2) intro!: fails_only_bind pred made entries model_fails split: pobj.split)
    qed (simp_all add: parse_and_project_def load E(2))
  qed (simp add: parse_and_project_def strict_loads_def Some raise_unless_def E(2))
  then show ?thesis using assms Some by (auto simp: fails_only_def E_def split: if_splits)
qed

section \<open>An accepted artifact\<close>

lemma definition_decimal:
  assumes "build_definition raw = Inr (key, position, locator, def_obj d)"
  shows "def_decimal d"
proof (cases d)
  case (Directional up q un n)
  have "\<exists>t. decimal_of_text t = Inr (DFin q)"
    using assms
    by (auto simp: Directional build_definition_def case_dict_eq rbind_eq_Inr Let_def odirectional_def
        make_directional_shadow_intent_definition_def make_inert_shadow_intent_definition_def split: if_splits)
  then show ?thesis using decimal_of_text_fraction by (auto simp: Directional)
qed simp

lemma case_bytes_eq: "(case x of OBytes b \<Rightarrow> f b | _ \<Rightarrow> Inl e) = Inr y \<longleftrightarrow> (\<exists>b. x = OBytes b \<and> f b = Inr y)"
  by (cases x) auto

lemma case_decoded_eq: "(case x of None \<Rightarrow> Inl e | Some t \<Rightarrow> f t) = Inr y \<longleftrightarrow> (\<exists>t. x = Some t \<and> f t = Inr y)"
  by (cases x) auto

lemma entries_encodable: "parse_entries previous raws = Inr (defs_obj ds) \<Longrightarrow> encodable ds"
proof (induction raws arbitrary: previous ds)
  case Nil
  then show ?case by (simp add: defs_obj_def)
next
  case (Cons raw raws)
  obtain key position locator d l p rest where step: "build_definition raw = Inr (key, position, locator, d)"
      "encode_text locator = Inr l" "encode_text position = Inr p"
      "parse_entries (Some (l, p)) raws = Inr rest" "defs_obj ds = (key, d) # rest"
    using Cons(2) by (auto simp: rbind_eq_Inr)
  obtain k sd ds' where ds: "ds = (k, sd) # ds'" "key = key_obj k" "d = def_obj sd" "rest = defs_obj ds'"
    using step(5) by (cases ds) (auto simp: defs_obj_def)
  have "scalar_text (fst k)" "scalar_text (snd k)"
    using definition_parsed[OF step(1)] step(2,3) by (auto simp: ds(2) key_obj_def encode_text_eq split: if_splits)
  then show ?case
    using Cons(1)[of "Some (l, p)" ds'] step(1,4) definition_decimal by (simp add: ds)
qed

lemma projected_artifact:
  assumes "parse_and_project depth t = Inr m"
  obtains s a b po ds where "FIELD_SHAPE_LITERAL = OText s" "m = artifact_obj s a b po ds" "defs_ok ds" "ascending ds" "encodable ds"
proof -
  obtain a b p raws entries where
      p: "parse_entries None raws = Inr entries"
      "make_shadow_intent_definition_artifact FIELD_SHAPE_LITERAL a b p (tuple_entries entries) = Inr m"
    using assms by (auto simp: parse_and_project_def require_str_def rbind_eq_Inr tuple_entries_def case_dict_eq case_items_eq)
  obtain ds where ds: "tuple_entries entries = tuple_entries (defs_obj ds)" using factory_manifest[OF p(2)] by auto
  then have "ascending ds" "encodable ds" using entries_ascend entries_encodable p(1) by auto
  then show ?thesis using p(2) that unfolding ds factory_shape by blast
qed

lemma canonical_bytes_fails:
  "encodable ds \<Longrightarrow> canonical_bytes (artifact_obj s a b po ds) = Inl e \<Longrightarrow> e = ArtifactVerificationError"
proof -
  assume enc: "encodable ds" and fail: "canonical_bytes (artifact_obj s a b po ds) = Inl e"
  have attrs:
    "attr (artifact_obj s a b po ds) ''definitions_by_silver_pair'' = Inr (OProxy (defs_obj ds))"
    "attr (artifact_obj s a b po ds) ''artifact_field_shape_version_reference'' = Inr (OText s)"
    "attr (artifact_obj s a b po ds) ''artifact_version_reference'' = Inr (OText a)"
    "attr (artifact_obj s a b po ds) ''declarer_opaque_reference'' = Inr (OText b)"
    "attr (artifact_obj s a b po ds) ''predecessor_artifact_version_reference'' = Inr (pred_obj po)"
    by (simp_all add: artifact_obj_def attr_new)
  note collected = canonical_entries[of ds "map (\<lambda>(k, d). (pair_bytes k, ODict (entry_members k d))) ds", THEN iffD2, OF conjI[OF enc refl]]
  have "except_as ((=) UnicodeEncodeError) ArtifactVerificationError (encode_text (OText t)) = Inl e \<Longrightarrow> e = ArtifactVerificationError" for t
    by (auto simp: encode_text_def except_as_def split: option.splits)
  then show ?thesis
    using fail unfolding canonical_bytes_def attrs rbind_simps pobj.case collected canonical_predecessor_eq Let_def by blast
qed

text \<open>C32: A sealed artifact is read back: for every artifact the factory makes with the pinned field shape and the
  encoder can write, the bytes verify against their own digest, and what comes back is the artifact with
  the same references and the same definitions, in the order of the bytes of their pairs.\<close>
theorem sealed_roundtrip:
  assumes "make_shadow_intent_definition_artifact FIELD_SHAPE_LITERAL a b p (tuple_entries (defs_obj ds)) = Inr m"
    and "canonical_bytes m = Inr bytes" "3 \<le> depth"
    and "make_sealed_artifact_reference locator (OText (sha256_hex bytes)) = Inr reference"
  shows "\<exists>m'. verify_artifact depth reference (Inr (OBytes bytes)) = Inr m' \<and> set (sort_pairs ds) = set ds
     \<and> make_shadow_intent_definition_artifact FIELD_SHAPE_LITERAL a b p (tuple_entries (defs_obj (sort_pairs ds))) = Inr m'"
proof -
  obtain s a' b' po where m: "FIELD_SHAPE_LITERAL = OText s" "a = OText a'" "b = OText b'" "p = pred_obj po" "defs_ok ds"
      "m = artifact_obj s a' b' po ds"
    using assms(1) unfolding factory_shape by blast
  have bytes: "canonical_bytes (artifact_obj s a' b' po ds) = Inr bytes" using assms(2) m(6) by simp
  obtain n where depth: "depth = Suc (Suc (Suc n))" using assms(3) by (metis le_Suc_ex numeral_3_eq_3 add_Suc add_0)
  have ref: "is_text locator" "reference = new SealedArtifactReference [locator, OText (sha256_hex bytes)]"
    using assms(4) by (auto simp: make_sealed_artifact_reference_def require_reference_invariants_def rbind_eq_Inr)
  have "defs_ok (sort_pairs ds)" using sort_pairs_ok(2) bytes m(5) by (auto simp: canonical_bytes_iff)
  then show ?thesis
    using verify_canonical[OF bytes m(1)[symmetric] m(5) ref(1), of n] m
    unfolding depth ref(2) factory_shape by auto
qed

text \<open>C33: What is accepted is canonical: when the verifier returns an artifact, the stream gave bytes whose SHA-256 is
  the digest of the reference, the bytes are the encoder's own for that artifact (so no other byte string
  verifies to it), and the artifact comes from the factory, with the pinned field shape and its definitions in
  strictly ascending order of the bytes of their pairs.\<close>
theorem verified_is_canonical:
  assumes "verify_artifact depth reference stream = Inr m"
  shows "\<exists>bytes a b p ds. stream = Inr (OBytes bytes)
     \<and> py_attr reference ''expected_detached_sha256_digest'' = Some (OText (sha256_hex bytes))
     \<and> canonical_bytes m = Inr bytes
     \<and> make_shadow_intent_definition_artifact FIELD_SHAPE_LITERAL a b p (tuple_entries (defs_obj ds)) = Inr m
     \<and> sorted_wrt (\<lambda>x y. pair_bytes (fst x) < pair_bytes (fst y)) ds"
proof -
  obtain bytes digest t where v: "stream = Inr (OBytes bytes)" "attr reference ''expected_detached_sha256_digest'' = Inr digest"
      "digest = OText (sha256_hex bytes)" "parse_and_project depth t = Inr m" "canonical_bytes m = Inr bytes"
    using assms by (auto simp: verify_artifact_def rbind_eq_Inr case_bytes_eq case_decoded_eq)
  from projected_artifact[OF v(4)] obtain s a b po ds where m: "FIELD_SHAPE_LITERAL = OText s" "m = artifact_obj s a b po ds"
      "defs_ok ds" "ascending ds" by metis
  have "make_shadow_intent_definition_artifact FIELD_SHAPE_LITERAL (OText a) (OText b) (pred_obj po) (tuple_entries (defs_obj ds)) = Inr m"
    using m by (auto simp: factory_shape)
  moreover have "sorted_wrt (\<lambda>x y. pair_bytes (fst x) < pair_bytes (fst y)) ds"
    using m(4) by (simp add: ascending_def sorted_wrt_map)
  moreover have "py_attr reference ''expected_detached_sha256_digest'' = Some (OText (sha256_hex bytes))"
    using v(2,3) by (auto simp: attr_def split: option.splits)
  ultimately show ?thesis using v by blast
qed

text \<open>C34: How verification fails: with its own error, except in three cases. A \<open>MemoryError\<close> of the stream passes
  through; a forged reference with a missing slot raises \<open>AttributeError\<close>; and a text of the document with a
  surrogate escape can raise a raw \<open>UnicodeEncodeError\<close>, although the digest was right and the
  documentation promises a verification error.\<close>
theorem verification_failures:
  assumes "verify_artifact depth reference stream = Inl e"
  shows "e = ArtifactVerificationError
     \<or> e = MemoryError \<and> stream = Inl MemoryError
     \<or> e = AttributeError \<and> type_is SealedArtifactReference reference
         \<and> (py_attr reference ''opaque_artifact_locator'' = None \<or> py_attr reference ''expected_detached_sha256_digest'' = None)
     \<or> e = UnicodeEncodeError \<and> (\<exists>bytes t x. stream = Inr (OBytes bytes)
         \<and> py_attr reference ''expected_detached_sha256_digest'' = Some (OText (sha256_hex bytes))
         \<and> utf8_decode bytes = Some t \<and> json_loads depth t = Some x \<and> \<not> all_scalar x)"
proof (rule ccontr)
  assume neg: "\<not> ?thesis"
  then have type: "type_is SealedArtifactReference reference"
    using assms by (auto simp: verify_artifact_def rbind_eq_Inl)
  obtain locator digest where ref: "attr reference ''opaque_artifact_locator'' = Inr locator"
      "attr reference ''expected_detached_sha256_digest'' = Inr digest"
    using assms neg type by (auto simp: verify_artifact_def raise_unless_def attr_def split: option.splits)
  have inv: "require_reference_invariants locator digest = Inr ()"
    using assms neg type ref
    by (cases "require_reference_invariants locator digest")
      (auto simp: verify_artifact_def raise_unless_def require_reference_invariants_def split: if_splits)
  obtain obj where obj: "stream = Inr obj"
    using assms neg type ref inv by (cases stream) (auto simp: verify_artifact_def raise_unless_def split: if_splits)
  obtain bytes where bytes: "obj = OBytes bytes"
    using assms neg type ref inv obj by (cases obj) (auto simp: verify_artifact_def raise_unless_def)
  obtain t where t: "digest = OText (sha256_hex bytes)" "utf8_decode bytes = Some t"
      "rbind (except_as ((=) LogicalModelError) ArtifactVerificationError (parse_and_project depth t))
         (\<lambda>artifact. rbind (canonical_bytes artifact) (\<lambda>canonical. rbind (art_check (canonical = bytes)) (\<lambda>_. Inr artifact))) = Inl e"
    using assms neg type ref inv obj bytes
    by (auto simp: verify_artifact_def raise_unless_def split: if_splits option.splits)
  have digest: "py_attr reference ''expected_detached_sha256_digest'' = Some (OText (sha256_hex bytes))"
    using ref(2) t(1) by (auto simp: attr_def split: option.splits)
  show False
  proof (cases "parse_and_project depth t")
    case (Inl x)
    then show False using project_fails[OF Inl] t digest neg obj bytes by (auto split: if_splits)
  next
    case (Inr m)
    from projected_artifact[OF Inr] obtain s a b po ds where m: "m = artifact_obj s a b po ds" "encodable ds" by metis
    show False
      using t(3) canonical_bytes_fails[OF m(2), of s a b po] neg by (auto simp: Inr m(1) rbind_eq_Inl)
  qed
qed

section \<open>An instance\<close>

definition shape_text :: utext where
  "shape_text = ut ''PHASE6_2_SHADOW_INTENT_DEFINITION_ARTIFACT_FIELD_SHAPE_V1''"

definition sealed_artifact :: pobj where
  "sealed_artifact = artifact_obj shape_text (ut ''a'') (ut ''d'') None sample_defs"

definition sealed_bytes :: "nat list" where
  "sealed_bytes = the (utf8_encode (json_dumps (ODict (root_members shape_text (ut ''a'') (ut ''d'') None sample_defs))))"

definition sealed_reference :: "nat list \<Rightarrow> pobj" where
  "sealed_reference bytes = new SealedArtifactReference [otext ''vault'', OText (sha256_hex bytes)]"

lemma field_shape: "FIELD_SHAPE_LITERAL = OText shape_text"
  by (simp add: FIELD_SHAPE_LITERAL_def shape_text_def)

lemma sample_sorted: "sort_pairs sample_defs = sample_defs"
  by (simp add: sort_pairs_def sample_defs_def)

lemma shown: "show_int 1 = ''1''" "show_int 100 = ''100''" "show_int 0 = ''0''"
  by code_simp+

lemma half_decimal: "decimal_fraction (3 / 2)" "decimal_to_canonical (3 / 2) = Some (ut ''1.5'')"
proof -
  show "decimal_fraction (3 / 2)" by (simp add: decimal_fraction_def exI[of _ 15] exI[of _ 1])
  have zero: "fraction_digits 0 = Some []" by (subst fraction_digits.simps) simp
  have "fraction_digits (1 / 2) = Some [53]" by (subst fraction_digits.simps) (simp add: zero)
  moreover have "\<lfloor>3 / 2 :: rat\<rfloor> = 1" by (simp add: floor_eq_iff)
  ultimately show "decimal_to_canonical (3 / 2) = Some (ut ''1.5'')" by (simp add: decimal_to_canonical_def show_text_def shown ut_def)
qed

lemma sealed_bytes_canonical: "canonical_bytes sealed_artifact = Inr sealed_bytes"
proof -
  let ?root = "ODict (root_members shape_text (ut ''a'') (ut ''d'') None sample_defs)"
  have "all_scalar ?root"
    by (simp add: root_members_def entry_members_def sample_defs_def half_decimal DIRECTIONAL_KIND_def shape_text_def
        scalar_text_def text_value_def ut_def show_text_def shown)
  then have "scalar_text (json_dumps ?root)" using scalar_json_dumps[OF root_json_ok[of 0]] by simp
  then have "utf8_encode (json_dumps ?root) = Some sealed_bytes" using utf8_encodes by (force simp: sealed_bytes_def)
  moreover have "encodable sample_defs" by (simp add: sample_defs_def half_decimal scalar_text_def ut_def)
  ultimately show ?thesis by (simp add: sealed_artifact_def canonical_bytes_iff sample_sorted)
qed

lemma sealed_made: "make_shadow_intent_definition_artifact FIELD_SHAPE_LITERAL (otext ''a'') (otext ''d'') (new NoPredecessor [])
    (tuple_entries (defs_obj sample_defs)) = Inr sealed_artifact"
  unfolding factory_shape field_shape sealed_artifact_def using sample_defs_ok by (auto intro: exI[of _ None])

lemma sealed_verifies: "verify_artifact 3 (sealed_reference sealed_bytes) (Inr (OBytes sealed_bytes)) = Inr sealed_artifact"
  using verify_canonical[OF sealed_bytes_canonical[unfolded sealed_artifact_def] field_shape[symmetric] sample_defs_ok, of "otext ''vault''" 0]
  by (simp add: sealed_reference_def sealed_artifact_def sample_sorted numeral_3_eq_3)

lemma sealed_reference_made:
  "make_sealed_artifact_reference (otext ''vault'') (OText (sha256_hex bytes)) = Inr (sealed_reference bytes)"
  by (simp add: make_sealed_artifact_reference_def require_reference_invariants_def sha256_hex_shape sealed_reference_def raise_unless_def)

theorem sealed_roundtrip_witness: "\<exists>m'. verify_artifact 3 (sealed_reference sealed_bytes) (Inr (OBytes sealed_bytes)) = Inr m'"
  using sealed_roundtrip[OF sealed_made sealed_bytes_canonical le_refl sealed_reference_made] by blast

theorem verified_is_canonical_witness: "\<exists>a b p ds. make_shadow_intent_definition_artifact FIELD_SHAPE_LITERAL a b p (tuple_entries (defs_obj ds)) = Inr sealed_artifact"
  using verified_is_canonical[OF sealed_verifies] by blast

text \<open>A document whose locator is written as the escape of a lone surrogate.\<close>

definition escaped_document :: utext where
  "escaped_document = json_text (''{~artifact_field_shape_version_reference~:~PHASE6_2_SHADOW_INTENT_DEFINITION_ARTIFACT_FIELD_SHAPE_V1~,~artifact_version_reference~:~a~,~declarer_opaque_reference~:~d~,~definitions_by_silver_pair~:[{~definition_kind~:~INERT_SHADOW_INTENT_DEFINITION~,~exposure_orientation~:~INERT_STATE~,~hypothetical_window_duration_ms~:~0~,~silver_artifact_locator_text~:~'')
     @ [92, 117, 100, 56, 48, 48]
     @ json_text (''~,~silver_physical_record_position_text~:~1~}],~predecessor_artifact_version_reference~:{~kind~:~NO_PREDECESSOR~}}'')"

definition escaped_entry :: pobj where
  "escaped_entry = ODict [(otext ''definition_kind'', INERT_KIND),
     (otext ''exposure_orientation'', otext ''INERT_STATE''), (otext ''hypothetical_window_duration_ms'', otext ''0''),
     (otext ''silver_artifact_locator_text'', OText [55296]), (otext ''silver_physical_record_position_text'', otext ''1'')]"

definition escaped_root :: pobj where
  "escaped_root = ODict [(otext ''artifact_field_shape_version_reference'', OText shape_text),
     (otext ''artifact_version_reference'', otext ''a''), (otext ''declarer_opaque_reference'', otext ''d''),
     (otext ''definitions_by_silver_pair'', OList [escaped_entry]),
     (otext ''predecessor_artifact_version_reference'', ODict [(otext ''kind'', otext ''NO_PREDECESSOR'')])]"

lemma escaped_parse: "json_loads 3 escaped_document = Some escaped_root"
  unfolding numeral_3_eq_3 escaped_root_def
  by (simp add: escaped_document_def escaped_entry_def shape_text_def INERT_KIND_def json_text_def ut_def json_eval hex4_def hex_digit_def
      cong: bind_weak_cong map_option_weak_cong push_weak_cong)

lemma escaped_definition: "build_definition escaped_entry = Inr (key_obj ([55296], ut ''1''), otext ''1'', OText [55296], def_obj (Inert 0))"
proof -
  have "sorted_members (ODict (entry_members ([55296], ut ''1'') (Inert 0))) = escaped_entry"
    by (simp add: sorted_members.simps(2) entry_members_def escaped_entry_def text_value_def show_text_def shown INERT_KIND_def ut_def)
  then show ?thesis using parse_definition[of "Inert 0" "([55296], ut ''1'')"]
    by (simp add: duration_ok_def MAX_HYPOTHETICAL_WINDOW_DURATION_MS_def)
qed

lemma utf8_decode_ascii: "list_all (\<lambda>c. c < 128) t \<Longrightarrow> utf8_decode t = Some t"
  by (induction t) auto

lemma escaped_fails: "verify_artifact 3 (sealed_reference escaped_document) (Inr (OBytes escaped_document)) = Inl UnicodeEncodeError"
proof -
  have "parse_and_project 3 escaped_document = Inl UnicodeEncodeError"
  proof -
    have load: "strict_loads 3 escaped_document = Inr escaped_root"
      by (simp add: strict_loads_def raise_unless_def escaped_parse escaped_root_def escaped_entry_def INERT_KIND_def)
    have root: "members_are ms ROOT_MEMBERS" if "escaped_root = ODict ms" for ms
      using that by (auto simp: escaped_root_def members_are_def ROOT_MEMBERS_def)
    show ?thesis
      unfolding parse_and_project_def load rbind_simps
      using root escaped_definition
      by (simp add: escaped_root_def dict_get_def pmember_def require_str_def field_shape raise_unless_def
          build_predecessor_def members_are_def encode_text_eq scalar_text_def)
  qed
  moreover have "utf8_decode escaped_document = Some escaped_document"
    by (rule utf8_decode_ascii) (simp add: escaped_document_def json_text_def ut_def)
  moreover have "take 3 escaped_document \<noteq> [239, 187, 191]"
    by (simp add: escaped_document_def json_text_def ut_def)
  ultimately show ?thesis
    by (simp add: verify_artifact_def sealed_reference_def attr_new require_reference_invariants_def sha256_hex_shape raise_unless_def)
qed

theorem verification_failures_witness:
  "verify_artifact 3 (sealed_reference escaped_document) (Inr (OBytes escaped_document)) = Inl UnicodeEncodeError
     \<and> (\<exists>x. json_loads 3 escaped_document = Some x \<and> \<not> all_scalar x)"
proof -
  have "utf8_decode escaped_document = Some escaped_document"
    by (rule utf8_decode_ascii) (simp add: escaped_document_def json_text_def ut_def)
  then show ?thesis using verification_failures[OF escaped_fails] escaped_fails by auto
qed

end
